(* ===== verification/TW_Prelude.thy ===== *)
theory TW_Prelude
  imports Main
begin

text \<open>
  Shared foundations of the tmux-worktree development.

  \<^item> An exception-state monad \<open>('s, 'e, 'a) em\<close>: the TypeScript methods modelled here read and
    write fields of one object, call collaborators that may fail, and \<open>throw\<close>. A computation maps
    a state to a result (\<open>Inl\<close> an error, \<open>Inr\<close> a value) and the state it leaves behind; a throw
    keeps the mutations made before it, as JavaScript does.
  \<^item> A Hoare calculus for it: \<open>triple P m Q E\<close> (with normal and exceptional postcondition) and
    the relational form \<open>moves R m\<close> (every run of \<open>m\<close> is a step of the relation \<open>R\<close>).
    Both are total: a run of \<open>em\<close> always ends with a result.
  \<^item> The generic interface \<open>machine\<close> of a step function with an invariant, with the lemmas on
    whole runs that its clients share.
\<close>

named_theorems triple_rules \<open>structural rules of the Hoare calculus\<close>
named_theorems moves_rules \<open>structural rules of the relational calculus\<close>
named_theorems em_defs \<open>definitions of the monad's combinators\<close>

type_synonym ('s, 'e, 'a) em = "'s \<Rightarrow> ('e + 'a) \<times> 's"

definition retE :: "'a \<Rightarrow> ('s, 'e, 'a) em" where
  [em_defs]: "retE a = (\<lambda>s. (Inr a, s))"

definition throwE :: "'e \<Rightarrow> ('s, 'e, 'a) em" where
  [em_defs]: "throwE e = (\<lambda>s. (Inl e, s))"

definition bindE :: "('s, 'e, 'a) em \<Rightarrow> ('a \<Rightarrow> ('s, 'e, 'b) em) \<Rightarrow> ('s, 'e, 'b) em" where
  [em_defs]: "bindE m f = (\<lambda>s. case m s of (Inl e, s') \<Rightarrow> (Inl e, s') | (Inr a, s') \<Rightarrow> f a s')"

definition thenE :: "('s, 'e, 'a) em \<Rightarrow> ('s, 'e, 'b) em \<Rightarrow> ('s, 'e, 'b) em" where
  [em_defs]: "thenE m k = bindE m (\<lambda>_. k)"

text \<open>\<open>try { m } catch (e) { h(e) }\<close>: the handler starts from the state the throw left.\<close>

definition catchE :: "('s, 'e, 'a) em \<Rightarrow> ('e \<Rightarrow> ('s, 'e, 'a) em) \<Rightarrow> ('s, 'e, 'a) em" where
  [em_defs]: "catchE m h = (\<lambda>s. case m s of (Inl e, s') \<Rightarrow> h e s' | (Inr a, s') \<Rightarrow> (Inr a, s'))"

text \<open>
  \<open>let x; try { x = m } catch (e) { h(e) }; k(x)\<close> where \<open>h\<close> may leave the enclosing function:
  \<open>tryE\<close> returns the outcome of \<open>m\<close> as a value, so that only \<open>m\<close> itself is guarded.
\<close>

definition tryE :: "('s, 'e, 'a) em \<Rightarrow> ('s, 'e, 'e + 'a) em" where
  [em_defs]: "tryE m = (\<lambda>s. case m s of (r, s') \<Rightarrow> (Inr r, s'))"

definition getsE :: "('s \<Rightarrow> 'a) \<Rightarrow> ('s, 'e, 'a) em" where
  [em_defs]: "getsE f = (\<lambda>s. (Inr (f s), s))"

definition modifyE :: "('s \<Rightarrow> 's) \<Rightarrow> ('s, 'e, unit) em" where
  [em_defs]: "modifyE f = (\<lambda>s. (Inr (), f s))"

definition whenE :: "bool \<Rightarrow> ('s, 'e, unit) em \<Rightarrow> ('s, 'e, unit) em" where
  [em_defs]: "whenE b m = (if b then m else retE ())"

definition liftE :: "'e + 'a \<Rightarrow> ('s, 'e, 'a) em" where
  [em_defs]: "liftE r = (\<lambda>s. (r, s))"

text \<open>\<open>try { m } finally { f }\<close>\<close>

definition finallyE :: "('s, 'e, 'a) em \<Rightarrow> ('s \<Rightarrow> 's) \<Rightarrow> ('s, 'e, 'a) em" where
  "finallyE m f = bindE (tryE m) (\<lambda>r. thenE (modifyE f) (liftE r))"

section \<open>Hoare triples\<close>

definition triple ::
  "('s \<Rightarrow> bool) \<Rightarrow> ('s, 'e, 'a) em \<Rightarrow> ('a \<Rightarrow> 's \<Rightarrow> bool) \<Rightarrow> ('e \<Rightarrow> 's \<Rightarrow> bool) \<Rightarrow> bool" where
  "triple P m Q E \<longleftrightarrow>
     (\<forall>s. P s \<longrightarrow> (case m s of (Inl e, s') \<Rightarrow> E e s' | (Inr a, s') \<Rightarrow> Q a s'))"

lemma tripleI:
  assumes "\<And>s e s'. P s \<Longrightarrow> m s = (Inl e, s') \<Longrightarrow> E e s'"
    and "\<And>s a s'. P s \<Longrightarrow> m s = (Inr a, s') \<Longrightarrow> Q a s'"
  shows "triple P m Q E"
  unfolding triple_def
proof (intro allI impI)
  fix s assume "P s"
  obtain r s' where r: "m s = (r, s')" by (cases "m s")
  show "case m s of (Inl e, s') \<Rightarrow> E e s' | (Inr a, s') \<Rightarrow> Q a s'"
    using assms \<open>P s\<close> r by (cases r) auto
qed

lemma tripleD_ok: "triple P m Q E \<Longrightarrow> P s \<Longrightarrow> m s = (Inr a, s') \<Longrightarrow> Q a s'"
  by (auto simp: triple_def split: prod.splits sum.splits)

lemma tripleD_err: "triple P m Q E \<Longrightarrow> P s \<Longrightarrow> m s = (Inl e, s') \<Longrightarrow> E e s'"
  by (fastforce simp: triple_def split: prod.splits sum.splits)

lemma triple_weaken:
  assumes "triple P' m Q' E'"
    and "\<And>s. P s \<Longrightarrow> P' s" and "\<And>a s. Q' a s \<Longrightarrow> Q a s" and "\<And>e s. E' e s \<Longrightarrow> E e s"
  shows "triple P m Q E"
  using assms by (intro tripleI) (blast dest: tripleD_ok tripleD_err)+

lemma triple_pre: "triple P' m Q E \<Longrightarrow> (\<And>s. P s \<Longrightarrow> P' s) \<Longrightarrow> triple P m Q E"
  by (erule triple_weaken)

lemma triple_bind [triple_rules]:
  assumes "triple P m R E" and "\<And>a. triple (R a) (f a) Q E"
  shows "triple P (bindE m f) Q E"
  using assms unfolding triple_def bindE_def
  by (fastforce split: prod.splits sum.splits)

lemma triple_then [triple_rules]:
  assumes "triple P m (\<lambda>_. R) E" and "triple R k Q E"
  shows "triple P (thenE m k) Q E"
  unfolding thenE_def by (rule triple_bind [OF assms])

lemma triple_ret [triple_rules]: "triple (Q a) (retE a) Q E"
  by (simp add: triple_def retE_def)

lemma triple_throw [triple_rules]: "triple (E e) (throwE e) Q E"
  by (simp add: triple_def throwE_def)

lemma triple_gets [triple_rules]: "triple (\<lambda>s. Q (f s) s) (getsE f) Q E"
  by (simp add: triple_def getsE_def)

lemma triple_modify [triple_rules]: "triple (\<lambda>s. Q () (f s)) (modifyE f) Q E"
  by (simp add: triple_def modifyE_def)

lemma triple_catch [triple_rules]:
  assumes "triple P m Q F" and "\<And>e. triple (F e) (h e) Q E"
  shows "triple P (catchE m h) Q E"
  using assms unfolding triple_def catchE_def
  by (fastforce split: prod.splits sum.splits)

lemma triple_try [triple_rules]:
  assumes "triple P m (\<lambda>a. Q (Inr a)) (\<lambda>e. Q (Inl e))"
  shows "triple P (tryE m) Q E"
  using assms unfolding triple_def tryE_def
  by (fastforce split: prod.splits sum.splits)

lemma triple_when [triple_rules]:
  assumes "b \<Longrightarrow> triple P m Q E"
  shows "triple (\<lambda>s. if b then P s else Q () s) (whenE b m) Q E"
  using assms by (auto simp: triple_def whenE_def retE_def)

lemma triple_lift [triple_rules]:
  "triple (\<lambda>s. case r of Inl e \<Rightarrow> E e s | Inr a \<Rightarrow> Q a s) (liftE r) Q E"
  by (auto simp: triple_def liftE_def split: sum.splits)

lemma triple_if:
  assumes "b \<Longrightarrow> triple P m Q E" and "\<not> b \<Longrightarrow> triple P k Q E"
  shows "triple P (if b then m else k) Q E"
  using assms by simp

text \<open>
  \<open>ok P m Q\<close>: what a run that returns guarantees, saying nothing of one that throws.
\<close>

abbreviation ok :: "('s \<Rightarrow> bool) \<Rightarrow> ('s, 'e, 'a) em \<Rightarrow> ('a \<Rightarrow> 's \<Rightarrow> bool) \<Rightarrow> bool" where
  "ok P m Q \<equiv> triple P m Q (\<lambda>_ _. True)"

lemma okD: "ok P m Q \<Longrightarrow> P s \<Longrightarrow> m s = (Inr a, s') \<Longrightarrow> Q a s'"
  by (rule tripleD_ok)

lemma okI: "(\<And>s a s'. P s \<Longrightarrow> m s = (Inr a, s') \<Longrightarrow> Q a s') \<Longrightarrow> ok P m Q"
  by (rule tripleI) simp_all

lemma triple_conj:
  "triple P m Q E \<Longrightarrow> triple P' m Q' E' \<Longrightarrow>
   triple (\<lambda>s. P s \<and> P' s) m (\<lambda>a s. Q a s \<and> Q' a s) (\<lambda>e s. E e s \<and> E' e s)"
  by (fastforce simp: triple_def split: prod.splits sum.splits)

lemma ok_weaken: "ok P' m Q' \<Longrightarrow> (\<And>s. P s \<Longrightarrow> P' s) \<Longrightarrow> (\<And>a s. Q' a s \<Longrightarrow> Q a s) \<Longrightarrow> ok P m Q"
  by (erule triple_weaken) simp_all

lemma ok_skip: "ok (\<lambda>_. True) k Q \<Longrightarrow> ok P (thenE m k) Q"
  by (rule triple_then [where R = "\<lambda>_. True"]) (simp_all add: okI)

lemma ok_skip_bind: "(\<And>a. ok (\<lambda>_. True) (f a) Q) \<Longrightarrow> ok P (bindE m f) Q"
  by (rule triple_bind [where R = "\<lambda>_ _. True"]) (simp_all add: okI)

lemma ok_throw [intro]: "ok P (throwE e) Q"
  by (rule okI) (simp add: throwE_def)

lemma ok_ret: "(\<And>s. P s \<Longrightarrow> Q a s) \<Longrightarrow> ok P (retE a) Q"
  by (rule okI) (simp add: retE_def)

lemma ok_gets: "(\<And>s. P s \<Longrightarrow> Q (f s) s) \<Longrightarrow> ok P (getsE f) Q"
  by (rule okI) (auto simp: getsE_def)

lemma ok_when: "(b \<Longrightarrow> ok P m (\<lambda>_. P)) \<Longrightarrow> ok P (whenE b m) (\<lambda>_. P)"
  by (auto simp: whenE_def intro: ok_ret)

lemma ok_conj: "ok P m Q \<Longrightarrow> ok P' m Q' \<Longrightarrow> ok (\<lambda>s. P s \<and> P' s) m (\<lambda>a s. Q a s \<and> Q' a s)"
  by (rule triple_weaken [OF triple_conj]) auto

section \<open>Relational steps\<close>

definition moves :: "('s \<Rightarrow> 's \<Rightarrow> bool) \<Rightarrow> ('s, 'e, 'a) em \<Rightarrow> bool" where
  "moves R m \<longleftrightarrow> (\<forall>s. R s (snd (m s)))"

definition preorder_rel :: "('s \<Rightarrow> 's \<Rightarrow> bool) \<Rightarrow> bool" where
  "preorder_rel R \<longleftrightarrow> (\<forall>s. R s s) \<and> (\<forall>a b c. R a b \<longrightarrow> R b c \<longrightarrow> R a c)"

lemma preorder_relI:
  "(\<And>s. R s s) \<Longrightarrow> (\<And>a b c. R a b \<Longrightarrow> R b c \<Longrightarrow> R a c) \<Longrightarrow> preorder_rel R"
  by (auto simp: preorder_rel_def)

lemma preorder_rel_refl: "preorder_rel R \<Longrightarrow> R s s"
  and preorder_rel_trans: "preorder_rel R \<Longrightarrow> R a b \<Longrightarrow> R b c \<Longrightarrow> R a c"
  unfolding preorder_rel_def by blast+

lemma movesD: "moves R m \<Longrightarrow> m s = (r, s') \<Longrightarrow> R s s'"
  by (metis moves_def snd_conv)

lemma movesI: "(\<And>s r s'. m s = (r, s') \<Longrightarrow> R s s') \<Longrightarrow> moves R m"
  by (simp add: moves_def) (metis prod.collapse)

lemma moves_mono: "moves R m \<Longrightarrow> (\<And>s t. R s t \<Longrightarrow> R' s t) \<Longrightarrow> moves R' m"
  by (simp add: moves_def)

lemma moves_ret [moves_rules]: "preorder_rel R \<Longrightarrow> moves R (retE a)"
  and moves_throw [moves_rules]: "preorder_rel R \<Longrightarrow> moves R (throwE e)"
  and moves_gets [moves_rules]: "preorder_rel R \<Longrightarrow> moves R (getsE f)"
  and moves_lift [moves_rules]: "preorder_rel R \<Longrightarrow> moves R (liftE r)"
  by (simp_all add: moves_def retE_def throwE_def getsE_def liftE_def preorder_rel_refl)

lemma moves_modify: "(\<And>s. R s (f s)) \<Longrightarrow> moves R (modifyE f)"
  by (simp add: moves_def modifyE_def)

lemma moves_bind [moves_rules]:
  assumes "preorder_rel R" and "moves R m" and "\<And>a. moves R (f a)"
  shows "moves R (bindE m f)"
proof (rule movesI)
  fix s r s' assume run: "bindE m f s = (r, s')"
  obtain q t where q: "m s = (q, t)" by (cases "m s")
  have st: "R s t" by (rule movesD [OF assms(2) q])
  show "R s s'"
  proof (cases q)
    case (Inl e)
    with run q st show ?thesis by (simp add: bindE_def)
  next
    case (Inr a)
    with run q have "f a t = (r, s')" by (simp add: bindE_def)
    with assms(3) have "R t s'" by (rule movesD)
    with assms(1) st show ?thesis by (rule preorder_rel_trans)
  qed
qed

lemma moves_then [moves_rules]:
  "preorder_rel R \<Longrightarrow> moves R m \<Longrightarrow> moves R k \<Longrightarrow> moves R (thenE m k)"
  unfolding thenE_def by (rule moves_bind)

lemma moves_catch [moves_rules]:
  assumes "preorder_rel R" and "moves R m" and "\<And>e. moves R (h e)"
  shows "moves R (catchE m h)"
proof (rule movesI)
  fix s r s' assume run: "catchE m h s = (r, s')"
  obtain q t where q: "m s = (q, t)" by (cases "m s")
  have st: "R s t" by (rule movesD [OF assms(2) q])
  show "R s s'"
  proof (cases q)
    case (Inl e)
    with run q have "h e t = (r, s')" by (simp add: catchE_def)
    with assms(3) have "R t s'" by (rule movesD)
    with assms(1) st show ?thesis by (rule preorder_rel_trans)
  next
    case (Inr a)
    with run q st show ?thesis by (simp add: catchE_def)
  qed
qed

lemma moves_try [moves_rules]: "moves R m \<Longrightarrow> moves R (tryE m)"
  by (simp add: moves_def tryE_def case_prod_beta)

lemma moves_when [moves_rules]:
  "preorder_rel R \<Longrightarrow> (b \<Longrightarrow> moves R m) \<Longrightarrow> moves R (whenE b m)"
  by (auto simp: whenE_def moves_ret)

lemma moves_if [moves_rules]:
  "(b \<Longrightarrow> moves R m) \<Longrightarrow> (\<not> b \<Longrightarrow> moves R k) \<Longrightarrow> moves R (if b then m else k)"
  by simp

lemma moves_case_option [moves_rules]:
  "moves R m \<Longrightarrow> (\<And>x. moves R (f x)) \<Longrightarrow> moves R (case v of None \<Rightarrow> m | Some x \<Rightarrow> f x)"
  by (cases v) simp_all

lemma moves_case_sum [moves_rules]:
  "(\<And>x. moves R (f x)) \<Longrightarrow> (\<And>x. moves R (g x)) \<Longrightarrow>
   moves R (case v of Inl x \<Rightarrow> f x | Inr x \<Rightarrow> g x)"
  by (cases v) simp_all

lemma moves_case_prod [moves_rules]:
  "(\<And>x y. moves R (f x y)) \<Longrightarrow> moves R (case v of (x, y) \<Rightarrow> f x y)"
  by (cases v) simp

text \<open>
  The case of a state predicate that a computation keeps, whether it returns or throws.
\<close>

abbreviation keeps :: "('s \<Rightarrow> bool) \<Rightarrow> ('s, 'e, 'a) em \<Rightarrow> bool" where
  "keeps J m \<equiv> moves (\<lambda>s t. J s \<longrightarrow> J t) m"

lemma keeps_preorder: "preorder_rel (\<lambda>s t. J s \<longrightarrow> J t)"
  by (rule preorder_relI) simp_all

lemmas keeps_rules =
  moves_ret [OF keeps_preorder] moves_throw [OF keeps_preorder] moves_gets [OF keeps_preorder]
  moves_lift [OF keeps_preorder] moves_bind [OF keeps_preorder] moves_then [OF keeps_preorder]
  moves_catch [OF keeps_preorder] moves_try moves_when [OF keeps_preorder] moves_if
  moves_case_option moves_case_sum moves_case_prod

lemma keeps_modify: "(\<And>s. J s \<Longrightarrow> J (f s)) \<Longrightarrow> keeps J (modifyE f)"
  by (simp add: moves_def modifyE_def)

lemma keepsD: "keeps J m \<Longrightarrow> m s = (r, s') \<Longrightarrow> J s \<Longrightarrow> J s'"
  by (blast dest: movesD)

lemma keeps_triple: "keeps J m \<longleftrightarrow> triple J m (\<lambda>_. J) (\<lambda>_. J)"
proof
  assume "keeps J m"
  then show "triple J m (\<lambda>_. J) (\<lambda>_. J)" by (intro tripleI) (blast dest: keepsD)+
next
  assume t: "triple J m (\<lambda>_. J) (\<lambda>_. J)"
  show "keeps J m"
  proof (rule movesI)
    fix s r s' assume "m s = (r, s')"
    then show "J s \<longrightarrow> J s'"
      by (cases r) (use tripleD_ok [OF t] tripleD_err [OF t] in blast)+
  qed
qed

lemma keeps_ok: "keeps J m \<Longrightarrow> ok J m (\<lambda>_. J)"
  by (rule okI) (blast dest: keepsD)

lemma triple_never: "triple (\<lambda>_. False) m Q E"
  by (simp add: triple_def)

lemma never_then: "triple J m (\<lambda>_ _. False) E \<Longrightarrow> triple J (thenE m k) Q E"
  by (erule triple_then) (rule triple_never)

lemma bind_ret: "bindE (retE a) f = f a"
  by (simp add: bindE_def retE_def)

lemma ok_if: "(b \<Longrightarrow> ok J m Q) \<Longrightarrow> (\<not> b \<Longrightarrow> ok J k Q) \<Longrightarrow> ok J (if b then m else k) Q"
  by simp

lemma ok_case_sum:
  "(\<And>x. ok J (f x) Q) \<Longrightarrow> (\<And>x. ok J (g x) Q) \<Longrightarrow> ok J (case v of Inl x \<Rightarrow> f x | Inr x \<Rightarrow> g x) Q"
  by (cases v) simp_all

lemma ok_case_option:
  "ok J m Q \<Longrightarrow> (\<And>x. ok J (f x) Q) \<Longrightarrow> ok J (case v of None \<Rightarrow> m | Some x \<Rightarrow> f x) Q"
  by (cases v) simp_all

lemma ok_bind_keeps: "keeps J m \<Longrightarrow> (\<And>a. ok J (f a) Q) \<Longrightarrow> ok J (bindE m f) Q"
  by (rule triple_bind [OF keeps_ok])

lemma ok_then_keeps: "keeps J m \<Longrightarrow> ok J k Q \<Longrightarrow> ok J (thenE m k) Q"
  by (rule triple_then [OF keeps_ok])

lemma ok_then_ok: "ok J m (\<lambda>_. J') \<Longrightarrow> ok J' k Q \<Longrightarrow> ok J (thenE m k) Q"
  by (rule triple_then)

lemma ok_bind_ok: "ok J m (\<lambda>_. J') \<Longrightarrow> (\<And>a. ok J' (f a) Q) \<Longrightarrow> ok J (bindE m f) Q"
  by (rule triple_bind)

lemma triple_case_option:
  "triple J m Q E \<Longrightarrow> (\<And>x. triple J (f x) Q E) \<Longrightarrow> triple J (case v of None \<Rightarrow> m | Some x \<Rightarrow> f x) Q E"
  and triple_case_prod: "(\<And>x y. triple J (g x y) Q E) \<Longrightarrow> triple J (case u of (x, y) \<Rightarrow> g x y) Q E"
  and triple_case_path:
  "triple J m Q E \<Longrightarrow> (\<And>x. triple J (f x) Q E) \<Longrightarrow> triple J (case (b, v) of (True, Some x) \<Rightarrow> f x | _ \<Rightarrow> m) Q E"
  by (cases v; simp; fail)+ (cases u; simp; fail | cases b; cases v; simp; fail)+

lemma lift_keep: "keeps J (liftE r)"
  by (rule keeps_rules)

section \<open>Machines: a step function and its invariant\<close>

text \<open>
  A component is a step function over requests. The interface promises that a step keeps the
  invariant and is a step of a preorder (what only grows, what is never undone); the clients'
  lemmas are about runs over any sequence of requests.
\<close>

locale machine =
  fixes step :: "'r \<Rightarrow> 's \<Rightarrow> 's"
    and inv :: "'s \<Rightarrow> bool"
    and rel :: "'s \<Rightarrow> 's \<Rightarrow> bool"
  assumes step_inv: "inv s \<Longrightarrow> inv (step r s)"
    and step_rel: "inv s \<Longrightarrow> rel s (step r s)"
    and rel_refl: "rel s s"
    and rel_trans: "rel a b \<Longrightarrow> rel b c \<Longrightarrow> rel a c"
begin

lemma run_inv: "inv s \<Longrightarrow> inv (fold step rs s)"
  by (induction rs arbitrary: s) (simp_all add: step_inv)

lemma run_rel: "inv s \<Longrightarrow> rel s (fold step rs s)"
proof (induction rs arbitrary: s)
  case Nil
  show ?case by (simp add: rel_refl)
next
  case (Cons r rs)
  from Cons.prems have "rel s (step r s)" and "inv (step r s)"
    by (simp_all add: step_rel step_inv)
  with Cons.IH [of "step r s"] show ?case by (auto intro: rel_trans)
qed

end

section \<open>Lists\<close>

text \<open>
  \<open>Array.prototype.find\<close> with a key, and the update of the object it returns: the model keeps
  objects by value, so writing to a found object replaces the first element with that key.
\<close>

fun update_first :: "('a \<Rightarrow> bool) \<Rightarrow> ('a \<Rightarrow> 'a) \<Rightarrow> 'a list \<Rightarrow> 'a list" where
  "update_first p f [] = []"
| "update_first p f (x # xs) = (if p x then f x # xs else x # update_first p f xs)"

lemma length_update_first [simp]: "length (update_first p f xs) = length xs"
  by (induction xs) auto

lemma map_update_first:
  "(\<And>x. g (f x) = g x) \<Longrightarrow> map g (update_first p f xs) = map g xs"
  by (induction xs) auto

lemma find_update_first:
  "(\<And>x. p x \<Longrightarrow> p (f x)) \<Longrightarrow> find p (update_first p f xs) = map_option f (find p xs)"
  by (induction xs) auto

lemma find_update_first_other:
  "(\<And>x. p x \<Longrightarrow> \<not> q x) \<Longrightarrow> (\<And>x. p x \<Longrightarrow> \<not> q (f x)) \<Longrightarrow>
   find q (update_first p f xs) = find q xs"
  by (induction xs) auto

lemma set_update_first: "y \<in> set (update_first p f xs) \<Longrightarrow> y \<in> set xs \<or> (\<exists>x \<in> set xs. p x \<and> y = f x)"
  by (induction xs) (auto split: if_splits)

lemma list_all_update_first:
  "list_all P xs \<Longrightarrow> (\<And>x. P x \<Longrightarrow> p x \<Longrightarrow> P (f x)) \<Longrightarrow> list_all P (update_first p f xs)"
  by (induction xs) auto

lemma update_first_none: "find p xs = None \<Longrightarrow> update_first p f xs = xs"
  by (induction xs) (auto split: if_splits)

lemma find_append: "find p (xs @ ys) = (case find p xs of Some x \<Rightarrow> Some x | None \<Rightarrow> find p ys)"
  by (induction xs) auto

lemma find_SomeD: "find p xs = Some x \<Longrightarrow> p x \<and> x \<in> set xs"
  by (induction xs) (auto split: if_splits)

text \<open>
  \<open>Array.prototype.sort\<close> with a comparator: stable, the comparator's sign decides. For a
  consistent comparator every stable sort gives this result.
\<close>

fun insort_cmp :: "('a \<Rightarrow> 'a \<Rightarrow> int) \<Rightarrow> 'a \<Rightarrow> 'a list \<Rightarrow> 'a list" where
  "insort_cmp c x [] = [x]"
| "insort_cmp c x (y # ys) = (if c x y \<le> 0 then x # y # ys else y # insort_cmp c x ys)"

definition sort_cmp :: "('a \<Rightarrow> 'a \<Rightarrow> int) \<Rightarrow> 'a list \<Rightarrow> 'a list" where
  "sort_cmp c xs = foldr (insort_cmp c) xs []"

lemma set_insort_cmp [simp]: "set (insort_cmp c x xs) = insert x (set xs)"
  by (induction xs) auto

lemma length_insort_cmp [simp]: "length (insort_cmp c x xs) = Suc (length xs)"
  by (induction xs) auto

lemma sort_cmp_simps [simp]:
  "sort_cmp c [] = []" "sort_cmp c (x # xs) = insort_cmp c x (sort_cmp c xs)"
  by (simp_all add: sort_cmp_def)

lemma set_sort_cmp [simp]: "set (sort_cmp c xs) = set xs"
  by (induction xs) auto

lemma length_sort_cmp [simp]: "length (sort_cmp c xs) = length xs"
  by (induction xs) auto

lemma distinct_insort_cmp: "distinct (insort_cmp c x xs) \<longleftrightarrow> x \<notin> set xs \<and> distinct xs"
  by (induction xs) auto

lemma distinct_sort_cmp [simp]: "distinct (sort_cmp c xs) \<longleftrightarrow> distinct xs"
  by (induction xs) (auto simp: distinct_insort_cmp)

end
