(* ===== verification/TC_Types.thy ===== *)
theory TC_Types
  imports TW_Prelude
begin

text \<open>
  Data of the terminal-control protocol (\<open>src/terminalControl/protocol.ts\<close>) and of the durable
  store (\<open>src/terminalControl/store.ts\<close>).

  Conventions. A string is a HOL \<open>string\<close>: its elements are the code units the source's length
  and character tests count (the model is exact for strings whose code units are below 256). A
  timestamp, which the source keeps as the canonical output of \<open>Date.toISOString\<close>, is the
  integer number of milliseconds it denotes: the canonical form and that number determine each
  other (\<open>isCanonicalTimestamp\<close> is the range of a JavaScript \<open>Date\<close>). An optional field is an
  \<open>option\<close>. A thrown error is a value of \<open>tc_error\<close>.
\<close>

section \<open>Owners, leases and proofs\<close>

datatype owner_kind = Feishu | Dashboard | LocalCli | RelayV2 | TwServe

record owner =
  okind :: owner_kind
  instanceId :: string

type_synonym timestamp = int

record lease =
  l_controlTargetId :: string
  l_controlEpoch :: string
  l_leaseId :: string
  l_fence :: string
  l_owner :: owner
  l_expiresAt :: timestamp

datatype drain_disposition = Drained | Cancelled | Uncertain

record drain_proof =
  dp_disposition :: drain_disposition
  dp_recordId :: string
  dp_recordedAt :: timestamp

datatype recovery_proof_kind =
  FeishuTurnCancelled | OperatorAcknowledgedInDoubt | OwnerUnreachable

record recovery_proof =
  rp_kind :: recovery_proof_kind
  rp_recordId :: string
  rp_recordedAt :: timestamp

section \<open>Agent data carried by requests and results\<close>

datatype agent_provider = Claude | Codex
datatype source_boundary = After | Inclusive | Exact

record agent_source =
  as_provider :: agent_provider
  as_boundary :: source_boundary
  as_sourceId :: string
  as_sessionId :: string
  as_turnId :: string
  as_startedAt :: timestamp

datatype step_kind = StatusStep | ToolStep
datatype step_status = Running | Completed | Failed

record agent_progress_step =
  ps_stepId :: string
  ps_kind :: step_kind
  ps_title :: string
  ps_status :: step_status

record agent_result =
  ar_source :: agent_source
  ar_completedAt :: timestamp
  ar_text :: string
  ar_truncated :: bool

record agent_activity =
  aa_agentSupported :: bool
  aa_agentRunning :: bool
  aa_provider :: "agent_provider option"
  aa_source :: "agent_source option"
  aa_progress :: "agent_progress_step list option"

datatype reasoning_effort = Low | Medium | High | XHigh | MaxEffort | Ultra
datatype runtime_mode = DefaultMode | PlanMode

record agent_runtime =
  rt_model :: "string option"
  rt_reasoningEffort :: "reasoning_effort option"
  rt_mode :: runtime_mode

section \<open>Errors\<close>

datatype error_code =
    INVALID_REQUEST | UNSUPPORTED_VERSION | TARGET_NOT_FOUND | TARGET_GONE | PERMISSION_DENIED
  | HANDOFF_PENDING | RECOVERY_REQUIRED | STALE_OUTPUT_CURSOR | OPERATION_IN_DOUBT
  | RESOURCE_EXHAUSTED | INTERNAL

text \<open>
  \<open>ProtocolError\<close> is \<open>TerminalControlProtocolError\<close>, \<open>AgentMessageNotApplied\<close> its subclass, and
  \<open>PlainError\<close> any other value a collaborator throws.
\<close>

datatype tc_error =
    ProtocolError error_code string bool
  | AgentMessageNotApplied error_code string bool
  | PlainError string

fun error_code_of :: "tc_error \<Rightarrow> error_code option" where
  "error_code_of (ProtocolError c m r) = Some c"
| "error_code_of (AgentMessageNotApplied c m r) = Some c"
| "error_code_of (PlainError m) = None"

fun error_message :: "tc_error \<Rightarrow> string" where
  "error_message (ProtocolError c m r) = m"
| "error_message (AgentMessageNotApplied c m r) = m"
| "error_message (PlainError m) = m"

text \<open>The test \<open>error.code === "TARGET_GONE" || error.code === "TARGET_NOT_FOUND"\<close>.\<close>

definition is_gone_error :: "tc_error \<Rightarrow> bool" where
  "is_gone_error e \<longleftrightarrow> error_code_of e = Some TARGET_GONE \<or> error_code_of e = Some TARGET_NOT_FOUND"

abbreviation protocol_error :: "error_code \<Rightarrow> string \<Rightarrow> tc_error" where
  "protocol_error c m \<equiv> ProtocolError c m False"

section \<open>Durable records\<close>

datatype lifecycle = ACTIVE | RECOVERY | GONE

datatype recovery_reason =
    CONTROLLER_RESTARTED | LEASE_EXPIRED | OP_IN_DOUBT | DRAIN_UNCERTAIN
  | BACKEND_IDENTITY_UNCERTAIN | OUTPUT_CONTINUITY_UNCERTAIN

record recovery =
  rc_reason :: recovery_reason
  rc_since :: timestamp
  rc_previousControlEpoch :: string
  rc_previousOwnerKind :: "owner_kind option"
  rc_operationId :: "string option"

datatype op_kind = RawOp | AgentMessageOp | ResizeOp | ScrollOp | LifecycleKillOp
datatype disposition = Committed | InDoubt

record operation =
  op_operationId :: string
  op_ownerInstanceId :: string
  op_fence :: string
  op_payloadHash :: string
  op_kind :: op_kind
  op_disposition :: disposition
  op_outputGeneration :: "string option"
  op_outputCursor :: "int option"
  op_completedAt :: timestamp

record in_flight =
  if_operationId :: string
  if_ownerInstanceId :: string
  if_fence :: string
  if_payloadHash :: string
  if_kind :: op_kind
  if_outputGeneration :: "string option"
  if_outputCursor :: "int option"
  if_startedAt :: timestamp

record handoff =
  h_handoffId :: string
  h_nextOwner :: owner
  h_requestedAt :: timestamp
  h_drain :: "drain_proof option"

datatype ownership =
    Free (ow_fence: string)
  | Held (ow_fence: string) (ow_owner: owner) (ow_leaseId: string) (ow_leaseExpiresAt: timestamp)
  | Draining (ow_fence: string) (ow_owner: owner) (ow_leaseId: string)
      (ow_leaseExpiresAt: timestamp) (ow_handoff: handoff)

datatype session_kind = WorktreeSession | TerminalSession

record managed_session =
  ms_name :: string
  ms_kind :: session_kind
  ms_createdAt :: timestamp

record target =
  t_controlTargetId :: string
  t_lifecycle :: lifecycle
  t_managedSession :: managed_session
  t_tmuxInstanceId :: string
  t_outputGeneration :: string
  t_ownership :: ownership
  t_revision :: string
  t_inFlight :: "in_flight option"
  t_recovery :: "recovery option"
  t_completedOperations :: "operation list"
  t_updatedAt :: timestamp

record tc_state =
  s_controlEpoch :: string
  s_targets :: "target list"

section \<open>Requests and results\<close>

datatype scroll_direction = Up | Down

datatype request =
    Ping
  | TargetResolve string
  | OwnershipStatus string
  | LeaseAcquire string owner "int option"
  | LeaseRenew lease "int option"
  | LeaseRelease lease
  | HandoffBegin string owner "lease option"
  | HandoffCommit string lease drain_proof "int option"
  | HandoffCancel string lease
  | HandoffWithdraw string string owner
  | HandoffForce string string owner recovery_proof bool "int option"
  | InputRaw lease string string string
  | InputAgentMessage lease string string string bool "agent_runtime option"
  | InputResize lease string string int int
  | InputScroll lease string string scroll_direction int
  | LifecycleKill lease string
  | OutputTail string string string int "int option"
  | OutputRenderedSnapshot lease string string "int option"
  | ActivityAgentStatus lease string string
  | ActivityAgentResult lease string string agent_source "int option"

datatype view_state =
  ViewFree | ViewHeld | ViewDraining | ViewRecoveryRequired | ViewTargetGone

record ownership_view =
  v_controlTargetId :: string
  v_controlEpoch :: string
  v_state :: view_state
  v_fence :: string
  v_ownerKind :: "owner_kind option"
  v_nextOwnerKind :: "owner_kind option"
  v_handoffId :: "string option"
  v_leaseExpiresAt :: "timestamp option"
  v_outputGeneration :: string
  v_outputCursor :: int
  v_revision :: string

record output_position =
  pos_generation :: string
  pos_cursor :: int
  pos_retainedStartCursor :: "int option"

record output_chunk =
  ch_generation :: string
  ch_cursor :: int
  ch_dataBase64 :: string
  ch_nextCursor :: int

record operation_result =
  or_operationId :: string
  or_deduplicated :: bool
  or_controlEpoch :: string
  or_fence :: string
  or_outputGeneration :: "string option"
  or_outputCursor :: "int option"

record tail_result =
  tr_controlTargetId :: string
  tr_controlEpoch :: string
  tr_fence :: string
  tr_ownerKind :: "owner_kind option"
  tr_chunk :: output_chunk

text \<open>The fields the three lease-bound reads of a pane return besides their own data.\<close>

record read_frame =
  rf_controlTargetId :: string
  rf_controlEpoch :: string
  rf_leaseId :: string
  rf_fence :: string
  rf_ownerKind :: owner_kind
  rf_outputGeneration :: string
  rf_pane :: string

datatype result =
    Capabilities "string list"
  | Resolved string string managed_session ownership_view
  | Leased lease ownership_view
  | Viewed ownership_view
  | Operated operation_result
  | Tailed tail_result
  | Snapshot read_frame string bool
  | Activity read_frame agent_activity
  | AgentResult read_frame agent_result

end
