(* ===== verification/TC_Store.thy ===== *)
theory TC_Store
  imports TC_Types
begin

text \<open>
  The pure part of \<open>src/terminalControl/store.ts\<close>: the decimal counters (fences and revisions),
  the validator every load and every save runs (\<open>parseTerminalControlState\<close>), and the
  compaction of retired targets that \<open>saveTerminalControlState\<close> applies before it writes.
\<close>

section \<open>Decimal counters\<close>

definition is_digit :: "char \<Rightarrow> bool" where
  "is_digit c \<longleftrightarrow> 48 \<le> (of_char c :: nat) \<and> (of_char c :: nat) \<le> 57"

text \<open>The regular expression \<open>^(?:0|[1-9]\d*)$\<close>.\<close>

fun isDecimal :: "string \<Rightarrow> bool" where
  "isDecimal [] = False"
| "isDecimal (c # cs) = (if c = CHR ''0'' then cs = [] else is_digit c \<and> list_all is_digit cs)"

definition digit_value :: "char \<Rightarrow> nat" where
  "digit_value c = of_char c - 48"

definition digit_char :: "nat \<Rightarrow> char" where
  "digit_char n = char_of (48 + n)"

text \<open>\<open>BigInt(value)\<close> on a decimal string and \<open>toString(10)\<close>.\<close>

definition decimal_value :: "string \<Rightarrow> nat" where
  "decimal_value s = foldl (\<lambda>a c. 10 * a + digit_value c) 0 s"

fun decimal_string :: "nat \<Rightarrow> string" where
  "decimal_string n =
     (if n < 10 then [digit_char n] else decimal_string (n div 10) @ [digit_char (n mod 10)])"

declare decimal_string.simps [simp del]

definition nextDecimal :: "string \<Rightarrow> string" where
  "nextDecimal s = decimal_string (decimal_value s + 1)"

lemma digit_value_char [simp]: "n < 10 \<Longrightarrow> digit_value (digit_char n) = n"
  by (simp add: digit_value_def digit_char_def)

lemma is_digit_char [simp]: "n < 10 \<Longrightarrow> is_digit (digit_char n)"
  by (simp add: is_digit_def digit_char_def)

lemma digit_char_value: "is_digit c \<Longrightarrow> digit_char (digit_value c) = c"
  by (simp add: is_digit_def digit_value_def digit_char_def)

lemma digit_value_bound: "is_digit c \<Longrightarrow> digit_value c < 10"
  by (auto simp: is_digit_def digit_value_def)

lemma digit_char_zero: "digit_char 0 = CHR ''0''"
  by (simp add: digit_char_def char_of_def bit_0)

lemma digit_value_zero: "is_digit c \<Longrightarrow> digit_value c = 0 \<Longrightarrow> c = CHR ''0''"
  using digit_char_value [of c] by (simp add: digit_char_zero)

lemma decimal_value_append [simp]:
  "decimal_value (xs @ [c]) = 10 * decimal_value xs + digit_value c"
  by (simp add: decimal_value_def)

lemma decimal_value_string [simp]: "decimal_value (decimal_string n) = n"
proof (induction n rule: decimal_string.induct)
  case (1 n)
  show ?case
  proof (cases "n < 10")
    case True
    then show ?thesis by (simp add: decimal_string.simps [of n] decimal_value_def)
  next
    case False
    with 1 show ?thesis by (simp add: decimal_string.simps [of n])
  qed
qed

lemma isDecimal_snoc: "isDecimal xs \<Longrightarrow> xs \<noteq> ''0'' \<Longrightarrow> is_digit c \<Longrightarrow> isDecimal (xs @ [c])"
  by (cases xs) (auto split: if_splits)

lemma decimal_string_zero_iff: "decimal_string n = ''0'' \<Longrightarrow> n = 0"
  using decimal_value_string [of n] by (simp add: decimal_value_def digit_value_def)

lemma isDecimal_string [simp]: "isDecimal (decimal_string n)"
proof (induction n rule: decimal_string.induct)
  case (1 n)
  show ?case
  proof (cases "n < 10")
    case True
    then have "is_digit (digit_char n)" by simp
    with True show ?thesis by (simp add: decimal_string.simps [of n])
  next
    case False
    then have "decimal_string (n div 10) \<noteq> ''0''"
      using decimal_string_zero_iff [of "n div 10"] by auto
    with False 1 show ?thesis
      by (subst decimal_string.simps) (simp add: isDecimal_snoc)
  qed
qed

lemma nextDecimal_isDecimal [simp]: "isDecimal (nextDecimal s)"
  by (simp add: nextDecimal_def)

lemma nextDecimal_value [simp]: "decimal_value (nextDecimal s) = decimal_value s + 1"
  by (simp add: nextDecimal_def)

lemma nextDecimal_neq [simp]: "nextDecimal s \<noteq> s" "s \<noteq> nextDecimal s"
  by (metis n_not_Suc_n nextDecimal_value Suc_eq_plus1)+

lemma decimal_value_pos: "isDecimal s \<Longrightarrow> s \<noteq> ''0'' \<Longrightarrow> 0 < decimal_value s"
proof (induction s rule: rev_induct)
  case Nil
  then show ?case by simp
next
  case (snoc c s)
  show ?case
  proof (cases s)
    case Nil
    with snoc.prems have "is_digit c" "c \<noteq> CHR ''0''" by (auto split: if_splits)
    then have "digit_value c \<noteq> 0" using digit_value_zero by blast
    with Nil show ?thesis by (simp add: decimal_value_def)
  next
    case (Cons d ds)
    with snoc.prems have "isDecimal s" and "s \<noteq> ''0''" by (auto split: if_splits)
    with snoc.IH show ?thesis by simp
  qed
qed

text \<open>Decimal strings are canonical: the string and its value determine each other.\<close>

lemma decimal_string_value: "isDecimal s \<Longrightarrow> decimal_string (decimal_value s) = s"
proof (induction s rule: rev_induct)
  case Nil
  then show ?case by simp
next
  case (snoc c s)
  show ?case
  proof (cases s)
    case Nil
    with snoc.prems have "is_digit c" by (auto simp: is_digit_def split: if_splits)
    then have "digit_value c < 10" and "digit_char (digit_value c) = c"
      by (simp_all add: digit_value_bound digit_char_value)
    with Nil show ?thesis by (simp add: decimal_string.simps decimal_value_def)
  next
    case (Cons d ds)
    with snoc.prems have s: "isDecimal s" "s \<noteq> ''0''" and c: "is_digit c"
      by (auto split: if_splits)
    have "0 < decimal_value s" by (rule decimal_value_pos [OF s])
    with digit_value_bound [OF c] snoc.IH s digit_char_value [OF c] show ?thesis
      by (subst decimal_string.simps) simp
  qed
qed

lemma decimal_value_inject:
  "isDecimal s \<Longrightarrow> isDecimal t \<Longrightarrow> decimal_value s = decimal_value t \<longleftrightarrow> s = t"
  by (metis decimal_string_value)

section \<open>Validation\<close>

definition isStoredString :: "string \<Rightarrow> nat \<Rightarrow> bool" where
  "isStoredString s maxlen \<longleftrightarrow>
     0 < length s \<and> length s \<le> maxlen
     \<and> list_all (\<lambda>c. c \<noteq> CHR 0x00 \<and> c \<noteq> CHR 0x0D \<and> c \<noteq> CHR 0x0A) s"

text \<open>The time values a \<open>Date\<close> can hold, the only ones that print as a canonical timestamp.\<close>

definition isCanonicalTimestamp :: "timestamp \<Rightarrow> bool" where
  "isCanonicalTimestamp t \<longleftrightarrow> -8640000000000000 \<le> t \<and> t \<le> 8640000000000000"

definition isSafeCount :: "int \<Rightarrow> bool" where
  "isSafeCount n \<longleftrightarrow> 0 \<le> n \<and> n \<le> 9007199254740991"

definition isOwner :: "owner \<Rightarrow> bool" where
  "isOwner w \<longleftrightarrow> isStoredString (instanceId w) 256"

definition isDrainProof :: "drain_proof \<Rightarrow> bool" where
  "isDrainProof d \<longleftrightarrow> isStoredString (dp_recordId d) 192 \<and> isCanonicalTimestamp (dp_recordedAt d)"

fun isOwnership :: "ownership \<Rightarrow> bool" where
  "isOwnership (Free f) = isDecimal f"
| "isOwnership (Held f w l e) =
     (isDecimal f \<and> isOwner w \<and> isStoredString l 128 \<and> isCanonicalTimestamp e)"
| "isOwnership (Draining f w l e h) =
     (isDecimal f \<and> isOwner w \<and> isStoredString l 128 \<and> isCanonicalTimestamp e
      \<and> isStoredString (h_handoffId h) 128 \<and> isOwner (h_nextOwner h)
      \<and> isCanonicalTimestamp (h_requestedAt h)
      \<and> (case h_drain h of None \<Rightarrow> True | Some d \<Rightarrow> isDrainProof d))"

text \<open>The regular expression \<open>^[a-f0-9]{64}$\<close>.\<close>

definition isPayloadHash :: "string \<Rightarrow> bool" where
  "isPayloadHash s \<longleftrightarrow> length s = 64
     \<and> list_all (\<lambda>c. is_digit c \<or> (97 \<le> (of_char c :: nat) \<and> (of_char c :: nat) \<le> 102)) s"

definition optional :: "('a \<Rightarrow> bool) \<Rightarrow> 'a option \<Rightarrow> bool" where
  "optional p v = (case v of None \<Rightarrow> True | Some x \<Rightarrow> p x)"

definition isOperation :: "operation \<Rightarrow> bool" where
  "isOperation op \<longleftrightarrow>
     isStoredString (op_operationId op) 192 \<and> isStoredString (op_ownerInstanceId op) 256
     \<and> isDecimal (op_fence op) \<and> isPayloadHash (op_payloadHash op)
     \<and> isCanonicalTimestamp (op_completedAt op)
     \<and> optional (\<lambda>g. isStoredString g 128) (op_outputGeneration op)
     \<and> optional isSafeCount (op_outputCursor op)"

definition isInFlight :: "in_flight \<Rightarrow> bool" where
  "isInFlight op \<longleftrightarrow>
     isStoredString (if_operationId op) 192 \<and> isStoredString (if_ownerInstanceId op) 256
     \<and> isDecimal (if_fence op) \<and> isPayloadHash (if_payloadHash op)
     \<and> isCanonicalTimestamp (if_startedAt op)
     \<and> optional (\<lambda>g. isStoredString g 128) (if_outputGeneration op)
     \<and> optional isSafeCount (if_outputCursor op)"

definition isRecovery :: "recovery \<Rightarrow> bool" where
  "isRecovery r \<longleftrightarrow>
     isCanonicalTimestamp (rc_since r) \<and> isStoredString (rc_previousControlEpoch r) 128
     \<and> optional (\<lambda>i. isStoredString i 192) (rc_operationId r)"

definition isTarget :: "target \<Rightarrow> bool" where
  "isTarget t \<longleftrightarrow>
     isStoredString (t_controlTargetId t) 128
     \<and> isStoredString (ms_name (t_managedSession t)) 128
     \<and> isCanonicalTimestamp (ms_createdAt (t_managedSession t))
     \<and> isStoredString (t_tmuxInstanceId t) 128
     \<and> isStoredString (t_outputGeneration t) 128
     \<and> isOwnership (t_ownership t) \<and> isDecimal (t_revision t)
     \<and> list_all isOperation (t_completedOperations t)
     \<and> optional isInFlight (t_inFlight t)
     \<and> distinct (map op_operationId (t_completedOperations t))
     \<and> optional (\<lambda>op. if_operationId op \<notin> op_operationId ` set (t_completedOperations t)) (t_inFlight t)
     \<and> optional isRecovery (t_recovery t)
     \<and> (t_lifecycle t = RECOVERY \<longrightarrow> t_recovery t \<noteq> None)
     \<and> (t_lifecycle t \<noteq> RECOVERY \<longrightarrow> t_recovery t = None)
     \<and> (t_lifecycle t \<noteq> ACTIVE \<longrightarrow> is_Free (t_ownership t))
     \<and> isCanonicalTimestamp (t_updatedAt t)"

definition parseTerminalControlState :: "tc_state \<Rightarrow> tc_error + tc_state" where
  "parseTerminalControlState s =
     (if \<not> isStoredString (s_controlEpoch s) 128
      then Inl (PlainError ''terminal-control state controlEpoch is malformed'')
      else if \<not> list_all isTarget (s_targets s)
      then Inl (PlainError ''terminal-control state targets are malformed'')
      else if \<not> distinct (map t_controlTargetId (s_targets s))
      then Inl (PlainError ''terminal-control state contains duplicate target IDs'')
      else Inr s)"

abbreviation valid_state :: "tc_state \<Rightarrow> bool" where
  "valid_state s \<equiv> parseTerminalControlState s = Inr s"

lemma valid_state_iff:
  "valid_state s \<longleftrightarrow> isStoredString (s_controlEpoch s) 128 \<and> list_all isTarget (s_targets s)
     \<and> distinct (map t_controlTargetId (s_targets s))"
  by (simp add: parseTerminalControlState_def)

lemma parse_cases: "parseTerminalControlState s = Inr s' \<Longrightarrow> s' = s \<and> valid_state s"
  by (auto simp: parseTerminalControlState_def split: if_splits)

section \<open>Compaction\<close>

definition TERMINAL_CONTROL_MAX_RETIRED_TARGETS :: nat where
  "TERMINAL_CONTROL_MAX_RETIRED_TARGETS = 64"

text \<open>
  The comparator of the retained set: latest \<open>updatedAt\<close> first, then by
  \<open>String.prototype.localeCompare\<close> (a parameter: it depends on the process locale).
\<close>

definition retired_order :: "(string \<Rightarrow> string \<Rightarrow> int) \<Rightarrow> target \<Rightarrow> target \<Rightarrow> int" where
  "retired_order localeCompare left right =
     (let d = t_updatedAt right - t_updatedAt left
      in if d \<noteq> 0 then d else localeCompare (t_controlTargetId right) (t_controlTargetId left))"

definition retainedGoneIds :: "(string \<Rightarrow> string \<Rightarrow> int) \<Rightarrow> tc_state \<Rightarrow> string list" where
  "retainedGoneIds localeCompare s =
     map t_controlTargetId
       (take TERMINAL_CONTROL_MAX_RETIRED_TARGETS
         (sort_cmp (retired_order localeCompare)
           (filter (\<lambda>t. t_lifecycle t = GONE) (s_targets s))))"

definition compact_target :: "string list \<Rightarrow> target \<Rightarrow> target list" where
  "compact_target keep t =
     (if t_lifecycle t \<noteq> GONE then [t]
      else if t_controlTargetId t \<notin> set keep then []
      else [t\<lparr>t_completedOperations := []\<rparr>])"

definition compact_state :: "(string \<Rightarrow> string \<Rightarrow> int) \<Rightarrow> tc_state \<Rightarrow> tc_state" where
  "compact_state localeCompare s =
     s\<lparr>s_targets := concat (map (compact_target (retainedGoneIds localeCompare s)) (s_targets s))\<rparr>"

text \<open>
  What \<open>saveTerminalControlState\<close> writes: it validates its argument, compacts it, and validates
  the compacted state again.
\<close>

definition prepared_save :: "(string \<Rightarrow> string \<Rightarrow> int) \<Rightarrow> tc_state \<Rightarrow> tc_error + tc_state" where
  "prepared_save localeCompare s =
     (case parseTerminalControlState s of
        Inl e \<Rightarrow> Inl e
      | Inr v \<Rightarrow> parseTerminalControlState (compact_state localeCompare v))"

lemma compact_target_id: "u \<in> set (compact_target keep t) \<Longrightarrow> t_controlTargetId u = t_controlTargetId t"
  by (auto simp: compact_target_def split: if_splits)

lemma compact_target_cases:
  "compact_target keep t = []
   \<or> (\<exists>u. compact_target keep t = [u] \<and> t_controlTargetId u = t_controlTargetId t)"
  by (simp add: compact_target_def)

lemma compact_ids_subset:
  "set (map t_controlTargetId (concat (map (compact_target keep) ts))) \<subseteq> set (map t_controlTargetId ts)"
  by (auto dest: compact_target_id)

lemma distinct_compact_ids:
  "distinct (map t_controlTargetId ts) \<Longrightarrow>
   distinct (map t_controlTargetId (concat (map (compact_target keep) ts)))"
proof (induction ts)
  case Nil
  show ?case by simp
next
  case (Cons t ts)
  obtain us where us: "compact_target keep t = us" "us = [] \<or> (\<exists>u. us = [u] \<and> t_controlTargetId u = t_controlTargetId t)"
    using compact_target_cases by blast
  have "t_controlTargetId t \<notin> set (map t_controlTargetId (concat (map (compact_target keep) ts)))"
    using Cons.prems compact_ids_subset [of keep ts] by auto
  moreover have "distinct (map t_controlTargetId (concat (map (compact_target keep) ts)))"
    using Cons by simp
  ultimately show ?case using us by (auto simp del: set_map)
qed

lemma isTarget_compact: "isTarget t \<Longrightarrow> u \<in> set (compact_target keep t) \<Longrightarrow> isTarget u"
  by (auto simp: compact_target_def isTarget_def optional_def split: if_splits option.splits)

lemma compact_state_valid: "valid_state s \<Longrightarrow> valid_state (compact_state lc s)"
  by (auto simp: valid_state_iff compact_state_def list_all_iff distinct_compact_ids
           dest: isTarget_compact)

text \<open>Hence the second validation never fails: a save that gets past the first one writes.\<close>

lemma prepared_save_valid: "valid_state s \<Longrightarrow> prepared_save lc s = Inr (compact_state lc s)"
  by (simp add: prepared_save_def compact_state_valid)

lemma prepared_save_InrD:
  assumes "prepared_save lc s = Inr s'"
  shows "valid_state s \<and> s' = compact_state lc s"
proof (cases "parseTerminalControlState s")
  case (Inl e)
  with assms show ?thesis by (simp add: prepared_save_def)
next
  case (Inr v)
  then have v: "v = s" "valid_state s" by (auto dest: parse_cases)
  with assms show ?thesis by (simp add: prepared_save_def compact_state_valid)
qed

lemma find_compact:
  assumes "distinct (map t_controlTargetId ts)"
    and "find (\<lambda>t. t_controlTargetId t = i) ts = Some t" and "t_lifecycle t \<noteq> GONE"
  shows "find (\<lambda>t. t_controlTargetId t = i) (concat (map (compact_target keep) ts)) = Some t"
  using assms
  by (induction ts) (auto simp: compact_target_def find_append split: if_splits option.splits)

lemma mem_compactD:
  "u \<in> set (concat (map (compact_target keep) ts)) \<Longrightarrow>
   \<exists>t \<in> set ts. u = t \<and> t_lifecycle t \<noteq> GONE
     \<or> u = t\<lparr>t_completedOperations := []\<rparr> \<and> t_lifecycle t = GONE \<and> t_controlTargetId t \<in> set keep"
  by (auto simp: compact_target_def split: if_splits)

lemma compact_nil_if_not_in:
  "i \<notin> t_controlTargetId ` set ts \<Longrightarrow>
   find (\<lambda>t. t_controlTargetId t = i) (concat (map (compact_target keep) ts)) = None"
  using compact_target_id by (fastforce simp: find_None_iff)

section \<open>Leases and owners\<close>

definition sameOwner :: "owner \<Rightarrow> owner \<Rightarrow> bool" where
  "sameOwner left right \<longleftrightarrow> okind left = okind right \<and> instanceId left = instanceId right"

lemma sameOwner_eq [simp]: "sameOwner a b \<longleftrightarrow> a = b"
  by (cases a; cases b) (simp add: sameOwner_def)

definition leaseFromTarget :: "tc_state \<Rightarrow> target \<Rightarrow> tc_error + lease" where
  "leaseFromTarget s t =
     (case t_ownership t of
        Free f \<Rightarrow> Inl (protocol_error PERMISSION_DENIED ''target has no input owner'')
      | own \<Rightarrow> Inr \<lparr>l_controlTargetId = t_controlTargetId t, l_controlEpoch = s_controlEpoch s,
                  l_leaseId = ow_leaseId own, l_fence = ow_fence own, l_owner = ow_owner own,
                  l_expiresAt = ow_leaseExpiresAt own\<rparr>)"

end
