(* ===== verification/TC_Target.thy ===== *)
theory TC_Target
  imports TC_Store
begin

text \<open>
  The module-level functions of \<open>src/terminalControl/authority.ts\<close>: transitions and tests of one
  target record. The source passes a clock \<open>now\<close>; here each reading of it is an argument.
  The digests of \<open>node:crypto\<close> are parameters (\<open>sha256\<close>).
\<close>

section \<open>Definitions\<close>

definition MAX_COMPLETED_OPERATIONS :: nat where
  "MAX_COMPLETED_OPERATIONS = 128"

definition OUTPUT_CAPTURE_LIMIT_MESSAGE :: string where
  "OUTPUT_CAPTURE_LIMIT_MESSAGE = ''terminal output generation exceeded its bounded capture limit''"

definition LEGACY_CAPTURE_ROTATION_MESSAGE :: string where
  "LEGACY_CAPTURE_ROTATION_MESSAGE = ''terminal output legacy capture requires bounded rotation''"

definition TERMINAL_CONTROL_DEFAULT_LEASE_TTL_MS :: int where
  "TERMINAL_CONTROL_DEFAULT_LEASE_TTL_MS = 60000"

definition revision :: "target \<Rightarrow> target" where
  "revision t = t\<lparr>t_revision := nextDecimal (t_revision t)\<rparr>"

text \<open>A field of the JSON array the recovery generation is the digest of.\<close>

datatype hash_field = HStr string | HTime timestamp | HNull

fun session_kind_name :: "session_kind \<Rightarrow> string" where
  "session_kind_name WorktreeSession = ''worktree''"
| "session_kind_name TerminalSession = ''terminal''"

fun owner_kind_name :: "owner_kind \<Rightarrow> string" where
  "owner_kind_name Feishu = ''feishu''"
| "owner_kind_name Dashboard = ''dashboard''"
| "owner_kind_name LocalCli = ''local-cli''"
| "owner_kind_name RelayV2 = ''relay-v2''"
| "owner_kind_name TwServe = ''tw-serve''"

fun reason_name :: "recovery_reason \<Rightarrow> string" where
  "reason_name CONTROLLER_RESTARTED = ''CONTROLLER_RESTARTED''"
| "reason_name LEASE_EXPIRED = ''LEASE_EXPIRED''"
| "reason_name OP_IN_DOUBT = ''OPERATION_IN_DOUBT''"
| "reason_name DRAIN_UNCERTAIN = ''DRAIN_UNCERTAIN''"
| "reason_name BACKEND_IDENTITY_UNCERTAIN = ''BACKEND_IDENTITY_UNCERTAIN''"
| "reason_name OUTPUT_CONTINUITY_UNCERTAIN = ''OUTPUT_CONTINUITY_UNCERTAIN''"

definition plannedOutputRecoveryGeneration ::
  "(hash_field list \<Rightarrow> string) \<Rightarrow> target \<Rightarrow> tc_error + string" where
  "plannedOutputRecoveryGeneration sha256json t =
     (case (t_lifecycle t, t_recovery t) of
        (RECOVERY, Some r) \<Rightarrow>
          Inr (sha256json
            [HStr ''terminal-output-recovery-v1'', HStr (t_controlTargetId t),
             HStr (ms_name (t_managedSession t)),
             HStr (session_kind_name (ms_kind (t_managedSession t))),
             HTime (ms_createdAt (t_managedSession t)), HStr (t_tmuxInstanceId t),
             HStr (t_outputGeneration t), HStr (ow_fence (t_ownership t)), HStr (t_revision t),
             HStr (reason_name (rc_reason r)), HTime (rc_since r),
             HStr (rc_previousControlEpoch r),
             (case rc_previousOwnerKind r of None \<Rightarrow> HNull | Some k \<Rightarrow> HStr (owner_kind_name k)),
             (case rc_operationId r of None \<Rightarrow> HNull | Some i \<Rightarrow> HStr i)])
      | _ \<Rightarrow> Inl (protocol_error RECOVERY_REQUIRED
                ''terminal output recovery has no persisted recovery identity''))"

fun view_state_of :: "lifecycle \<Rightarrow> ownership \<Rightarrow> view_state" where
  "view_state_of ACTIVE (Free _) = ViewFree"
| "view_state_of ACTIVE (Held _ _ _ _) = ViewHeld"
| "view_state_of ACTIVE (Draining _ _ _ _ _) = ViewDraining"
| "view_state_of RECOVERY _ = ViewRecoveryRequired"
| "view_state_of GONE _ = ViewTargetGone"

definition ownershipView :: "tc_state \<Rightarrow> target \<Rightarrow> int \<Rightarrow> ownership_view" where
  "ownershipView s t outputCursor =
     \<lparr>v_controlTargetId = t_controlTargetId t,
      v_controlEpoch = s_controlEpoch s,
      v_state = view_state_of (t_lifecycle t) (t_ownership t),
      v_fence = ow_fence (t_ownership t),
      v_ownerKind =
        (if \<not> is_Free (t_ownership t) then Some (okind (ow_owner (t_ownership t)))
         else case t_recovery t of None \<Rightarrow> None | Some r \<Rightarrow> rc_previousOwnerKind r),
      v_nextOwnerKind =
        (if is_Draining (t_ownership t) then Some (okind (h_nextOwner (ow_handoff (t_ownership t))))
         else None),
      v_handoffId =
        (if is_Draining (t_ownership t) then Some (h_handoffId (ow_handoff (t_ownership t)))
         else None),
      v_leaseExpiresAt =
        (if \<not> is_Free (t_ownership t) then Some (ow_leaseExpiresAt (t_ownership t)) else None),
      v_outputGeneration = t_outputGeneration t,
      v_outputCursor = outputCursor,
      v_revision = t_revision t\<rparr>"

definition targetById :: "tc_state \<Rightarrow> string \<Rightarrow> tc_error + target" where
  "targetById s i =
     (case find (\<lambda>t. t_controlTargetId t = i) (s_targets s) of
        None \<Rightarrow> Inl (protocol_error TARGET_NOT_FOUND ''control target is unknown'')
      | Some t \<Rightarrow> Inr t)"

definition ensureOperable :: "target \<Rightarrow> tc_error + unit" where
  "ensureOperable t =
     (if t_lifecycle t = GONE
      then Inl (protocol_error TARGET_GONE ''control target backend lifecycle has ended'')
      else if t_lifecycle t = RECOVERY \<or> t_inFlight t \<noteq> None
      then Inl (protocol_error RECOVERY_REQUIRED
             ''terminal-control continuity is uncertain; explicit local recovery is required'')
      else Inr ())"

text \<open>
  A time beyond the range of \<open>Date\<close>, for which \<open>toISOString\<close> throws a \<open>RangeError\<close>, is kept here as a number;
  the validator of the save rejects it.
\<close>

definition expiresAt :: "timestamp \<Rightarrow> int \<Rightarrow> timestamp" where
  "expiresAt now ttlMs = now + ttlMs"

definition leaseExpired :: "target \<Rightarrow> timestamp \<Rightarrow> bool" where
  "leaseExpired t now \<longleftrightarrow> \<not> is_Free (t_ownership t) \<and> ow_leaseExpiresAt (t_ownership t) \<le> now"

definition isAbandonableNonFeishuLease :: "target \<Rightarrow> bool" where
  "isAbandonableNonFeishuLease t \<longleftrightarrow>
     t_lifecycle t = ACTIVE \<and> is_Held (t_ownership t)
     \<and> okind (ow_owner (t_ownership t)) \<noteq> Feishu \<and> t_inFlight t = None"

definition isAutoRecoverableNonFeishuState :: "target \<Rightarrow> bool" where
  "isAutoRecoverableNonFeishuState t =
     (if t_lifecycle t \<noteq> RECOVERY \<or> t_inFlight t \<noteq> None then False
      else case t_recovery t of
          None \<Rightarrow> False
        | Some r \<Rightarrow>
            (if rc_previousOwnerKind r = Some Feishu \<or> rc_operationId r \<notin> {None, Some ''''}
             then False
             else rc_reason r \<notin> {OP_IN_DOUBT, DRAIN_UNCERTAIN}))"

definition isOutputCapacityError :: "tc_error \<Rightarrow> bool" where
  "isOutputCapacityError e \<longleftrightarrow>
     error_code_of e = Some RESOURCE_EXHAUSTED \<and> error_message e = OUTPUT_CAPTURE_LIMIT_MESSAGE"

definition isOutputRotationError :: "tc_error \<Rightarrow> bool" where
  "isOutputRotationError e \<longleftrightarrow>
     isOutputCapacityError e
     \<or> error_code_of e = Some RESOURCE_EXHAUSTED \<and> error_message e = LEGACY_CAPTURE_ROTATION_MESSAGE"

text \<open>\<open>const i = xs.findIndex(p); if (i >= 0) xs.splice(i, 1)\<close>\<close>

fun remove_first :: "('a \<Rightarrow> bool) \<Rightarrow> 'a list \<Rightarrow> 'a list" where
  "remove_first p [] = []"
| "remove_first p (x # xs) = (if p x then xs else x # remove_first p xs)"

definition journal_append :: "operation list \<Rightarrow> operation \<Rightarrow> operation list" where
  "journal_append ops op =
     (let ops' = ops @ [op]
      in if length ops' \<le> MAX_COMPLETED_OPERATIONS then ops'
         else remove_first (\<lambda>c. op_disposition c = Committed) ops')"

definition appendOperation :: "target \<Rightarrow> operation \<Rightarrow> target" where
  "appendOperation t op =
     t\<lparr>t_completedOperations := journal_append (t_completedOperations t) op\<rparr>"

definition in_doubt_record :: "in_flight \<Rightarrow> timestamp \<Rightarrow> operation" where
  "in_doubt_record i now =
     \<lparr>op_operationId = if_operationId i, op_ownerInstanceId = if_ownerInstanceId i,
      op_fence = if_fence i, op_payloadHash = if_payloadHash i, op_kind = if_kind i,
      op_disposition = InDoubt, op_outputGeneration = if_outputGeneration i,
      op_outputCursor = if_outputCursor i, op_completedAt = now\<rparr>"

definition completeInFlightAsInDoubt :: "target \<Rightarrow> timestamp \<Rightarrow> target \<times> string option" where
  "completeInFlightAsInDoubt t now =
     (case t_inFlight t of
        None \<Rightarrow> (t, None)
      | Some i \<Rightarrow>
          ((appendOperation t (in_doubt_record i now))\<lparr>t_inFlight := None\<rparr>, Some (if_operationId i)))"

text \<open>
  \<open>markRecovery(state, target, reason, now, options)\<close>: \<open>tc\<close>, \<open>ts\<close> and \<open>tu\<close> are the readings of
  the clock for the completed operation, \<open>since\<close> and \<open>updatedAt\<close>.
\<close>

definition markRecovery ::
  "string \<Rightarrow> target \<Rightarrow> recovery_reason \<Rightarrow> string option \<Rightarrow> string option
   \<Rightarrow> timestamp \<Rightarrow> timestamp \<Rightarrow> timestamp \<Rightarrow> target" where
  "markRecovery controlEpoch t reason previousControlEpoch operationId tc ts tu =
     (let previousOwnerKind =
            (if is_Free (t_ownership t)
             then (case t_recovery t of None \<Rightarrow> None | Some r \<Rightarrow> rc_previousOwnerKind r)
             else Some (okind (ow_owner (t_ownership t))));
          (t', inFlightOperationId) = completeInFlightAsInDoubt t tc;
          opId = (case operationId of Some i \<Rightarrow> Some i | None \<Rightarrow> inFlightOperationId)
      in (revision (t'\<lparr>t_lifecycle := RECOVERY,
            t_ownership := Free (nextDecimal (ow_fence (t_ownership t'))),
            t_recovery := Some
              \<lparr>rc_reason = reason, rc_since = ts,
               rc_previousControlEpoch =
                 (case previousControlEpoch of Some e \<Rightarrow> e | None \<Rightarrow> controlEpoch),
               rc_previousOwnerKind = previousOwnerKind, rc_operationId = opId\<rparr>\<rparr>))
         \<lparr>t_updatedAt := tu\<rparr>)"

definition invalidateTarget :: "target \<Rightarrow> timestamp \<Rightarrow> target" where
  "invalidateTarget t now =
     (revision (t\<lparr>t_lifecycle := GONE,
        t_ownership := Free (nextDecimal (ow_fence (t_ownership t))),
        t_inFlight := None, t_recovery := None, t_completedOperations := []\<rparr>))\<lparr>t_updatedAt := now\<rparr>"

definition isInteractiveOwner :: "owner \<Rightarrow> bool" where
  "isInteractiveOwner w \<longleftrightarrow> okind w \<noteq> Feishu"

definition sameInputOwnerClass :: "owner \<Rightarrow> owner \<Rightarrow> bool" where
  "sameInputOwnerClass left right =
     (if isInteractiveOwner left \<and> isInteractiveOwner right then True else sameOwner left right)"

definition validateLease :: "tc_state \<Rightarrow> target \<Rightarrow> lease \<Rightarrow> bool \<Rightarrow> tc_error + unit" where
  "validateLease s t lease allowDraining =
     (case ensureOperable t of
        Inl e \<Rightarrow> Inl e
      | Inr _ \<Rightarrow>
          if l_controlTargetId lease \<noteq> t_controlTargetId t \<or> l_controlEpoch lease \<noteq> s_controlEpoch s
          then Inl (protocol_error PERMISSION_DENIED ''terminal input lease is fenced'')
          else if is_Free (t_ownership t)
          then Inl (protocol_error PERMISSION_DENIED ''target has no current input owner'')
          else if is_Draining (t_ownership t) \<and> \<not> allowDraining
          then Inl (protocol_error HANDOFF_PENDING ''target is draining for ownership handoff'')
          else if ow_leaseId (t_ownership t) \<noteq> l_leaseId lease
            \<or> ow_fence (t_ownership t) \<noteq> l_fence lease
            \<or> \<not> sameInputOwnerClass (ow_owner (t_ownership t)) (l_owner lease)
          then Inl (protocol_error PERMISSION_DENIED ''terminal input lease is fenced'')
          else Inr ())"

definition leaseForOwner :: "tc_state \<Rightarrow> target \<Rightarrow> owner \<Rightarrow> tc_error + lease" where
  "leaseForOwner s t w =
     (case leaseFromTarget s t of
        Inl e \<Rightarrow> Inl e
      | Inr l \<Rightarrow>
          if \<not> sameInputOwnerClass (l_owner l) w
          then Inl (protocol_error PERMISSION_DENIED ''terminal input lease is fenced'')
          else Inr (if sameOwner (l_owner l) w then l else l\<lparr>l_owner := w\<rparr>))"

fun op_kind_name :: "op_kind \<Rightarrow> string" where
  "op_kind_name RawOp = ''raw''"
| "op_kind_name AgentMessageOp = ''agent-message''"
| "op_kind_name ResizeOp = ''resize''"
| "op_kind_name ScrollOp = ''scroll''"
| "op_kind_name LifecycleKillOp = ''lifecycle-kill''"

definition payload_preimage :: "op_kind \<Rightarrow> string \<Rightarrow> string \<Rightarrow> string" where
  "payload_preimage kind pane payload =
     ''tmux-worktree/terminal-control/operation/v1'' @ [CHR 0x00] @ op_kind_name kind
     @ [CHR 0x00] @ pane @ [CHR 0x00] @ payload"

definition payloadHash :: "(string \<Rightarrow> string) \<Rightarrow> op_kind \<Rightarrow> string \<Rightarrow> string \<Rightarrow> string" where
  "payloadHash sha256 kind pane payload = sha256 (payload_preimage kind pane payload)"

definition existingOperation ::
  "target \<Rightarrow> string \<Rightarrow> string \<Rightarrow> string \<Rightarrow> string \<Rightarrow> op_kind \<Rightarrow> tc_error + operation option" where
  "existingOperation t operationId ownerInstanceId fence hash kind =
     (case find (\<lambda>op. op_operationId op = operationId) (t_completedOperations t) of
        None \<Rightarrow> Inr None
      | Some existing \<Rightarrow>
          if op_payloadHash existing \<noteq> hash \<or> op_kind existing \<noteq> kind
          then Inl (protocol_error INVALID_REQUEST
                 ''operationId was reused with different ownership or payload'')
          else if op_disposition existing = InDoubt
          then Inl (protocol_error OPERATION_IN_DOUBT
                 ''operation was accepted previously but its backend disposition is uncertain'')
          else if op_ownerInstanceId existing \<noteq> ownerInstanceId \<or> op_fence existing \<noteq> fence
          then Inl (protocol_error INVALID_REQUEST
                 ''operationId was reused with different ownership or payload'')
          else Inr (Some existing))"

definition operationResult :: "tc_state \<Rightarrow> operation \<Rightarrow> bool \<Rightarrow> operation_result" where
  "operationResult s op deduplicated =
     \<lparr>or_operationId = op_operationId op, or_deduplicated = deduplicated,
      or_controlEpoch = s_controlEpoch s, or_fence = op_fence op,
      or_outputGeneration = op_outputGeneration op, or_outputCursor = op_outputCursor op\<rparr>"

section \<open>The operation journal\<close>

lemma set_remove_first: "set (remove_first p xs) \<subseteq> set xs"
  by (induction xs) auto

lemma remove_first_keeps: "x \<in> set xs \<Longrightarrow> \<not> p x \<Longrightarrow> x \<in> set (remove_first p xs)"
  by (induction xs) auto

lemma length_remove_first:
  "length (remove_first p xs) = (if \<exists>x \<in> set xs. p x then length xs - 1 else length xs)"
  by (induction xs) (auto dest: length_pos_if_in_set)

lemma distinct_map_remove_first: "distinct (map f xs) \<Longrightarrow> distinct (map f (remove_first p xs))"
  using set_remove_first by (induction xs) fastforce+

text \<open>Uncertain operations are never evicted from the journal.\<close>

lemma journal_keeps_in_doubt:
  "c \<in> set (ops @ [op]) \<Longrightarrow> op_disposition c = InDoubt \<Longrightarrow> c \<in> set (journal_append ops op)"
  by (simp add: journal_append_def Let_def) (auto intro!: remove_first_keeps)

lemma journal_append_subset: "set (journal_append ops op) \<subseteq> insert op (set ops)"
  using set_remove_first [of _ "ops @ [op]"] by (auto simp: journal_append_def Let_def)

definition in_doubt_count :: "operation list \<Rightarrow> nat" where
  "in_doubt_count ops = length (filter (\<lambda>c. op_disposition c = InDoubt) ops)"

lemma journal_append_length:
  "length ops \<le> max MAX_COMPLETED_OPERATIONS (in_doubt_count ops) \<Longrightarrow>
   length (journal_append ops op) \<le> max MAX_COMPLETED_OPERATIONS (in_doubt_count (journal_append ops op))"
proof -
  assume len: "length ops \<le> max MAX_COMPLETED_OPERATIONS (in_doubt_count ops)"
  show ?thesis
  proof (cases "length (ops @ [op]) \<le> MAX_COMPLETED_OPERATIONS")
    case True
    then show ?thesis by (simp add: journal_append_def Let_def)
  next
    case big: False
    let ?p = "\<lambda>c. op_disposition c = Committed"
    show ?thesis
    proof (cases "\<exists>c \<in> set (ops @ [op]). ?p c")
      case False
      then have "filter (\<lambda>c. op_disposition c = InDoubt) (remove_first ?p (ops @ [op])) = remove_first ?p (ops @ [op])"
        using set_remove_first [of ?p "ops @ [op]"] disposition.exhaust
        by (intro filter_True) blast
      with big show ?thesis
        by (simp add: journal_append_def Let_def in_doubt_count_def del: filter_append)
    next
      case True
      have "in_doubt_count (remove_first ?p xs) = in_doubt_count xs" for xs
        by (induction xs) (auto simp: in_doubt_count_def)
      moreover have "in_doubt_count ops \<le> in_doubt_count (ops @ [op])"
        by (simp add: in_doubt_count_def)
      moreover from True have "length (remove_first ?p (ops @ [op])) = length ops"
        by (simp add: length_remove_first del: set_append)
      ultimately show ?thesis
        using len big by (simp add: journal_append_def Let_def max_def split: if_splits)
    qed
  qed
qed

section \<open>Leases\<close>

lemmas lease_defs = validateLease_def ensureOperable_def sameInputOwnerClass_def isInteractiveOwner_def

lemma validateLease_iff:
  "validateLease s t l d = Inr () \<longleftrightarrow>
     t_lifecycle t = ACTIVE \<and> t_inFlight t = None
     \<and> l_controlTargetId l = t_controlTargetId t \<and> l_controlEpoch l = s_controlEpoch s
     \<and> \<not> is_Free (t_ownership t) \<and> (is_Draining (t_ownership t) \<longrightarrow> d)
     \<and> ow_leaseId (t_ownership t) = l_leaseId l \<and> ow_fence (t_ownership t) = l_fence l
     \<and> sameInputOwnerClass (ow_owner (t_ownership t)) (l_owner l)"
  by (cases "t_lifecycle t") (auto simp: validateLease_def ensureOperable_def)

lemma sameInputOwnerClass_refl [simp]: "sameInputOwnerClass w w"
  by (simp add: sameInputOwnerClass_def)

lemma sameInputOwnerClass_sym: "sameInputOwnerClass v w \<Longrightarrow> sameInputOwnerClass w v"
  by (auto simp: sameInputOwnerClass_def split: if_splits)

lemma sameInputOwnerClass_trans:
  "sameInputOwnerClass u v \<Longrightarrow> sameInputOwnerClass v w \<Longrightarrow> sameInputOwnerClass u w"
  by (auto simp: sameInputOwnerClass_def isInteractiveOwner_def split: if_splits)

text \<open>The lease a holder is given is the one that validates.\<close>

lemma leaseForOwner_valid:
  assumes "leaseForOwner s t w = Inr l" and "t_lifecycle t = ACTIVE" and "t_inFlight t = None"
  shows "validateLease s t l True = Inr ()"
  using assms
  by (cases "t_ownership t")
    (auto simp: leaseForOwner_def leaseFromTarget_def validateLease_iff split: if_splits)

lemma ownership_fields_markRecovery [simp]:
  "t_controlTargetId (markRecovery e t r pe oi a b c) = t_controlTargetId t"
  "t_lifecycle (markRecovery e t r pe oi a b c) = RECOVERY"
  "t_ownership (markRecovery e t r pe oi a b c) = Free (nextDecimal (ow_fence (t_ownership t)))"
  "t_managedSession (markRecovery e t r pe oi a b c) = t_managedSession t"
  "t_tmuxInstanceId (markRecovery e t r pe oi a b c) = t_tmuxInstanceId t"
  "t_outputGeneration (markRecovery e t r pe oi a b c) = t_outputGeneration t"
  "t_inFlight (markRecovery e t r pe oi a b c) = None"
  "t_recovery (markRecovery e t r pe oi a b c) \<noteq> None"
  "t_revision (markRecovery e t r pe oi a b c) = nextDecimal (t_revision t)"
  "t_updatedAt (markRecovery e t r pe oi a b c) = c"
  "t_completedOperations (markRecovery e t r pe oi a b c) =
     (case t_inFlight t of None \<Rightarrow> t_completedOperations t
      | Some i \<Rightarrow> journal_append (t_completedOperations t) (in_doubt_record i a))"
  by (simp_all add: markRecovery_def completeInFlightAsInDoubt_def appendOperation_def revision_def
      Let_def split: option.splits)

lemma ownership_fields_invalidate [simp]:
  "t_controlTargetId (invalidateTarget t a) = t_controlTargetId t"
  "t_lifecycle (invalidateTarget t a) = GONE"
  "t_ownership (invalidateTarget t a) = Free (nextDecimal (ow_fence (t_ownership t)))"
  "t_managedSession (invalidateTarget t a) = t_managedSession t"
  "t_tmuxInstanceId (invalidateTarget t a) = t_tmuxInstanceId t"
  "t_outputGeneration (invalidateTarget t a) = t_outputGeneration t"
  "t_inFlight (invalidateTarget t a) = None"
  "t_recovery (invalidateTarget t a) = None"
  "t_completedOperations (invalidateTarget t a) = []"
  "t_revision (invalidateTarget t a) = nextDecimal (t_revision t)"
  "t_updatedAt (invalidateTarget t a) = a"
  by (simp_all add: invalidateTarget_def revision_def)

lemma revision_fields [simp]:
  "t_controlTargetId (revision t) = t_controlTargetId t"
  "t_lifecycle (revision t) = t_lifecycle t"
  "t_ownership (revision t) = t_ownership t"
  "t_managedSession (revision t) = t_managedSession t"
  "t_tmuxInstanceId (revision t) = t_tmuxInstanceId t"
  "t_outputGeneration (revision t) = t_outputGeneration t"
  "t_inFlight (revision t) = t_inFlight t"
  "t_recovery (revision t) = t_recovery t"
  "t_completedOperations (revision t) = t_completedOperations t"
  "t_revision (revision t) = nextDecimal (t_revision t)"
  "t_updatedAt (revision t) = t_updatedAt t"
  by (simp_all add: revision_def)

end
