(* ===== verification/TC_Payload.thy ===== *)
theory TC_Payload
  imports TC_Store
begin

text \<open>
  The payload encodings of \<open>handleV1\<close> and \<open>executeInput\<close> in
  \<open>src/terminalControl/authority.ts\<close>. An input operation is journalled, hashed and dispatched as
  one string per kind: \<open>handleV1\<close> encodes the request's fields into it and \<open>executeInput\<close>
  decodes them again before it calls the backend. \<open>JSON.stringify\<close> and \<open>JSON.parse\<close> are modelled
  on the one object shape used here, the runtime settings.
\<close>

abbreviation NUL :: char where
  "NUL \<equiv> CHR 0x00"

section \<open>Newline normalisation\<close>

text \<open>\<open>message.replace(/\r\n/g, "\n").replace(/\r/g, "\n")\<close>\<close>

fun crlf_to_lf :: "string \<Rightarrow> string" where
  "crlf_to_lf [] = []"
| "crlf_to_lf [c] = [c]"
| "crlf_to_lf (c # d # cs) =
     (if c = CHR 0x0D \<and> d = CHR 0x0A then CHR 0x0A # crlf_to_lf cs else c # crlf_to_lf (d # cs))"

definition normalize_newlines :: "string \<Rightarrow> string" where
  "normalize_newlines s = map (\<lambda>c. if c = CHR 0x0D then CHR 0x0A else c) (crlf_to_lf s)"

section \<open>JSON strings\<close>

definition hex_char :: "nat \<Rightarrow> char" where
  "hex_char n = (if n < 10 then char_of (48 + n) else char_of (87 + n))"

definition hex_value :: "char \<Rightarrow> nat" where
  "hex_value c = (if is_digit c then of_char c - 48 else of_char c - 87)"

text \<open>One character of the output of \<open>JSON.stringify\<close> on a string.\<close>

definition json_escape :: "char \<Rightarrow> string" where
  "json_escape c =
     (if c = CHR 0x22 then [CHR 0x5C, CHR 0x22]
      else if c = CHR 0x5C then [CHR 0x5C, CHR 0x5C]
      else if c = CHR 0x08 then [CHR 0x5C, CHR ''b'']
      else if c = CHR 0x09 then [CHR 0x5C, CHR ''t'']
      else if c = CHR 0x0A then [CHR 0x5C, CHR ''n'']
      else if c = CHR 0x0C then [CHR 0x5C, CHR ''f'']
      else if c = CHR 0x0D then [CHR 0x5C, CHR ''r'']
      else if (of_char c :: nat) < 32
      then [CHR 0x5C, CHR ''u'', CHR ''0'', CHR ''0'', hex_char (of_char c div 16), hex_char (of_char c mod 16)]
      else [c])"

definition json_quote :: "string \<Rightarrow> string" where
  "json_quote s = CHR 0x22 # concat (map json_escape s) @ [CHR 0x22]"

text \<open>
  \<open>JSON.parse\<close> on the characters after an opening quote: the string and what follows the closing
  quote. Escapes \<open>\u00XX\<close> are the only \<open>\u\<close> escapes a string of this model has.
\<close>

fun json_string_body :: "string \<Rightarrow> (string \<times> string) option" where
  "json_string_body [] = None"
| "json_string_body (c # cs) =
     (if c = CHR 0x22 then Some ([], cs)
      else if c = CHR 0x5C then
        (case cs of
           [] \<Rightarrow> None
         | d # ds \<Rightarrow>
             (if d = CHR ''u'' then
                (case ds of
                   a # b # x # y # ds' \<Rightarrow>
                     (if a = CHR ''0'' \<and> b = CHR ''0'' then
                        map_option (\<lambda>(s, r). (char_of (16 * hex_value x + hex_value y) # s, r))
                          (json_string_body ds')
                      else None)
                 | _ \<Rightarrow> None)
              else
                (case map_of [(CHR 0x22, CHR 0x22), (CHR 0x5C, CHR 0x5C), (CHR ''/'', CHR ''/''),
                    (CHR ''b'', CHR 0x08), (CHR ''t'', CHR 0x09), (CHR ''n'', CHR 0x0A),
                    (CHR ''f'', CHR 0x0C), (CHR ''r'', CHR 0x0D)] d of
                   None \<Rightarrow> None
                 | Some e \<Rightarrow> map_option (\<lambda>(s, r). (e # s, r)) (json_string_body ds))))
      else if (of_char c :: nat) < 32 then None
      else map_option (\<lambda>(s, r). (c # s, r)) (json_string_body cs))"

section \<open>Runtime settings\<close>

fun effort_name :: "reasoning_effort \<Rightarrow> string" where
  "effort_name Low = ''low''"
| "effort_name Medium = ''medium''"
| "effort_name High = ''high''"
| "effort_name XHigh = ''xhigh''"
| "effort_name MaxEffort = ''max''"
| "effort_name Ultra = ''ultra''"

fun mode_name :: "runtime_mode \<Rightarrow> string" where
  "mode_name DefaultMode = ''default''"
| "mode_name PlanMode = ''plan''"

definition json_nullable :: "string option \<Rightarrow> string" where
  "json_nullable v = (case v of None \<Rightarrow> ''null'' | Some s \<Rightarrow> json_quote s)"

text \<open>\<open>JSON.stringify(request.runtime)\<close>, keys in the order \<open>agentRuntimeSettings\<close> gives them.\<close>

definition stringify_runtime :: "agent_runtime \<Rightarrow> string" where
  "stringify_runtime r =
     CHR ''{'' # json_quote ''model'' @ CHR '':'' # json_nullable (rt_model r)
     @ CHR '','' # json_quote ''reasoningEffort'' @ CHR '':'' # json_nullable (map_option effort_name (rt_reasoningEffort r))
     @ CHR '','' # json_quote ''mode'' @ CHR '':'' # json_quote (mode_name (rt_mode r)) @ [CHR ''}'']"

fun expect :: "string \<Rightarrow> string \<Rightarrow> string option" where
  "expect [] s = Some s"
| "expect (p # ps) [] = None"
| "expect (p # ps) (c # cs) = (if p = c then expect ps cs else None)"

definition parse_nullable :: "string \<Rightarrow> (string option \<times> string) option" where
  "parse_nullable s =
     (case expect ''null'' s of
        Some r \<Rightarrow> Some (None, r)
      | None \<Rightarrow>
          (case s of
             [] \<Rightarrow> None
           | c # cs \<Rightarrow>
               if c = CHR 0x22 then map_option (\<lambda>(v, r). (Some v, r)) (json_string_body cs) else None))"

definition effort_of_name :: "string \<Rightarrow> reasoning_effort option" where
  "effort_of_name s = find (\<lambda>e. effort_name e = s) [Low, Medium, High, XHigh, MaxEffort, Ultra]"

definition mode_of_name :: "string \<Rightarrow> runtime_mode option" where
  "mode_of_name s = find (\<lambda>e. mode_name e = s) [DefaultMode, PlanMode]"

definition parse_field :: "string \<Rightarrow> string \<Rightarrow> (string option \<times> string) option" where
  "parse_field k s =
     (case expect (json_quote k @ '':'') s of None \<Rightarrow> None | Some r \<Rightarrow> parse_nullable r)"

text \<open>\<open>JSON.parse\<close> of the runtime segment, read back as the settings it was written from.\<close>

definition parse_runtime :: "string \<Rightarrow> agent_runtime option" where
  "parse_runtime s =
     Option.bind (expect ''{'' s) (\<lambda>s1.
     Option.bind (parse_field ''model'' s1) (\<lambda>(model, s2).
     Option.bind (expect '','' s2) (\<lambda>s3.
     Option.bind (parse_field ''reasoningEffort'' s3) (\<lambda>(effort, s4).
     Option.bind (expect '','' s4) (\<lambda>s5.
     Option.bind (parse_field ''mode'' s5) (\<lambda>(mode, s6).
     Option.bind (case effort of None \<Rightarrow> Some None | Some e \<Rightarrow> map_option Some (effort_of_name e)) (\<lambda>e.
     Option.bind (case mode of None \<Rightarrow> None | Some m \<Rightarrow> mode_of_name m) (\<lambda>m.
     if s6 = ''}'' then Some \<lparr>rt_model = model, rt_reasoningEffort = e, rt_mode = m\<rparr> else None))))))))"

section \<open>Agent messages\<close>

definition encode_agent_message :: "string \<Rightarrow> bool \<Rightarrow> agent_runtime option \<Rightarrow> string" where
  "encode_agent_message message submit runtime =
     normalize_newlines message @ [NUL] @ (if submit then ''1'' else ''0'')
     @ (case runtime of None \<Rightarrow> [] | Some r \<Rightarrow> NUL # stringify_runtime r)"

text \<open>
  \<open>const i = s.lastIndexOf("\0")\<close> with \<open>s.slice(0, i)\<close> and \<open>s.slice(i + 1)\<close>. When there is no
  separator \<open>lastIndexOf\<close> is -1: \<open>slice(0, -1)\<close> drops the last character and \<open>slice(0)\<close> is
  the whole string.
\<close>

definition split_last_nul :: "string \<Rightarrow> string \<times> string" where
  "split_last_nul s =
     (if NUL \<in> set s
      then (rev (tl (dropWhile (\<lambda>c. c \<noteq> NUL) (rev s))), rev (takeWhile (\<lambda>c. c \<noteq> NUL) (rev s)))
      else (butlast s, s))"

definition decode_agent_message :: "string \<Rightarrow> (string \<times> bool \<times> agent_runtime option) option" where
  "decode_agent_message encoded =
     (let (before, finalSegment) = split_last_nul encoded
      in case finalSegment of
           CHR ''{'' # _ \<Rightarrow>
             (case parse_runtime finalSegment of
                None \<Rightarrow> None
              | Some r \<Rightarrow>
                  (let (message, submit) = split_last_nul before in Some (message, submit = ''1'', Some r)))
         | _ \<Rightarrow>
             (let (message, submit) = split_last_nul encoded in Some (message, submit = ''1'', None)))"

section \<open>Scroll and resize payloads\<close>

definition int_string :: "int \<Rightarrow> string" where
  "int_string n = (if n < 0 then CHR ''-'' # decimal_string (nat (- n)) else decimal_string (nat n))"

fun direction_name :: "scroll_direction \<Rightarrow> string" where
  "direction_name Up = ''up''"
| "direction_name Down = ''down''"

definition encode_scroll :: "scroll_direction \<Rightarrow> int \<Rightarrow> string" where
  "encode_scroll d n = direction_name d @ '':'' @ int_string n"

definition encode_resize :: "int \<Rightarrow> int \<Rightarrow> string" where
  "encode_resize cols rows = int_string cols @ ''x'' @ int_string rows"

definition parse_digits :: "string \<Rightarrow> int option" where
  "parse_digits s = (if s \<noteq> [] \<and> list_all is_digit s then Some (int (decimal_value s)) else None)"

text \<open>\<open>/^(up|down):(\d+)$/\<close> and \<open>/^(\d+)x(\d+)$/\<close> with \<open>Number\<close> of the groups.\<close>

definition decode_scroll :: "string \<Rightarrow> (scroll_direction \<times> int) option" where
  "decode_scroll s =
     (case expect ''up:'' s of
        Some r \<Rightarrow> map_option (Pair Up) (parse_digits r)
      | None \<Rightarrow> Option.bind (expect ''down:'' s) (\<lambda>r. map_option (Pair Down) (parse_digits r)))"

definition decode_resize :: "string \<Rightarrow> (int \<times> int) option" where
  "decode_resize s =
     (let cols = takeWhile is_digit s; rest = dropWhile is_digit s
      in Option.bind (parse_digits cols) (\<lambda>c.
         Option.bind (expect ''x'' rest) (\<lambda>r. map_option (Pair c) (parse_digits r))))"

section \<open>Round trips\<close>

lemma expect_append [simp]: "expect p (p @ s) = Some s"
  by (induction p) auto

lemma hex_value_char [simp]: "n < 16 \<Longrightarrow> hex_value (hex_char n) = n"
  by (simp add: hex_value_def hex_char_def is_digit_def)

lemma json_string_body_escape:
  "json_string_body (json_escape c @ s) = map_option (\<lambda>(v, r). (c # v, r)) (json_string_body s)"
proof -
  have "(of_char c :: nat) < 32 \<Longrightarrow>
      char_of (16 * hex_value (hex_char (of_char c div 16)) + hex_value (hex_char (of_char c mod 16))) = c"
    by simp
  then show ?thesis by (simp add: json_escape_def)
qed

lemma json_string_body_quote:
  "json_string_body (concat (map json_escape v) @ CHR 0x22 # r) = Some (v, r)"
  by (induction v) (simp_all add: json_string_body_escape)

lemma parse_nullable_append [simp]: "parse_nullable (json_nullable v @ r) = Some (v, r)"
  by (cases v)
    (simp_all add: parse_nullable_def json_nullable_def json_quote_def json_string_body_quote)

lemma parse_quoted [simp]: "parse_nullable (json_quote v @ r) = Some (Some v, r)"
  using parse_nullable_append [of "Some v" r] by (simp add: json_nullable_def)

lemma parse_field_append [simp]:
  "parse_field k (json_quote k @ CHR '':'' # json_nullable v @ r) = Some (v, r)"
  "parse_field k (json_quote k @ CHR '':'' # json_quote u @ r) = Some (Some u, r)"
  using expect_append [of "json_quote k @ '':''" "json_nullable v @ r"]
    expect_append [of "json_quote k @ '':''" "json_quote u @ r"]
  by (simp_all add: parse_field_def)

lemma effort_of_name_name [simp]: "effort_of_name (effort_name e) = Some e"
  by (cases e) (simp_all add: effort_of_name_def)

lemma mode_of_name_name [simp]: "mode_of_name (mode_name m) = Some m"
  by (cases m) (simp_all add: mode_of_name_def)

lemma parse_stringify_runtime [simp]: "parse_runtime (stringify_runtime r) = Some r"
  by (cases "rt_reasoningEffort r") (simp_all add: parse_runtime_def stringify_runtime_def)

text \<open>The serialised settings contain no NUL, which \<open>JSON.stringify\<close> escapes.\<close>

lemma hex_char_not_nul: "n < 16 \<Longrightarrow> hex_char n \<noteq> NUL"
proof
  assume "n < 16" and "hex_char n = NUL"
  then have "(of_char (hex_char n) :: nat) = of_char NUL" by simp
  with \<open>n < 16\<close> show False by (simp add: hex_char_def split: if_splits)
qed

lemma json_escape_no_nul: "NUL \<notin> set (json_escape c)"
  by (cases "c = NUL") (auto simp: json_escape_def hex_char_not_nul [symmetric])

lemma json_quote_no_nul [simp]: "NUL \<notin> set (json_quote s)"
  by (simp add: json_quote_def json_escape_no_nul)

lemma json_nullable_no_nul [simp]: "NUL \<notin> set (json_nullable v)"
  by (simp add: json_nullable_def split: option.split)

lemma stringify_runtime_no_nul: "NUL \<notin> set (stringify_runtime r)"
  by (simp add: stringify_runtime_def)

lemma stringify_runtime_brace: "\<exists>cs. stringify_runtime r = CHR ''{'' # cs"
  by (simp add: stringify_runtime_def)

lemma split_last_nul_append: "NUL \<notin> set b \<Longrightarrow> split_last_nul (a @ NUL # b) = (a, b)"
  by (simp add: split_last_nul_def dropWhile_append takeWhile_append takeWhile_eq_all_conv)

lemma decode_encode_agent_message:
  "decode_agent_message (encode_agent_message m submit r) = Some (normalize_newlines m, submit, r)"
proof (cases r)
  case None
  have "split_last_nul (normalize_newlines m @ NUL # (if submit then ''1'' else ''0''))
      = (normalize_newlines m, if submit then ''1'' else ''0'')"
    by (rule split_last_nul_append) simp
  with None show ?thesis
    by (cases submit) (simp_all add: decode_agent_message_def encode_agent_message_def)
next
  case (Some rt)
  obtain cs where cs: "stringify_runtime rt = CHR ''{'' # cs" using stringify_runtime_brace by blast
  have 1: "split_last_nul ((normalize_newlines m @ NUL # (if submit then ''1'' else ''0'')) @ NUL # stringify_runtime rt)
      = (normalize_newlines m @ NUL # (if submit then ''1'' else ''0''), stringify_runtime rt)"
    by (rule split_last_nul_append) (rule stringify_runtime_no_nul)
  have 2: "split_last_nul (normalize_newlines m @ NUL # (if submit then ''1'' else ''0''))
      = (normalize_newlines m, if submit then ''1'' else ''0'')"
    by (rule split_last_nul_append) simp
  have "parse_runtime (CHR ''{'' # cs) = Some rt" using cs parse_stringify_runtime [of rt] by simp
  with Some cs 1 2 show ?thesis
    by (cases submit) (simp_all add: decode_agent_message_def encode_agent_message_def)
qed

text \<open>Normalised messages contain no carriage return, and normalising again changes nothing.\<close>

lemma crlf_to_lf_id: "CHR 0x0D \<notin> set s \<Longrightarrow> crlf_to_lf s = s"
  by (induction s rule: crlf_to_lf.induct) auto

lemma normalize_newlines_no_cr: "CHR 0x0D \<notin> set (normalize_newlines s)"
  by (auto simp: normalize_newlines_def)

lemma normalize_newlines_idem: "normalize_newlines (normalize_newlines s) = normalize_newlines s"
proof -
  have "crlf_to_lf (normalize_newlines s) = normalize_newlines s"
    by (rule crlf_to_lf_id) (rule normalize_newlines_no_cr)
  then show ?thesis
    using normalize_newlines_no_cr [of s]
    by (subst normalize_newlines_def) (auto intro: map_idI)
qed

lemma decimal_string_digits: "list_all is_digit (decimal_string n)"
proof (induction n rule: decimal_string.induct)
  case (1 n)
  then show ?case
    by (cases "n < 10") (simp_all add: decimal_string.simps [of n])
qed

lemma decimal_string_nonempty: "decimal_string n \<noteq> []"
  by (subst decimal_string.simps) simp

lemma parse_digits_string [simp]: "parse_digits (decimal_string n) = Some (int n)"
  by (simp add: parse_digits_def decimal_string_digits decimal_string_nonempty)

lemma decode_encode_scroll: "0 \<le> n \<Longrightarrow> decode_scroll (encode_scroll d n) = Some (d, n)"
  by (cases d) (simp_all add: decode_scroll_def encode_scroll_def int_string_def)

lemma decode_encode_resize:
  assumes "0 \<le> c" and "0 \<le> r"
  shows "decode_resize (encode_resize c r) = Some (c, r)"
proof -
  have d: "\<forall>x \<in> set (decimal_string n). is_digit x" for n
    using decimal_string_digits [of n] by (simp add: list_all_iff)
  have x: "\<not> is_digit CHR ''x''" by (simp add: is_digit_def)
  show ?thesis
    using assms d x by (simp add: decode_resize_def encode_resize_def int_string_def Let_def
        takeWhile_append2 dropWhile_append2)
qed

end
