(* ===== verification/TC_Records.thy ===== *)
theory TC_Records
  imports TC_Target TC_Payload
begin

text \<open>
  Properties of the durable records and of the operation payloads on their own: counters,
  compaction, the journal, and the identity of an operation.
\<close>

section \<open>Compaction\<close>

lemma sort_cmp_filter_length: "length (sort_cmp c (filter p xs)) \<le> length xs"
  by simp

lemma compact_gone_subset:
  "t_controlTargetId ` {t \<in> set (s_targets (compact_state lc s)). t_lifecycle t = GONE} \<subseteq> set (retainedGoneIds lc s)"
  by (auto simp: compact_state_def compact_target_def split: if_splits)

lemma retained_length: "length (retainedGoneIds lc s) \<le> TERMINAL_CONTROL_MAX_RETIRED_TARGETS"
  by (simp add: retainedGoneIds_def)

lemma compact_filter_live:
  "filter (\<lambda>t. t_lifecycle t \<noteq> GONE) (concat (map (compact_target keep) ts)) = filter (\<lambda>t. t_lifecycle t \<noteq> GONE) ts"
  by (induction ts) (auto simp: compact_target_def)

lemma compact_gone_count:
  assumes "valid_state s"
  shows "length (filter (\<lambda>t. t_lifecycle t = GONE) (s_targets (compact_state lc s))) \<le> TERMINAL_CONTROL_MAX_RETIRED_TARGETS"
proof -
  let ?g = "filter (\<lambda>t. t_lifecycle t = GONE) (s_targets (compact_state lc s))"
  have "distinct (map t_controlTargetId (s_targets (compact_state lc s)))"
    using compact_state_valid [OF assms, of lc] by (simp add: valid_state_iff)
  then have "distinct (map t_controlTargetId ?g)" by (simp add: distinct_map_filter)
  then have "length ?g = card (set (map t_controlTargetId ?g))" by (metis distinct_card length_map)
  also have "\<dots> \<le> card (set (retainedGoneIds lc s))"
    using compact_gone_subset [of lc s] by (intro card_mono) auto
  also have "\<dots> \<le> TERMINAL_CONTROL_MAX_RETIRED_TARGETS"
    using card_length [of "retainedGoneIds lc s"] retained_length [of lc s] by linarith
  finally show ?thesis .
qed

lemma compact_gone_journal: "t \<in> set (s_targets (compact_state lc s)) \<Longrightarrow> t_lifecycle t = GONE \<Longrightarrow> t_completedOperations t = []"
  by (auto simp: compact_state_def compact_target_def split: if_splits)

text \<open>
  C9. What a save writes: exactly the live targets, in their order and unchanged, and at most 64
  retired ones, without their journals; the written state passes the validator that guards
  the next load.
\<close>

theorem save_compacts:
  assumes "prepared_save lc s = Inr c"
  shows "filter (\<lambda>t. t_lifecycle t \<noteq> GONE) (s_targets c) = filter (\<lambda>t. t_lifecycle t \<noteq> GONE) (s_targets s)
     \<and> length (filter (\<lambda>t. t_lifecycle t = GONE) (s_targets c)) \<le> 64
     \<and> (\<forall>t \<in> set (s_targets c). t_lifecycle t = GONE \<longrightarrow> t_completedOperations t = [])
     \<and> s_controlEpoch c = s_controlEpoch s \<and> parseTerminalControlState c = Inr c"
proof -
  from prepared_save_InrD [OF assms] have v: "valid_state s" and c: "c = compact_state lc s" by auto
  show ?thesis
    unfolding c
    using compact_gone_count [OF v, of lc] compact_state_valid [OF v, of lc] compact_gone_journal [of _ lc s]
    by (auto simp: compact_state_def compact_filter_live TERMINAL_CONTROL_MAX_RETIRED_TARGETS_def)
qed

lemma retained_all:
  assumes "length (filter (\<lambda>t. t_lifecycle t = GONE) (s_targets s)) \<le> TERMINAL_CONTROL_MAX_RETIRED_TARGETS"
    and "t \<in> set (s_targets s)" and "t_lifecycle t = GONE"
  shows "t_controlTargetId t \<in> set (retainedGoneIds lc s)"
  using assms by (simp add: retainedGoneIds_def)

lemma compact_id:
  "(\<And>t. t \<in> set ts \<Longrightarrow> t_lifecycle t = GONE \<Longrightarrow> t_controlTargetId t \<in> set keep \<and> t_completedOperations t = []) \<Longrightarrow>
   concat (map (compact_target keep) ts) = ts"
  by (induction ts) (auto simp: compact_target_def)

text \<open>
  Compaction is idempotent: saving the state that a save wrote, as the next locked operation
  does after loading it, writes the very same state.
\<close>

theorem save_idempotent:
  assumes "prepared_save lc s = Inr c"
  shows "prepared_save lc c = Inr c"
proof -
  from prepared_save_InrD [OF assms] have v: "valid_state s" and c: "c = compact_state lc s" by auto
  have "compact_state lc c = c"
    using compact_id [of "s_targets c" "retainedGoneIds lc c"] retained_all [of c _ lc]
      compact_gone_count [OF v, of lc] compact_gone_journal [of _ lc s]
    by (simp add: c compact_state_def [of lc "compact_state lc s"])
  with compact_state_valid [OF v, of lc] show ?thesis by (simp add: c prepared_save_valid)
qed

section \<open>The identity of an operation\<close>

lemma append_nul_inject:
  assumes "a @ [CHR 0x00] @ b = a' @ [CHR 0x00] @ b'" and "CHR 0x00 \<notin> set a" and "CHR 0x00 \<notin> set a'"
  shows "a = a' \<and> b = b'"
  using assms
proof (induction a arbitrary: a')
  case Nil
  then show ?case by (cases a') auto
next
  case (Cons x xs)
  then show ?case by (cases a') auto
qed

lemma op_kind_name_inject: "op_kind_name k = op_kind_name k' \<Longrightarrow> k = k'"
  by (cases k; cases k') simp_all

lemma op_kind_name_no_nul: "CHR 0x00 \<notin> set (op_kind_name k)"
  by (cases k) simp_all

text \<open>
  The bytes an operation is hashed over identify it: on panes whose names have no NUL, two
  operations have the same preimage only if they are of the same kind, on the same pane, with the
  same payload. So \<open>operationId was reused\<close> is reported for every difference the digest tells apart.
\<close>

theorem payload_preimage_identifies:
  assumes "CHR 0x00 \<notin> set pane" and "CHR 0x00 \<notin> set pane'"
  shows "payload_preimage k pane payload = payload_preimage k' pane' payload'
     \<longleftrightarrow> k = k' \<and> pane = pane' \<and> payload = payload'"
proof
  assume "payload_preimage k pane payload = payload_preimage k' pane' payload'"
  then have "op_kind_name k @ [CHR 0x00] @ (pane @ [CHR 0x00] @ payload)
      = op_kind_name k' @ [CHR 0x00] @ (pane' @ [CHR 0x00] @ payload')"
    by (simp add: payload_preimage_def)
  from append_nul_inject [OF this op_kind_name_no_nul op_kind_name_no_nul]
  have "k = k'" and rest: "pane @ [CHR 0x00] @ payload = pane' @ [CHR 0x00] @ payload'"
    by (auto dest: op_kind_name_inject)
  with append_nul_inject [OF rest assms] show "k = k' \<and> pane = pane' \<and> payload = payload'" by simp
qed simp

section \<open>The journal\<close>

text \<open>
  The journal of completed operations is bounded without ever forgetting an uncertain one:
  appending an operation keeps every in-doubt record, adds nothing but that operation, and leaves
  at most 128 records unless more than that are themselves in doubt.
\<close>

theorem journal_is_bounded:
  assumes "length ops \<le> max 128 (in_doubt_count ops)"
  shows "length (journal_append ops op) \<le> max 128 (in_doubt_count (journal_append ops op))
     \<and> set (journal_append ops op) \<subseteq> insert op (set ops)
     \<and> (\<forall>c \<in> set (ops @ [op]). op_disposition c = InDoubt \<longrightarrow> c \<in> set (journal_append ops op))"
  using journal_append_length [of ops op] assms journal_append_subset [of ops op] journal_keeps_in_doubt [of _ ops op]
  by (auto simp: MAX_COMPLETED_OPERATIONS_def)

section \<open>Payloads\<close>

text \<open>
  What the terminal receives is what the client sent: an agent message (its newlines
  normalised, whatever characters it contains, with its submit flag and runtime settings), a
  scroll and a resize are recovered exactly from the payload string they are journalled as.
\<close>

theorem input_payloads_round_trip:
  "decode_agent_message (encode_agent_message m submit runtime) = Some (normalize_newlines m, submit, runtime)
   \<and> (0 \<le> n \<longrightarrow> decode_scroll (encode_scroll d n) = Some (d, n))
   \<and> (0 \<le> cols \<and> 0 \<le> rows \<longrightarrow> decode_resize (encode_resize cols rows) = Some (cols, rows))"
  by (simp add: decode_encode_agent_message decode_encode_scroll decode_encode_resize)

end
