(* ===== verification/TC_World.thy ===== *)
theory TC_World
  imports TC_Target TC_Payload
begin

text \<open>
  The state a \<open>TerminalControlAuthority\<close> object works on and the collaborators it calls.

  \<^item> \<open>platform\<close> collects what is outside the authority: the clock, the UUID generator, the digests
    of \<open>node:crypto\<close>, the store lock and the file system underneath \<open>saveTerminalControlState\<close>,
    and the methods of the \<open>TerminalControlBackend\<close> interface (tmux). Each is a function on an
    environment state \<open>'b\<close> and may fail; nothing is assumed about any of them here.
  \<^item> \<open>world\<close> is the durable file, the working copy a locked operation mutates, the fields of the
    authority object, and the environment. \<open>w_trace\<close> is a ghost field: the calls that type into
    or close a terminal, each with the durable file as it was when the call was made.
  \<^item> The operations of \<open>store.ts\<close> that touch the file: load, save and the locked section.
\<close>

section \<open>Relay v2 exact targets: data\<close>

datatype process_kind = LocalProcess | SshProcess

record process_target =
  pt_kind :: process_kind
  pt_targetId :: string

record exact_input =
  xi_hostId :: string
  xi_scopeId :: string
  xi_sessionId :: string
  xi_pane :: int
  xi_processTarget :: process_target
  xi_backendInstanceKey :: string
  xi_name :: string
  xi_kind :: session_kind
  xi_incarnation :: string
  xi_owner :: owner

record exact_identity =
  id_controlTargetId :: string
  id_controlEpoch :: string
  id_targetIncarnationProof :: string

text \<open>What the backend observes of an exact target; \<open>eo_tmuxInstanceId\<close> may be \<open>null\<close>.\<close>

record exact_observation =
  eo_managedSession :: managed_session
  eo_managedIncarnation :: string
  eo_paneIdentity :: string
  eo_tmuxInstanceId :: "string option"

datatype claim_state = Prepared | Admitted | Consumed | Revoked

record claim_record =
  cl_preparationId :: string
  cl_input :: exact_input
  cl_identity :: exact_identity
  cl_lease :: lease
  cl_externalEpoch :: int
  cl_targetExternalEpoch :: int
  cl_state :: claim_state

record external_state =
  xs_epoch :: int
  xs_operations :: int
  xs_lastTouchedMs :: timestamp

record observation_record =
  ob_controlTargetId :: string
  ob_controlEpoch :: string
  ob_targetIncarnationProof :: string
  ob_outputGeneration :: string
  ob_pane :: string
  ob_open :: bool

section \<open>Collaborators\<close>

text \<open>A collaborator's method: it may throw, and it may change the environment.\<close>

type_synonym ('b, 'a) call = "'b \<Rightarrow> (tc_error + 'a) \<times> 'b"

text \<open>
  Writing the temporary file, renaming it over the state file and syncing the directory: all
  done, or a file operation failed before or after the rename took effect.
\<close>

text \<open>
  The synchronous part of a request that another task of the same process starts or finishes
  while this one awaits: the fences it publishes before it queues for the store lock.
\<close>

datatype interference =
    ExternalBegins
  | ExternalEnds
  | TargetExternalBegins string timestamp timestamp
  | TargetExternalEnds string

text \<open>What the incarnation proof of an exact target is a digest of.\<close>

record proof_fields =
  pf_request :: exact_input
  pf_controlEpoch :: string
  pf_controlTargetId :: string
  pf_targetRevision :: string
  pf_targetCreatedAt :: timestamp
  pf_tmuxInstanceId :: string
  pf_outputGeneration :: string
  pf_paneIdentity :: string

text \<open>The backend's view of an exact input.\<close>

record exact_backend_input =
  bi_managedName :: string
  bi_managedKind :: session_kind
  bi_managedIncarnation :: string
  bi_pane :: int

datatype persist_outcome = Persisted | PersistFailed bool tc_error

record 'b platform =
  p_statePath :: string
  p_now :: "'b \<Rightarrow> timestamp \<times> 'b"
  p_randomUUID :: "'b \<Rightarrow> string \<times> 'b"
  p_sha256 :: "string \<Rightarrow> string"
  p_sha256json :: "hash_field list \<Rightarrow> string"
  p_localeCompare :: "string \<Rightarrow> string \<Rightarrow> int"
  p_acquireLock :: "('b, unit) call"
  p_persist :: "tc_state \<Rightarrow> 'b \<Rightarrow> persist_outcome \<times> 'b"
  p_resolveManagedSession :: "string \<Rightarrow> ('b, managed_session \<times> string) call"
  p_assertCurrent :: "managed_session \<Rightarrow> string \<Rightarrow> ('b, unit) call"
  p_prepareOutput :: "string \<Rightarrow> string \<Rightarrow> string \<Rightarrow> string \<Rightarrow> bool \<Rightarrow> ('b, output_position) call"
  p_resetOutput :: "string \<Rightarrow> string \<Rightarrow> string \<Rightarrow> string \<Rightarrow> ('b, output_position) call"
  p_recoverOutput :: "string \<Rightarrow> string \<Rightarrow> string \<Rightarrow> string \<Rightarrow> string \<Rightarrow> ('b, output_position) call"
  p_tailOutput :: "string \<Rightarrow> string \<Rightarrow> string \<Rightarrow> string \<Rightarrow> int \<Rightarrow> int \<Rightarrow> ('b, output_chunk) call"
  p_writeRaw :: "string \<Rightarrow> string \<Rightarrow> string \<Rightarrow> ('b, unit) call"
  p_rawInputPosition :: "(string \<Rightarrow> string \<Rightarrow> ('b, output_position) call) option"
  p_writeRawFenced :: "(managed_session \<Rightarrow> string \<Rightarrow> string \<Rightarrow> string \<Rightarrow> string \<Rightarrow> ('b, unit) call) option"
  p_sendAgentMessage :: "string \<Rightarrow> string \<Rightarrow> string \<Rightarrow> bool \<Rightarrow> ('b, unit) call"
  p_sendAgentMessageFenced :: "(managed_session \<Rightarrow> string \<Rightarrow> string \<Rightarrow> string \<Rightarrow> string \<Rightarrow> bool
      \<Rightarrow> agent_runtime option \<Rightarrow> ('b, unit) call) option"
  p_scroll :: "string \<Rightarrow> string \<Rightarrow> scroll_direction \<Rightarrow> int \<Rightarrow> ('b, unit) call"
  p_resize :: "string \<Rightarrow> string \<Rightarrow> int \<Rightarrow> int \<Rightarrow> ('b, unit) call"
  p_killManaged :: "string \<Rightarrow> ('b, unit) call"
  p_captureRenderedSnapshot :: "managed_session \<Rightarrow> string \<Rightarrow> string \<Rightarrow> string \<Rightarrow> int \<Rightarrow> ('b, string \<times> bool) call"
  p_agentStatus :: "managed_session \<Rightarrow> string \<Rightarrow> string \<Rightarrow> string \<Rightarrow> ('b, agent_activity) call"
  p_agentResult :: "managed_session \<Rightarrow> string \<Rightarrow> string \<Rightarrow> string \<Rightarrow> agent_source \<Rightarrow> int \<Rightarrow> ('b, agent_result) call"
  p_relayV2ProcessTarget :: "process_target option"
  p_relayV2ExactTargetTtlMs :: int
  p_proofDigest :: "proof_fields \<Rightarrow> string"
  p_interference :: "'b \<Rightarrow> interference list \<times> 'b"
  p_inspectExactTarget :: "(exact_backend_input \<Rightarrow> ('b, exact_observation) call) option"
  p_observeExactTarget :: "(exact_backend_input \<Rightarrow> ('b, exact_observation) call) option"
  p_establishExactTarget :: "(exact_backend_input \<Rightarrow> ('b, exact_observation) call) option"

section \<open>The world\<close>

text \<open>The state file: absent, unreadable as a state (the parse error), or a state.\<close>

datatype disk = NoFile | BadFile string | StateFile tc_state

text \<open>The backend calls that reach into a terminal.\<close>

datatype effect =
    WriteRaw string string string
  | WriteRawFenced managed_session string string string string
  | SendAgentMessage string string string bool
  | SendAgentMessageFenced managed_session string string string string bool "agent_runtime option"
  | Scroll string string scroll_direction int
  | Resize string string int int
  | KillManaged string

record 'b world =
  w_disk :: disk
  w_work :: tc_state
  w_interactiveOwners :: "string \<Rightarrow> owner option"
  w_claims :: "(nat \<times> claim_record) list"
  w_observations :: "(nat \<times> observation_record) list"
  w_observersByTarget :: "string \<Rightarrow> nat list"
  w_targetExternalStates :: "(string \<times> external_state) list"
  w_externalEpoch :: int
  w_externalOperations :: int
  w_exactClosed :: bool
  w_nextHandle :: nat
  w_env :: 'b
  w_trace :: "(effect \<times> disk) list"

type_synonym ('b, 'a) tc = "('b world, tc_error, 'a) em"

section \<open>Calling out\<close>

definition envE :: "('b \<Rightarrow> 'a \<times> 'b) \<Rightarrow> ('b, 'a) tc" where
  "envE f = (\<lambda>w. let (a, b) = f (w_env w) in (Inr a, w\<lparr>w_env := b\<rparr>))"

definition callE :: "('b, 'a) call \<Rightarrow> ('b, 'a) tc" where
  "callE f = (\<lambda>w. let (r, b) = f (w_env w) in (r, w\<lparr>w_env := b\<rparr>))"

definition effectE :: "effect \<Rightarrow> ('b, 'a) call \<Rightarrow> ('b, 'a) tc" where
  "effectE e f = thenE (modifyE (\<lambda>w. w\<lparr>w_trace := w_trace w @ [(e, w_disk w)]\<rparr>)) (callE f)"

abbreviation nowE :: "'b platform \<Rightarrow> ('b, timestamp) tc" where
  "nowE P \<equiv> envE (p_now P)"

abbreviation randomUUID :: "'b platform \<Rightarrow> ('b, string) tc" where
  "randomUUID P \<equiv> envE (p_randomUUID P)"

section \<open>The durable store\<close>

definition emptyTerminalControlState :: "'b platform \<Rightarrow> ('b, tc_state) tc" where
  "emptyTerminalControlState P =
     bindE (randomUUID P) (\<lambda>u. retE \<lparr>s_controlEpoch = u, s_targets = []\<rparr>)"

definition invalid_state_error :: "'b platform \<Rightarrow> string \<Rightarrow> tc_error" where
  "invalid_state_error P m =
     protocol_error RECOVERY_REQUIRED
       (''refusing to use invalid terminal-control state '' @ p_statePath P
        @ ''; original file preserved: '' @ m)"

definition loadTerminalControlState :: "'b platform \<Rightarrow> ('b, tc_state) tc" where
  "loadTerminalControlState P =
     bindE (getsE w_disk) (\<lambda>d.
       case d of
         NoFile \<Rightarrow> emptyTerminalControlState P
       | BadFile m \<Rightarrow> throwE (invalid_state_error P m)
       | StateFile s \<Rightarrow>
           (case parseTerminalControlState s of
              Inl e \<Rightarrow> throwE (invalid_state_error P (error_message e))
            | Inr s' \<Rightarrow> retE s'))"

definition saveTerminalControlState :: "'b platform \<Rightarrow> ('b, unit) tc" where
  "saveTerminalControlState P =
     bindE (getsE w_work) (\<lambda>s.
       case prepared_save (p_localeCompare P) s of
         Inl e \<Rightarrow> throwE e
       | Inr c \<Rightarrow>
           bindE (envE (p_persist P c)) (\<lambda>outcome.
             case outcome of
               Persisted \<Rightarrow> modifyE (\<lambda>w. w\<lparr>w_disk := StateFile c\<rparr>)
             | PersistFailed renamed e \<Rightarrow>
                 thenE (whenE renamed (modifyE (\<lambda>w. w\<lparr>w_disk := StateFile c\<rparr>))) (throwE e)))"

text \<open>
  \<open>locked\<close>: the store lock is taken, the file is loaded into a fresh working copy, the operation
  runs on it, the lock is released. The lock makes locked sections of all processes sequential,
  so within one section nothing else writes the file.
\<close>

definition locked :: "'b platform \<Rightarrow> ('b, 'a) tc \<Rightarrow> ('b, 'a) tc" where
  "locked P operation =
     thenE (callE (p_acquireLock P))
       (bindE (loadTerminalControlState P) (\<lambda>s.
         thenE (modifyE (\<lambda>w. w\<lparr>w_work := s\<rparr>)) operation))"

section \<open>The target an operation works on\<close>

text \<open>
  The source holds a reference to one element of \<open>state.targets\<close> and writes through it. The
  model names the element by its \<open>controlTargetId\<close>, which is unique in a loaded state.
\<close>

definition targetE :: "string \<Rightarrow> ('b, target) tc" where
  "targetE i = bindE (getsE w_work) (\<lambda>s. liftE (targetById s i))"

definition upd_target :: "string \<Rightarrow> (target \<Rightarrow> target) \<Rightarrow> tc_state \<Rightarrow> tc_state" where
  "upd_target i f s = s\<lparr>s_targets := update_first (\<lambda>t. t_controlTargetId t = i) f (s_targets s)\<rparr>"

definition modTarget :: "string \<Rightarrow> (target \<Rightarrow> target) \<Rightarrow> ('b, unit) tc" where
  "modTarget i f = modifyE (\<lambda>w. w\<lparr>w_work := upd_target i f (w_work w)\<rparr>)"

text \<open>\<open>revision(target); target.updatedAt = isoNow(this.now)\<close>\<close>

definition touchE :: "'b platform \<Rightarrow> string \<Rightarrow> ('b, unit) tc" where
  "touchE P i = bindE (nowE P) (\<lambda>n. modTarget i (\<lambda>t. (revision t)\<lparr>t_updatedAt := n\<rparr>))"

definition markRecoveryE ::
  "'b platform \<Rightarrow> string \<Rightarrow> recovery_reason \<Rightarrow> string option \<Rightarrow> string option \<Rightarrow> ('b, unit) tc" where
  "markRecoveryE P i reason previousControlEpoch operationId =
     bindE (targetE i) (\<lambda>t.
     bindE (if t_inFlight t = None then retE 0 else nowE P) (\<lambda>tc.
     bindE (nowE P) (\<lambda>ts.
     bindE (nowE P) (\<lambda>tu.
     bindE (getsE w_work) (\<lambda>s.
       modTarget i (\<lambda>t. markRecovery (s_controlEpoch s) t reason previousControlEpoch operationId tc ts tu))))))"

definition invalidateTargetE :: "'b platform \<Rightarrow> string \<Rightarrow> ('b, unit) tc" where
  "invalidateTargetE P i = bindE (nowE P) (\<lambda>n. modTarget i (\<lambda>t. invalidateTarget t n))"

definition leaseExpiredE :: "'b platform \<Rightarrow> target \<Rightarrow> ('b, bool) tc" where
  "leaseExpiredE P t =
     (if is_Free (t_ownership t) then retE False
      else bindE (nowE P) (\<lambda>n. retE (leaseExpired t n)))"

section \<open>Interactive producers\<close>

definition registerInteractiveOwner :: "string \<Rightarrow> owner \<Rightarrow> ('b, unit) tc" where
  "registerInteractiveOwner i w =
     (if \<not> isInteractiveOwner w then retE ()
      else bindE (getsE (\<lambda>s. w_interactiveOwners s i)) (\<lambda>active.
        case active of
          Some a \<Rightarrow>
            (if \<not> sameOwner a w
             then throwE (ProtocolError RESOURCE_EXHAUSTED
                    ''terminal input already has another active producer'' True)
             else modifyE (\<lambda>s. s\<lparr>w_interactiveOwners := (w_interactiveOwners s)(i := Some w)\<rparr>))
        | None \<Rightarrow> modifyE (\<lambda>s. s\<lparr>w_interactiveOwners := (w_interactiveOwners s)(i := Some w)\<rparr>)))"

definition unregisterInteractiveOwner :: "string \<Rightarrow> owner \<Rightarrow> ('b, bool) tc" where
  "unregisterInteractiveOwner i w =
     bindE (getsE (\<lambda>s. w_interactiveOwners s i)) (\<lambda>active.
       if active \<noteq> Some w then retE False
       else thenE (modifyE (\<lambda>s. s\<lparr>w_interactiveOwners := (w_interactiveOwners s)(i := None)\<rparr>)) (retE True))"

definition resetInteractiveOwners :: "string \<Rightarrow> ('b, unit) tc" where
  "resetInteractiveOwners i =
     modifyE (\<lambda>s. s\<lparr>w_interactiveOwners := (w_interactiveOwners s)(i := None)\<rparr>)"

section \<open>Observers of a target\<close>

definition observer_count :: "string \<Rightarrow> 'b world \<Rightarrow> nat" where
  "observer_count i w = length (w_observersByTarget w i)"

text \<open>\<open>relayV2ExactRetireObservation\<close>: close the record and forget the observer of its target.\<close>

definition retire_observation :: "nat \<Rightarrow> 'b world \<Rightarrow> 'b world" where
  "retire_observation h w =
     (case map_of (w_observations w) h of
        None \<Rightarrow> w
      | Some r \<Rightarrow>
          w\<lparr>w_observations := map (\<lambda>(k, v). (k, if k = h then v\<lparr>ob_open := False\<rparr> else v)) (w_observations w),
            w_observersByTarget := (w_observersByTarget w)
              (ob_controlTargetId r := removeAll h (w_observersByTarget w (ob_controlTargetId r)))\<rparr>)"

definition observer_stale :: "tc_state \<Rightarrow> target \<Rightarrow> 'b world \<Rightarrow> nat \<Rightarrow> bool" where
  "observer_stale s t w h =
     (case map_of (w_observations w) h of
        None \<Rightarrow> True
      | Some r \<Rightarrow> \<not> ob_open r \<or> t_lifecycle t = GONE \<or> ob_controlEpoch r \<noteq> s_controlEpoch s
          \<or> ob_outputGeneration r \<noteq> t_outputGeneration t)"

definition relayV2ExactPruneStaleObservers :: "string \<Rightarrow> ('b, unit) tc" where
  "relayV2ExactPruneStaleObservers i =
     bindE (targetE i) (\<lambda>t.
       modifyE (\<lambda>w. fold (\<lambda>h w. if observer_stale (w_work w) t w h then retire_observation h w else w)
         (w_observersByTarget w i) w))"

end
