(* ===== verification/TC_Authority.thy ===== *)
theory TC_Authority
  imports TC_World
begin

text \<open>
  The terminal-control v1 operations of \<open>TerminalControlAuthority\<close>
  (\<open>src/terminalControl/authority.ts\<close>): lease acquisition, renewal and release, graceful and
  forced handoff, input, closure and output reads, each the whole handler with every branch.
\<close>

definition TERMINAL_CONTROL_MAX_OUTPUT_TAIL_BYTES :: int where
  "TERMINAL_CONTROL_MAX_OUTPUT_TAIL_BYTES = 262144"

definition TERMINAL_CONTROL_MAX_RENDERED_SNAPSHOT_BYTES :: int where
  "TERMINAL_CONTROL_MAX_RENDERED_SNAPSHOT_BYTES = 131072"

definition TERMINAL_CONTROL_MAX_AGENT_RESULT_BYTES :: int where
  "TERMINAL_CONTROL_MAX_AGENT_RESULT_BYTES = 16384"

definition with_default :: "'a \<Rightarrow> 'a option \<Rightarrow> 'a" where
  "with_default d v = (case v of None \<Rightarrow> d | Some x \<Rightarrow> x)"

abbreviation ttl_or_default :: "int option \<Rightarrow> int" where
  "ttl_or_default ttl \<equiv> with_default TERMINAL_CONTROL_DEFAULT_LEASE_TTL_MS ttl"

section \<open>Backend calls on a target\<close>

abbreviation assertCurrentE :: "'b platform \<Rightarrow> target \<Rightarrow> ('b, unit) tc" where
  "assertCurrentE P t \<equiv> callE (p_assertCurrent P (t_managedSession t) (t_tmuxInstanceId t))"

definition setGeneration :: "string \<Rightarrow> output_position \<Rightarrow> ('b, output_position) tc" where
  "setGeneration i out =
     thenE (modTarget i (\<lambda>t. t\<lparr>t_outputGeneration := pos_generation out\<rparr>)) (retE out)"

definition backendReset :: "'b platform \<Rightarrow> string \<Rightarrow> ('b, output_position) tc" where
  "backendReset P i =
     bindE (targetE i) (\<lambda>t.
     bindE (callE (p_resetOutput P i (ms_name (t_managedSession t)) ''0'' (t_outputGeneration t)))
       (setGeneration i))"

text \<open>\<open>invalidateTarget\<close>, save, and re-throw as \<open>TARGET_GONE\<close>.\<close>

definition goneE :: "'b platform \<Rightarrow> string \<Rightarrow> tc_error \<Rightarrow> ('b, 'a) tc" where
  "goneE P i e =
     thenE (invalidateTargetE P i)
       (thenE (saveTerminalControlState P) (throwE (protocol_error TARGET_GONE (error_message e))))"

text \<open>\<open>markRecovery\<close>, save, and throw \<open>RECOVERY_REQUIRED\<close>.\<close>

definition recoveryE :: "'b platform \<Rightarrow> string \<Rightarrow> recovery_reason \<Rightarrow> string \<Rightarrow> ('b, 'a) tc" where
  "recoveryE P i reason message =
     thenE (markRecoveryE P i reason None None)
       (thenE (saveTerminalControlState P) (throwE (protocol_error RECOVERY_REQUIRED message)))"

abbreviation continuity_message :: "tc_error \<Rightarrow> string" where
  "continuity_message e \<equiv> ''terminal output continuity is uncertain: '' @ error_message e"

abbreviation lifecycle_message :: "tc_error \<Rightarrow> string" where
  "lifecycle_message e \<equiv> ''could not prove the exact terminal backend lifecycle: '' @ error_message e"

section \<open>Continuity\<close>

definition reconcileAbandonedOwnership :: "'b platform \<Rightarrow> string \<Rightarrow> ('b, bool) tc" where
  "reconcileAbandonedOwnership P i =
     bindE (targetE i) (\<lambda>t.
     bindE (if t_lifecycle t = ACTIVE then leaseExpiredE P t else retE False) (\<lambda>expired.
     bindE (if expired
            then thenE (markRecoveryE P i
                    (if is_Draining (t_ownership t) then DRAIN_UNCERTAIN else LEASE_EXPIRED) None None)
                 (thenE (saveTerminalControlState P) (retE (\<not> isAbandonableNonFeishuLease t)))
            else retE False) (\<lambda>stop.
     if stop then retE False
     else bindE (targetE i) (\<lambda>t.
       if \<not> isAutoRecoverableNonFeishuState t then retE False
       else bindE (tryE (assertCurrentE P t)) (\<lambda>current.
         case current of
           Inl e \<Rightarrow> if is_gone_error e then goneE P i e else retE False
         | Inr _ \<Rightarrow>
             bindE (tryE (backendReset P i)) (\<lambda>reset.
               case reset of
                 Inl _ \<Rightarrow> retE False
               | Inr _ \<Rightarrow>
                   thenE (modTarget i (\<lambda>t. t\<lparr>t_lifecycle := ACTIVE, t_recovery := None,
                            t_ownership := Free (ow_fence (t_ownership t))\<rparr>))
                   (thenE (resetInteractiveOwners i)
                   (thenE (touchE P i)
                   (thenE (saveTerminalControlState P) (retE True))))))))))"

definition assertTargetCurrent :: "'b platform \<Rightarrow> string \<Rightarrow> ('b, unit) tc" where
  "assertTargetCurrent P i =
     thenE (reconcileAbandonedOwnership P i)
       (bindE (targetE i) (\<lambda>t.
        thenE (liftE (ensureOperable t))
          (catchE (assertCurrentE P t) (\<lambda>e.
             if is_gone_error e then goneE P i e
             else recoveryE P i BACKEND_IDENTITY_UNCERTAIN (lifecycle_message e)))))"

text \<open>
  \<open>prepareOutput\<close>: when the capture of an otherwise idle target failed, rotate it once; any other
  failure fences the target.
\<close>

definition capture_repairable :: "target \<Rightarrow> tc_error \<Rightarrow> bool" where
  "capture_repairable t e \<longleftrightarrow>
     t_lifecycle t = ACTIVE \<and> t_inFlight t = None
     \<and> (is_Free (t_ownership t) \<and> isOutputRotationError e
        \<or> is_Held (t_ownership t) \<and> okind (ow_owner (t_ownership t)) \<noteq> Feishu)"

definition prepareOutput :: "'b platform \<Rightarrow> string \<Rightarrow> bool \<Rightarrow> ('b, output_position) tc" where
  "prepareOutput P i capturePane =
     catchE
       (bindE (targetE i) (\<lambda>t.
        bindE (callE (p_prepareOutput P i (ms_name (t_managedSession t)) ''0'' (t_outputGeneration t) capturePane))
          (setGeneration i)))
       (\<lambda>e. bindE (targetE i) (\<lambda>t.
          bindE (if capture_repairable t e
                 then tryE (thenE (assertCurrentE P t)
                        (bindE (backendReset P i) (\<lambda>repaired.
                         thenE (touchE P i) (thenE (saveTerminalControlState P) (retE repaired)))))
                 else retE (Inl e)) (\<lambda>repaired.
            case repaired of
              Inr out \<Rightarrow> retE out
            | Inl _ \<Rightarrow> recoveryE P i OUTPUT_CONTINUITY_UNCERTAIN (continuity_message e))))"

definition resetOutput :: "'b platform \<Rightarrow> string \<Rightarrow> ('b, output_position) tc" where
  "resetOutput P i =
     catchE (backendReset P i)
       (\<lambda>e. recoveryE P i OUTPUT_CONTINUITY_UNCERTAIN (continuity_message e))"

definition recoverOutput :: "'b platform \<Rightarrow> string \<Rightarrow> ('b, output_position) tc" where
  "recoverOutput P i =
     catchE
       (bindE (targetE i) (\<lambda>t.
        bindE (liftE (plannedOutputRecoveryGeneration (p_sha256json P) t)) (\<lambda>planned.
        bindE (callE (p_recoverOutput P i (ms_name (t_managedSession t)) ''0'' (t_outputGeneration t) planned))
          (setGeneration i))))
       (\<lambda>e. throwE (protocol_error RECOVERY_REQUIRED (continuity_message e)))"

definition restart_reason :: "target \<Rightarrow> recovery_reason option" where
  "restart_reason t =
     (if t_lifecycle t = GONE then None
      else if t_lifecycle t = RECOVERY then None
      else if t_inFlight t \<noteq> None then Some OP_IN_DOUBT
      else if is_Draining (t_ownership t) then Some DRAIN_UNCERTAIN
      else if is_Held (t_ownership t) then Some CONTROLLER_RESTARTED
      else None)"

fun fence_all :: "'b platform \<Rightarrow> string \<Rightarrow> target list \<Rightarrow> ('b, unit) tc" where
  "fence_all P previousControlEpoch [] = retE ()"
| "fence_all P previousControlEpoch (t # ts) =
     thenE (case restart_reason t of
              None \<Rightarrow> retE ()
            | Some r \<Rightarrow> markRecoveryE P (t_controlTargetId t) r (Some previousControlEpoch) None)
       (fence_all P previousControlEpoch ts)"

text \<open>The locked part of \<open>initializeContinuity\<close>: a new epoch, every live lease fenced.\<close>

definition initializeContinuity_locked :: "'b platform \<Rightarrow> ('b, string) tc" where
  "initializeContinuity_locked P =
     locked P
       (bindE (getsE w_work) (\<lambda>s.
        bindE (randomUUID P) (\<lambda>u.
        thenE (modifyE (\<lambda>w. w\<lparr>w_work := (w_work w)\<lparr>s_controlEpoch := u\<rparr>\<rparr>))
        (thenE (fence_all P (s_controlEpoch s) (s_targets s))
        (thenE (saveTerminalControlState P)
        (bindE (getsE w_work) (\<lambda>s. retE (s_controlEpoch s))))))))"

section \<open>Resolution and status\<close>

definition resolves_to :: "managed_session \<Rightarrow> string \<Rightarrow> target \<Rightarrow> bool" where
  "resolves_to m tmux t \<longleftrightarrow>
     t_lifecycle t \<noteq> GONE \<and> ms_name (t_managedSession t) = ms_name m
     \<and> ms_kind (t_managedSession t) = ms_kind m \<and> ms_createdAt (t_managedSession t) = ms_createdAt m
     \<and> t_tmuxInstanceId t = tmux"

definition superseded_by :: "managed_session \<Rightarrow> string \<Rightarrow> target \<Rightarrow> bool" where
  "superseded_by m tmux t \<longleftrightarrow>
     t_lifecycle t \<noteq> GONE \<and> ms_name (t_managedSession t) = ms_name m
     \<and> (ms_kind (t_managedSession t) \<noteq> ms_kind m \<or> ms_createdAt (t_managedSession t) \<noteq> ms_createdAt m
        \<or> t_tmuxInstanceId t \<noteq> tmux)"

fun invalidate_superseded :: "'b platform \<Rightarrow> managed_session \<Rightarrow> string \<Rightarrow> target list \<Rightarrow> ('b, bool) tc" where
  "invalidate_superseded P m tmux [] = retE False"
| "invalidate_superseded P m tmux (t # ts) =
     (if superseded_by m tmux t
      then thenE (invalidateTargetE P (t_controlTargetId t))
             (thenE (invalidate_superseded P m tmux ts) (retE True))
      else invalidate_superseded P m tmux ts)"

definition fresh_target :: "string \<Rightarrow> managed_session \<Rightarrow> string \<Rightarrow> string \<Rightarrow> timestamp \<Rightarrow> target" where
  "fresh_target i m tmux generation now =
     \<lparr>t_controlTargetId = i, t_lifecycle = ACTIVE, t_managedSession = m, t_tmuxInstanceId = tmux,
      t_outputGeneration = generation, t_ownership = Free ''0'', t_revision = ''1'',
      t_inFlight = None, t_recovery = None, t_completedOperations = [], t_updatedAt = now\<rparr>"

definition pushTarget :: "target \<Rightarrow> ('b, unit) tc" where
  "pushTarget t = modifyE (\<lambda>w. w\<lparr>w_work := (w_work w)\<lparr>s_targets := s_targets (w_work w) @ [t]\<rparr>\<rparr>)"

definition provisionTarget :: "'b platform \<Rightarrow> managed_session \<Rightarrow> string \<Rightarrow> ('b, string) tc" where
  "provisionTarget P m tmux =
     bindE (randomUUID P) (\<lambda>i.
     bindE (randomUUID P) (\<lambda>g.
     bindE (nowE P) (\<lambda>n.
     thenE (pushTarget (fresh_target i m tmux g n)) (retE i))))"

text \<open>An operation left in flight by a dead process is uncertain.\<close>

definition settleInFlight :: "'b platform \<Rightarrow> string \<Rightarrow> ('b, bool) tc" where
  "settleInFlight P i =
     bindE (targetE i) (\<lambda>t.
       if t_inFlight t \<noteq> None \<and> t_lifecycle t = ACTIVE
       then thenE (markRecoveryE P i OP_IN_DOUBT None None) (retE True)
       else retE False)"

definition activeOutputCursor :: "'b platform \<Rightarrow> string \<Rightarrow> ('b, int) tc" where
  "activeOutputCursor P i =
     bindE (targetE i) (\<lambda>t.
       if t_lifecycle t = ACTIVE
       then bindE (prepareOutput P i False) (\<lambda>out. retE (pos_cursor out))
       else retE 0)"

definition viewE :: "string \<Rightarrow> int \<Rightarrow> ('b, ownership_view) tc" where
  "viewE i cursor =
     bindE (getsE w_work) (\<lambda>s. bindE (targetE i) (\<lambda>t. retE (ownershipView s t cursor)))"

definition resolveTarget :: "'b platform \<Rightarrow> string \<Rightarrow> ('b, result) tc" where
  "resolveTarget P sessionName =
     locked P
       (bindE (callE (p_resolveManagedSession P sessionName)) (\<lambda>(m, tmux).
        bindE (getsE w_work) (\<lambda>s.
        bindE (invalidate_superseded P m tmux (s_targets s)) (\<lambda>changed1.
        bindE (getsE w_work) (\<lambda>s.
        bindE (case find (resolves_to m tmux) (s_targets s) of
                 Some t \<Rightarrow> retE (t_controlTargetId t, False)
               | None \<Rightarrow> bindE (provisionTarget P m tmux) (\<lambda>i. retE (i, True))) (\<lambda>(i, changed2).
        bindE (settleInFlight P i) (\<lambda>changed3.
        thenE (reconcileAbandonedOwnership P i)
        (bindE (activeOutputCursor P i) (\<lambda>cursor.
        thenE (whenE (changed1 \<or> changed2 \<or> changed3) (saveTerminalControlState P))
        (bindE (targetE i) (\<lambda>t.
        bindE (getsE w_work) (\<lambda>s.
        bindE (viewE i cursor) (\<lambda>v.
          retE (Resolved i (s_controlEpoch s) (t_managedSession t) v))))))))))))))"

definition status :: "'b platform \<Rightarrow> string \<Rightarrow> ('b, result) tc" where
  "status P i =
     locked P
       (thenE (targetE i)
       (bindE (settleInFlight P i) (\<lambda>changed.
        thenE (reconcileAbandonedOwnership P i)
        (bindE (targetE i) (\<lambda>t.
        thenE (whenE (t_lifecycle t = ACTIVE) (assertTargetCurrent P i))
        (bindE (activeOutputCursor P i) (\<lambda>cursor.
        thenE (whenE changed (saveTerminalControlState P))
        (bindE (viewE i cursor) (\<lambda>v. retE (Viewed v))))))))))"

section \<open>Leases\<close>

text \<open>\<open>{ lease: leaseForOwner(state, target, owner), ownership: ownershipView(\<dots>) }\<close>\<close>

definition leasedE :: "string \<Rightarrow> owner \<Rightarrow> int \<Rightarrow> ('b, result) tc" where
  "leasedE i w cursor =
     bindE (getsE w_work) (\<lambda>s.
     bindE (targetE i) (\<lambda>t.
     bindE (liftE (leaseForOwner s t w)) (\<lambda>l.
     bindE (viewE i cursor) (\<lambda>v. retE (Leased l v)))))"

text \<open>\<open>target.ownership.leaseExpiresAt = \<dots>\<close> on a held or draining target.\<close>

fun with_expiry :: "timestamp \<Rightarrow> ownership \<Rightarrow> ownership" where
  "with_expiry e (Free f) = Free f"
| "with_expiry e (Held f w l _) = Held f w l e"
| "with_expiry e (Draining f w l _ h) = Draining f w l e h"

text \<open>A new holder: the next fence, a new lease identity.\<close>

definition grantE :: "'b platform \<Rightarrow> string \<Rightarrow> owner \<Rightarrow> int \<Rightarrow> ('b, unit) tc" where
  "grantE P i w ttlMs =
     bindE (randomUUID P) (\<lambda>u.
     bindE (nowE P) (\<lambda>n.
       modTarget i (\<lambda>t. t\<lparr>t_ownership :=
         Held (nextDecimal (ow_fence (t_ownership t))) w u (expiresAt n ttlMs)\<rparr>)))"

definition acquire :: "'b platform \<Rightarrow> string \<Rightarrow> owner \<Rightarrow> int option \<Rightarrow> ('b, result) tc" where
  "acquire P i w ttl =
     locked P
       (thenE (targetE i)
       (thenE (assertTargetCurrent P i)
       (bindE (targetE i) (\<lambda>t.
        if is_Free (t_ownership t) then
          bindE (prepareOutput P i False) (\<lambda>out.
          thenE (grantE P i w (ttl_or_default ttl))
          (thenE (resetInteractiveOwners i)
          (thenE (registerInteractiveOwner i w)
          (thenE (touchE P i)
          (thenE (saveTerminalControlState P)
          (leasedE i w (pos_cursor out)))))))
        else if is_Held (t_ownership t) \<and> sameInputOwnerClass (ow_owner (t_ownership t)) w then
          bindE (prepareOutput P i False) (\<lambda>out.
          thenE (whenE (isInteractiveOwner w)
            (thenE (registerInteractiveOwner i w)
            (bindE (nowE P) (\<lambda>n.
             thenE (modTarget i (\<lambda>t. t\<lparr>t_ownership := with_expiry (expiresAt n (ttl_or_default ttl)) (t_ownership t)\<rparr>))
             (thenE (touchE P i) (saveTerminalControlState P))))))
          (leasedE i w (pos_cursor out)))
        else if is_Held (t_ownership t) \<and> isInteractiveOwner (ow_owner (t_ownership t)) \<and> okind w = Feishu then
          bindE (resetOutput P i) (\<lambda>out.
          thenE (resetInteractiveOwners i)
          (thenE (grantE P i w (ttl_or_default ttl))
          (thenE (touchE P i)
          (thenE (saveTerminalControlState P)
          (leasedE i w (pos_cursor out))))))
        else if is_Draining (t_ownership t) \<and> sameOwner (h_nextOwner (ow_handoff (t_ownership t))) w then
          throwE (protocol_error HANDOFF_PENDING ''target is still draining its previous input owner'')
        else
          throwE (protocol_error PERMISSION_DENIED
            (''terminal input is owned by '' @ owner_kind_name (okind (ow_owner (t_ownership t)))))))))"

definition validLeaseE :: "lease \<Rightarrow> bool \<Rightarrow> ('b, unit) tc" where
  "validLeaseE l allowDraining =
     bindE (getsE w_work) (\<lambda>s.
     bindE (targetE (l_controlTargetId l)) (\<lambda>t. liftE (validateLease s t l allowDraining)))"

definition renew :: "'b platform \<Rightarrow> lease \<Rightarrow> int option \<Rightarrow> ('b, result) tc" where
  "renew P l ttl =
     (let i = l_controlTargetId l in
      locked P
       (thenE (targetE i)
       (thenE (assertTargetCurrent P i)
       (thenE (validLeaseE l True)
       (bindE (targetE i) (\<lambda>t.
        if is_Free (t_ownership t)
        then throwE (protocol_error PERMISSION_DENIED ''target has no current input owner'')
        else
          thenE (registerInteractiveOwner i (l_owner l))
          (bindE (nowE P) (\<lambda>n.
           thenE (modTarget i (\<lambda>t. t\<lparr>t_ownership := with_expiry (expiresAt n (ttl_or_default ttl)) (t_ownership t)\<rparr>))
           (thenE (touchE P i)
           (bindE (prepareOutput P i False) (\<lambda>out.
            thenE (saveTerminalControlState P)
            (leasedE i (l_owner l) (pos_cursor out)))))))))))))"

definition release :: "'b platform \<Rightarrow> lease \<Rightarrow> ('b, result) tc" where
  "release P l =
     (let i = l_controlTargetId l in
      locked P
       (thenE (targetE i)
       (thenE (assertTargetCurrent P i)
       (thenE (validLeaseE l True)
       (bindE (targetE i) (\<lambda>t.
        if is_Draining (t_ownership t)
        then throwE (protocol_error HANDOFF_PENDING
               ''draining ownership must commit or cancel its handoff; it cannot pass through FREE'')
        else
          bindE (if isInteractiveOwner (l_owner l) then unregisterInteractiveOwner i (l_owner l) else retE True) (\<lambda>last.
          if \<not> last
          then bindE (prepareOutput P i False) (\<lambda>out.
               bindE (viewE i (pos_cursor out)) (\<lambda>v. retE (Viewed v)))
          else
            thenE (relayV2ExactPruneStaleObservers i)
            (bindE (getsE (observer_count i)) (\<lambda>observers.
             bindE (if observers > 0 then prepareOutput P i False else resetOutput P i) (\<lambda>out.
             thenE (resetInteractiveOwners i)
             (thenE (modTarget i (\<lambda>t. t\<lparr>t_ownership := Free (nextDecimal (ow_fence (t_ownership t)))\<rparr>))
             (thenE (touchE P i)
             (thenE (saveTerminalControlState P)
             (bindE (viewE i (pos_cursor out)) (\<lambda>v. retE (Viewed v))))))))))))))))"

section \<open>Handoff\<close>

definition leaseFromTargetE :: "string \<Rightarrow> int \<Rightarrow> ('b, result) tc" where
  "leaseFromTargetE i cursor =
     bindE (getsE w_work) (\<lambda>s.
     bindE (targetE i) (\<lambda>t.
     bindE (liftE (leaseFromTarget s t)) (\<lambda>l.
     bindE (viewE i cursor) (\<lambda>v. retE (Leased l v)))))"

definition isControlledLocal :: "owner \<Rightarrow> bool" where
  "isControlledLocal w \<longleftrightarrow> okind w = Dashboard \<or> okind w = LocalCli"

text \<open>The holder keeps its fence, lease and expiry while the handoff drains.\<close>

fun draining :: "handoff \<Rightarrow> ownership \<Rightarrow> ownership" where
  "draining h (Held f w l e) = Draining f w l e h"
| "draining h own = own"

definition beginHandoff :: "'b platform \<Rightarrow> string \<Rightarrow> owner \<Rightarrow> lease option \<Rightarrow> ('b, result) tc" where
  "beginHandoff P i nextOwner currentLease =
     locked P
       (thenE (targetE i)
       (thenE (assertTargetCurrent P i)
       (bindE (targetE i) (\<lambda>t.
        if is_Free (t_ownership t) then
          bindE (prepareOutput P i False) (\<lambda>out.
          thenE (grantE P i nextOwner TERMINAL_CONTROL_DEFAULT_LEASE_TTL_MS)
          (thenE (resetInteractiveOwners i)
          (thenE (registerInteractiveOwner i nextOwner)
          (thenE (touchE P i)
          (thenE (saveTerminalControlState P)
          (leaseFromTargetE i (pos_cursor out)))))))
        else if is_Draining (t_ownership t) then
          (if sameOwner (h_nextOwner (ow_handoff (t_ownership t))) nextOwner
           then bindE (prepareOutput P i False) (\<lambda>out.
                bindE (viewE i (pos_cursor out)) (\<lambda>v. retE (Viewed v)))
           else throwE (protocol_error HANDOFF_PENDING ''another ownership handoff is already draining''))
        else
          thenE (case currentLease of
                   Some l \<Rightarrow> bindE (getsE w_work) (\<lambda>s. liftE (validateLease s t l False))
                 | None \<Rightarrow>
                     if okind (ow_owner (t_ownership t)) \<noteq> Feishu \<or> \<not> isControlledLocal nextOwner
                     then throwE (protocol_error PERMISSION_DENIED
                       ''only a controlled local owner may request a lease-less graceful takeover from Feishu'')
                     else retE ())
          (if sameOwner (ow_owner (t_ownership t)) nextOwner then
             bindE (prepareOutput P i False) (\<lambda>out.
             thenE (registerInteractiveOwner i nextOwner)
             (leasedE i nextOwner (pos_cursor out)))
           else
             bindE (randomUUID P) (\<lambda>u.
             bindE (nowE P) (\<lambda>n.
             thenE (modTarget i (\<lambda>t. t\<lparr>t_ownership :=
               draining \<lparr>h_handoffId = u, h_nextOwner = nextOwner, h_requestedAt = n, h_drain = None\<rparr>
                 (t_ownership t)\<rparr>))
             (thenE (touchE P i)
             (bindE (prepareOutput P i False) (\<lambda>out.
             thenE (saveTerminalControlState P)
             (bindE (viewE i (pos_cursor out)) (\<lambda>v. retE (Viewed v)))))))))))))"

definition handoff_current :: "string \<Rightarrow> ownership \<Rightarrow> bool" where
  "handoff_current handoffId own \<longleftrightarrow> is_Draining own \<and> h_handoffId (ow_handoff own) = handoffId"

fun with_drain :: "drain_proof \<Rightarrow> ownership \<Rightarrow> ownership" where
  "with_drain d (Draining f w l e h) = Draining f w l e (h\<lparr>h_drain := Some d\<rparr>)"
| "with_drain d own = own"

definition commitHandoff ::
  "'b platform \<Rightarrow> string \<Rightarrow> lease \<Rightarrow> drain_proof \<Rightarrow> int option \<Rightarrow> ('b, result) tc" where
  "commitHandoff P handoffId l drain ttl =
     (let i = l_controlTargetId l in
      locked P
       (thenE (targetE i)
       (thenE (assertTargetCurrent P i)
       (thenE (validLeaseE l True)
       (bindE (targetE i) (\<lambda>t.
        if \<not> handoff_current handoffId (t_ownership t)
        then throwE (protocol_error INVALID_REQUEST ''handoff is not current'')
        else
          thenE (modTarget i (\<lambda>t. t\<lparr>t_ownership := with_drain drain (t_ownership t)\<rparr>))
          (if dp_disposition drain = Uncertain
           then recoveryE P i DRAIN_UNCERTAIN
                  ''handoff drain disposition is uncertain; ownership was not transferred''
           else
             bindE (resetOutput P i) (\<lambda>out.
             thenE (resetInteractiveOwners i)
             (thenE (grantE P i (h_nextOwner (ow_handoff (t_ownership t))) (ttl_or_default ttl))
             (thenE (registerInteractiveOwner i (h_nextOwner (ow_handoff (t_ownership t))))
             (thenE (modTarget i (\<lambda>t. t\<lparr>t_recovery := None\<rparr>))
             (thenE (touchE P i)
             (thenE (saveTerminalControlState P)
             (leaseFromTargetE i (pos_cursor out)))))))))))))))"

fun undrained :: "ownership \<Rightarrow> ownership" where
  "undrained (Draining f w l e h) = Held f w l e"
| "undrained own = own"

text \<open>Back to \<open>HELD\<close> with the holder's own lease, shared by cancel and withdraw.\<close>

definition restoreHolder :: "'b platform \<Rightarrow> string \<Rightarrow> ('b, result) tc" where
  "restoreHolder P i =
     thenE (modTarget i (\<lambda>t. t\<lparr>t_ownership := undrained (t_ownership t)\<rparr>))
     (thenE (touchE P i)
     (bindE (prepareOutput P i False) (\<lambda>out.
      thenE (saveTerminalControlState P)
      (bindE (viewE i (pos_cursor out)) (\<lambda>v. retE (Viewed v))))))"

definition cancelHandoff :: "'b platform \<Rightarrow> string \<Rightarrow> lease \<Rightarrow> ('b, result) tc" where
  "cancelHandoff P handoffId l =
     (let i = l_controlTargetId l in
      locked P
       (thenE (targetE i)
       (thenE (assertTargetCurrent P i)
       (thenE (validLeaseE l True)
       (bindE (targetE i) (\<lambda>t.
        if \<not> handoff_current handoffId (t_ownership t)
        then throwE (protocol_error INVALID_REQUEST ''handoff is not current'')
        else restoreHolder P i))))))"

definition withdrawHandoff :: "'b platform \<Rightarrow> string \<Rightarrow> string \<Rightarrow> owner \<Rightarrow> ('b, result) tc" where
  "withdrawHandoff P i handoffId nextOwner =
     locked P
       (thenE (targetE i)
       (thenE (assertTargetCurrent P i)
       (bindE (targetE i) (\<lambda>t.
        if \<not> handoff_current handoffId (t_ownership t)
          \<or> \<not> sameOwner (h_nextOwner (ow_handoff (t_ownership t))) nextOwner
        then throwE (protocol_error PERMISSION_DENIED
               ''only the exact pending next owner may withdraw this handoff'')
        else restoreHolder P i))))"

definition forceHandoff ::
  "'b platform \<Rightarrow> string \<Rightarrow> string \<Rightarrow> owner \<Rightarrow> recovery_proof \<Rightarrow> bool \<Rightarrow> int option \<Rightarrow> ('b, result) tc" where
  "forceHandoff P i expectedControlEpoch nextOwner proof acknowledgeUncertainOperation ttl =
     (if \<not> isControlledLocal nextOwner \<or> \<not> acknowledgeUncertainOperation
      then throwE (protocol_error PERMISSION_DENIED
        ''force takeover requires a controlled local owner and persisted external cancellation proof'')
      else locked P
       (bindE (targetE i) (\<lambda>t.
        bindE (getsE w_work) (\<lambda>s.
        if s_controlEpoch s \<noteq> expectedControlEpoch
        then throwE (protocol_error PERMISSION_DENIED
               ''force takeover was prepared for a stale controller epoch'')
        else if t_lifecycle t = GONE
        then throwE (protocol_error TARGET_GONE ''control target backend lifecycle has ended'')
        else
          bindE (if t_lifecycle t = ACTIVE then leaseExpiredE P t else retE False) (\<lambda>expired.
          thenE (whenE expired
            (thenE (markRecoveryE P i LEASE_EXPIRED None None) (saveTerminalControlState P)))
          (bindE (targetE i) (\<lambda>t.
           case (t_lifecycle t, t_recovery t) of
             (RECOVERY, Some r) \<Rightarrow>
               (if (if is_Free (t_ownership t) then rc_previousOwnerKind r
                    else Some (okind (ow_owner (t_ownership t)))) = Some Feishu
                  \<and> rp_kind proof = OwnerUnreachable
                then throwE (protocol_error PERMISSION_DENIED
                  ''force takeover from Feishu requires a persisted turn cancellation or explicit in-doubt acknowledgement'')
                else
                  thenE (catchE (assertCurrentE P t) (\<lambda>e.
                    if is_gone_error e then goneE P i e
                    else throwE (protocol_error RECOVERY_REQUIRED
                      (''force recovery could not prove the exact terminal backend lifecycle: '' @ error_message e))))
                  (bindE (if t_inFlight t = None then retE 0 else nowE P) (\<lambda>tc.
                   thenE (modTarget i (\<lambda>t. fst (completeInFlightAsInDoubt t tc)))
                   (bindE (recoverOutput P i) (\<lambda>out.
                    thenE (resetInteractiveOwners i)
                    (thenE (modTarget i (\<lambda>t. t\<lparr>t_lifecycle := ACTIVE, t_recovery := None\<rparr>))
                    (thenE (grantE P i nextOwner (ttl_or_default ttl))
                    (thenE (registerInteractiveOwner i nextOwner)
                    (thenE (touchE P i)
                    (thenE (saveTerminalControlState P)
                    (leaseFromTargetE i (pos_cursor out))))))))))))
           | _ \<Rightarrow> throwE (protocol_error PERMISSION_DENIED
                   ''force recovery is only available for a durably fenced recovery target''))))))))"

end
