(* ===== verification/TC_Input.thy ===== *)
theory TC_Input
  imports TC_Authority
begin

text \<open>
  Input, closure and output reads of \<open>TerminalControlAuthority\<close>, and the dispatcher \<open>handleV1\<close>.
  \<open>executeInput\<close> is one method of the source; it is split here at its \<open>try\<close> blocks: the
  position the operation starts from, the call that reaches the terminal, the classification of
  its failure, and the commit.
\<close>

section \<open>Input\<close>

definition hasFencedRawPath :: "'b platform \<Rightarrow> op_kind \<Rightarrow> bool" where
  "hasFencedRawPath P kind \<longleftrightarrow>
     kind = RawOp \<and> p_rawInputPosition P \<noteq> None \<and> p_writeRawFenced P \<noteq> None"

definition inputPosition :: "'b platform \<Rightarrow> lease \<Rightarrow> op_kind \<Rightarrow> ('b, output_position) tc" where
  "inputPosition P l kind =
     (let i = l_controlTargetId l in
      case (hasFencedRawPath P kind, p_rawInputPosition P) of
        (True, Some rawInputPosition) \<Rightarrow>
          bindE (targetE i) (\<lambda>t.
          catchE (callE (rawInputPosition i (t_outputGeneration t)))
            (\<lambda>e. bindE (targetE i) (\<lambda>t.
               if okind (l_owner l) \<noteq> Feishu \<and> is_Held (t_ownership t) \<and> t_inFlight t = None
               then catchE
                 (thenE (assertCurrentE P t)
                   (bindE (backendReset P i) (\<lambda>out.
                    thenE (touchE P i) (thenE (saveTerminalControlState P) (retE out)))))
                 (\<lambda>_. recoveryE P i OUTPUT_CONTINUITY_UNCERTAIN (continuity_message e))
               else recoveryE P i OUTPUT_CONTINUITY_UNCERTAIN (continuity_message e))))
      | _ \<Rightarrow> prepareOutput P i False)"

definition performInput ::
  "'b platform \<Rightarrow> string \<Rightarrow> string \<Rightarrow> op_kind \<Rightarrow> string \<Rightarrow> output_position \<Rightarrow> ('b, unit) tc" where
  "performInput P i pane kind payload out =
     bindE (targetE i) (\<lambda>t.
     (let session = t_managedSession t; tmux = t_tmuxInstanceId t; sessionName = ms_name session;
          generation = pos_generation out
      in case kind of
        RawOp \<Rightarrow>
          (case (hasFencedRawPath P kind, p_writeRawFenced P) of
             (True, Some writeRawFenced) \<Rightarrow>
               effectE (WriteRawFenced session tmux generation pane payload)
                 (writeRawFenced session tmux generation pane payload)
           | _ \<Rightarrow> effectE (WriteRaw sessionName pane payload) (p_writeRaw P sessionName pane payload))
      | AgentMessageOp \<Rightarrow>
          (case decode_agent_message payload of
             None \<Rightarrow> throwE (PlainError ''invalid JSON'')
           | Some (message, submit, runtime) \<Rightarrow>
               (case p_sendAgentMessageFenced P of
                  Some sendAgentMessageFenced \<Rightarrow>
                    effectE (SendAgentMessageFenced session tmux generation pane message submit runtime)
                      (sendAgentMessageFenced session tmux generation pane message submit runtime)
                | None \<Rightarrow>
                    (if runtime \<noteq> None
                     then throwE (protocol_error INVALID_REQUEST
                            ''Agent runtime settings require the fenced terminal backend'')
                     else effectE (SendAgentMessage sessionName pane message submit)
                            (p_sendAgentMessage P sessionName pane message submit))))
      | ScrollOp \<Rightarrow>
          (case decode_scroll payload of
             None \<Rightarrow> throwE (PlainError ''invalid normalized scroll payload'')
           | Some (direction, lines) \<Rightarrow>
               effectE (Scroll sessionName pane direction lines) (p_scroll P sessionName pane direction lines))
      | _ \<Rightarrow>
          (case decode_resize payload of
             None \<Rightarrow> throwE (PlainError ''invalid normalized resize payload'')
           | Some (cols, rows) \<Rightarrow>
               effectE (Resize sessionName pane cols rows) (p_resize P sessionName pane cols rows))))"

text \<open>\<open>try { saveTerminalControlState(\<dots>) } catch {}\<close>\<close>

definition saveQuietly :: "'b platform \<Rightarrow> ('b, unit) tc" where
  "saveQuietly P = catchE (saveTerminalControlState P) (\<lambda>_. retE ())"

definition clearInFlight :: "string \<Rightarrow> ('b, unit) tc" where
  "clearInFlight i = modTarget i (\<lambda>t. t\<lparr>t_inFlight := None\<rparr>)"

definition is_not_applied :: "tc_error \<Rightarrow> bool" where
  "is_not_applied e = (case e of AgentMessageNotApplied _ _ _ \<Rightarrow> True | _ \<Rightarrow> False)"

definition inputFailed ::
  "'b platform \<Rightarrow> string \<Rightarrow> string \<Rightarrow> op_kind \<Rightarrow> tc_error \<Rightarrow> ('b, 'a) tc" where
  "inputFailed P i operationId kind e =
     (if kind = AgentMessageOp \<and> is_not_applied e then
        thenE (clearInFlight i)
          (if is_gone_error e then goneE P i e
           else if error_code_of e = Some RECOVERY_REQUIRED
           then thenE (markRecoveryE P i BACKEND_IDENTITY_UNCERTAIN None None)
                  (thenE (saveTerminalControlState P) (throwE e))
           else thenE (saveTerminalControlState P) (throwE e))
      else if hasFencedRawPath P kind
        \<and> error_code_of e \<in> {Some TARGET_GONE, Some TARGET_NOT_FOUND, Some RECOVERY_REQUIRED} then
        thenE (clearInFlight i)
          (if is_gone_error e then goneE P i e
           else recoveryE P i BACKEND_IDENTITY_UNCERTAIN (error_message e))
      else
        thenE (markRecoveryE P i OP_IN_DOUBT None (Some operationId))
          (thenE (saveQuietly P)
            (throwE (protocol_error OPERATION_IN_DOUBT
              (''terminal backend write did not reach a provable boundary: '' @ error_message e)))))"

definition inFlightRecord ::
  "string \<Rightarrow> lease \<Rightarrow> string \<Rightarrow> op_kind \<Rightarrow> output_position \<Rightarrow> timestamp \<Rightarrow> in_flight" where
  "inFlightRecord operationId l hash kind out now =
     \<lparr>if_operationId = operationId, if_ownerInstanceId = instanceId (l_owner l), if_fence = l_fence l,
      if_payloadHash = hash, if_kind = kind, if_outputGeneration = Some (pos_generation out),
      if_outputCursor = Some (pos_cursor out), if_startedAt = now\<rparr>"

definition committedRecord ::
  "string \<Rightarrow> lease \<Rightarrow> string \<Rightarrow> op_kind \<Rightarrow> output_position \<Rightarrow> timestamp \<Rightarrow> operation" where
  "committedRecord operationId l hash kind out now =
     \<lparr>op_operationId = operationId, op_ownerInstanceId = instanceId (l_owner l), op_fence = l_fence l,
      op_payloadHash = hash, op_kind = kind, op_disposition = Committed,
      op_outputGeneration = Some (pos_generation out), op_outputCursor = Some (pos_cursor out),
      op_completedAt = now\<rparr>"

text \<open>The durable in-flight marker, written and saved before the terminal is touched.\<close>

definition beginOperation ::
  "'b platform \<Rightarrow> string \<Rightarrow> lease \<Rightarrow> string \<Rightarrow> op_kind \<Rightarrow> output_position \<Rightarrow> ('b, unit) tc" where
  "beginOperation P operationId l hash kind out =
     (let i = l_controlTargetId l in
      bindE (nowE P) (\<lambda>n.
      thenE (modTarget i (\<lambda>t. t\<lparr>t_inFlight := Some (inFlightRecord operationId l hash kind out n)\<rparr>))
      (thenE (touchE P i) (saveTerminalControlState P))))"

definition executeInput ::
  "'b platform \<Rightarrow> lease \<Rightarrow> string \<Rightarrow> string \<Rightarrow> op_kind \<Rightarrow> string \<Rightarrow> ('b, result) tc" where
  "executeInput P l operationId pane kind payload =
     (let i = l_controlTargetId l; hash = payloadHash (p_sha256 P) kind pane payload in
      locked P
       (thenE (targetE i)
       (thenE (if hasFencedRawPath P kind
               then thenE (reconcileAbandonedOwnership P i) (retE ())
               else assertTargetCurrent P i)
       (thenE (validLeaseE l False)
       (if pane \<noteq> ''0''
        then throwE (protocol_error INVALID_REQUEST
               (''managed single-pane target has no logical pane: '' @ pane))
        else
          thenE (registerInteractiveOwner i (l_owner l))
          (bindE (targetE i) (\<lambda>t.
           bindE (liftE (existingOperation t operationId (instanceId (l_owner l)) (l_fence l) hash kind)) (\<lambda>completed.
           case completed of
             Some op \<Rightarrow>
               thenE (whenE (hasFencedRawPath P kind) (assertTargetCurrent P i))
               (bindE (getsE w_work) (\<lambda>s. retE (Operated (operationResult s op True))))
           | None \<Rightarrow>
               bindE (inputPosition P l kind) (\<lambda>out.
               thenE (beginOperation P operationId l hash kind out)
               (thenE (catchE (performInput P i pane kind payload out) (inputFailed P i operationId kind))
               (bindE (nowE P) (\<lambda>n.
                (let record = committedRecord operationId l hash kind out n in
                 thenE (modTarget i (\<lambda>t. appendOperation t record))
                 (thenE (clearInFlight i)
                 (thenE (touchE P i)
                 (thenE (saveTerminalControlState P)
                 (bindE (getsE w_work) (\<lambda>s. retE (Operated (operationResult s record False))))))))))))))))))))"

section \<open>Closure\<close>

text \<open>
  The failure of \<open>killManaged\<close>: when the lifecycle is still provably there the marker is cleared
  and the error re-thrown; otherwise, or when clearing it fails, the operation is uncertain. The
  inner \<open>catch\<close> compares the caught error with the original one by identity; two distinct error
  objects are told apart here by the step that threw them.
\<close>

definition killFailed :: "'b platform \<Rightarrow> string \<Rightarrow> string \<Rightarrow> tc_error \<Rightarrow> ('b, 'a) tc" where
  "killFailed P i operationId e =
     bindE (targetE i) (\<lambda>t.
     bindE (tryE
       (thenE (assertCurrentE P t)
       (thenE (clearInFlight i)
       (thenE (touchE P i) (saveTerminalControlState P))))) (\<lambda>proof.
       case proof of
         Inr _ \<Rightarrow> throwE e
       | Inl _ \<Rightarrow>
           thenE (markRecoveryE P i OP_IN_DOUBT None (Some operationId))
           (thenE (saveQuietly P)
             (throwE (protocol_error OPERATION_IN_DOUBT
               ''managed target closure did not reach a provable boundary'')))))"

definition executeLifecycleKill :: "'b platform \<Rightarrow> lease \<Rightarrow> string \<Rightarrow> ('b, result) tc" where
  "executeLifecycleKill P l operationId =
     (let i = l_controlTargetId l in
      locked P
       (bindE (targetE i) (\<lambda>t.
        (let hash = payloadHash (p_sha256 P) LifecycleKillOp ''0'' (ms_name (t_managedSession t)) in
         bindE (liftE (existingOperation t operationId (instanceId (l_owner l)) (l_fence l) hash LifecycleKillOp)) (\<lambda>completed.
         case completed of
           Some op \<Rightarrow> bindE (getsE w_work) (\<lambda>s. retE (Operated (operationResult s op True)))
         | None \<Rightarrow>
             thenE (assertTargetCurrent P i)
             (thenE (validLeaseE l False)
             (bindE (prepareOutput P i False) (\<lambda>out.
              thenE (beginOperation P operationId l hash LifecycleKillOp out)
              (bindE (targetE i) (\<lambda>t.
               thenE (catchE
                 (effectE (KillManaged (ms_name (t_managedSession t))) (p_killManaged P (ms_name (t_managedSession t))))
                 (killFailed P i operationId))
               (bindE (nowE P) (\<lambda>n.
                (let record = committedRecord operationId l hash LifecycleKillOp out n in
                 thenE (modTarget i (\<lambda>t. appendOperation t record))
                 (thenE (clearInFlight i)
                 (thenE (invalidateTargetE P i)
                 (thenE (saveTerminalControlState P)
                 (bindE (getsE w_work) (\<lambda>s. retE (Operated (operationResult s record False))))))))))))))))))))"

section \<open>Output\<close>

definition tailGoneError :: "'b platform \<Rightarrow> string \<Rightarrow> tc_error \<Rightarrow> ('b, tc_error option) tc" where
  "tailGoneError P i e =
     (if is_gone_error e
      then thenE (invalidateTargetE P i)
             (thenE (saveTerminalControlState P) (retE (Some (protocol_error TARGET_GONE (error_message e)))))
      else retE None)"

definition tailGoneErrorWithReprobe :: "'b platform \<Rightarrow> string \<Rightarrow> tc_error \<Rightarrow> ('b, tc_error option) tc" where
  "tailGoneErrorWithReprobe P i e =
     bindE (tailGoneError P i e) (\<lambda>direct.
       case direct of
         Some d \<Rightarrow> retE (Some d)
       | None \<Rightarrow>
           bindE (tryE (assertTargetCurrent P i)) (\<lambda>reprobe.
             case reprobe of
               Inr _ \<Rightarrow> retE None
             | Inl r \<Rightarrow>
                 (if is_gone_error r then retE (Some (protocol_error TARGET_GONE (error_message r)))
                  else if error_code_of r \<noteq> None then retE (Some r)
                  else retE None)))"

text \<open>The failure of a tail, shared by \<open>tailOutput\<close> and the exact observation tail.\<close>

definition tailFailed :: "'b platform \<Rightarrow> string \<Rightarrow> tc_error \<Rightarrow> ('b, 'a) tc" where
  "tailFailed P i e =
     (if error_code_of e = Some STALE_OUTPUT_CURSOR then throwE e
      else bindE (tailGoneErrorWithReprobe P i e) (\<lambda>gone.
        case gone of
          Some g \<Rightarrow> throwE g
        | None \<Rightarrow> recoveryE P i OUTPUT_CONTINUITY_UNCERTAIN (continuity_message e)))"

abbreviation stale_cursor_error :: tc_error where
  "stale_cursor_error \<equiv> protocol_error STALE_OUTPUT_CURSOR
     ''terminal output cursor was fenced by an ownership or controller generation change''"

definition tailOutput ::
  "'b platform \<Rightarrow> string \<Rightarrow> string \<Rightarrow> string \<Rightarrow> int \<Rightarrow> int option \<Rightarrow> ('b, result) tc" where
  "tailOutput P i controlEpoch outputGeneration cursor maxBytes =
     locked P
       (bindE (targetE i) (\<lambda>t.
        bindE (getsE w_work) (\<lambda>s.
        if controlEpoch \<noteq> s_controlEpoch s \<or> outputGeneration \<noteq> t_outputGeneration t
        then throwE stale_cursor_error
        else
          thenE (assertTargetCurrent P i)
          (bindE (targetE i) (\<lambda>t.
           bindE (catchE
             (callE (p_tailOutput P i (ms_name (t_managedSession t)) ''0'' outputGeneration cursor
                (with_default TERMINAL_CONTROL_MAX_OUTPUT_TAIL_BYTES maxBytes)))
             (tailFailed P i)) (\<lambda>chunk.
           bindE (getsE w_work) (\<lambda>s.
           bindE (targetE i) (\<lambda>t.
             retE (Tailed
               \<lparr>tr_controlTargetId = i, tr_controlEpoch = s_controlEpoch s,
                tr_fence = ow_fence (t_ownership t),
                tr_ownerKind = (if is_Free (t_ownership t) then None else Some (okind (ow_owner (t_ownership t)))),
                tr_chunk = chunk\<rparr>)))))))))"

text \<open>
  The guards of the three lease-bound reads (\<open>renderedSnapshot\<close>, \<open>agentStatus\<close>,
  \<open>agentResult\<close>), which differ in their messages only.
\<close>

definition isAgentConsumer :: "owner \<Rightarrow> bool" where
  "isAgentConsumer w \<longleftrightarrow> okind w = Feishu \<or> okind w = RelayV2"

definition guardedRead ::
  "'b platform \<Rightarrow> lease \<Rightarrow> string \<Rightarrow> string \<Rightarrow> string \<Rightarrow> string \<Rightarrow> (target \<Rightarrow> ('b, 'a) tc) \<Rightarrow> ('b, 'a) tc" where
  "guardedRead P l outputGeneration pane denied stale body =
     (let i = l_controlTargetId l in
      locked P
       (thenE (targetE i)
       (if \<not> isAgentConsumer (l_owner l) then throwE (protocol_error PERMISSION_DENIED denied)
        else
          thenE (assertTargetCurrent P i)
          (thenE (validLeaseE l True)
          (if pane \<noteq> ''0''
           then throwE (protocol_error INVALID_REQUEST
                  (''managed single-pane target has no logical pane: '' @ pane))
           else bindE (targetE i) (\<lambda>t.
             if outputGeneration \<noteq> t_outputGeneration t
             then throwE (protocol_error STALE_OUTPUT_CURSOR stale)
             else body t))))))"

definition readFrame :: "tc_state \<Rightarrow> target \<Rightarrow> lease \<Rightarrow> owner_kind \<Rightarrow> string \<Rightarrow> string \<Rightarrow> read_frame" where
  "readFrame s t l kind outputGeneration pane =
     \<lparr>rf_controlTargetId = t_controlTargetId t, rf_controlEpoch = s_controlEpoch s,
      rf_leaseId = l_leaseId l, rf_fence = ow_fence (t_ownership t), rf_ownerKind = kind,
      rf_outputGeneration = outputGeneration, rf_pane = pane\<rparr>"

definition renderedSnapshot ::
  "'b platform \<Rightarrow> lease \<Rightarrow> string \<Rightarrow> string \<Rightarrow> int option \<Rightarrow> ('b, result) tc" where
  "renderedSnapshot P l outputGeneration pane maxBytes =
     guardedRead P l outputGeneration pane
       ''rendered terminal snapshots require the exact Feishu owner''
       ''rendered terminal snapshot was fenced by an output generation change''
       (\<lambda>t. bindE (callE (p_captureRenderedSnapshot P (t_managedSession t) (t_tmuxInstanceId t)
                outputGeneration pane (with_default TERMINAL_CONTROL_MAX_RENDERED_SNAPSHOT_BYTES maxBytes)))
          (\<lambda>(dataBase64, truncated).
           bindE (getsE w_work) (\<lambda>s.
             retE (Snapshot (readFrame s t l Feishu outputGeneration pane) dataBase64 truncated))))"

definition agentStatus :: "'b platform \<Rightarrow> lease \<Rightarrow> string \<Rightarrow> string \<Rightarrow> ('b, result) tc" where
  "agentStatus P l outputGeneration pane =
     guardedRead P l outputGeneration pane
       ''agent status observations require an exact Agent consumer owner''
       ''agent status observation was fenced by an output generation change''
       (\<lambda>t. bindE (callE (p_agentStatus P (t_managedSession t) (t_tmuxInstanceId t) outputGeneration pane))
          (\<lambda>activity.
           bindE (getsE w_work) (\<lambda>s.
             retE (Activity (readFrame s t l (okind (l_owner l)) outputGeneration pane) activity))))"

definition agentResult ::
  "'b platform \<Rightarrow> lease \<Rightarrow> string \<Rightarrow> string \<Rightarrow> agent_source \<Rightarrow> int option \<Rightarrow> ('b, result) tc" where
  "agentResult P l outputGeneration pane source maxBytes =
     guardedRead P l outputGeneration pane
       ''Agent final response extraction requires an exact Agent consumer owner''
       ''Agent final response extraction was fenced by an output generation change''
       (\<lambda>t. bindE (callE (p_agentResult P (t_managedSession t) (t_tmuxInstanceId t) outputGeneration pane
                source (with_default TERMINAL_CONTROL_MAX_AGENT_RESULT_BYTES maxBytes)))
          (\<lambda>res.
           bindE (getsE w_work) (\<lambda>s.
             retE (AgentResult (readFrame s t l (okind (l_owner l)) outputGeneration pane) res))))"

section \<open>Dispatch\<close>

text \<open>
  \<open>handleV1\<close>. \<open>InputRaw\<close> carries the decoded bytes: \<open>Buffer.from(dataBase64, "base64")\<close> is done
  when the request is parsed.
\<close>

fun handleV1 :: "'b platform \<Rightarrow> request \<Rightarrow> ('b, result) tc" where
  "handleV1 P Ping =
     retE (Capabilities [''output.rendered-snapshot'', ''activity.agent-status'', ''activity.agent-result''])"
| "handleV1 P (TargetResolve sessionName) = resolveTarget P sessionName"
| "handleV1 P (OwnershipStatus i) = status P i"
| "handleV1 P (LeaseAcquire i w ttl) = acquire P i w ttl"
| "handleV1 P (LeaseRenew l ttl) = renew P l ttl"
| "handleV1 P (LeaseRelease l) = release P l"
| "handleV1 P (HandoffBegin i nextOwner currentLease) = beginHandoff P i nextOwner currentLease"
| "handleV1 P (HandoffCommit handoffId l drain ttl) = commitHandoff P handoffId l drain ttl"
| "handleV1 P (HandoffCancel handoffId l) = cancelHandoff P handoffId l"
| "handleV1 P (HandoffWithdraw i handoffId nextOwner) = withdrawHandoff P i handoffId nextOwner"
| "handleV1 P (HandoffForce i epoch nextOwner proof ack ttl) = forceHandoff P i epoch nextOwner proof ack ttl"
| "handleV1 P (InputRaw l operationId pane data) = executeInput P l operationId pane RawOp data"
| "handleV1 P (InputAgentMessage l operationId pane message submit runtime) =
     executeInput P l operationId pane AgentMessageOp (encode_agent_message message submit runtime)"
| "handleV1 P (InputResize l operationId pane cols rows) =
     executeInput P l operationId pane ResizeOp (encode_resize cols rows)"
| "handleV1 P (InputScroll l operationId pane direction lines) =
     executeInput P l operationId pane ScrollOp (encode_scroll direction lines)"
| "handleV1 P (LifecycleKill l operationId) = executeLifecycleKill P l operationId"
| "handleV1 P (OutputTail i epoch generation cursor maxBytes) = tailOutput P i epoch generation cursor maxBytes"
| "handleV1 P (OutputRenderedSnapshot l generation pane maxBytes) = renderedSnapshot P l generation pane maxBytes"
| "handleV1 P (ActivityAgentStatus l generation pane) = agentStatus P l generation pane"
| "handleV1 P (ActivityAgentResult l generation pane source maxBytes) =
     agentResult P l generation pane source maxBytes"

end
