(* ===== verification/TC_Invariants.thy ===== *)
theory TC_Invariants
  imports TC_Input
begin

text \<open>
  What the handlers of the authority can do, as an interface.

  \<open>target_step\<close> lists the writes the handlers make to a target record: it is the abstract
  transition relation of one target. The locale \<open>world_invariant\<close> is the contract between the
  handlers and a predicate \<open>J\<close> of the world: if \<open>J\<close> survives changes of the environment and of
  the process-local registries, every \<open>target_step\<close> on a target the request may touch, and a
  save, then every handler keeps \<open>J\<close>, whether it returns or throws. The invariants of the
  development are its interpretations.
\<close>

section \<open>The writes to a target\<close>

inductive target_step :: "target \<Rightarrow> target \<Rightarrow> bool" where
  ts_touch: "target_step t ((revision t)\<lparr>t_updatedAt := n\<rparr>)"
| ts_generation: "target_step t (t\<lparr>t_outputGeneration := g\<rparr>)"
| ts_recovery: "target_step t (markRecovery e t r pe oi a b c)"
| ts_invalidate: "target_step t (invalidateTarget t n)"
| ts_reopen: "target_step t (t\<lparr>t_lifecycle := ACTIVE, t_recovery := None, t_ownership := Free (ow_fence (t_ownership t))\<rparr>)"
| ts_activate: "target_step t (t\<lparr>t_lifecycle := ACTIVE, t_recovery := None\<rparr>)"
| ts_clear_recovery: "target_step t (t\<lparr>t_recovery := None\<rparr>)"
| ts_grant: "target_step t (t\<lparr>t_ownership := Held (nextDecimal (ow_fence (t_ownership t))) w u x\<rparr>)"
| ts_release: "target_step t (t\<lparr>t_ownership := Free (nextDecimal (ow_fence (t_ownership t)))\<rparr>)"
| ts_expiry: "target_step t (t\<lparr>t_ownership := with_expiry x (t_ownership t)\<rparr>)"
| ts_drain: "target_step t (t\<lparr>t_ownership := draining h (t_ownership t)\<rparr>)"
| ts_with_drain: "target_step t (t\<lparr>t_ownership := with_drain d (t_ownership t)\<rparr>)"
| ts_undrain: "target_step t (t\<lparr>t_ownership := undrained (t_ownership t)\<rparr>)"
| ts_in_flight: "target_step t (t\<lparr>t_inFlight := f\<rparr>)"
| ts_append: "target_step t (appendOperation t op)"
| ts_complete: "target_step t (fst (completeInFlightAsInDoubt t n))"

inductive_simps target_step_iff: "target_step t u"

lemma target_step_id: "target_step t u \<Longrightarrow> t_controlTargetId u = t_controlTargetId t"
  by (induction rule: target_step.induct)
    (simp_all add: appendOperation_def completeInFlightAsInDoubt_def split: option.split)

abbreviation tgt :: "string \<Rightarrow> target list \<Rightarrow> target option" where
  "tgt i ts \<equiv> find (\<lambda>t. t_controlTargetId t = i) ts"

lemma tgt_update_same:
  "(\<And>t. t_controlTargetId (f t) = t_controlTargetId t) \<Longrightarrow>
   tgt i (update_first (\<lambda>t. t_controlTargetId t = i) f ts) = map_option f (tgt i ts)"
  by (rule find_update_first) simp

lemma tgt_update_other:
  "j \<noteq> i \<Longrightarrow> (\<And>t. t_controlTargetId (f t) = t_controlTargetId t) \<Longrightarrow>
   tgt j (update_first (\<lambda>t. t_controlTargetId t = i) f ts) = tgt j ts"
  by (rule find_update_first_other) auto

lemma tgt_id: "tgt i ts = Some t \<Longrightarrow> t_controlTargetId t = i"
  by (auto dest: find_SomeD)

text \<open>The targets a request may write: all of them when it resolves a session name.\<close>

fun touches :: "request \<Rightarrow> string \<Rightarrow> bool" where
  "touches Ping i = False"
| "touches (TargetResolve sessionName) i = True"
| "touches (OwnershipStatus j) i = (i = j)"
| "touches (LeaseAcquire j w ttl) i = (i = j)"
| "touches (LeaseRenew l ttl) i = (i = l_controlTargetId l)"
| "touches (LeaseRelease l) i = (i = l_controlTargetId l)"
| "touches (HandoffBegin j w cl) i = (i = j)"
| "touches (HandoffCommit h l d ttl) i = (i = l_controlTargetId l)"
| "touches (HandoffCancel h l) i = (i = l_controlTargetId l)"
| "touches (HandoffWithdraw j h w) i = (i = j)"
| "touches (HandoffForce j e w p a ttl) i = (i = j)"
| "touches (InputRaw l oi p d) i = (i = l_controlTargetId l)"
| "touches (InputAgentMessage l oi p m s r) i = (i = l_controlTargetId l)"
| "touches (InputResize l oi p c r) i = (i = l_controlTargetId l)"
| "touches (InputScroll l oi p d n) i = (i = l_controlTargetId l)"
| "touches (LifecycleKill l oi) i = (i = l_controlTargetId l)"
| "touches (OutputTail j e g c m) i = (i = j)"
| "touches (OutputRenderedSnapshot l g p m) i = (i = l_controlTargetId l)"
| "touches (ActivityAgentStatus l g p) i = (i = l_controlTargetId l)"
| "touches (ActivityAgentResult l g p src m) i = (i = l_controlTargetId l)"

section \<open>The contract\<close>

lemma keeps_case_lifecycle:
  "keeps J a \<Longrightarrow> keeps J b \<Longrightarrow> keeps J c \<Longrightarrow>
   keeps J (case v of ACTIVE \<Rightarrow> a | RECOVERY \<Rightarrow> b | GONE \<Rightarrow> c)"
  by (cases v) simp_all

locale world_invariant =
  fixes J :: "'b world \<Rightarrow> bool"
    and A :: "string \<Rightarrow> bool"
  assumes J_env: "J w \<Longrightarrow> J (w\<lparr>w_env := b\<rparr>)"
    and J_owners: "J w \<Longrightarrow> J (w\<lparr>w_interactiveOwners := m\<rparr>)"
    and J_observers: "J w \<Longrightarrow> J (w\<lparr>w_observations := o1, w_observersByTarget := o2\<rparr>)"
    and J_target: "J w \<Longrightarrow> A i \<Longrightarrow> (\<And>t. target_step t (f t)) \<Longrightarrow> J (w\<lparr>w_work := upd_target i f (w_work w)\<rparr>)"
    and J_save: "J w \<Longrightarrow> prepared_save lc (w_work w) = Inr c \<Longrightarrow> J (w\<lparr>w_disk := StateFile c\<rparr>)"
begin

lemma env_keeps [intro]: "keeps J (envE f)"
  by (auto simp: moves_def envE_def Let_def J_env split: prod.splits)

lemma call_keeps [intro]: "keeps J (callE f)"
  by (auto simp: moves_def callE_def Let_def J_env split: prod.splits)

lemma target_keeps [intro]: "keeps J (targetE i)"
  unfolding targetE_def by (intro keeps_rules)

lemma mod_keeps: "A i \<Longrightarrow> (\<And>t. target_step t (f t)) \<Longrightarrow> keeps J (modTarget i f)"
  unfolding modTarget_def by (rule keeps_modify) (rule J_target)

lemma touch_keeps [intro]: "A i \<Longrightarrow> keeps J (touchE P i)"
  unfolding touchE_def by (intro keeps_rules env_keeps mod_keeps ts_touch)

lemma generation_keeps [intro]: "A i \<Longrightarrow> keeps J (setGeneration i out)"
  unfolding setGeneration_def by (intro keeps_rules mod_keeps ts_generation)

lemma mark_keeps [intro]: "A i \<Longrightarrow> keeps J (markRecoveryE P i r pe oi)"
  unfolding markRecoveryE_def by (intro keeps_rules env_keeps target_keeps mod_keeps ts_recovery)

lemma invalidate_keeps [intro]: "A i \<Longrightarrow> keeps J (invalidateTargetE P i)"
  unfolding invalidateTargetE_def by (intro keeps_rules env_keeps mod_keeps ts_invalidate)

lemma expired_keeps [intro]: "keeps J (leaseExpiredE P t)"
  unfolding leaseExpiredE_def by (intro keeps_rules env_keeps)

lemma register_keeps [intro]: "keeps J (registerInteractiveOwner i w)"
  unfolding registerInteractiveOwner_def by (intro keeps_rules keeps_modify J_owners)

lemma unregister_keeps [intro]: "keeps J (unregisterInteractiveOwner i w)"
  unfolding unregisterInteractiveOwner_def by (intro keeps_rules keeps_modify J_owners)

lemma reset_owners_keeps [intro]: "keeps J (resetInteractiveOwners i)"
  unfolding resetInteractiveOwners_def by (intro keeps_modify J_owners)

lemma save_keeps [intro]: "keeps J (saveTerminalControlState P)"
proof (rule movesI, rule impI)
  fix w r w' assume run: "saveTerminalControlState P w = (r, w')" and J: "J w"
  show "J w'"
  proof (cases "prepared_save (p_localeCompare P) (w_work w)")
    case (Inl e)
    with run J show ?thesis by (simp add: saveTerminalControlState_def em_defs)
  next
    case (Inr c)
    obtain out b where p: "p_persist P c (w_env w) = (out, b)"
      by (cases "p_persist P c (w_env w)") auto
    have Jb: "J (w\<lparr>w_env := b\<rparr>)" by (rule J_env [OF J])
    moreover have "J (w\<lparr>w_env := b, w_disk := StateFile c\<rparr>)"
      using J_save [OF Jb, of "p_localeCompare P" c] Inr by simp
    ultimately show ?thesis
      using run Inr p
      by (cases out) (auto simp: saveTerminalControlState_def em_defs envE_def split: if_splits)
  qed
qed

lemma retire_J: "J w \<Longrightarrow> J (retire_observation h w)"
  using J_observers by (auto simp: retire_observation_def split: option.split)

lemma prune_keeps [intro]: "keeps J (relayV2ExactPruneStaleObservers i)"
proof -
  have "J w \<Longrightarrow> J (fold (\<lambda>h w. if observer_stale (w_work w) t w h then retire_observation h w else w) hs w)"
    for t hs and w :: "'b world"
    by (induction hs arbitrary: w) (auto intro: retire_J)
  then show ?thesis
    unfolding relayV2ExactPruneStaleObservers_def by (intro keeps_rules target_keeps keeps_modify)
qed

lemmas basic_keeps =
  env_keeps call_keeps target_keeps touch_keeps generation_keeps mark_keeps invalidate_keeps
  expired_keeps register_keeps unregister_keeps reset_owners_keeps save_keeps prune_keeps

lemma gone_keeps [intro]: "A i \<Longrightarrow> keeps J (goneE P i e)"
  unfolding goneE_def by (intro keeps_rules basic_keeps)

lemma recovery_keeps [intro]: "A i \<Longrightarrow> keeps J (recoveryE P i r m)"
  unfolding recoveryE_def by (intro keeps_rules basic_keeps)

lemma backendReset_keeps [intro]: "A i \<Longrightarrow> keeps J (backendReset P i)"
  unfolding backendReset_def by (intro keeps_rules basic_keeps)

lemma reconcile_keeps [intro]: "A i \<Longrightarrow> keeps J (reconcileAbandonedOwnership P i)"
  unfolding reconcileAbandonedOwnership_def
  by (intro keeps_rules basic_keeps gone_keeps backendReset_keeps mod_keeps ts_reopen)

lemma assertTargetCurrent_keeps [intro]: "A i \<Longrightarrow> keeps J (assertTargetCurrent P i)"
  unfolding assertTargetCurrent_def
  by (intro keeps_rules basic_keeps reconcile_keeps gone_keeps recovery_keeps)

lemma prepareOutput_keeps [intro]: "A i \<Longrightarrow> keeps J (prepareOutput P i c)"
  unfolding prepareOutput_def
  by (intro keeps_rules basic_keeps backendReset_keeps recovery_keeps)

lemma resetOutput_keeps [intro]: "A i \<Longrightarrow> keeps J (resetOutput P i)"
  unfolding resetOutput_def by (intro keeps_rules backendReset_keeps recovery_keeps)

lemma recoverOutput_keeps [intro]: "A i \<Longrightarrow> keeps J (recoverOutput P i)"
  unfolding recoverOutput_def by (intro keeps_rules basic_keeps)

lemma view_keeps [intro]: "keeps J (viewE i c)"
  unfolding viewE_def by (intro keeps_rules basic_keeps)

lemma leased_keeps [intro]: "keeps J (leasedE i w c)"
  unfolding leasedE_def by (intro keeps_rules basic_keeps view_keeps)

lemma leaseFromTarget_keeps [intro]: "keeps J (leaseFromTargetE i c)"
  unfolding leaseFromTargetE_def by (intro keeps_rules basic_keeps view_keeps)

lemma validLease_keeps [intro]: "keeps J (validLeaseE l d)"
  unfolding validLeaseE_def by (intro keeps_rules basic_keeps)

lemma grant_keeps [intro]: "A i \<Longrightarrow> keeps J (grantE P i w ttl)"
  unfolding grantE_def by (intro keeps_rules basic_keeps mod_keeps ts_grant)

lemma settle_keeps [intro]: "A i \<Longrightarrow> keeps J (settleInFlight P i)"
  unfolding settleInFlight_def by (intro keeps_rules basic_keeps)

lemma cursor_keeps [intro]: "A i \<Longrightarrow> keeps J (activeOutputCursor P i)"
  unfolding activeOutputCursor_def by (intro keeps_rules basic_keeps prepareOutput_keeps)

lemma restoreHolder_keeps [intro]: "A i \<Longrightarrow> keeps J (restoreHolder P i)"
  unfolding restoreHolder_def
  by (intro keeps_rules basic_keeps prepareOutput_keeps view_keeps mod_keeps ts_undrain)

lemmas handler_keeps =
  basic_keeps gone_keeps recovery_keeps backendReset_keeps reconcile_keeps assertTargetCurrent_keeps
  prepareOutput_keeps resetOutput_keeps recoverOutput_keeps view_keeps leased_keeps
  leaseFromTarget_keeps validLease_keeps grant_keeps settle_keeps cursor_keeps restoreHolder_keeps

text \<open>The bodies of the handlers, inside the lock.\<close>

lemma quiet_keeps [intro]: "keeps J (saveQuietly P)"
  unfolding saveQuietly_def by (intro keeps_rules handler_keeps)

lemma clear_keeps [intro]: "A i \<Longrightarrow> keeps J (clearInFlight i)"
  unfolding clearInFlight_def by (intro mod_keeps ts_in_flight)

lemma begin_keeps [intro]: "A (l_controlTargetId l) \<Longrightarrow> keeps J (beginOperation P oi l h k out)"
  unfolding beginOperation_def Let_def by (intro keeps_rules handler_keeps mod_keeps ts_in_flight)

lemma inputPosition_keeps [intro]: "A (l_controlTargetId l) \<Longrightarrow> keeps J (inputPosition P l k)"
  unfolding inputPosition_def Let_def
  by (auto split: prod.split bool.split option.split intro!: keeps_rules handler_keeps)

lemma inputFailed_keeps [intro]: "A i \<Longrightarrow> keeps J (inputFailed P i oi k e)"
  unfolding inputFailed_def by (intro keeps_rules handler_keeps quiet_keeps clear_keeps)

lemma killFailed_keeps [intro]: "A i \<Longrightarrow> keeps J (killFailed P i oi e)"
  unfolding killFailed_def by (intro keeps_rules handler_keeps quiet_keeps clear_keeps)

lemma tailFailed_keeps [intro]: "A i \<Longrightarrow> keeps J (tailFailed P i e)"
  unfolding tailFailed_def tailGoneErrorWithReprobe_def tailGoneError_def
  by (intro keeps_rules handler_keeps)

end

section \<open>Whole requests\<close>

text \<open>
  \<open>authority_invariant\<close> adds what the remaining writes need (a provisioned target, a call that
  reaches a terminal) and the passage through the lock: \<open>Pre\<close> holds when a request
  arrives, \<open>J\<close> while it runs on the state loaded from the file, and \<open>F\<close> of the durable world
  it leaves, however it ends.
\<close>

definition loaded :: "disk \<Rightarrow> tc_state \<Rightarrow> bool" where
  "loaded d s \<longleftrightarrow> d = NoFile \<and> s_targets s = [] \<or> d = StateFile s \<and> valid_state s"

text \<open>The passage through the lock: the operation starts on the state loaded from the file.\<close>

lemma load_triple:
  assumes env: "\<And>w b. J w \<Longrightarrow> J (w\<lparr>w_env := b\<rparr>)" and err: "\<And>e w. J w \<Longrightarrow> E e w"
  shows "triple J (loadTerminalControlState P) (\<lambda>s w. J w \<and> loaded (w_disk w) s) E"
  by (rule tripleI)
    (auto simp: loadTerminalControlState_def emptyTerminalControlState_def em_defs envE_def Let_def loaded_def
      dest: parse_cases split: disk.splits sum.splits prod.splits intro: env err)

lemma locked_triple:
  assumes env: "\<And>w b. J w \<Longrightarrow> J (w\<lparr>w_env := b\<rparr>)" and err: "\<And>e w. J w \<Longrightarrow> E e w"
    and load: "\<And>w s. J w \<Longrightarrow> loaded (w_disk w) s \<Longrightarrow> K (w\<lparr>w_work := s\<rparr>)"
    and op: "triple K op Q E"
  shows "triple J (locked P op) Q E"
  unfolding locked_def
proof (rule triple_then)
  show "triple J (callE (p_acquireLock P)) (\<lambda>_. J) E"
    by (rule tripleI) (auto simp: callE_def Let_def split: prod.splits intro: env err)
  have "triple (\<lambda>w. J w \<and> loaded (w_disk w) s) (thenE (modifyE (\<lambda>w. w\<lparr>w_work := s\<rparr>)) op) Q E" for s
    by (rule triple_then [OF triple_pre [OF triple_modify] op]) (simp add: load)
  then show "triple J (bindE (loadTerminalControlState P) (\<lambda>s. thenE (modifyE (\<lambda>w. w\<lparr>w_work := s\<rparr>)) op)) Q E"
    by (intro triple_bind [OF load_triple]) (auto intro: env err)
qed

locale authority_invariant = world_invariant +
  fixes P :: "'b platform"
    and Pre :: "'b world \<Rightarrow> bool"
    and F :: "'b world \<Rightarrow> bool"
  assumes J_push: "(\<And>i. A i) \<Longrightarrow> J w \<Longrightarrow> p_randomUUID P b = (i, b') \<Longrightarrow>
      J (w\<lparr>w_work := (w_work w)\<lparr>s_targets := s_targets (w_work w) @ [fresh_target i m tm g n]\<rparr>\<rparr>)"
    and J_trace: "J w \<Longrightarrow> J (w\<lparr>w_trace := tr\<rparr>)"
    and Pre_env: "Pre w \<Longrightarrow> Pre (w\<lparr>w_env := b\<rparr>)"
    and Pre_load: "Pre w \<Longrightarrow> loaded (w_disk w) s \<Longrightarrow> J (w\<lparr>w_work := s\<rparr>)"
    and Pre_F: "Pre w \<Longrightarrow> F w"
    and J_F: "J w \<Longrightarrow> F w"
begin

lemma locked_F:
  assumes op: "keeps J op" and pre: "Pre w"
  shows "F (snd (locked P op w))"
proof -
  have "triple Pre (locked P op) (\<lambda>_. F) (\<lambda>_. F)"
    by (rule locked_triple [where K = J])
      (auto intro: Pre_env Pre_F Pre_load triple_weaken [OF op [unfolded keeps_triple]] J_F)
  with pre show ?thesis
    by (cases "locked P op w", cases "fst (locked P op w)") (auto dest: tripleD_ok tripleD_err)
qed

lemma effect_keeps [intro]: "keeps J (effectE e f)"
  unfolding effectE_def by (intro keeps_rules keeps_modify J_trace call_keeps)

lemma perform_keeps [intro]: "keeps J (performInput P i pane kind payload out)"
  unfolding performInput_def Let_def
  by (intro keeps_rules target_keeps)
    (auto split: op_kind.split prod.split bool.split option.split intro!: keeps_rules effect_keeps)

lemma fence_all_keeps [intro]: "(\<And>i. A i) \<Longrightarrow> keeps J (fence_all P e ts)"
  by (induction ts) (auto intro!: keeps_rules mark_keeps split: option.split)

lemma superseded_keeps [intro]: "(\<And>i. A i) \<Longrightarrow> keeps J (invalidate_superseded P m tm ts)"
  by (induction ts) (auto intro!: keeps_rules invalidate_keeps)

lemma provision_keeps [intro]:
  assumes "\<And>i. A i"
  shows "keeps J (provisionTarget P m tm)"
proof (rule movesI, rule impI)
  fix w r w' assume run: "provisionTarget P m tm w = (r, w')" and J: "J w"
  obtain i b1 where i: "p_randomUUID P (w_env w) = (i, b1)" by (cases "p_randomUUID P (w_env w)")
  obtain g b2 where g: "p_randomUUID P b1 = (g, b2)" by (cases "p_randomUUID P b1")
  obtain n b3 where n: "p_now P b2 = (n, b3)" by (cases "p_now P b2")
  have "J (w\<lparr>w_env := b3\<rparr>)" by (rule J_env [OF J])
  from J_push [OF assms this i] run i g n show "J w'"
    by (auto simp: provisionTarget_def pushTarget_def em_defs envE_def)
qed

lemma resolve_F: "(\<And>i. A i) \<Longrightarrow> Pre w \<Longrightarrow> F (snd (resolveTarget P n w))"
  unfolding resolveTarget_def
  by (intro locked_F keeps_rules handler_keeps superseded_keeps provision_keeps)

lemma status_F: "A i \<Longrightarrow> Pre w \<Longrightarrow> F (snd (status P i w))"
  unfolding status_def by (intro locked_F keeps_rules handler_keeps)

lemma acquire_F: "A i \<Longrightarrow> Pre w \<Longrightarrow> F (snd (acquire P i o' ttl w))"
  unfolding acquire_def
  by (intro locked_F keeps_rules handler_keeps mod_keeps ts_expiry)

lemma renew_F: "A (l_controlTargetId l) \<Longrightarrow> Pre w \<Longrightarrow> F (snd (renew P l ttl w))"
  unfolding renew_def Let_def
  by (intro locked_F keeps_rules handler_keeps mod_keeps ts_expiry)

lemma release_F: "A (l_controlTargetId l) \<Longrightarrow> Pre w \<Longrightarrow> F (snd (release P l w))"
  unfolding release_def Let_def
  by (intro locked_F keeps_rules handler_keeps mod_keeps ts_release)

lemma begin_F: "A i \<Longrightarrow> Pre w \<Longrightarrow> F (snd (beginHandoff P i o' cl w))"
  unfolding beginHandoff_def
  by (intro locked_F keeps_rules handler_keeps mod_keeps ts_drain)

lemma commit_F: "A (l_controlTargetId l) \<Longrightarrow> Pre w \<Longrightarrow> F (snd (commitHandoff P h l d ttl w))"
  unfolding commitHandoff_def Let_def
  by (intro locked_F keeps_rules handler_keeps mod_keeps ts_with_drain ts_clear_recovery)

lemma cancel_F: "A (l_controlTargetId l) \<Longrightarrow> Pre w \<Longrightarrow> F (snd (cancelHandoff P h l w))"
  unfolding cancelHandoff_def Let_def by (intro locked_F keeps_rules handler_keeps)

lemma withdraw_F: "A i \<Longrightarrow> Pre w \<Longrightarrow> F (snd (withdrawHandoff P i h o' w))"
  unfolding withdrawHandoff_def by (intro locked_F keeps_rules handler_keeps)

lemma return_F: "Pre w \<Longrightarrow> F (snd (retE a w))"
  and throw_F: "Pre w \<Longrightarrow> F (snd (throwE e w))"
  by (simp_all add: retE_def throwE_def Pre_F)

lemma force_F:
  assumes "A i" and "Pre w"
  shows "F (snd (forceHandoff P i e o' pf ack ttl w))"
proof (cases "\<not> isControlledLocal o' \<or> \<not> ack")
  case True
  with assms(2) show ?thesis by (simp add: forceHandoff_def throw_F)
next
  case False
  show ?thesis
    unfolding forceHandoff_def if_not_P [OF False] using assms
    by (intro locked_F keeps_rules keeps_case_lifecycle handler_keeps mod_keeps ts_complete ts_activate)
qed

lemma input_F: "A (l_controlTargetId l) \<Longrightarrow> Pre w \<Longrightarrow> F (snd (executeInput P l oi p k pl w))"
  unfolding executeInput_def Let_def
  by (intro locked_F keeps_rules handler_keeps inputPosition_keeps begin_keeps perform_keeps
      inputFailed_keeps clear_keeps mod_keeps ts_append)

lemma kill_F: "A (l_controlTargetId l) \<Longrightarrow> Pre w \<Longrightarrow> F (snd (executeLifecycleKill P l oi w))"
  unfolding executeLifecycleKill_def Let_def
  by (intro locked_F keeps_rules handler_keeps begin_keeps effect_keeps killFailed_keeps clear_keeps
      mod_keeps ts_append)

lemma tail_F: "A i \<Longrightarrow> Pre w \<Longrightarrow> F (snd (tailOutput P i e g c m w))"
  unfolding tailOutput_def by (intro locked_F keeps_rules handler_keeps tailFailed_keeps)

lemma read_F:
  "A (l_controlTargetId l) \<Longrightarrow> (\<And>t. keeps J (body t)) \<Longrightarrow> Pre w \<Longrightarrow>
   F (snd (guardedRead P l g p d st body w))"
  unfolding guardedRead_def Let_def by (intro locked_F keeps_rules handler_keeps)

lemma handleV1_F:
  assumes touched: "\<And>i. touches r i \<Longrightarrow> A i" and pre: "Pre w"
  shows "F (snd (handleV1 P r w))"
  using touched pre
  by (cases r)
    (auto simp: renderedSnapshot_def agentStatus_def agentResult_def
      intro!: return_F resolve_F status_F acquire_F renew_F release_F begin_F commit_F cancel_F withdraw_F
        force_F input_F kill_F tail_F read_F keeps_rules call_keeps)

end

text \<open>A restart also replaces the controller epoch.\<close>

locale restart_invariant = authority_invariant +
  assumes J_epoch: "J w \<Longrightarrow> J (w\<lparr>w_work := (w_work w)\<lparr>s_controlEpoch := u\<rparr>\<rparr>)"
begin

lemma initializeContinuity_F: "(\<And>i. A i) \<Longrightarrow> Pre w \<Longrightarrow> F (snd (initializeContinuity_locked P w))"
  unfolding initializeContinuity_locked_def
  by (intro locked_F keeps_rules handler_keeps fence_all_keeps keeps_modify J_epoch)

end

end
