(* ===== verification/TC_Fencing.thy ===== *)
theory TC_Fencing
  imports TC_Invariants
begin

text \<open>
  Ownership fencing: what no request can undo. The fence of a target only grows, its holder
  changes only together with its fence, its identity never changes; a lease whose fence was passed
  never validates again. The handler of a request leaves the targets it does not name alone. Each fact is an interpretation of \<open>authority_invariant\<close>.
\<close>

section \<open>The order on target records\<close>

definition fence_value :: "target \<Rightarrow> nat" where
  "fence_value t = decimal_value (ow_fence (t_ownership t))"

text \<open>Who holds the target, under which lease.\<close>

definition holder :: "target \<Rightarrow> (owner \<times> string) option" where
  "holder t = (if is_Free (t_ownership t) then None
               else Some (ow_owner (t_ownership t), ow_leaseId (t_ownership t)))"

definition target_le :: "target \<Rightarrow> target \<Rightarrow> bool" where
  "target_le t u \<longleftrightarrow>
     t_managedSession u = t_managedSession t \<and> t_tmuxInstanceId u = t_tmuxInstanceId t
     \<and> fence_value t \<le> fence_value u
     \<and> (fence_value u = fence_value t \<longrightarrow> holder u \<in> {holder t, None})
     \<and> decimal_value (t_revision t) \<le> decimal_value (t_revision u)"

lemma target_le_refl [simp]: "target_le t t"
  by (simp add: target_le_def)

lemma target_le_trans: "target_le t u \<Longrightarrow> target_le u v \<Longrightarrow> target_le t v"
  unfolding target_le_def by force

lemma step_target_le: "target_step t u \<Longrightarrow> target_le t u"
proof (induction rule: target_step.induct)
  case (ts_expiry t x)
  then show ?case by (cases "t_ownership t") (simp_all add: target_le_def fence_value_def holder_def)
next
  case (ts_drain t h)
  then show ?case by (cases "t_ownership t") (simp_all add: target_le_def fence_value_def holder_def)
next
  case (ts_with_drain t d)
  then show ?case by (cases "t_ownership t") (simp_all add: target_le_def fence_value_def holder_def)
next
  case (ts_undrain t)
  then show ?case by (cases "t_ownership t") (simp_all add: target_le_def fence_value_def holder_def)
next
  case (ts_complete t n)
  then show ?case
    by (cases "t_inFlight t")
      (simp_all add: target_le_def fence_value_def holder_def completeInFlightAsInDoubt_def appendOperation_def)
qed (simp_all add: target_le_def fence_value_def holder_def appendOperation_def)

section \<open>The durable targets\<close>

fun disk_targets :: "disk \<Rightarrow> target list" where
  "disk_targets NoFile = []"
| "disk_targets (BadFile m) = []"
| "disk_targets (StateFile s) = s_targets s"

lemma loaded_targets: "loaded d s \<Longrightarrow> s_targets s = disk_targets d"
  by (auto simp: loaded_def)

lemma tgt_mem:
  "distinct (map t_controlTargetId ts) \<Longrightarrow> t \<in> set ts \<Longrightarrow> tgt (t_controlTargetId t) ts = Some t"
  by (induction ts) (auto simp: image_iff)

text \<open>What a save leaves of a target: the record, or a retired record without its journal.\<close>

lemma saved_target:
  assumes "prepared_save lc s = Inr c" and "tgt i (s_targets c) = Some u"
  shows "\<exists>t. tgt i (s_targets s) = Some t \<and> (u = t \<or> u = t\<lparr>t_completedOperations := []\<rparr> \<and> t_lifecycle t = GONE)"
proof -
  from assms(1) have v: "valid_state s" and c: "c = compact_state lc s"
    by (auto dest: prepared_save_InrD)
  from assms(2) have u: "u \<in> set (s_targets c)" "t_controlTargetId u = i" by (auto dest: find_SomeD)
  obtain t where t: "t \<in> set (s_targets s)" "u = t \<or> u = t\<lparr>t_completedOperations := []\<rparr> \<and> t_lifecycle t = GONE"
    using mem_compactD [of u "retainedGoneIds lc s" "s_targets s"] u(1)
    by (auto simp: c compact_state_def)
  then have "t_controlTargetId t = i" using u(2) by auto
  moreover have "distinct (map t_controlTargetId (s_targets s))" using v by (simp add: valid_state_iff)
  ultimately have "tgt i (s_targets s) = Some t"
    using t(1) tgt_mem by blast
  with t(2) show ?thesis by blast
qed

text \<open>A target that is not retired is saved as it is.\<close>

lemma saved_live_target:
  "prepared_save lc s = Inr c \<Longrightarrow> tgt i (s_targets s) = Some t \<Longrightarrow> t_lifecycle t \<noteq> GONE \<Longrightarrow>
   tgt i (s_targets c) = Some t"
  by (auto dest!: prepared_save_InrD simp: compact_state_def valid_state_iff intro: find_compact)

lemma upd_target_targets [simp]:
  "s_targets (upd_target i f s) = update_first (\<lambda>t. t_controlTargetId t = i) f (s_targets s)"
  "s_controlEpoch (upd_target i f s) = s_controlEpoch s"
  by (simp_all add: upd_target_def)

lemma tgt_step:
  assumes "\<And>t. target_step t (f t)" and "tgt j ts = Some t"
  shows "\<exists>u. tgt j (update_first (\<lambda>t. t_controlTargetId t = i) f ts) = Some u \<and> (u = t \<or> j = i \<and> u = f t)"
proof -
  have id: "t_controlTargetId (f t) = t_controlTargetId t" for t
    using assms(1) by (rule target_step_id)
  show ?thesis
    using assms(2) tgt_update_same [of f, OF id] tgt_update_other [of _ _ f, OF _ id]
    by (cases "j = i") simp_all
qed

lemma tgt_step_iff:
  assumes "\<And>t. target_step t (f t)"
  shows "(tgt j (update_first (\<lambda>t. t_controlTargetId t = i) f ts) = None) = (tgt j ts = None)"
proof -
  have id: "t_controlTargetId (f t) = t_controlTargetId t" for t
    using assms by (rule target_step_id)
  show ?thesis
    using tgt_update_same [of f i ts, OF id] tgt_update_other [of j i f ts, OF _ id]
    by (cases "j = i") simp_all
qed

section \<open>Fences only grow\<close>

definition grows :: "disk \<Rightarrow> target list \<Rightarrow> bool" where
  "grows d0 ts \<longleftrightarrow>
     (\<forall>i t u. tgt i (disk_targets d0) = Some t \<longrightarrow> tgt i ts = Some u \<longrightarrow> target_le t u)"

definition grows_in :: "disk \<Rightarrow> 'b world \<Rightarrow> bool" where
  "grows_in d0 w \<longleftrightarrow>
     grows d0 (s_targets (w_work w)) \<and> grows d0 (disk_targets (w_disk w))
     \<and> (\<forall>i. tgt i (disk_targets d0) \<noteq> None \<longrightarrow> tgt i (s_targets (w_work w)) \<noteq> None)"

lemma grows_step:
  assumes "grows d0 ts" and step: "\<And>t. target_step t (f t)"
  shows "grows d0 (update_first (\<lambda>t. t_controlTargetId t = i) f ts)"
  unfolding grows_def
proof (intro allI impI)
  fix j t u
  assume t: "tgt j (disk_targets d0) = Some t"
    and u: "tgt j (update_first (\<lambda>t. t_controlTargetId t = i) f ts) = Some u"
  have "tgt j ts \<noteq> None" using tgt_step_iff [of f j i ts, OF step] u by simp
  then obtain v where v: "tgt j ts = Some v" by blast
  then have "u = v \<or> u = f v" using tgt_step [OF step v, of i] u by auto
  moreover have "target_le t v" using assms(1) t v by (simp add: grows_def)
  ultimately show "target_le t u"
    using step_target_le [OF step [of v]] by (auto intro: target_le_trans)
qed

lemma grows_save:
  assumes "grows d0 (s_targets s)" and "prepared_save lc s = Inr c"
  shows "grows d0 (s_targets c)"
  unfolding grows_def
proof (intro allI impI)
  fix i t u
  assume t: "tgt i (disk_targets d0) = Some t" and u: "tgt i (s_targets c) = Some u"
  obtain v where v: "tgt i (s_targets s) = Some v" "u = v \<or> u = v\<lparr>t_completedOperations := []\<rparr>"
    using saved_target [OF assms(2) u] by blast
  then have "target_le t v" using assms(1) t by (simp add: grows_def)
  moreover have "target_le v u"
    using v(2) by (auto simp: target_le_def fence_value_def holder_def)
  ultimately show "target_le t u" by (rule target_le_trans)
qed

interpretation fence_growth: restart_invariant
  "grows_in d0" "\<lambda>_. True" P "\<lambda>w. w_disk w = d0" "\<lambda>w. grows d0 (disk_targets (w_disk w))" for d0 P
proof unfold_locales
  fix w :: "'a world" and i f
  assume J: "grows_in d0 w" and step: "\<And>t. target_step t (f t)"
  then show "grows_in d0 (w\<lparr>w_work := upd_target i f (w_work w)\<rparr>)"
    by (simp add: grows_in_def grows_step tgt_step_iff [of f, OF step] del: not_None_eq)
next
  fix w :: "'a world" and lc c
  assume "grows_in d0 w" "prepared_save lc (w_work w) = Inr c"
  then show "grows_in d0 (w\<lparr>w_disk := StateFile c\<rparr>)"
    by (auto simp: grows_in_def intro: grows_save)
next
  fix w :: "'a world" and i m tm g n
  assume "grows_in d0 w"
  then show "grows_in d0 (w\<lparr>w_work := (w_work w)\<lparr>s_targets := s_targets (w_work w) @ [fresh_target i m tm g n]\<rparr>\<rparr>)"
    by (auto simp: grows_in_def grows_def find_append split: option.splits)
next
  fix w :: "'a world" and s
  assume "w_disk w = d0" "loaded (w_disk w) s"
  then show "grows_in d0 (w\<lparr>w_work := s\<rparr>)"
    by (auto simp: grows_in_def grows_def loaded_targets)
qed (auto simp: grows_in_def grows_def)

text \<open>
  C1. Whatever a request does to a target that is still on disk afterwards, its fence and
  revision never go down, its tmux identity stays, and it has a new holder only under a
  strictly greater fence.
\<close>

theorem handle_fence_monotone:
  assumes "tgt i (disk_targets (w_disk w)) = Some t"
    and "tgt i (disk_targets (w_disk (snd (handleV1 P r w)))) = Some u"
  shows "fence_value t \<le> fence_value u
     \<and> (holder u \<noteq> None \<and> holder u \<noteq> holder t \<longrightarrow> fence_value t < fence_value u)
     \<and> decimal_value (t_revision t) \<le> decimal_value (t_revision u)
     \<and> t_managedSession u = t_managedSession t \<and> t_tmuxInstanceId u = t_tmuxInstanceId t"
proof -
  have "grows (w_disk w) (disk_targets (w_disk (snd (handleV1 P r w))))"
    by (rule fence_growth.handleV1_F) simp_all
  with assms have "target_le t u" by (simp add: grows_def)
  then show ?thesis by (auto simp: target_le_def)
qed

section \<open>A passed fence never comes back\<close>

definition fence_floor :: "string \<Rightarrow> nat \<Rightarrow> target list \<Rightarrow> bool" where
  "fence_floor i n ts \<longleftrightarrow> (\<forall>t. tgt i ts = Some t \<longrightarrow> n \<le> fence_value t)"

definition floor_in :: "string \<Rightarrow> nat \<Rightarrow> 'b world \<Rightarrow> bool" where
  "floor_in i n w \<longleftrightarrow> fence_floor i n (s_targets (w_work w)) \<and> fence_floor i n (disk_targets (w_disk w))"

lemma floor_step:
  assumes "fence_floor j n ts" and step: "\<And>t. target_step t (f t)"
  shows "fence_floor j n (update_first (\<lambda>t. t_controlTargetId t = i) f ts)"
  unfolding fence_floor_def
proof (intro allI impI)
  fix u assume u: "tgt j (update_first (\<lambda>t. t_controlTargetId t = i) f ts) = Some u"
  have "tgt j ts \<noteq> None" using tgt_step_iff [of f j i ts, OF step] u by simp
  then obtain v where v: "tgt j ts = Some v" by blast
  then have "u = v \<or> u = f v" using tgt_step [OF step v, of i] u by auto
  moreover have "n \<le> fence_value v" using assms(1) v by (simp add: fence_floor_def)
  ultimately show "n \<le> fence_value u"
    using step_target_le [OF step [of v]] by (auto simp: target_le_def)
qed

lemma floor_save:
  assumes "fence_floor i n (s_targets s)" and "prepared_save lc s = Inr c"
  shows "fence_floor i n (s_targets c)"
  unfolding fence_floor_def
proof (intro allI impI)
  fix u assume "tgt i (s_targets c) = Some u"
  then obtain v where "tgt i (s_targets s) = Some v" "u = v \<or> u = v\<lparr>t_completedOperations := []\<rparr>"
    using saved_target [OF assms(2)] by blast
  then show "n \<le> fence_value u" using assms(1) by (auto simp: fence_floor_def fence_value_def)
qed

section \<open>Requests on one target leave the others alone\<close>

definition unchanged :: "target option \<Rightarrow> target option \<Rightarrow> bool" where
  "unchanged before after \<longleftrightarrow>
     (case before of
        None \<Rightarrow> after = None
      | Some t \<Rightarrow>
          if t_lifecycle t \<noteq> GONE then after = Some t
          else after \<in> {None, Some t, Some (t\<lparr>t_completedOperations := []\<rparr>)})"

definition frame_in :: "(string \<Rightarrow> bool) \<Rightarrow> disk \<Rightarrow> 'b world \<Rightarrow> bool" where
  "frame_in A d0 w \<longleftrightarrow>
     (\<forall>i. \<not> A i \<longrightarrow> tgt i (s_targets (w_work w)) = tgt i (disk_targets d0)
        \<and> unchanged (tgt i (disk_targets d0)) (tgt i (disk_targets (w_disk w))))"

lemma unchanged_save:
  assumes "prepared_save lc s = Inr c"
  shows "unchanged (tgt i (s_targets s)) (tgt i (s_targets c))"
proof (cases "tgt i (s_targets s)")
  case None
  then show ?thesis using saved_target [OF assms, of i] by (fastforce simp: unchanged_def)
next
  case (Some t)
  show ?thesis
  proof (cases "t_lifecycle t = GONE")
    case True
    have "u = t \<or> u = t\<lparr>t_completedOperations := []\<rparr>" if "tgt i (s_targets c) = Some u" for u
      using saved_target [OF assms that] Some by auto
    with Some True show ?thesis by (cases "tgt i (s_targets c)") (auto simp: unchanged_def)
  next
    case False
    with Some saved_live_target [OF assms] show ?thesis by (simp add: unchanged_def)
  qed
qed

interpretation isolation: authority_invariant
  "frame_in A d0" A P "\<lambda>w. w_disk w = d0"
  "\<lambda>w. \<forall>i. \<not> A i \<longrightarrow> unchanged (tgt i (disk_targets d0)) (tgt i (disk_targets (w_disk w)))" for A d0 P
proof unfold_locales
  fix w :: "'a world" and i f
  assume J: "frame_in A d0 w" and A: "A i" and step: "\<And>t. target_step t (f t)"
  have "tgt j (update_first (\<lambda>t. t_controlTargetId t = i) f ts) = tgt j ts" if "\<not> A j" for j ts
    using that A by (intro tgt_update_other) (auto intro: target_step_id step)
  with J show "frame_in A d0 (w\<lparr>w_work := upd_target i f (w_work w)\<rparr>)"
    by (simp add: frame_in_def)
next
  fix w :: "'a world" and lc c
  assume J: "frame_in A d0 w" and s: "prepared_save lc (w_work w) = Inr c"
  show "frame_in A d0 (w\<lparr>w_disk := StateFile c\<rparr>)"
    unfolding frame_in_def
  proof (intro allI impI)
    fix i assume "\<not> A i"
    with J have "tgt i (s_targets (w_work w)) = tgt i (disk_targets d0)" by (simp add: frame_in_def)
    with unchanged_save [OF s, of i]
    show "tgt i (s_targets (w_work (w\<lparr>w_disk := StateFile c\<rparr>))) = tgt i (disk_targets d0)
      \<and> unchanged (tgt i (disk_targets d0)) (tgt i (disk_targets (w_disk (w\<lparr>w_disk := StateFile c\<rparr>))))"
      by simp
  qed
next
  fix w :: "'a world" and s
  assume "w_disk w = d0" "loaded (w_disk w) s"
  then show "frame_in A d0 (w\<lparr>w_work := s\<rparr>)"
    by (auto simp: frame_in_def loaded_targets unchanged_def split: option.split)
qed (auto simp: frame_in_def unchanged_def split: option.splits)

text \<open>The handlers themselves, before the claims of other targets come in (\<open>TC_Withdraw\<close>).\<close>

lemma handler_isolation:
  assumes "\<not> touches r i" and "tgt i (disk_targets (w_disk w)) = Some t" and "t_lifecycle t \<noteq> GONE"
  shows "tgt i (disk_targets (w_disk (snd (handleV1 P r w)))) = Some t"
proof -
  have "\<forall>j. \<not> touches r j \<longrightarrow>
      unchanged (tgt j (disk_targets (w_disk w))) (tgt j (disk_targets (w_disk (snd (handleV1 P r w)))))"
    by (rule isolation.handleV1_F) simp_all
  with assms show ?thesis by (auto simp: unchanged_def)
qed

end
