(* ===== verification/TC_Durability.thy ===== *)
theory TC_Durability
  imports TC_Invariants
begin

text \<open>
  What a request that returns has made durable.

  \<open>sync i\<close> relates the working copy of a target to the file; \<open>working\<close> and \<open>durable\<close> state a fact
  of the target in the working copy, and in both. The locale \<open>steady\<close> is the contract of the
  facts that continuity work (a new output generation, a new revision) cannot disturb; inside it
  the shared steps of the handlers are proved to keep such a fact. Its interpretations are the
  facts the handlers rely on: that the target is operable, and that a lease is current.
\<close>

section \<open>The working copy and the file\<close>

definition core :: "target \<Rightarrow> target" where
  "core t = t\<lparr>t_outputGeneration := '''', t_revision := '''', t_updatedAt := 0\<rparr>"

lemma core_fields:
  assumes "core u = core t"
  shows "t_controlTargetId u = t_controlTargetId t" "t_lifecycle u = t_lifecycle t"
    "t_ownership u = t_ownership t" "t_inFlight u = t_inFlight t" "t_recovery u = t_recovery t"
    "t_completedOperations u = t_completedOperations t" "t_managedSession u = t_managedSession t"
    "t_tmuxInstanceId u = t_tmuxInstanceId t"
  using assms by (cases u; cases t; simp add: core_def)+

definition sync :: "string \<Rightarrow> 'b world \<Rightarrow> bool" where
  "sync i w \<longleftrightarrow>
     (\<forall>t. tgt i (s_targets (w_work w)) = Some t \<and> t_lifecycle t \<noteq> GONE \<longrightarrow>
        (\<exists>s u. w_disk w = StateFile s \<and> s_controlEpoch s = s_controlEpoch (w_work w)
           \<and> tgt i (s_targets s) = Some u \<and> core u = core t))"

definition working :: "string \<Rightarrow> (string \<Rightarrow> target \<Rightarrow> bool) \<Rightarrow> 'b world \<Rightarrow> bool" where
  "working i \<Phi> w \<longleftrightarrow>
     (\<exists>t. tgt i (s_targets (w_work w)) = Some t \<and> \<Phi> (s_controlEpoch (w_work w)) t)"

definition durable :: "string \<Rightarrow> (string \<Rightarrow> target \<Rightarrow> bool) \<Rightarrow> 'b world \<Rightarrow> bool" where
  "durable i \<Phi> w \<longleftrightarrow> sync i w \<and> working i \<Phi> w"

text \<open>The fact on disk alone.\<close>

definition on_disk :: "string \<Rightarrow> (string \<Rightarrow> target \<Rightarrow> bool) \<Rightarrow> disk \<Rightarrow> bool" where
  "on_disk i \<Phi> d \<longleftrightarrow>
     (\<exists>s t. d = StateFile s \<and> tgt i (s_targets s) = Some t \<and> \<Phi> (s_controlEpoch s) t)"

lemma tgt_upd: "(\<And>t. t_controlTargetId (f t) = t_controlTargetId t) \<Longrightarrow>
   tgt i (s_targets (upd_target i f s)) = map_option f (tgt i (s_targets s))"
  by (simp add: upd_target_def tgt_update_same)

lemma epoch_upd [simp]: "s_controlEpoch (upd_target i f s) = s_controlEpoch s"
  by (simp add: upd_target_def)

lemma targetE_run: "targetE i w = (Inr t, w') \<longleftrightarrow> w' = w \<and> tgt i (s_targets (w_work w)) = Some t"
  by (auto simp: targetE_def em_defs targetById_def split: option.splits)

lemma ok_target: "ok J (targetE i) (\<lambda>t w. J w \<and> tgt i (s_targets (w_work w)) = Some t)"
  by (rule okI) (simp add: targetE_run)

lemma ok_bind_target:
  "(\<And>t. ok (\<lambda>w. J w \<and> tgt i (s_targets (w_work w)) = Some t) (f t) Q) \<Longrightarrow> ok J (bindE (targetE i) f) Q"
  by (rule triple_bind [OF ok_target])

section \<open>Synchronisation\<close>

lemma sync_cong: "w_disk w' = w_disk w \<Longrightarrow> w_work w' = w_work w \<Longrightarrow> sync i w' = sync i w"
  by (simp add: sync_def)

lemma sync_mod:
  assumes "sync i w" and f: "\<And>t. core (f t) = core t"
  shows "sync i (w\<lparr>w_work := upd_target i f (w_work w)\<rparr>)"
proof -
  have id: "t_controlTargetId (f t) = t_controlTargetId t" "t_lifecycle (f t) = t_lifecycle t" for t
    using core_fields [OF f] by blast+
  show ?thesis
    using assms(1) by (auto simp: sync_def tgt_upd [OF id(1)] id f)
qed

lemma core_generation: "core (t\<lparr>t_outputGeneration := g\<rparr>) = core t"
  and core_touch: "core ((revision t)\<lparr>t_updatedAt := n\<rparr>) = core t"
  by (simp_all add: core_def revision_def)

lemma save_sync: "ok (\<lambda>_. True) (saveTerminalControlState P) (\<lambda>_. sync i)"
proof (rule okI)
  fix w a w' assume run: "saveTerminalControlState P w = (Inr a, w')"
  obtain c where c: "prepared_save (p_localeCompare P) (w_work w) = Inr c"
    using run by (cases "prepared_save (p_localeCompare P) (w_work w)")
      (auto simp: saveTerminalControlState_def em_defs)
  obtain out b where p: "p_persist P c (w_env w) = (out, b)" by (cases "p_persist P c (w_env w)")
  have w': "w_disk w' = StateFile c" "w_work w' = w_work w"
    using run c p by (auto simp: saveTerminalControlState_def em_defs envE_def split: persist_outcome.splits if_splits)
  from prepared_save_InrD [OF c]
  have v: "valid_state (w_work w)" and "c = compact_state (p_localeCompare P) (w_work w)" by auto
  then have "s_controlEpoch c = s_controlEpoch (w_work w)"
    and "tgt i (s_targets c) = Some t" if "tgt i (s_targets (w_work w)) = Some t" "t_lifecycle t \<noteq> GONE" for t
    using that by (auto simp: compact_state_def valid_state_iff intro: find_compact)
  with w' show "sync i w'" by (auto simp: sync_def)
qed

lemma save_work: "w_work (snd (saveTerminalControlState P w)) = w_work w"
  by (auto simp: saveTerminalControlState_def em_defs envE_def Let_def
      split: sum.splits prod.splits persist_outcome.splits)

lemma save_durable: "ok (working i \<Phi>) (saveTerminalControlState P) (\<lambda>_. durable i \<Phi>)"
proof (rule okI)
  fix w a w' assume w: "working i \<Phi> w" and run: "saveTerminalControlState P w = (Inr a, w')"
  have "sync i w'" using okD [OF save_sync _ run] by simp
  moreover have "working i \<Phi> w'" using save_work [of P w] run w by (simp add: working_def)
  ultimately show "durable i \<Phi> w'" by (simp add: durable_def)
qed

lemma env_sync: "keeps (sync i) (envE f)" and call_sync: "keeps (sync i) (callE g)"
  by (auto simp: moves_def envE_def callE_def Let_def sync_def split: prod.splits)

lemma env_working: "keeps (working i \<Phi>) (envE f)" and call_working: "keeps (working i \<Phi>) (callE g)"
  by (auto simp: moves_def envE_def callE_def Let_def working_def split: prod.splits)

lemma target_keep: "keeps J (targetE i)"
  unfolding targetE_def by (intro keeps_rules)

lemma mod_sync: "(\<And>t. core (f t) = core t) \<Longrightarrow> keeps (sync i) (modTarget i f)"
  unfolding modTarget_def by (rule keeps_modify) (rule sync_mod)

lemma recovery_never_returns: "ok J (recoveryE P i r m) Q"
  unfolding recoveryE_def by (intro ok_skip ok_throw)

lemma gone_never_returns: "ok J (goneE P i e) Q"
  unfolding goneE_def by (intro ok_skip ok_throw)

section \<open>Steady facts\<close>

locale steady =
  fixes \<Phi> :: "string \<Rightarrow> target \<Rightarrow> bool"
  assumes core_stable: "\<Phi> e t \<Longrightarrow> core u = core t \<Longrightarrow> \<Phi> e u"
    and active: "\<Phi> e t \<Longrightarrow> t_lifecycle t = ACTIVE"
begin

lemma on_disk_durable: "durable i \<Phi> w \<Longrightarrow> on_disk i \<Phi> (w_disk w)"
proof -
  assume d: "durable i \<Phi> w"
  then obtain t where t: "tgt i (s_targets (w_work w)) = Some t" "\<Phi> (s_controlEpoch (w_work w)) t"
    by (auto simp: durable_def working_def)
  with active have "t_lifecycle t \<noteq> GONE" by fastforce
  with d t obtain s u where "w_disk w = StateFile s" "s_controlEpoch s = s_controlEpoch (w_work w)"
    "tgt i (s_targets s) = Some u" "core u = core t"
    by (auto simp: durable_def sync_def)
  with t core_stable show ?thesis by (auto simp: on_disk_def)
qed

lemma mod_working: "(\<And>t. core (f t) = core t) \<Longrightarrow> keeps (working i \<Phi>) (modTarget i f)"
  unfolding modTarget_def
proof (rule keeps_modify)
  fix w :: "'b world" assume f: "\<And>t. core (f t) = core t" and w: "working i \<Phi> w"
  have "t_controlTargetId (f t) = t_controlTargetId t" for t using core_fields(1) [OF f] .
  with w f show "working i \<Phi> (w\<lparr>w_work := upd_target i f (w_work w)\<rparr>)"
    by (auto simp: working_def tgt_upd intro: core_stable)
qed

lemma keeps_durable: "keeps (sync i) m \<Longrightarrow> keeps (working i \<Phi>) m \<Longrightarrow> keeps (durable i \<Phi>) m"
  by (simp add: moves_def durable_def)

lemma mod_durable: "(\<And>t. core (f t) = core t) \<Longrightarrow> keeps (durable i \<Phi>) (modTarget i f)"
  by (intro keeps_durable mod_sync mod_working)

lemma env_durable: "keeps (durable i \<Phi>) (envE f)" and call_durable: "keeps (durable i \<Phi>) (callE g)"
  by (intro keeps_durable env_sync env_working call_sync call_working)+

lemmas basic_durable = env_durable call_durable target_keep mod_durable core_generation core_touch
lemmas basic_working = env_working call_working target_keep mod_working core_generation core_touch

lemma reset_durable: "keeps (durable i \<Phi>) (backendReset P i)"
  unfolding backendReset_def setGeneration_def by (intro keeps_rules basic_durable)

lemma reset_working: "keeps (working i \<Phi>) (backendReset P i)"
  unfolding backendReset_def setGeneration_def by (intro keeps_rules basic_working)

lemma touch_durable: "keeps (durable i \<Phi>) (touchE P i)"
  unfolding touchE_def by (intro keeps_rules basic_durable)

lemma touch_working: "keeps (working i \<Phi>) (touchE P i)"
  unfolding touchE_def by (intro keeps_rules basic_working)

lemma durable_working: "durable i \<Phi> w \<Longrightarrow> working i \<Phi> w"
  by (simp add: durable_def)

lemma repair_durable:
  "ok (working i \<Phi>) (thenE (callE f) (bindE (backendReset P i) (\<lambda>out.
     thenE (touchE P i) (thenE (saveTerminalControlState P) (retE out))))) (\<lambda>_. durable i \<Phi>)"
  by (rule triple_then [OF keeps_ok [OF call_working]]
      triple_bind [OF keeps_ok [OF reset_working]]
      triple_then [OF keeps_ok [OF touch_working]]
      triple_then [OF save_durable] | (rule ok_ret, assumption))+

lemma repaired:
  assumes "ok P' m (\<lambda>_. Q)" and "\<And>e. ok (\<lambda>_. True) (h e) (\<lambda>_. Q)"
  shows "ok P' (bindE (tryE m) (\<lambda>r. case r of Inr out \<Rightarrow> retE out | Inl e \<Rightarrow> h e)) (\<lambda>_. Q)"
proof (rule triple_bind [where R = "\<lambda>r w. case r of Inr _ \<Rightarrow> Q w | Inl _ \<Rightarrow> True"])
  show "ok P' (tryE m) (\<lambda>r w. case r of Inr _ \<Rightarrow> Q w | Inl _ \<Rightarrow> True)"
    using assms(1) by (intro triple_try) simp
  show "ok (\<lambda>w. case r of Inr _ \<Rightarrow> Q w | Inl _ \<Rightarrow> True)
      (case r of Inr out \<Rightarrow> retE out | Inl e \<Rightarrow> h e) (\<lambda>_. Q)" for r
    using assms(2) by (cases r) (auto intro: ok_ret)
qed

lemma prepareOutput_keeping:
  assumes J: "\<And>f. keeps J (bindE (targetE i) (\<lambda>t. bindE (callE (f t)) (setGeneration i)))"
    and J_working: "\<And>w. J w \<Longrightarrow> working i \<Phi> w" and durable_J: "\<And>w. durable i \<Phi> w \<Longrightarrow> J w"
  shows "ok J (prepareOutput P i c) (\<lambda>_. J)"
proof -
  have repair: "ok (\<lambda>w. J w \<and> K w) (thenE (callE f) (bindE (backendReset P i) (\<lambda>out.
     thenE (touchE P i) (thenE (saveTerminalControlState P) (retE out))))) (\<lambda>_. J)" for K f
    by (rule ok_weaken [OF repair_durable]) (simp_all add: J_working durable_J)
  show ?thesis
    unfolding prepareOutput_def
    apply (rule triple_catch [OF J [unfolded keeps_triple]])
    apply (rule ok_bind_target)
    subgoal for e t
    proof (cases "capture_repairable t e")
      case True
      then show ?thesis
        by (simp only: if_True) (rule repaired [OF repair], rule recovery_never_returns)
    next
      case False
      then show ?thesis
        by (auto simp: bindE_def retE_def intro: recovery_never_returns)
    qed
    done
qed

lemma prepareOutput_durable: "ok (durable i \<Phi>) (prepareOutput P i c) (\<lambda>_. durable i \<Phi>)"
  by (rule prepareOutput_keeping)
    (auto simp: setGeneration_def durable_def intro!: keeps_rules basic_durable [unfolded durable_def])

lemma prepareOutput_working: "ok (working i \<Phi>) (prepareOutput P i c) (\<lambda>_. working i \<Phi>)"
  by (rule prepareOutput_keeping)
    (auto simp: setGeneration_def durable_def intro!: keeps_rules basic_working)

lemma resetOutput_durable: "ok (durable i \<Phi>) (resetOutput P i) (\<lambda>_. durable i \<Phi>)"
  unfolding resetOutput_def
  by (rule triple_catch [OF reset_durable [unfolded keeps_triple]]) (rule recovery_never_returns)

end

section \<open>Continuity checks\<close>

lemma ok_save_sync: "ok (sync i) k Q \<Longrightarrow> ok J (thenE (saveTerminalControlState P) k) Q"
  by (rule triple_then [OF ok_weaken [OF save_sync]]) simp_all

lemma expired_sync: "keeps (sync i) (leaseExpiredE P t)"
  unfolding leaseExpiredE_def by (intro keeps_rules env_sync)

lemma reset_sync: "keeps (sync i) (backendReset P i)"
  unfolding backendReset_def setGeneration_def
  by (intro keeps_rules call_sync target_keep mod_sync core_generation)

lemma reconcile_sync: "ok (sync i) (reconcileAbandonedOwnership P i) (\<lambda>_. sync i)"
proof -
  have fence: "ok (sync i) (if b then thenE m (thenE (saveTerminalControlState P) (retE x)) else retE y) (\<lambda>_. sync i)"
    for b m and x y :: bool
    by (intro ok_if ok_skip ok_save_sync ok_ret)
  show ?thesis
    unfolding reconcileAbandonedOwnership_def
    by (intro ok_bind_keeps [OF target_keep] ok_bind_keeps [OF moves_try] ok_bind_ok [OF fence]
        ok_bind_keeps [of "sync i" "if _ then leaseExpiredE _ _ else _"]
        keeps_rules call_sync expired_sync reset_sync ok_if ok_ret ok_case_sum gone_never_returns)
      (rule ok_skip ok_save_sync ok_ret | assumption)+
qed

definition operable :: "string \<Rightarrow> target \<Rightarrow> bool" where
  "operable e t \<longleftrightarrow> t_lifecycle t = ACTIVE \<and> t_inFlight t = None"

interpretation operable: steady operable
  by unfold_locales (auto simp: operable_def dest: core_fields)

lemma ensureOperable_iff: "ensureOperable t = Inr () \<longleftrightarrow> operable e t"
  by (cases "t_lifecycle t") (auto simp: ensureOperable_def operable_def)

lemma assertTargetCurrent_durable: "ok (sync i) (assertTargetCurrent P i) (\<lambda>_. durable i operable)"
proof -
  have ensure: "ok (\<lambda>w. sync i w \<and> tgt i (s_targets (w_work w)) = Some t) (liftE (ensureOperable t))
      (\<lambda>_. durable i operable)" for t
    by (rule okI) (auto simp: liftE_def durable_def working_def dest: ensureOperable_iff [THEN iffD1])
  have probe: "ok (durable i operable) (catchE (callE f) h) (\<lambda>_. durable i operable)"
    if "\<And>e. ok (durable i operable) (h e) (\<lambda>_. durable i operable)" for f h
    by (rule triple_catch [OF operable.call_durable [unfolded keeps_triple]]) (rule that)
  show ?thesis
    unfolding assertTargetCurrent_def
    by (intro ok_then_ok [OF reconcile_sync] ok_bind_target ok_then_ok [OF ensure] probe ok_if
        gone_never_returns recovery_never_returns)
qed

section \<open>Leases\<close>

definition lease_current :: "bool \<Rightarrow> lease \<Rightarrow> string \<Rightarrow> target \<Rightarrow> bool" where
  "lease_current allowDraining l e t \<longleftrightarrow>
     operable e t \<and> l_controlTargetId l = t_controlTargetId t \<and> l_controlEpoch l = e
     \<and> \<not> is_Free (t_ownership t) \<and> (is_Draining (t_ownership t) \<longrightarrow> allowDraining)
     \<and> ow_leaseId (t_ownership t) = l_leaseId l \<and> ow_fence (t_ownership t) = l_fence l
     \<and> sameInputOwnerClass (ow_owner (t_ownership t)) (l_owner l)"

lemma validateLease_current: "validateLease s t l d = Inr () \<longleftrightarrow> lease_current d l (s_controlEpoch s) t"
  by (auto simp: validateLease_iff lease_current_def operable_def)

interpretation lease_current: steady "lease_current d l" for d l
  by unfold_locales (auto simp: lease_current_def operable_def dest: core_fields)

text \<open>Whether a result carries a lease, the file holds exactly that lease.\<close>

fun lease_durable :: "result \<Rightarrow> disk \<Rightarrow> bool" where
  "lease_durable (Leased l v) d = on_disk (l_controlTargetId l) (lease_current True l) d"
| "lease_durable r d = True"

lemma not_leased:
  "(\<And>l v. r \<noteq> Leased l v) \<Longrightarrow> lease_durable r d"
  by (cases r) auto

lemma view_then: "ok J (bindE (viewE i c) f) Q" if "\<And>v. ok J (f v) Q"
  by (rule ok_bind_keeps) (auto simp: viewE_def intro!: keeps_rules target_keep that)

lemma leased_durable: "ok (durable i operable) (leasedE i o' c) (\<lambda>r w. lease_durable r (w_disk w))"
proof (rule okI)
  fix w r w' assume d: "durable i operable w" and run: "leasedE i o' c w = (Inr r, w')"
  obtain t where t: "tgt i (s_targets (w_work w)) = Some t" "operable (s_controlEpoch (w_work w)) t"
    using d by (auto simp: durable_def working_def)
  obtain l v where l: "leaseForOwner (w_work w) t o' = Inr l" and r: "r = Leased l v" and w': "w' = w"
    using run t by (cases "leaseForOwner (w_work w) t o'") (auto simp: leasedE_def targetE_def targetById_def viewE_def em_defs)
  have "lease_current True l (s_controlEpoch (w_work w)) t"
    using leaseForOwner_valid [OF l] t(2) by (simp add: validateLease_current operable_def)
  moreover from this have "l_controlTargetId l = i" using tgt_id [OF t(1)] by (simp add: lease_current_def)
  ultimately have "durable (l_controlTargetId l) (lease_current True l) w"
    using d t by (auto simp: durable_def working_def)
  with r w' show "lease_durable r (w_disk w')" by (simp add: lease_current.on_disk_durable)
qed

lemma leaseForOwner_self:
  "leaseFromTarget s t = Inr l \<Longrightarrow> leaseForOwner s t (ow_owner (t_ownership t)) = Inr l"
  by (cases "t_ownership t") (auto simp: leaseForOwner_def leaseFromTarget_def)

lemma leaseFromTarget_durable:
  "ok (durable i operable) (leaseFromTargetE i c) (\<lambda>r w. lease_durable r (w_disk w))"
proof (rule okI)
  fix w r w' assume d: "durable i operable w" and run: "leaseFromTargetE i c w = (Inr r, w')"
  obtain t where t: "tgt i (s_targets (w_work w)) = Some t"
    using d by (auto simp: durable_def working_def)
  obtain l where "leaseFromTarget (w_work w) t = Inr l"
    using run t by (cases "leaseFromTarget (w_work w) t") (auto simp: leaseFromTargetE_def targetE_def targetById_def em_defs)
  with run t have "leasedE i (ow_owner (t_ownership t)) c w = (Inr r, w')"
    by (simp add: leaseFromTargetE_def leasedE_def targetE_def targetById_def em_defs leaseForOwner_self)
  from okD [OF leased_durable d this] show "lease_durable r (w_disk w')" .
qed

section \<open>The handlers that grant a lease\<close>

definition fresh :: "'b world \<Rightarrow> bool" where
  "fresh w \<longleftrightarrow> loaded (w_disk w) (w_work w)"

lemma locked_ok:
  assumes "ok fresh op Q"
  shows "ok (\<lambda>_. True) (locked P op) Q"
  by (rule locked_triple [OF _ _ _ assms]) (simp_all add: fresh_def)

lemma fresh_sync: "fresh w \<Longrightarrow> sync i w"
  by (auto simp: fresh_def loaded_def sync_def)

lemma locked_current:
  assumes "ok (durable i operable) k Q"
  shows "ok (\<lambda>_. True) (locked P (thenE (targetE i) (thenE (assertTargetCurrent P i) k))) Q"
proof (rule locked_ok, rule ok_then_keeps [OF target_keep], rule ok_then_ok)
  show "ok fresh (assertTargetCurrent P i) (\<lambda>_. durable i operable)"
    by (rule triple_pre [OF assertTargetCurrent_durable]) (rule fresh_sync)
qed (rule assms)

text \<open>Writes that leave the target operable.\<close>

lemma mod_operable:
  "(\<And>t. t_controlTargetId (f t) = t_controlTargetId t \<and> t_lifecycle (f t) = t_lifecycle t
     \<and> t_inFlight (f t) = t_inFlight t) \<Longrightarrow> keeps (working i operable) (modTarget i f)"
  unfolding modTarget_def
  by (rule keeps_modify) (auto simp: working_def operable_def tgt_upd)

lemma owners_working:
  "keeps (working i \<Phi>) (registerInteractiveOwner j o')" "keeps (working i \<Phi>) (resetInteractiveOwners j)"
  unfolding registerInteractiveOwner_def resetInteractiveOwners_def
  by (intro keeps_rules keeps_modify; simp add: working_def)+

lemma owners_durable:
  "keeps (durable i \<Phi>) (registerInteractiveOwner j o')" "keeps (durable i \<Phi>) (resetInteractiveOwners j)"
  unfolding registerInteractiveOwner_def resetInteractiveOwners_def
  by (intro keeps_rules keeps_modify; simp add: durable_def working_def sync_def)+

lemma grant_working: "keeps (working i operable) (grantE P i o' ttl)"
  unfolding grantE_def by (intro keeps_rules env_working mod_operable) simp

lemma ok_save_durable: "ok (durable i \<Phi>) k Q \<Longrightarrow> ok (working i \<Phi>) (thenE (saveTerminalControlState P) k) Q"
  by (rule triple_then [OF save_durable])

lemma ok_forget: "ok (working i \<Phi>) m Q \<Longrightarrow> ok (durable i \<Phi>) m Q"
  by (erule triple_pre) (simp add: durable_def)

lemmas grant_steps =
  ok_then_keeps [OF grant_working] ok_then_keeps [OF owners_working(1)] ok_then_keeps [OF owners_working(2)]
  ok_then_keeps [OF operable.touch_working]

lemma acquire_grants: "ok (\<lambda>_. True) (acquire P i o' ttl) (\<lambda>r w. lease_durable r (w_disk w))"
proof -
  have renewal: "ok (durable i operable)
      (whenE b (thenE (registerInteractiveOwner i o') (bindE (nowE P) (\<lambda>n.
         thenE (modTarget i (\<lambda>t. t\<lparr>t_ownership := with_expiry (f n) (t_ownership t)\<rparr>))
           (thenE (touchE P i) (saveTerminalControlState P)))))) (\<lambda>_. durable i operable)" for b f
    by (intro ok_when ok_then_keeps [OF owners_durable(1)] ok_forget ok_bind_keeps [OF env_working]
        ok_then_keeps [OF mod_operable] ok_then_keeps [OF operable.touch_working] save_durable) simp
  show ?thesis
    unfolding acquire_def
    by (intro locked_current ok_bind_keeps [OF target_keep] ok_if ok_throw
        ok_bind_ok [OF operable.prepareOutput_durable] ok_bind_ok [OF operable.resetOutput_durable]
        ok_then_ok [OF renewal] leased_durable)
      (rule leased_durable grant_steps ok_save_durable | rule ok_forget, rule grant_steps)+
qed

lemma validLease_ok:
  "ok (durable (l_controlTargetId l) \<Phi>) (validLeaseE l d)
     (\<lambda>_. durable (l_controlTargetId l) (\<lambda>e t. \<Phi> e t \<and> lease_current d l e t))"
  by (rule okI)
    (auto simp: validLeaseE_def em_defs targetE_def targetById_def durable_def working_def
      validateLease_current split: option.splits)

lemma validLease_keep: "keeps J (validLeaseE l d)"
  unfolding validLeaseE_def by (intro keeps_rules target_keep)

lemma renew_grants: "ok (\<lambda>_. True) (renew P l ttl) (\<lambda>r w. lease_durable r (w_disk w))"
  unfolding renew_def Let_def
  by (intro locked_current ok_then_keeps [OF validLease_keep] ok_bind_keeps [OF target_keep] ok_if ok_throw
      ok_then_keeps [OF owners_durable(1)] ok_forget ok_bind_keeps [OF env_working]
      ok_then_keeps [OF mod_operable] ok_then_keeps [OF operable.touch_working]
      ok_bind_ok [OF operable.prepareOutput_working] ok_save_durable leased_durable) simp

lemma mod_recovery_working: "keeps (working i operable) (modTarget i (\<lambda>t. t\<lparr>t_recovery := None\<rparr>))"
  by (rule mod_operable) simp

lemma commit_grants: "ok (\<lambda>_. True) (commitHandoff P h l d ttl) (\<lambda>r w. lease_durable r (w_disk w))"
proof -
  have reset: "ok (working i operable) (resetOutput P i) (\<lambda>_. working i operable)" for i
    unfolding resetOutput_def
    by (rule triple_catch [OF operable.reset_working [unfolded keeps_triple]]) (rule recovery_never_returns)
  show ?thesis
    unfolding commitHandoff_def Let_def
    by (intro locked_current ok_then_keeps [OF validLease_keep] ok_bind_keeps [OF target_keep] ok_if ok_throw
        ok_forget ok_then_keeps [OF mod_operable] ok_bind_ok [OF reset] grant_steps
        ok_then_keeps [OF mod_recovery_working] ok_save_durable
        leaseFromTarget_durable recovery_never_returns) simp
qed

lemma ok_view: "ok J (bindE (viewE i c) (\<lambda>v. retE (Viewed v))) (\<lambda>r w. lease_durable r (w_disk w))"
  by (intro view_then ok_ret) simp

lemma begin_grants: "ok (\<lambda>_. True) (beginHandoff P i o' cl) (\<lambda>r w. lease_durable r (w_disk w))"
proof -
  have permit: "keeps (durable i operable)
      (case cl of Some l \<Rightarrow> bindE (getsE w_work) (\<lambda>s. liftE (validateLease s t l False))
       | None \<Rightarrow> if b then throwE e else retE ())" for t b e
    by (cases cl) (auto intro!: keeps_rules)
  have free: "ok (durable i operable) (thenE (grantE P i o' ttl) (thenE (resetInteractiveOwners i)
      (thenE (registerInteractiveOwner i o') (thenE (touchE P i) (thenE (saveTerminalControlState P)
        (leaseFromTargetE i c)))))) (\<lambda>r w. lease_durable r (w_disk w))" for ttl c
    by (intro ok_forget grant_steps ok_save_durable leaseFromTarget_durable)
  have drain: "ok (durable i operable) (bindE (randomUUID P) (\<lambda>u. bindE (nowE P) (\<lambda>n. k u n)))
      (\<lambda>r w. lease_durable r (w_disk w))"
    if "\<And>u n. ok (\<lambda>_. True) (k u n) (\<lambda>r w. lease_durable r (w_disk w))" for k
    by (intro ok_skip_bind that)
  show ?thesis
    unfolding beginHandoff_def
    by (intro locked_current ok_bind_keeps [OF target_keep] ok_if ok_throw
        ok_bind_ok [OF operable.prepareOutput_durable] ok_then_keeps [OF owners_durable(1)]
        ok_then_keeps [OF permit] free ok_view leased_durable drain ok_skip ok_skip_bind)
qed

lemma ok_mod:
  "(\<And>t. t_controlTargetId (f t) = t_controlTargetId t) \<Longrightarrow> (\<And>e t. \<Phi> e t \<Longrightarrow> \<Psi> e (f t)) \<Longrightarrow>
   ok (working i \<Phi>) (modTarget i f) (\<lambda>_. working i \<Psi>)"
  by (rule okI) (auto simp: modTarget_def modifyE_def working_def tgt_upd)

lemma force_grants: "ok (\<lambda>_. True) (forceHandoff P i ep o' pf ack ttl) (\<lambda>r w. lease_durable r (w_disk w))"
proof -
  define here idle :: "string \<Rightarrow> target \<Rightarrow> bool"
    where "here = (\<lambda>_ _. True)" and "idle = (\<lambda>_ t. t_inFlight t = None)"
  have found: "ok (\<lambda>_. True) (bindE (targetE i) f) Q" if "\<And>t. ok (working i here) (f t) Q"
    for f and Q :: "result \<Rightarrow> 'a world \<Rightarrow> bool"
    by (rule ok_bind_target) (rule triple_pre [OF that], auto simp: working_def here_def)
  have probe: "ok (working i here) (catchE (callE f) (\<lambda>e. if c e then goneE P i e else throwE (g e))) (\<lambda>_. working i here)"
    for f c g
    by (rule triple_catch [OF call_working [unfolded keeps_triple]]) (intro ok_if gone_never_returns ok_throw)
  have settle: "ok (working i here) (modTarget i (\<lambda>t. fst (completeInFlightAsInDoubt t n))) (\<lambda>_. working i idle)" for n
    by (rule ok_mod) (simp_all add: completeInFlightAsInDoubt_def appendOperation_def idle_def split: option.split)
  have generation: "keeps (working i idle) (setGeneration i out)" for out
    unfolding setGeneration_def modTarget_def
    by (intro keeps_rules keeps_modify) (auto simp: working_def idle_def tgt_upd)
  have recover: "ok (working i idle) (recoverOutput P i) (\<lambda>_. working i idle)"
    unfolding recoverOutput_def
    by (rule triple_catch [where F = "\<lambda>_. working i idle"], unfold keeps_triple [symmetric])
      (intro keeps_rules call_working target_keep generation ok_throw)+
  have activate: "ok (working i idle) (modTarget i (\<lambda>t. t\<lparr>t_lifecycle := ACTIVE, t_recovery := None\<rparr>))
      (\<lambda>_. working i operable)"
    by (rule ok_mod) (simp_all add: idle_def operable_def)
  have clock: "keeps (working i here) (if b then retE 0 else nowE P)" for b
    by (intro keeps_rules env_working)
  have recovered: "ok (working i here)
      (thenE (catchE (callE f) (\<lambda>e. if c e then goneE P i e else throwE (g e)))
      (bindE (if b then retE 0 else nowE P) (\<lambda>tc.
       thenE (modTarget i (\<lambda>t. fst (completeInFlightAsInDoubt t tc)))
       (bindE (recoverOutput P i) (\<lambda>out.
        thenE (resetInteractiveOwners i)
        (thenE (modTarget i (\<lambda>t. t\<lparr>t_lifecycle := ACTIVE, t_recovery := None\<rparr>))
        (thenE (grantE P i o' n)
        (thenE (registerInteractiveOwner i o')
        (thenE (touchE P i)
        (thenE (saveTerminalControlState P)
        (leaseFromTargetE i (pos_cursor out)))))))))))) (\<lambda>r w. lease_durable r (w_disk w))" for f c g b n
    by (intro ok_then_ok [OF probe] ok_bind_keeps [OF clock] ok_then_ok [OF settle] ok_bind_ok [OF recover]
        ok_then_keeps [OF owners_working(2)] ok_then_ok [OF activate] grant_steps ok_save_durable
        leaseFromTarget_durable)
  have fenced: "ok J (case (v, v') of (RECOVERY, Some r) \<Rightarrow> f r | _ \<Rightarrow> throwE e) Q" if "\<And>r. ok J (f r) Q"
    for J Q and v v' f and e :: tc_error
    by (cases v; cases v') (simp_all add: that ok_throw)
  show ?thesis
    unfolding forceHandoff_def
    by (intro ok_if ok_throw locked_ok ok_skip ok_skip_bind [of _ _ _ "targetE i"])
      (intro ok_skip_bind [of _ _ _ "getsE _"] ok_if ok_throw ok_skip_bind [of _ _ _ "if _ then _ else _"] ok_skip found
        fenced recovered)
qed

text \<open>The other requests answer with something else than a lease.\<close>

lemma ok_no_lease: "(\<And>l v. r \<noteq> Leased l v) \<Longrightarrow> ok J (retE r) (\<lambda>r w. lease_durable r (w_disk w))"
  by (intro ok_ret not_leased)

lemma ok_skip_prod_bind: "(\<And>a b. ok (\<lambda>_. True) (f a b) Q) \<Longrightarrow> ok J (bindE m (\<lambda>(a, b). f a b)) Q"
  by (rule ok_skip_bind) auto

lemmas no_lease_rules = ok_if ok_throw locked_ok ok_case_option ok_no_lease ok_skip ok_skip_prod_bind ok_skip_bind result.distinct

lemma no_lease:
  "ok (\<lambda>_. True) (resolveTarget P n) (\<lambda>r w. lease_durable r (w_disk w))"
  "ok (\<lambda>_. True) (status P i) (\<lambda>r w. lease_durable r (w_disk w))"
  "ok (\<lambda>_. True) (release P l) (\<lambda>r w. lease_durable r (w_disk w))"
  "ok (\<lambda>_. True) (cancelHandoff P h l) (\<lambda>r w. lease_durable r (w_disk w))"
  "ok (\<lambda>_. True) (withdrawHandoff P i h o') (\<lambda>r w. lease_durable r (w_disk w))"
  "ok (\<lambda>_. True) (executeInput P l oi p k pl) (\<lambda>r w. lease_durable r (w_disk w))"
  "ok (\<lambda>_. True) (executeLifecycleKill P l oi) (\<lambda>r w. lease_durable r (w_disk w))"
  "ok (\<lambda>_. True) (tailOutput P i e g c m) (\<lambda>r w. lease_durable r (w_disk w))"
  "ok (\<lambda>_. True) (renderedSnapshot P l g p m) (\<lambda>r w. lease_durable r (w_disk w))"
  "ok (\<lambda>_. True) (agentStatus P l g p) (\<lambda>r w. lease_durable r (w_disk w))"
  "ok (\<lambda>_. True) (agentResult P l g p src m) (\<lambda>r w. lease_durable r (w_disk w))"
  unfolding resolveTarget_def status_def release_def cancelHandoff_def withdrawHandoff_def restoreHolder_def
    executeInput_def executeLifecycleKill_def tailOutput_def renderedSnapshot_def agentStatus_def
    agentResult_def guardedRead_def Let_def
  by (intro no_lease_rules)+

text \<open>
  C4. A lease the authority hands out is a lease the state file already records: whichever request
  returned it, the file on disk then holds the target with that lease, and the lease validates
  against it.
\<close>

theorem granted_lease_is_durable:
  assumes "handleV1 P r w = (Inr (Leased l v), w')"
  shows "\<exists>s t. w_disk w' = StateFile s \<and> tgt (l_controlTargetId l) (s_targets s) = Some t
     \<and> validateLease s t l True = Inr ()"
proof -
  have "ok (\<lambda>_. True) (handleV1 P r) (\<lambda>r w. lease_durable r (w_disk w))"
    by (cases r) (auto intro: no_lease acquire_grants renew_grants begin_grants commit_grants force_grants ok_no_lease)
  from okD [OF this _ assms] show ?thesis
    by (auto simp: on_disk_def validateLease_current)
qed

end
