(* ===== verification/TC_Effects.thy ===== *)
theory TC_Effects
  imports TC_Durability
begin

text \<open>
  What reaches a terminal. \<open>w_trace\<close> records every backend call that types into or closes a
  terminal together with the state file at that moment; the theorems here say that each such call
  was made for the durable holder of the target, with the operation already journalled as in
  flight, and that an operation the journal knows is never sent again.
\<close>

section \<open>Requests that may reach a terminal\<close>

fun effect_session :: "effect \<Rightarrow> string" where
  "effect_session (WriteRaw n pane data) = n"
| "effect_session (WriteRawFenced m tmux generation pane data) = ms_name m"
| "effect_session (SendAgentMessage n pane message submit) = n"
| "effect_session (SendAgentMessageFenced m tmux generation pane message submit runtime) = ms_name m"
| "effect_session (Scroll n pane direction lines) = n"
| "effect_session (Resize n pane cols rows) = n"
| "effect_session (KillManaged n) = n"

fun operation_of :: "request \<Rightarrow> (lease \<times> string \<times> op_kind) option" where
  "operation_of (InputRaw l oi p d) = Some (l, oi, RawOp)"
| "operation_of (InputAgentMessage l oi p m s r) = Some (l, oi, AgentMessageOp)"
| "operation_of (InputResize l oi p c r) = Some (l, oi, ResizeOp)"
| "operation_of (InputScroll l oi p d n) = Some (l, oi, ScrollOp)"
| "operation_of (LifecycleKill l oi) = Some (l, oi, LifecycleKillOp)"
| "operation_of r = None"

text \<open>
  The target is held under the lease's own identity and fence, and the operation is the one in
  flight.
\<close>

definition journalled :: "lease \<Rightarrow> string \<Rightarrow> op_kind \<Rightarrow> string \<Rightarrow> target \<Rightarrow> bool" where
  "journalled l oi k e t \<longleftrightarrow>
     t_lifecycle t = ACTIVE \<and> l_controlEpoch l = e
     \<and> is_Held (t_ownership t) \<and> ow_leaseId (t_ownership t) = l_leaseId l
     \<and> ow_fence (t_ownership t) = l_fence l
     \<and> sameInputOwnerClass (ow_owner (t_ownership t)) (l_owner l)
     \<and> (\<exists>f. t_inFlight t = Some f \<and> if_operationId f = oi \<and> if_kind f = k \<and> if_fence f = l_fence l
            \<and> if_ownerInstanceId f = instanceId (l_owner l))"

interpretation journalled: steady "journalled l oi k" for l oi k
  by unfold_locales (auto simp: journalled_def dest: core_fields)

definition permitted :: "lease \<Rightarrow> string \<Rightarrow> op_kind \<Rightarrow> effect \<Rightarrow> disk \<Rightarrow> bool" where
  "permitted l oi k e d \<longleftrightarrow>
     on_disk (l_controlTargetId l)
       (\<lambda>ep t. journalled l oi k ep t \<and> ms_name (t_managedSession t) = effect_session e) d"

definition trace_ok :: "(effect \<times> disk) list \<Rightarrow> lease \<Rightarrow> string \<Rightarrow> op_kind \<Rightarrow> 'b world \<Rightarrow> bool" where
  "trace_ok tr l oi k w \<longleftrightarrow>
     w_trace w = tr \<or> (\<exists>e d. w_trace w = tr @ [(e, d)] \<and> permitted l oi k e d)"

interpretation trace: world_invariant "\<lambda>w. X (w_trace w)" "\<lambda>_. True" for X
  by unfold_locales simp_all

lemma trace_ok_alt: "trace_ok tr l oi k = (\<lambda>w. (\<lambda>x. x = tr \<or> (\<exists>e d. x = tr @ [(e, d)] \<and> permitted l oi k e d)) (w_trace w))"
  by (rule ext) (simp add: trace_ok_def)

interpretation trace_ok: world_invariant "trace_ok tr l oi k" "\<lambda>_. True" for tr l oi k
  unfolding trace_ok_alt by (rule trace.world_invariant_axioms)

lemma with_trace:
  assumes "ok J m Q" and "keeps (\<lambda>w. w_trace w = tr) m"
  shows "triple (\<lambda>w. J w \<and> w_trace w = tr) m (\<lambda>a w. Q a w \<and> w_trace w = tr) (\<lambda>_. trace_ok tr l oi k)"
  using triple_conj [OF assms(1) assms(2) [unfolded keeps_triple]]
  by (rule triple_weaken) (simp_all add: trace_ok_def)

section \<open>Input\<close>

lemma validLease_durable:
  "ok (sync (l_controlTargetId l)) (validLeaseE l d) (\<lambda>_. durable (l_controlTargetId l) (lease_current d l))"
  by (rule okI)
    (auto simp: validLeaseE_def em_defs targetE_def targetById_def durable_def working_def
      validateLease_current split: option.splits)

lemma begin_journals:
  "ok (durable (l_controlTargetId l) (lease_current False l)) (beginOperation P oi l hash k out)
     (\<lambda>_. durable (l_controlTargetId l) (journalled l oi k))"
proof -
  have mark: "ok (working (l_controlTargetId l) (lease_current False l))
      (modTarget (l_controlTargetId l) (\<lambda>t. t\<lparr>t_inFlight := Some (inFlightRecord oi l hash k out n)\<rparr>))
      (\<lambda>_. working (l_controlTargetId l) (journalled l oi k))" for n
    by (rule ok_mod) (auto simp: lease_current_def journalled_def operable_def inFlightRecord_def
        ownership.disc_eq_case split: ownership.splits)
  show ?thesis
    unfolding beginOperation_def Let_def
    by (intro ok_forget ok_bind_keeps [OF env_working] ok_then_ok [OF mark]
        ok_then_keeps [OF journalled.touch_working] save_durable)
qed

lemma inputPosition_durable:
  "ok (durable (l_controlTargetId l) (lease_current False l)) (inputPosition P l k)
     (\<lambda>_. durable (l_controlTargetId l) (lease_current False l))"
proof -
  let ?J = "durable (l_controlTargetId l) (lease_current False l)"
  have repair: "ok ?J (catchE (thenE (callE f) (bindE (backendReset P (l_controlTargetId l)) (\<lambda>out.
      thenE (touchE P (l_controlTargetId l)) (thenE (saveTerminalControlState P) (retE out)))))
      (\<lambda>_. recoveryE P (l_controlTargetId l) r m)) (\<lambda>_. ?J)" for f r m
    by (rule triple_catch [OF ok_weaken [OF lease_current.repair_durable]])
      (auto simp: durable_def intro: recovery_never_returns)
  have fenced: "ok ?J (catchE (callE f) h) (\<lambda>_. ?J)" if "\<And>e. ok ?J (h e) (\<lambda>_. ?J)" for f h
    by (rule triple_catch [OF lease_current.call_durable [unfolded keeps_triple]]) (rule that)
  show ?thesis
    unfolding inputPosition_def Let_def
    by (auto split: bool.split option.split
        intro!: lease_current.prepareOutput_durable ok_bind_keeps [OF target_keep] fenced repair
          recovery_never_returns)
qed

lemma effect_permitted:
  assumes "\<And>w. J w \<Longrightarrow> permitted l oi k e (w_disk w)"
  shows "triple (\<lambda>w. J w \<and> w_trace w = tr) (effectE e f) (\<lambda>_. trace_ok tr l oi k) (\<lambda>_. trace_ok tr l oi k)"
  using assms
  by (intro tripleI) (auto simp: effectE_def em_defs callE_def trace_ok_def split: prod.splits)

lemma journalled_session: "steady (\<lambda>ep t. journalled l oi k ep t \<and> ms_name (t_managedSession t) = n)"
  by unfold_locales (auto simp: journalled_def dest: core_fields)

lemma journalled_permits:
  assumes "durable (l_controlTargetId l) (journalled l oi k) w"
    and "tgt (l_controlTargetId l) (s_targets (w_work w)) = Some t"
    and "effect_session e = ms_name (t_managedSession t)"
  shows "permitted l oi k e (w_disk w)"
  unfolding permitted_def
  by (rule steady.on_disk_durable [OF journalled_session]) (use assms in \<open>auto simp: durable_def working_def\<close>)

lemma effect_journalled:
  assumes "effect_session e = ms_name (t_managedSession t)"
  shows "triple (\<lambda>w. (durable (l_controlTargetId l) (journalled l oi k) w
      \<and> tgt (l_controlTargetId l) (s_targets (w_work w)) = Some t) \<and> w_trace w = tr) (effectE e f)
     (\<lambda>_. trace_ok tr l oi k) (\<lambda>_. trace_ok tr l oi k)"
  by (rule effect_permitted) (auto intro: journalled_permits assms)

lemma throw_trace: "triple (\<lambda>w. J w \<and> w_trace w = tr) (throwE e) (\<lambda>_. trace_ok tr l oi k) (\<lambda>_. trace_ok tr l oi k)"
  by (rule triple_pre [OF triple_throw]) (simp add: trace_ok_def)

lemma bind_target_trace:
  assumes "\<And>t. triple (\<lambda>w. (J w \<and> tgt i (s_targets (w_work w)) = Some t) \<and> w_trace w = tr) (f t) Q (\<lambda>_. trace_ok tr l oi k)"
  shows "triple (\<lambda>w. J w \<and> w_trace w = tr) (bindE (targetE i) f) Q (\<lambda>_. trace_ok tr l oi k)"
  by (rule triple_bind [OF with_trace [OF ok_target target_keep]]) (rule assms)

lemma perform_permitted:
  "triple (\<lambda>w. durable (l_controlTargetId l) (journalled l oi k) w \<and> w_trace w = tr)
     (performInput P (l_controlTargetId l) pane kind payload out)
     (\<lambda>_. trace_ok tr l oi k) (\<lambda>_. trace_ok tr l oi k)"
  unfolding performInput_def Let_def
  by (cases kind; rule bind_target_trace; simp only: op_kind.case)
    (intro triple_case_path triple_case_option triple_case_prod triple_if effect_journalled throw_trace; simp)+

lemma triple_then_trace:
  "ok J m (\<lambda>_. J') \<Longrightarrow> keeps (\<lambda>w. w_trace w = tr) m \<Longrightarrow>
   triple (\<lambda>w. J' w \<and> w_trace w = tr) k' (\<lambda>_. trace_ok tr l oi k) (\<lambda>_. trace_ok tr l oi k) \<Longrightarrow>
   triple (\<lambda>w. J w \<and> w_trace w = tr) (thenE m k') (\<lambda>_. trace_ok tr l oi k) (\<lambda>_. trace_ok tr l oi k)"
  by (rule triple_then [OF with_trace])

lemma triple_bind_trace:
  "ok J m (\<lambda>_. J') \<Longrightarrow> keeps (\<lambda>w. w_trace w = tr) m \<Longrightarrow>
   (\<And>a. triple (\<lambda>w. J' w \<and> w_trace w = tr) (f a) (\<lambda>_. trace_ok tr l oi k) (\<lambda>_. trace_ok tr l oi k)) \<Longrightarrow>
   triple (\<lambda>w. J w \<and> w_trace w = tr) (bindE m f) (\<lambda>_. trace_ok tr l oi k) (\<lambda>_. trace_ok tr l oi k)"
  by (rule triple_bind [OF with_trace])

lemma triple_keeps_trace:
  assumes "keeps (trace_ok tr l oi k) m"
  shows "triple (\<lambda>w. J w \<and> w_trace w = tr) m (\<lambda>_. trace_ok tr l oi k) (\<lambda>_. trace_ok tr l oi k)"
  using assms unfolding keeps_triple by (rule triple_pre) (simp add: trace_ok_def)

lemma locked_trace:
  assumes "triple (\<lambda>w. fresh w \<and> w_trace w = tr) op (\<lambda>_. trace_ok tr l oi k) (\<lambda>_. trace_ok tr l oi k)"
  shows "triple (\<lambda>w. w_trace w = tr) (locked P op) (\<lambda>_. trace_ok tr l oi k) (\<lambda>_. trace_ok tr l oi k)"
  by (rule locked_triple [OF _ _ _ assms]) (simp_all add: fresh_def trace_ok_def)

lemma reconcile_or_assert_sync:
  "ok fresh (if b then thenE (reconcileAbandonedOwnership P i) (retE ()) else assertTargetCurrent P i) (\<lambda>_. sync i)"
  by (intro ok_if triple_then [OF triple_pre [OF reconcile_sync]] ok_weaken [OF assertTargetCurrent_durable])
    (auto simp: fresh_sync durable_def intro: ok_ret)

lemmas input_trace_keeps =
  trace.reconcile_keeps [OF TrueI] trace.assertTargetCurrent_keeps [OF TrueI] trace.validLease_keeps
  trace.register_keeps trace.inputPosition_keeps [OF TrueI] trace.begin_keeps [OF TrueI]
  trace.prepareOutput_keeps [OF TrueI]

lemmas input_tail_keeps =
  keeps_rules trace_ok.handler_keeps trace_ok.clear_keeps trace_ok.mod_keeps ts_append TrueI

lemma failed_trace:
  assumes "triple J m (\<lambda>_. trace_ok tr l oi k) (\<lambda>_. trace_ok tr l oi k)"
    and "\<And>e. keeps (trace_ok tr l oi k) (h e)"
  shows "triple J (catchE m h) (\<lambda>_. trace_ok tr l oi k) (\<lambda>_. trace_ok tr l oi k)"
  by (rule triple_catch [OF assms(1)]) (use assms(2) keeps_triple in blast)

lemma then_tail:
  assumes "triple J m (\<lambda>_. trace_ok tr l oi k) (\<lambda>_. trace_ok tr l oi k)"
    and "keeps (trace_ok tr l oi k) n"
  shows "triple J (thenE m n) (\<lambda>_. trace_ok tr l oi k) (\<lambda>_. trace_ok tr l oi k)"
  by (rule triple_then [OF assms(1)]) (use assms(2) keeps_triple in blast)

lemma executeInput_trace:
  "triple (\<lambda>w. w_trace w = tr) (executeInput P l oi pane k payload) (\<lambda>_. trace_ok tr l oi k) (\<lambda>_. trace_ok tr l oi k)"
  unfolding executeInput_def Let_def
  apply (rule locked_trace)
  apply (rule triple_then_trace [OF keeps_ok [OF target_keep] target_keep])
  apply (rule triple_then_trace [OF reconcile_or_assert_sync])
   apply (intro keeps_rules input_trace_keeps)
  apply (rule triple_then_trace [OF validLease_durable], rule input_trace_keeps)
  apply (rule triple_if, rule throw_trace)
  apply (rule triple_then_trace [OF keeps_ok [OF owners_durable(1)]], rule input_trace_keeps)
  apply (rule triple_bind_trace [OF keeps_ok [OF target_keep] target_keep])
  apply (rule triple_bind_trace [OF keeps_ok [OF lift_keep] lift_keep])
  apply (rule triple_case_option)
   apply (rule triple_bind_trace [OF inputPosition_durable], rule input_trace_keeps)
   apply (rule triple_then_trace [OF begin_journals], rule input_trace_keeps)
   apply (rule then_tail [OF failed_trace [OF perform_permitted]])
    apply (rule trace_ok.inputFailed_keeps [OF TrueI])
   apply (intro input_tail_keeps)
  apply (rule triple_keeps_trace)
  apply (intro input_tail_keeps)
  done

lemma kill_trace:
  "triple (\<lambda>w. w_trace w = tr) (executeLifecycleKill P l oi) (\<lambda>_. trace_ok tr l oi LifecycleKillOp)
     (\<lambda>_. trace_ok tr l oi LifecycleKillOp)"
  unfolding executeLifecycleKill_def Let_def
  apply (rule locked_trace)
  apply (rule triple_bind_trace [OF keeps_ok [OF target_keep] target_keep])
  apply (rule triple_bind_trace [OF keeps_ok [OF lift_keep] lift_keep])
  apply (rule triple_case_option)
   apply (rule triple_then_trace [OF ok_weaken [OF assertTargetCurrent_durable fresh_sync], where J' = "sync (l_controlTargetId l)"])
      apply assumption
     apply (simp add: durable_def)
    apply (rule input_trace_keeps)
   apply (rule triple_then_trace [OF validLease_durable], rule input_trace_keeps)
   apply (rule triple_bind_trace [OF lease_current.prepareOutput_durable], rule input_trace_keeps)
   apply (rule triple_then_trace [OF begin_journals], rule input_trace_keeps)
   apply (rule bind_target_trace)
   apply (rule then_tail [OF failed_trace [OF effect_journalled]], simp)
    apply (rule trace_ok.killFailed_keeps [OF TrueI])
   apply (intro input_tail_keeps)
  apply (rule triple_keeps_trace)
  apply (intro input_tail_keeps)
  done

section \<open>The other requests\<close>

lemma locked_quiet: "keeps (\<lambda>w. w_trace w = tr) op \<Longrightarrow> keeps (\<lambda>w. w_trace w = tr) (locked P op)"
  unfolding keeps_triple by (rule locked_triple) simp_all

lemma superseded_quiet: "keeps (\<lambda>w. w_trace w = tr) (invalidate_superseded P m tm ts)"
  by (induction ts) (auto intro!: keeps_rules trace.invalidate_keeps)

lemma provision_quiet: "keeps (\<lambda>w. w_trace w = tr) (provisionTarget P m tm)"
  unfolding provisionTarget_def pushTarget_def by (intro keeps_rules trace.env_keeps keeps_modify) simp

lemma force_case_keeps:
  "(\<And>r. keeps J (f r)) \<Longrightarrow> keeps J m \<Longrightarrow> keeps J (case (v, v') of (RECOVERY, Some r) \<Rightarrow> f r | _ \<Rightarrow> m)"
  by (cases v; cases v') simp_all

lemmas quiet_rules =
  locked_quiet keeps_rules trace.handler_keeps trace.tailFailed_keeps superseded_quiet provision_quiet
  force_case_keeps trace.mod_keeps TrueI

lemma quiet:
  "keeps (\<lambda>w. w_trace w = tr) (resolveTarget P n)" "keeps (\<lambda>w. w_trace w = tr) (status P i)"
  "keeps (\<lambda>w. w_trace w = tr) (acquire P i o' ttl)" "keeps (\<lambda>w. w_trace w = tr) (renew P l ttl)"
  "keeps (\<lambda>w. w_trace w = tr) (release P l)" "keeps (\<lambda>w. w_trace w = tr) (beginHandoff P i o' cl)"
  "keeps (\<lambda>w. w_trace w = tr) (commitHandoff P h l d ttl)" "keeps (\<lambda>w. w_trace w = tr) (cancelHandoff P h l)"
  "keeps (\<lambda>w. w_trace w = tr) (withdrawHandoff P i h o')"
  "keeps (\<lambda>w. w_trace w = tr) (forceHandoff P i ep o' pf ack ttl)"
  "keeps (\<lambda>w. w_trace w = tr) (tailOutput P i e g c m)"
  "keeps (\<lambda>w. w_trace w = tr) (renderedSnapshot P l g p m)" "keeps (\<lambda>w. w_trace w = tr) (agentStatus P l g p)"
  "keeps (\<lambda>w. w_trace w = tr) (agentResult P l g p src m)"
  unfolding resolveTarget_def status_def acquire_def renew_def release_def beginHandoff_def commitHandoff_def
    cancelHandoff_def withdrawHandoff_def forceHandoff_def tailOutput_def renderedSnapshot_def agentStatus_def
    agentResult_def guardedRead_def Let_def
  by (intro quiet_rules ts_expiry ts_release ts_drain ts_with_drain ts_clear_recovery ts_complete ts_activate; fail)+

lemma handle_quiet: "operation_of r = None \<Longrightarrow> keeps (\<lambda>w. w_trace w = tr) (handleV1 P r)"
  by (cases r) (auto intro: quiet keeps_rules)

lemma handle_trace:
  "operation_of r = Some (l, oi, k) \<Longrightarrow>
   triple (\<lambda>w. w_trace w = tr) (handleV1 P r) (\<lambda>_. trace_ok tr l oi k) (\<lambda>_. trace_ok tr l oi k)"
  by (cases r) (auto intro: executeInput_trace kill_trace)

text \<open>
  C5. A request types into, resizes or closes at most one terminal, once, and only an input or
  kill request does. At that moment the state file records the target as active and held under
  exactly the lease, fence and controller epoch the request presented, with this operation as the
  one in flight, and the call goes to the tmux session of that target.
\<close>

theorem terminal_effects_are_journalled:
  "w_trace (snd (handleV1 P r w)) = w_trace w
   \<or> (\<exists>l oi k e s t f. operation_of r = Some (l, oi, k)
       \<and> w_trace (snd (handleV1 P r w)) = w_trace w @ [(e, StateFile s)]
       \<and> tgt (l_controlTargetId l) (s_targets s) = Some t \<and> t_lifecycle t = ACTIVE
       \<and> s_controlEpoch s = l_controlEpoch l \<and> is_Held (t_ownership t)
       \<and> ow_leaseId (t_ownership t) = l_leaseId l \<and> ow_fence (t_ownership t) = l_fence l
       \<and> sameInputOwnerClass (ow_owner (t_ownership t)) (l_owner l)
       \<and> t_inFlight t = Some f \<and> if_operationId f = oi \<and> if_kind f = k \<and> if_fence f = l_fence l
       \<and> effect_session e = ms_name (t_managedSession t))"
proof (cases "operation_of r")
  case None
  from handle_quiet [OF this, of "w_trace w" P] show ?thesis by (simp add: moves_def)
next
  case (Some x)
  obtain l oi k where r: "operation_of r = Some (l, oi, k)" using Some by (cases x) simp
  obtain res w' where run: "handleV1 P r w = (res, w')" by (cases "handleV1 P r w")
  have "trace_ok (w_trace w) l oi k w'"
    using run tripleD_ok [OF handle_trace [OF r] refl] tripleD_err [OF handle_trace [OF r] refl]
    by (cases res) blast+
  with run r show ?thesis
    by (simp add: trace_ok_def permitted_def on_disk_def journalled_def) metis
qed

end
