(* ===== verification/TC_Lifecycle.thy ===== *)
theory TC_Lifecycle
  imports TC_Fencing TC_Effects
begin

text \<open>
  The end of a target. A target whose file record says \<open>TARGET_GONE\<close> is final: no request and no
  restart changes its record, until compaction drops it, so an incarnation that ended can never
  become writable again.
\<close>

definition gone_in :: "string \<Rightarrow> target \<Rightarrow> 'b world \<Rightarrow> bool" where
  "gone_in i t w \<longleftrightarrow> t_lifecycle t = GONE \<and> tgt i (s_targets (w_work w)) = Some t
     \<and> unchanged (Some t) (tgt i (disk_targets (w_disk w)))"

abbreviation gone_on_disk :: "string \<Rightarrow> target \<Rightarrow> 'b world \<Rightarrow> bool" where
  "gone_on_disk i t w \<equiv> unchanged (Some t) (tgt i (disk_targets (w_disk w)))"

interpretation gone: world_invariant "gone_in i t" "\<lambda>j. j \<noteq> i" for i t
proof unfold_locales
  fix w :: "'a world" and j f
  assume J: "gone_in i t w" and "j \<noteq> i" and step: "\<And>u. target_step u (f u)"
  then have "tgt i (update_first (\<lambda>u. t_controlTargetId u = j) f ts) = tgt i ts" for ts
    by (intro tgt_update_other) (auto intro: target_step_id step)
  with J show "gone_in i t (w\<lparr>w_work := upd_target j f (w_work w)\<rparr>)"
    by (simp add: gone_in_def upd_target_def)
next
  fix w :: "'a world" and lc c
  assume J: "gone_in i t w" and s: "prepared_save lc (w_work w) = Inr c"
  from unchanged_save [OF s, of i] J show "gone_in i t (w\<lparr>w_disk := StateFile c\<rparr>)"
    by (simp add: gone_in_def)
qed (simp_all add: gone_in_def)

lemma gone_target: "triple (gone_in i t) (targetE i) (\<lambda>u w. gone_in i t w \<and> u = t) (\<lambda>_. gone_in i t)"
  by (rule tripleI) (auto simp: targetE_def targetById_def em_defs gone_in_def)

lemma gone_bind:
  assumes "t_lifecycle t = GONE \<Longrightarrow> triple (gone_in i t) (f t) Q (\<lambda>_. gone_in i t)"
  shows "triple (gone_in i t) (bindE (targetE i) f) Q (\<lambda>_. gone_in i t)"
proof (rule triple_bind [OF gone_target])
  show "triple (\<lambda>w. gone_in i t w \<and> u = t) (f u) Q (\<lambda>_. gone_in i t)" for u
    using assms by (auto simp: triple_def gone_in_def)
qed

lemma gone_triple: "keeps (gone_in i t) m \<Longrightarrow> triple (gone_in i t) m (\<lambda>_. gone_in i t) (\<lambda>_. gone_in i t)"
  by (simp add: keeps_triple)

lemma gone_ret: "triple (gone_in i t) (retE a) (\<lambda>_. gone_in i t) (\<lambda>_. gone_in i t)"
  and gone_throw: "triple (gone_in i t) (throwE e) Q (\<lambda>_. gone_in i t)"
  by (simp_all add: triple_def retE_def throwE_def)

lemma reconcile_gone: "keeps (gone_in i t) (reconcileAbandonedOwnership P j)"
proof (cases "j = i")
  case True
  show ?thesis
    unfolding True keeps_triple reconcileAbandonedOwnership_def
    by (rule gone_bind, simp add: bind_ret, rule gone_bind) (simp add: isAutoRecoverableNonFeishuState_def gone_ret)
qed (rule gone.reconcile_keeps)

lemma assert_gone: "triple (gone_in i t) (assertTargetCurrent P i) (\<lambda>_ _. False) (\<lambda>_. gone_in i t)"
  unfolding assertTargetCurrent_def
  by (rule triple_then [OF gone_triple [OF reconcile_gone]], rule gone_bind, rule never_then)
    (simp add: ensureOperable_def liftE_def triple_def)

lemma valid_gone: "triple (gone_in (l_controlTargetId l) t) (validLeaseE l d) (\<lambda>_ _. False) (\<lambda>_. gone_in (l_controlTargetId l) t)"
  by (rule tripleI)
    (auto simp: validLeaseE_def em_defs targetE_def targetById_def gone_in_def validateLease_def ensureOperable_def
      split: if_splits)

lemma settle_gone: "keeps (gone_in i t) (settleInFlight P j)"
proof (cases "j = i")
  case True
  show ?thesis unfolding True keeps_triple settleInFlight_def by (rule gone_bind) (simp add: gone_ret)
qed (rule gone.settle_keeps)

lemma cursor_gone: "keeps (gone_in i t) (activeOutputCursor P j)"
proof (cases "j = i")
  case True
  show ?thesis unfolding True keeps_triple activeOutputCursor_def by (rule gone_bind) (simp add: gone_ret)
qed (rule gone.cursor_keeps)

lemma locked_gone:
  assumes "triple (\<lambda>w. gone_in i t w \<and> valid_state (w_work w)) op (\<lambda>_. gone_in i t) (\<lambda>_. gone_in i t)"
    and "t_lifecycle t = GONE"
  shows "triple (\<lambda>w. tgt i (disk_targets (w_disk w)) = Some t) (locked P op) (\<lambda>_. gone_on_disk i t) (\<lambda>_. gone_on_disk i t)"
proof -
  have "triple (\<lambda>w. gone_in i t w \<and> valid_state (w_work w)) op (\<lambda>_. gone_on_disk i t) (\<lambda>_. gone_on_disk i t)"
    using assms(1) by (rule triple_weaken) (simp_all add: gone_in_def)
  then show ?thesis
    by (rule locked_triple [rotated 3]) (auto simp: gone_in_def loaded_def unchanged_def assms(2))
qed

lemma locked_gone_simple:
  assumes "triple (gone_in i t) op (\<lambda>_. gone_in i t) (\<lambda>_. gone_in i t)" and "t_lifecycle t = GONE"
  shows "triple (\<lambda>w. tgt i (disk_targets (w_disk w)) = Some t) (locked P op) (\<lambda>_. gone_on_disk i t) (\<lambda>_. gone_on_disk i t)"
  by (rule locked_gone [OF triple_pre [OF assms(1)] assms(2)]) simp

lemma gone_then: "keeps (gone_in i t) m \<Longrightarrow> triple (gone_in i t) k Q (\<lambda>_. gone_in i t) \<Longrightarrow>
   triple (gone_in i t) (thenE m k) Q (\<lambda>_. gone_in i t)"
  by (rule triple_then [OF gone_triple])

lemma superseded_gone:
  assumes "\<And>u. u \<in> set ts \<Longrightarrow> t_controlTargetId u = i \<Longrightarrow> t_lifecycle u = GONE"
  shows "keeps (gone_in i t) (invalidate_superseded P m tm ts)"
  using assms
proof (induction ts)
  case (Cons u us)
  have "superseded_by m tm u \<Longrightarrow> t_controlTargetId u \<noteq> i"
    using Cons.prems [of u] by (auto simp: superseded_by_def)
  with Cons show ?case by (auto intro!: keeps_rules gone.invalidate_keeps)
qed (auto intro!: keeps_rules)

lemma provision_gone: "keeps (gone_in i t) (provisionTarget P m tm)"
  unfolding provisionTarget_def pushTarget_def
  by (intro keeps_rules gone.env_keeps keeps_modify) (auto simp: gone_in_def find_append)

lemma loaded_gone:
  "gone_in i t w \<Longrightarrow> valid_state (w_work w) \<Longrightarrow> u \<in> set (s_targets (w_work w)) \<Longrightarrow> t_controlTargetId u = i \<Longrightarrow>
   t_lifecycle u = GONE"
  using find_SomeD [of "\<lambda>u. t_controlTargetId u = i" "s_targets (w_work w)" t]
  by (auto simp: gone_in_def valid_state_iff dest: inj_onD [OF distinct_map [THEN iffD1, THEN conjunct2]])

lemma loaded_list_gone:
  assumes "\<And>ts s. (\<And>u. u \<in> set ts \<Longrightarrow> t_controlTargetId u = i \<Longrightarrow> t_lifecycle u = GONE) \<Longrightarrow> ts = s_targets s \<Longrightarrow>
      triple (gone_in i t) (f s) Q (\<lambda>_. gone_in i t)"
  shows "triple (\<lambda>w. gone_in i t w \<and> valid_state (w_work w)) (bindE (getsE w_work) f) Q (\<lambda>_. gone_in i t)"
proof -
  have "case f (w_work w) w of (Inl e, w') \<Rightarrow> gone_in i t w' | (Inr a, w') \<Rightarrow> Q a w'"
    if "gone_in i t w" "valid_state (w_work w)" for w
    using assms [of "s_targets (w_work w)" "w_work w", OF loaded_gone [OF that]] that(1) by (simp add: triple_def)
  then show ?thesis by (simp add: triple_def em_defs)
qed

lemmas gone_rules =
  keeps_rules reconcile_gone settle_gone cursor_gone provision_gone gone.save_keeps target_keep gone.view_keeps

lemma resolve_gone:
  "t_lifecycle t = GONE \<Longrightarrow>
   triple (\<lambda>w. tgt i (disk_targets (w_disk w)) = Some t) (resolveTarget P n) (\<lambda>_. gone_on_disk i t) (\<lambda>_. gone_on_disk i t)"
  unfolding resolveTarget_def
  apply (rule locked_gone)
   apply (rule triple_bind [where R = "\<lambda>_ w. gone_in i t w \<and> valid_state (w_work w)"])
    apply (rule tripleI; auto simp: callE_def gone_in_def Let_def split: prod.splits)
   apply (rule triple_case_prod)
   apply (rule loaded_list_gone)
   apply (rule gone_triple)
   apply (intro superseded_gone gone_rules, blast)
  apply assumption
  done

lemma fence_all_gone:
  assumes "\<And>u. u \<in> set ts \<Longrightarrow> t_controlTargetId u = i \<Longrightarrow> t_lifecycle u = GONE"
  shows "keeps (gone_in i t) (fence_all P e ts)"
  using assms
proof (induction ts)
  case (Cons u us)
  have "restart_reason u = Some r \<Longrightarrow> t_controlTargetId u \<noteq> i" for r
    using Cons.prems [of u] by (auto simp: restart_reason_def)
  with Cons show ?case by (auto intro!: keeps_rules gone.mark_keeps split: option.split)
qed (auto intro!: keeps_rules)

lemma restart_gone:
  "t_lifecycle t = GONE \<Longrightarrow>
   triple (\<lambda>w. tgt i (disk_targets (w_disk w)) = Some t) (initializeContinuity_locked P) (\<lambda>_. gone_on_disk i t) (\<lambda>_. gone_on_disk i t)"
  unfolding initializeContinuity_locked_def
  apply (rule locked_gone)
   apply (rule loaded_list_gone)
   apply (rule gone_triple)
   apply (intro keeps_rules gone.env_keeps keeps_modify fence_all_gone gone.save_keeps)
    apply (simp add: gone_in_def)
   apply blast
  apply assumption
  done

text \<open>The requests that name the retired target.\<close>

lemmas named_gone =
  locked_gone_simple gone_then [OF target_keep] never_then [OF assert_gone] never_then [OF valid_gone] gone_throw

lemma gone_free: "triple (gone_in i t) m (\<lambda>_ _. False) (\<lambda>_. gone_in i t) \<Longrightarrow> triple (gone_in i t) m Q (\<lambda>_. gone_in i t)"
  by (erule triple_weaken) simp_all

lemma gone_here: "tgt i (disk_targets (w_disk w)) = Some t \<Longrightarrow> t_lifecycle t = GONE \<Longrightarrow> gone_on_disk i t w"
  by (simp add: unchanged_def)

lemma force_gone:
  assumes "t_lifecycle t = GONE"
  shows "triple (\<lambda>w. tgt i (disk_targets (w_disk w)) = Some t) (forceHandoff P i ep o' pf ack ttl)
     (\<lambda>_. gone_on_disk i t) (\<lambda>_. gone_on_disk i t)"
proof (cases "\<not> isControlledLocal o' \<or> \<not> ack")
  case True
  then show ?thesis
    using assms by (auto simp: forceHandoff_def triple_def throwE_def unchanged_def)
next
  case False
  show ?thesis
    unfolding forceHandoff_def if_not_P [OF False]
    by (rule locked_gone_simple [OF _ assms], rule gone_bind)
      (auto simp: assms intro!: triple_bind [OF gone_triple [OF moves_gets [OF keeps_preorder]]] gone_throw)
qed

lemma status_gone:
  assumes "t_lifecycle t = GONE"
  shows "triple (\<lambda>w. tgt i (disk_targets (w_disk w)) = Some t) (status P i) (\<lambda>_. gone_on_disk i t) (\<lambda>_. gone_on_disk i t)"
  unfolding status_def
  apply (rule locked_gone_simple [OF _ assms])
  apply (rule gone_then [OF target_keep])
  apply (rule triple_bind [OF gone_triple [OF settle_gone]])
  apply (rule gone_then [OF reconcile_gone])
  apply (rule gone_bind)
  apply (simp add: whenE_def [of False] assms)
  apply (rule gone_triple, intro gone_rules)
  done

lemma named_target_gone:
  assumes "t_lifecycle t = GONE"
  shows "triple (\<lambda>w. tgt i (disk_targets (w_disk w)) = Some t) (acquire P i o' ttl) (\<lambda>_. gone_on_disk i t) (\<lambda>_. gone_on_disk i t)"
    and "triple (\<lambda>w. tgt i (disk_targets (w_disk w)) = Some t) (beginHandoff P i o' cl) (\<lambda>_. gone_on_disk i t) (\<lambda>_. gone_on_disk i t)"
    and "triple (\<lambda>w. tgt i (disk_targets (w_disk w)) = Some t) (withdrawHandoff P i h o') (\<lambda>_. gone_on_disk i t) (\<lambda>_. gone_on_disk i t)"
  unfolding acquire_def beginHandoff_def withdrawHandoff_def by (intro named_gone assms)+

lemma leased_target_gone:
  assumes "t_lifecycle t = GONE" and "i = l_controlTargetId l"
  shows "triple (\<lambda>w. tgt i (disk_targets (w_disk w)) = Some t) (renew P l ttl) (\<lambda>_. gone_on_disk i t) (\<lambda>_. gone_on_disk i t)"
    and "triple (\<lambda>w. tgt i (disk_targets (w_disk w)) = Some t) (release P l) (\<lambda>_. gone_on_disk i t) (\<lambda>_. gone_on_disk i t)"
    and "triple (\<lambda>w. tgt i (disk_targets (w_disk w)) = Some t) (commitHandoff P h l d ttl) (\<lambda>_. gone_on_disk i t) (\<lambda>_. gone_on_disk i t)"
    and "triple (\<lambda>w. tgt i (disk_targets (w_disk w)) = Some t) (cancelHandoff P h l) (\<lambda>_. gone_on_disk i t) (\<lambda>_. gone_on_disk i t)"
  unfolding renew_def release_def commitHandoff_def cancelHandoff_def Let_def assms(2)
  by (intro named_gone assms(1))+

lemma read_gone:
  assumes "t_lifecycle t = GONE" and "i = l_controlTargetId l"
  shows "triple (\<lambda>w. tgt i (disk_targets (w_disk w)) = Some t) (guardedRead P l g p d st body) (\<lambda>_. gone_on_disk i t) (\<lambda>_. gone_on_disk i t)"
  unfolding guardedRead_def Let_def assms(2)
  by (intro locked_gone_simple [OF _ assms(1)] gone_then [OF target_keep] triple_if gone_throw never_then [OF assert_gone])

lemma tail_gone:
  assumes "t_lifecycle t = GONE"
  shows "triple (\<lambda>w. tgt i (disk_targets (w_disk w)) = Some t) (tailOutput P i e g c m) (\<lambda>_. gone_on_disk i t) (\<lambda>_. gone_on_disk i t)"
  unfolding tailOutput_def
  by (intro locked_gone_simple [OF _ assms] gone_bind triple_bind [OF gone_triple [OF moves_gets [OF keeps_preorder]]]
      triple_if gone_throw never_then [OF assert_gone])

lemma input_gone:
  assumes "t_lifecycle t = GONE" and "i = l_controlTargetId l"
  shows "triple (\<lambda>w. tgt i (disk_targets (w_disk w)) = Some t) (executeInput P l oi p k pl) (\<lambda>_. gone_on_disk i t) (\<lambda>_. gone_on_disk i t)"
proof -
  have "triple (gone_in i t) (if b then thenE (reconcileAbandonedOwnership P i) (retE ()) else assertTargetCurrent P i)
      (\<lambda>_. gone_in i t) (\<lambda>_. gone_in i t)" for b
    by (intro triple_if gone_triple keeps_rules reconcile_gone gone_free [OF assert_gone])
  then show ?thesis
    unfolding executeInput_def Let_def assms(2)
    by (intro locked_gone_simple [OF _ assms(1)] gone_then [OF target_keep] never_then [OF valid_gone]
        triple_then [where R = "gone_in (l_controlTargetId l) t"])
qed

lemma kill_gone:
  assumes "t_lifecycle t = GONE" and "i = l_controlTargetId l"
  shows "triple (\<lambda>w. tgt i (disk_targets (w_disk w)) = Some t) (executeLifecycleKill P l oi) (\<lambda>_. gone_on_disk i t) (\<lambda>_. gone_on_disk i t)"
  unfolding executeLifecycleKill_def Let_def assms(2)
  by (intro locked_gone_simple [OF _ assms(1)] gone_bind triple_bind [OF gone_triple [OF lift_keep]]
      triple_case_option never_then [OF assert_gone])
    (rule gone_triple, intro keeps_rules)

lemma handle_gone:
  assumes "t_lifecycle t = GONE" and "touches r i"
  shows "triple (\<lambda>w. tgt i (disk_targets (w_disk w)) = Some t) (handleV1 P r) (\<lambda>_. gone_on_disk i t) (\<lambda>_. gone_on_disk i t)"
  using assms
  by (cases r)
    (auto simp: renderedSnapshot_def agentStatus_def agentResult_def
      intro: resolve_gone status_gone named_target_gone leased_target_gone force_gone input_gone kill_gone tail_gone read_gone)

text \<open>
  C7. A retired target is final: whatever request arrives, and also when the controller restarts,
  its record in the file stays as it is, loses only its journal, or is dropped by compaction. Its
  lifecycle never leaves \<open>TARGET_GONE\<close> and it never has a holder again.
\<close>

theorem retired_target_is_final:
  assumes "tgt i (disk_targets (w_disk w)) = Some t" and "t_lifecycle t = GONE"
  shows "tgt i (disk_targets (w_disk (snd (handleV1 P r w)))) \<in> {None, Some t, Some (t\<lparr>t_completedOperations := []\<rparr>)}
     \<and> tgt i (disk_targets (w_disk (snd (initializeContinuity_locked P w)))) \<in> {None, Some t, Some (t\<lparr>t_completedOperations := []\<rparr>)}"
proof
  have run: "tgt i (disk_targets (w_disk (snd (m w)))) \<in> {None, Some t, Some (t\<lparr>t_completedOperations := []\<rparr>)}"
    if m: "triple (\<lambda>w. tgt i (disk_targets (w_disk w)) = Some t) m (\<lambda>_. gone_on_disk i t) (\<lambda>_. gone_on_disk i t)" for m :: "('a, 'c) tc"
  proof -
    obtain res w' where res: "m w = (res, w')" by (cases "m w")
    have "gone_on_disk i t w'"
      using tripleD_ok [OF m assms(1)] tripleD_err [OF m assms(1)] res by (cases res) blast+
    with res assms(2) show ?thesis by (simp add: unchanged_def)
  qed
  show "tgt i (disk_targets (w_disk (snd (initializeContinuity_locked P w)))) \<in> {None, Some t, Some (t\<lparr>t_completedOperations := []\<rparr>)}"
    by (rule run [OF restart_gone [OF assms(2)]])
  show "tgt i (disk_targets (w_disk (snd (handleV1 P r w)))) \<in> {None, Some t, Some (t\<lparr>t_completedOperations := []\<rparr>)}"
  proof (cases "touches r i")
    case True
    show ?thesis by (rule run [OF handle_gone [OF assms(2) True]])
  next
    case False
    have "\<forall>j. \<not> touches r j \<longrightarrow>
        unchanged (tgt j (disk_targets (w_disk w))) (tgt j (disk_targets (w_disk (snd (handleV1 P r w)))))"
      by (rule isolation.handleV1_F) simp_all
    with False assms show ?thesis by (auto simp: unchanged_def)
  qed
qed

end
