(* ===== verification/TC_Restart.thy ===== *)
theory TC_Restart
  imports TC_Lifecycle
begin

text \<open>
  A controller restart (\<open>initializeContinuity\<close>): a new epoch, and every target that was held,
  draining or in the middle of an operation fenced for recovery.
\<close>

definition work_target :: "string \<Rightarrow> target \<Rightarrow> 'b world \<Rightarrow> bool" where
  "work_target i t w \<longleftrightarrow> tgt i (s_targets (w_work w)) = Some t"

interpretation frame: world_invariant "work_target i t" "\<lambda>j. j \<noteq> i" for i t
proof unfold_locales
  fix w :: "'a world" and j f
  assume J: "work_target i t w" and "j \<noteq> i" and step: "\<And>u. target_step u (f u)"
  then have "tgt i (update_first (\<lambda>u. t_controlTargetId u = j) f ts) = tgt i ts" for ts
    by (intro tgt_update_other) (auto intro: target_step_id step)
  with J show "work_target i t (w\<lparr>w_work := upd_target j f (w_work w)\<rparr>)"
    by (simp add: work_target_def upd_target_def)
qed (simp_all add: work_target_def)

lemma fence_others: "i \<notin> t_controlTargetId ` set ts \<Longrightarrow> keeps (work_target i t) (fence_all P e ts)"
  by (induction ts) (auto intro!: keeps_rules frame.mark_keeps split: option.split)

text \<open>What the restart makes of one target.\<close>

definition restarted :: "string \<Rightarrow> target \<Rightarrow> target \<Rightarrow> bool" where
  "restarted previousEpoch t u \<longleftrightarrow>
     (case restart_reason t of
        None \<Rightarrow> u = t
      | Some r \<Rightarrow> (\<exists>e a b c. u = markRecovery e t r (Some previousEpoch) None a b c))"

lemma mark_run:
  "ok (work_target i t) (markRecoveryE P i r (Some pe) None)
     (\<lambda>_ w. \<exists>e a b c. work_target i (markRecovery e t r (Some pe) None a b c) w)"
proof -
  have stored: "ok (work_target i t) (modTarget i (\<lambda>t. markRecovery e t r (Some pe) None a b c))
      (\<lambda>_ w. \<exists>e a b c. work_target i (markRecovery e t r (Some pe) None a b c) w)" for e a b c
  proof (rule okI, intro exI)
    fix w x w' assume "work_target i t w" and "modTarget i (\<lambda>t. markRecovery e t r (Some pe) None a b c) w = (Inr x, w')"
    then show "work_target i (markRecovery e t r (Some pe) None a b c) w'"
      by (auto simp: modTarget_def modifyE_def work_target_def upd_target_def tgt_update_same)
  qed
  have clock: "keeps (work_target i t) (if b then retE 0 else nowE P)" for b
    by (intro keeps_rules frame.env_keeps)
  show ?thesis
    unfolding markRecoveryE_def
    by (intro ok_bind_keeps [OF target_keep] ok_bind_keeps [OF clock] ok_bind_keeps [OF frame.env_keeps]
        ok_bind_keeps [OF moves_gets [OF keeps_preorder]] stored)
qed

lemma fence_all_run:
  assumes "distinct (map t_controlTargetId ts)" and "t \<in> set ts" and "t_controlTargetId t = i"
  shows "ok (work_target i t) (fence_all P pe ts) (\<lambda>_ w. \<exists>u. restarted pe t u \<and> work_target i u w)"
  using assms
proof (induction ts)
  case (Cons x xs)
  show ?case
  proof (cases "x = t")
    case True
    with Cons.prems have rest: "keeps (work_target i u) (fence_all P pe xs)" for u
      by (intro fence_others) auto
    have "ok (work_target i t) (case restart_reason t of None \<Rightarrow> retE ()
        | Some r \<Rightarrow> markRecoveryE P i r (Some pe) None) (\<lambda>_ w. \<exists>u. restarted pe t u \<and> work_target i u w)"
    proof (cases "restart_reason t")
      case None
      then show ?thesis by (auto simp: restarted_def intro: ok_ret)
    next
      case (Some r)
      then show ?thesis by (simp, intro ok_weaken [OF mark_run [of i t P r pe]]) (auto simp: restarted_def, blast)
    qed
    moreover have "ok (\<lambda>w. \<exists>u. restarted pe t u \<and> work_target i u w) (fence_all P pe xs)
        (\<lambda>_ w. \<exists>u. restarted pe t u \<and> work_target i u w)"
      by (rule okI) (blast dest: keepsD [OF rest])
    ultimately show ?thesis
      using True Cons.prems(3) by (auto intro: ok_then_ok)
  next
    case False
    with Cons.prems have "t_controlTargetId x \<noteq> i" "t \<in> set xs"
      by (auto dest: inj_onD [OF distinct_map [THEN iffD1, THEN conjunct2]])
    then have "keeps (work_target i t) (case restart_reason x of None \<Rightarrow> retE ()
        | Some r \<Rightarrow> markRecoveryE P (t_controlTargetId x) r (Some pe) None)"
      by (auto intro!: keeps_rules frame.mark_keeps split: option.split)
    with Cons \<open>t \<in> set xs\<close> show ?thesis by (auto intro: ok_then_keeps)
  qed
qed simp

lemma find_in: "tgt i ts = Some t \<Longrightarrow> t \<in> set ts \<and> t_controlTargetId t = i"
  by (auto dest: find_SomeD)

interpretation epoch: world_invariant "\<lambda>w. s_controlEpoch (w_work w) = e" "\<lambda>_. True" for e
  by unfold_locales simp_all

lemma fence_all_epoch: "keeps (\<lambda>w. s_controlEpoch (w_work w) = e) (fence_all P pe ts)"
  by (induction ts) (auto intro!: keeps_rules epoch.mark_keeps split: option.split)

lemma restart_body:
  assumes "valid_state s" and "tgt i (s_targets s) = Some t"
  shows "ok (\<lambda>w. w_work w = s)
     (bindE (getsE w_work) (\<lambda>s.
        bindE (randomUUID P) (\<lambda>u.
        thenE (modifyE (\<lambda>w. w\<lparr>w_work := (w_work w)\<lparr>s_controlEpoch := u\<rparr>\<rparr>))
        (thenE (fence_all P (s_controlEpoch s) (s_targets s))
        (thenE (saveTerminalControlState P)
        (bindE (getsE w_work) (\<lambda>s. retE (s_controlEpoch s))))))))
     (\<lambda>e w. sync i w \<and> s_controlEpoch (w_work w) = e \<and> (\<exists>u. restarted (s_controlEpoch s) t u \<and> work_target i u w))"
proof -
  let ?R = "\<lambda>w. \<exists>u. restarted (s_controlEpoch s) t u \<and> work_target i u w"
  have mem: "t \<in> set (s_targets s)" "t_controlTargetId t = i" "distinct (map t_controlTargetId (s_targets s))"
    using find_in [OF assms(2)] assms(1) by (auto simp: valid_state_iff)
  have fence: "ok (\<lambda>w. work_target i t w \<and> s_controlEpoch (w_work w) = e) (fence_all P (s_controlEpoch s) (s_targets s))
      (\<lambda>_ w. ?R w \<and> s_controlEpoch (w_work w) = e)" for e
    by (rule ok_conj [OF fence_all_run [OF mem(3,1,2)] keeps_ok [OF fence_all_epoch]])
  have save: "ok (\<lambda>w. ?R w \<and> s_controlEpoch (w_work w) = e) (saveTerminalControlState P)
      (\<lambda>_ w. sync i w \<and> ?R w \<and> s_controlEpoch (w_work w) = e)" for e
  proof (rule okI)
    fix w a w' assume w: "?R w \<and> s_controlEpoch (w_work w) = e" and run: "saveTerminalControlState P w = (Inr a, w')"
    show "sync i w' \<and> ?R w' \<and> s_controlEpoch (w_work w') = e"
      using okD [OF save_sync _ run] save_work [of P w] run w by (simp add: work_target_def)
  qed
  have read: "ok (\<lambda>w. w_work w = s) (getsE w_work) (\<lambda>x w. x = s \<and> work_target i t w)"
    by (rule okI) (use assms(2) in \<open>auto simp: getsE_def work_target_def\<close>)
  have epoch_write: "ok (work_target i t) (modifyE (\<lambda>w. w\<lparr>w_work := (w_work w)\<lparr>s_controlEpoch := u\<rparr>\<rparr>))
      (\<lambda>_ w. work_target i t w \<and> s_controlEpoch (w_work w) = u)" for u
    by (rule okI) (auto simp: modifyE_def work_target_def)
  have fin: "ok (\<lambda>w. sync i w \<and> ?R w \<and> s_controlEpoch (w_work w) = e) (bindE (getsE w_work) (\<lambda>s. retE (s_controlEpoch s)))
      (\<lambda>e w. sync i w \<and> s_controlEpoch (w_work w) = e \<and> ?R w)" for e
    by (rule okI) (auto simp: em_defs)
  show ?thesis
    apply (rule triple_bind [OF read])
    subgoal for x
    proof (cases "x = s")
      case True
      show ?thesis
        unfolding True
        by (rule triple_pre [where P' = "work_target i t"])
          (intro ok_bind_keeps [OF frame.env_keeps] ok_then_ok [OF epoch_write] ok_then_ok [OF fence]
            ok_then_ok [OF save] fin, simp)
    qed (simp add: triple_def)
    done
qed

text \<open>The locked section of a restart; the whole restart, with the withdrawal before it, is in \<open>TC_Withdraw\<close>.\<close>

lemma locked_restart_fences:
  assumes "initializeContinuity_locked P w = (Inr e, w')" and "w_disk w = StateFile s"
    and "tgt i (s_targets s) = Some t" and "t_lifecycle t \<noteq> GONE"
  shows "\<exists>s' u. w_disk w' = StateFile s' \<and> s_controlEpoch s' = e \<and> tgt i (s_targets s') = Some u
     \<and> (if t_lifecycle t = ACTIVE \<and> (\<not> is_Free (t_ownership t) \<or> t_inFlight t \<noteq> None)
        then t_lifecycle u = RECOVERY \<and> t_ownership u = Free (nextDecimal (ow_fence (t_ownership t)))
          \<and> t_inFlight u = None
          \<and> (\<forall>f. t_inFlight t = Some f \<longrightarrow>
               (\<exists>op \<in> set (t_completedOperations u). op_operationId op = if_operationId f \<and> op_disposition op = InDoubt))
        else t_lifecycle u = t_lifecycle t \<and> t_ownership u = t_ownership t \<and> t_inFlight u = t_inFlight t
          \<and> t_completedOperations u = t_completedOperations t)"
proof -
  have locked: "ok (\<lambda>w. w_disk w = StateFile s) (initializeContinuity_locked P)
     (\<lambda>e w. sync i w \<and> s_controlEpoch (w_work w) = e \<and> (\<exists>u. restarted (s_controlEpoch s) t u \<and> work_target i u w))"
    unfolding initializeContinuity_locked_def
  proof (rule locked_triple [where K = "\<lambda>w. w_work w = s \<and> valid_state s"], simp_all add: loaded_def)
    show "ok (\<lambda>w. w_work w = s \<and> valid_state s) (bindE (getsE w_work) (\<lambda>s.
        bindE (randomUUID P) (\<lambda>u.
        thenE (modifyE (\<lambda>w. w\<lparr>w_work := (w_work w)\<lparr>s_controlEpoch := u\<rparr>\<rparr>))
        (thenE (fence_all P (s_controlEpoch s) (s_targets s))
        (thenE (saveTerminalControlState P)
        (bindE (getsE w_work) (\<lambda>s. retE (s_controlEpoch s))))))))
      (\<lambda>e w. sync i w \<and> s_controlEpoch (w_work w) = e \<and> (\<exists>u. restarted (s_controlEpoch s) t u \<and> work_target i u w))"
      by (cases "valid_state s") (simp_all add: restart_body [OF _ assms(3)] triple_never)
  qed
  from okD [OF locked assms(2,1)]
  obtain u where u: "sync i w'" "s_controlEpoch (w_work w') = e" "restarted (s_controlEpoch s) t u" "work_target i u w'"
    by blast
  have live: "t_lifecycle u \<noteq> GONE" using u(3) assms(4) by (auto simp: restarted_def split: option.splits)
  with u obtain s' v where v: "w_disk w' = StateFile s'" "s_controlEpoch s' = e" "tgt i (s_targets s') = Some v" "core v = core u"
    by (auto simp: sync_def work_target_def)
  have "op_disposition (in_doubt_record f a) = InDoubt \<and> op_operationId (in_doubt_record f a) = if_operationId f" for f a
    by (simp add: in_doubt_record_def)
  then have "\<exists>op \<in> set (journal_append ops (in_doubt_record f a)). op_operationId op = if_operationId f \<and> op_disposition op = InDoubt" for ops f a
    by (intro bexI [of _ "in_doubt_record f a"] journal_keeps_in_doubt) auto
  with v u(3) core_fields [OF v(4)] assms(4) show ?thesis
    by (intro exI [of _ s'] exI [of _ v])
      (cases "t_lifecycle t"; cases "t_ownership t"; cases "t_inFlight t"; auto simp: restarted_def restart_reason_def)
qed

end
