(* ===== verification/TC_Replay.thy ===== *)
theory TC_Replay
  imports TC_Effects
begin

text \<open>
  What the state file still records is not sent again. An operation the journal of a target knows,
  committed or in doubt, is answered from the journal, and while an operation is recorded as in
  flight (a process died between the journal entry and its settlement) nothing is sent to the
  terminal at all. The journal is bounded, so an operation it no longer holds is not covered.
\<close>

definition recorded :: "string \<Rightarrow> operation list \<Rightarrow> bool" where
  "recorded oi ops \<longleftrightarrow> oi \<in> op_operationId ` set ops"

abbreviation in_journal :: "string \<Rightarrow> target \<Rightarrow> bool" where
  "in_journal oi t \<equiv> recorded oi (t_completedOperations t)"

text \<open>Fenced on account of an uncertain operation.\<close>

definition fenced_in_doubt :: "target \<Rightarrow> bool" where
  "fenced_in_doubt t \<longleftrightarrow>
     t_lifecycle t = RECOVERY \<and> (\<exists>r. t_recovery t = Some r \<and> rc_operationId r \<notin> {None, Some ''''})"

definition named_in_flight :: "target \<Rightarrow> bool" where
  "named_in_flight t \<longleftrightarrow> (\<forall>f. t_inFlight t = Some f \<longrightarrow> if_operationId f \<noteq> '''')"

text \<open>
  \<open>spent S\<close>: the journal has the property \<open>S\<close> (it records an operation, say), unless an
  uncertain operation stands in the way of any other.
\<close>

definition spent :: "(operation list \<Rightarrow> bool) \<Rightarrow> string \<Rightarrow> target \<Rightarrow> bool" where
  "spent S e t \<longleftrightarrow>
     named_in_flight t \<and> (S (t_completedOperations t) \<or> t_inFlight t \<noteq> None \<or> fenced_in_doubt t)"

definition listed :: "(operation list \<Rightarrow> bool) \<Rightarrow> string \<Rightarrow> target \<Rightarrow> bool" where
  "listed S e t \<longleftrightarrow> t_inFlight t = None \<and> S (t_completedOperations t)"

lemmas spent_defs = spent_def listed_def fenced_in_doubt_def named_in_flight_def

lemma spent_mark:
  assumes "spent S e t" and "t_lifecycle t = ACTIVE"
  shows "spent S e (markRecovery e' t r None None a b c)"
proof (cases "t_inFlight t")
  case None
  with assms show ?thesis by (auto simp: spent_defs)
next
  case (Some f)
  with assms(1) have "if_operationId f \<noteq> ''''" by (simp add: spent_defs)
  with Some show ?thesis
    by (auto simp: spent_defs markRecovery_def completeInFlightAsInDoubt_def appendOperation_def Let_def)
qed

lemma spent_recoverable: "spent S e t \<Longrightarrow> isAutoRecoverableNonFeishuState t \<Longrightarrow> listed S e t"
  by (auto simp: spent_defs isAutoRecoverableNonFeishuState_def split: if_splits option.splits)

lemma spent_operable: "spent S e t \<Longrightarrow> operable e t \<Longrightarrow> S (t_completedOperations t)"
  by (auto simp: spent_defs operable_def)

lemma listed_spent: "listed S e t \<Longrightarrow> spent S e t"
  by (auto simp: spent_defs)

lemma ok_bind_exact:
  assumes "\<And>t. ok (working i (\<lambda>e u. \<Phi> e u \<and> u = t)) (f t) Q"
  shows "ok (working i \<Phi>) (bindE (targetE i) f) Q"
  by (rule ok_bind_target) (rule triple_pre [OF assms], auto simp: working_def)

lemma save_working: "keeps (working i \<Phi>) (saveTerminalControlState P)"
  by (simp add: moves_def working_def save_work)

lemma expired_working: "keeps (working i \<Phi>) (leaseExpiredE P t)"
  unfolding leaseExpiredE_def by (intro keeps_rules env_working)

lemma mod_keeps_working:
  "(\<And>t. t_controlTargetId (f t) = t_controlTargetId t) \<Longrightarrow> (\<And>e t. \<Phi> e t \<Longrightarrow> \<Phi> e (f t)) \<Longrightarrow>
   keeps (working i \<Phi>) (modTarget i f)"
  unfolding modTarget_def by (rule keeps_modify) (auto simp: working_def tgt_upd)

lemma mark_spent:
  "ok (working i (\<lambda>e u. spent S e u \<and> t_lifecycle u = ACTIVE)) (markRecoveryE P i r None None) (\<lambda>_. working i (spent S))"
  unfolding markRecoveryE_def
  by (intro ok_bind_keeps [OF target_keep] ok_bind_keeps [OF env_working]
      ok_bind_keeps [of _ "if _ then _ else _"] ok_bind_keeps [of _ "getsE _"] ok_mod keeps_rules env_working)
    (auto intro: spent_mark)

lemma listed_steps:
  "keeps (working i (listed S)) (backendReset P i)" "keeps (working i (listed S)) (touchE P i)"
  unfolding backendReset_def setGeneration_def touchE_def
  by (intro keeps_rules call_working env_working target_keep mod_keeps_working; simp add: spent_defs)+

lemma reconcile_spent: "ok (working i (spent S)) (reconcileAbandonedOwnership P i) (\<lambda>_. working i (spent S))"
proof -
  let ?E = "\<lambda>t b. working i (\<lambda>e u. spent S e u \<and> u = t \<and> (b \<longrightarrow> t_lifecycle u = ACTIVE))"
  have expiry: "ok (working i (\<lambda>e u. spent S e u \<and> u = t))
      (if t_lifecycle t = ACTIVE then leaseExpiredE P t else retE False) (\<lambda>b. ?E t b)" for t
    by (intro ok_if ok_ret ok_weaken [OF keeps_ok [OF expired_working [of i "\<lambda>e u. spent S e u \<and> u = t"]]])
      (auto simp: working_def)
  have fence: "ok (?E t b)
      (if b then thenE (markRecoveryE P i r None None) (thenE (saveTerminalControlState P) (retE x)) else retE False)
      (\<lambda>_. working i (spent S))" for t b r x
  proof (intro ok_if)
    show "ok (?E t b) (thenE (markRecoveryE P i r None None) (thenE (saveTerminalControlState P) (retE x)))
        (\<lambda>_. working i (spent S))" if b
      by (rule ok_then_ok [OF triple_pre [OF mark_spent]], use that in \<open>force simp: working_def\<close>)
        (intro ok_then_keeps [OF save_working] ok_ret)
    show "ok (?E t b) (retE False) (\<lambda>_. working i (spent S))"
      by (rule ok_ret) (auto simp: working_def)
  qed
  have reopen: "ok (working i (listed S)) (modTarget i (\<lambda>t. t\<lparr>t_lifecycle := ACTIVE, t_recovery := None,
      t_ownership := Free (ow_fence (t_ownership t))\<rparr>)) (\<lambda>_. working i (listed S))"
    by (rule ok_mod) (simp_all add: spent_defs)
  have auto_listed: "working i (\<lambda>e u. spent S e u \<and> u = t) w \<Longrightarrow> isAutoRecoverableNonFeishuState t \<Longrightarrow>
      working i (listed S) w" for t and w :: "'a world"
    by (auto simp: working_def intro: spent_recoverable)
  have weak: "working i (\<lambda>e u. spent S e u \<and> u = t) w \<Longrightarrow> working i (spent S) w" for t and w :: "'a world"
    by (auto simp: working_def)
  have fin: "ok (working i (listed S)) (retE x) (\<lambda>_. working i (spent S))" for x :: bool
    by (rule ok_ret) (auto simp: working_def intro: listed_spent)
  show ?thesis
    unfolding reconcileAbandonedOwnership_def
    apply (rule ok_bind_exact)
    apply (rule triple_bind [OF expiry])
    apply (rule ok_bind_ok [OF fence])
    apply (rule ok_if, rule ok_ret, assumption)
    apply (rule ok_bind_exact)
    apply (rule ok_if, rule ok_ret, erule weak)
    apply (rule triple_pre [where P' = "working i (listed S)"])
     apply (intro ok_bind_keeps [OF moves_try [OF call_working]] ok_case_sum ok_if gone_never_returns fin
        ok_bind_keeps [OF moves_try [OF listed_steps(1)]] ok_then_ok [OF reopen]
        ok_then_keeps [OF owners_working(2)] ok_then_keeps [OF listed_steps(2)] ok_then_keeps [OF save_working])
    apply (blast intro: auto_listed)
    done
qed

lemma assert_spent: "ok (working i (spent S)) (assertTargetCurrent P i) (\<lambda>_. working i (spent S))"
proof -
  have probe: "ok (working i (spent S)) (catchE (callE f) h) (\<lambda>_. working i (spent S))"
    if "\<And>e. ok (working i (spent S)) (h e) (\<lambda>_. working i (spent S))" for f h
    by (rule triple_catch [OF call_working [unfolded keeps_triple]]) (rule that)
  show ?thesis
    unfolding assertTargetCurrent_def
    by (intro ok_then_ok [OF reconcile_spent] ok_bind_keeps [OF target_keep] ok_then_keeps [OF lift_keep] probe ok_if
        gone_never_returns recovery_never_returns)
qed

section \<open>Input and closure\<close>

definition quietly :: "(effect \<times> disk) list \<Rightarrow> ('b world \<Rightarrow> bool) \<Rightarrow> ('b, 'a) tc \<Rightarrow> ('a \<Rightarrow> bool) \<Rightarrow> bool" where
  "quietly tr J m Q \<longleftrightarrow>
     triple (\<lambda>w. J w \<and> w_trace w = tr) m (\<lambda>a w. Q a \<and> w_trace w = tr) (\<lambda>_ w. w_trace w = tr)"

lemma quiet_conj:
  assumes "ok J m Q" and "keeps (\<lambda>w. w_trace w = tr) m"
  shows "triple (\<lambda>w. J w \<and> w_trace w = tr) m (\<lambda>a w. Q a w \<and> w_trace w = tr) (\<lambda>_ w. w_trace w = tr)"
  using triple_conj [OF assms(1) assms(2) [unfolded keeps_triple]] by (rule triple_weaken) simp_all

lemma quietly_then:
  "ok J m (\<lambda>_. J') \<Longrightarrow> keeps (\<lambda>w. w_trace w = tr) m \<Longrightarrow> quietly tr J' k Q \<Longrightarrow> quietly tr J (thenE m k) Q"
  unfolding quietly_def by (rule triple_then [OF quiet_conj])

lemma quietly_bind:
  "ok J m J' \<Longrightarrow> keeps (\<lambda>w. w_trace w = tr) m \<Longrightarrow> (\<And>a. quietly tr (J' a) (f a) Q) \<Longrightarrow> quietly tr J (bindE m f) Q"
  unfolding quietly_def by (rule triple_bind [OF quiet_conj])

lemma quietly_throw: "quietly tr J (throwE e) Q"
  and quietly_ret: "Q a \<Longrightarrow> quietly tr J (retE a) Q"
  by (auto simp: quietly_def triple_def throwE_def retE_def)

lemma quietly_if: "(b \<Longrightarrow> quietly tr J m Q) \<Longrightarrow> (\<not> b \<Longrightarrow> quietly tr J k Q) \<Longrightarrow> quietly tr J (if b then m else k) Q"
  by simp

lemma quietly_impossible: "(\<And>w. \<not> J w) \<Longrightarrow> quietly tr J m Q"
  by (simp add: quietly_def triple_def)

text \<open>An answer that does not claim the operation was carried out now.\<close>

fun not_executed :: "result \<Rightarrow> bool" where
  "not_executed (Operated res) = or_deduplicated res"
| "not_executed r = True"

lemma existing_listed:
  assumes "in_journal oi t"
  shows "existingOperation t oi inst f h k \<noteq> Inr None"
proof -
  obtain op where "find (\<lambda>op. op_operationId op = oi) (t_completedOperations t) = Some op"
    using assms by (cases "find (\<lambda>op. op_operationId op = oi) (t_completedOperations t)")
      (auto simp: recorded_def find_None_iff)
  then show ?thesis by (simp add: existingOperation_def)
qed

lemma lookup_quietly:
  assumes "in_journal oi t" and "\<And>op. quietly tr J (f op) Q"
  shows "quietly tr J (bindE (liftE (existingOperation t oi inst fn h k)) (case_option m f)) Q"
proof (cases "existingOperation t oi inst fn h k")
  case (Inl e)
  then show ?thesis by (simp add: quietly_def triple_def em_defs)
next
  case (Inr c)
  with existing_listed [OF assms(1)] obtain op where "c = Some op" by (cases c) metis+
  with Inr assms(2) [of op] show ?thesis by (simp add: quietly_def triple_def em_defs)
qed

lemma deduplicated_quietly:
  "quietly tr J (bindE (getsE w_work) (\<lambda>s. retE (Operated (operationResult s op True)))) not_executed"
  by (rule quietly_bind [where J' = "\<lambda>_ _. True"], rule okI)
    (auto intro!: keeps_rules quietly_ret simp: operationResult_def)

lemma quietly_exact:
  assumes "\<And>e t. \<Phi> e t \<Longrightarrow> quietly tr (working i \<Phi>) (f t) Q"
  shows "quietly tr (working i \<Phi>) (bindE (targetE i) f) Q"
proof (rule quietly_bind [where J' = "\<lambda>t w. working i (\<lambda>e u. \<Phi> e u \<and> u = t) w", OF _ target_keep])
  show "ok (working i \<Phi>) (targetE i) (\<lambda>t. working i (\<lambda>e u. \<Phi> e u \<and> u = t))"
    by (rule okI) (auto simp: targetE_run working_def)
  fix t
  show "quietly tr (working i (\<lambda>e u. \<Phi> e u \<and> u = t)) (f t) Q"
  proof (cases "\<exists>e. \<Phi> e t")
    case True
    then have "quietly tr (working i \<Phi>) (f t) Q" using assms by blast
    then show ?thesis unfolding quietly_def by (rule triple_pre) (auto simp: working_def)
  next
    case False
    then show ?thesis by (intro quietly_impossible) (auto simp: working_def)
  qed
qed

lemma valid_spent:
  "i = l_controlTargetId l \<Longrightarrow>
   ok (working i (spent S)) (validLeaseE l d) (\<lambda>_. working i (\<lambda>_ t. S (t_completedOperations t)))"
  by (rule okI)
    (auto simp: validLeaseE_def em_defs targetE_def targetById_def working_def validateLease_current
      lease_current_def intro: spent_operable split: option.splits)

lemma executeInput_spent:
  "quietly tr (working (l_controlTargetId l) (spent (recorded oi)))
     (thenE (targetE (l_controlTargetId l))
     (thenE (if b then thenE (reconcileAbandonedOwnership P (l_controlTargetId l)) (retE ()) else assertTargetCurrent P (l_controlTargetId l))
     (thenE (validLeaseE l False)
     (if c then throwE e
      else thenE (registerInteractiveOwner (l_controlTargetId l) (l_owner l))
        (bindE (targetE (l_controlTargetId l)) (\<lambda>t.
         bindE (liftE (existingOperation t oi (instanceId (l_owner l)) (l_fence l) h k))
           (case_option (m t) (\<lambda>op. thenE (whenE b (assertTargetCurrent P (l_controlTargetId l)))
              (bindE (getsE w_work) (\<lambda>s. retE (Operated (operationResult s op True)))))))))))) not_executed"
  (is "quietly tr ?J _ _")
proof -
  have current: "ok ?J (if b then thenE (reconcileAbandonedOwnership P (l_controlTargetId l)) (retE ())
      else assertTargetCurrent P (l_controlTargetId l)) (\<lambda>_. ?J)"
    by (intro ok_if ok_then_ok [OF reconcile_spent] ok_ret assert_spent) simp
  have trueJ: "ok J m' (\<lambda>_ _. True)" for J and m' :: "('a, unit) tc"
    by (rule okI) simp
  show ?thesis
    apply (rule quietly_then [OF keeps_ok [OF target_keep] target_keep])
    apply (rule quietly_then [OF current])
     apply (intro keeps_rules input_trace_keeps)
    apply (rule quietly_then [OF valid_spent [OF refl] trace.validLease_keeps])
    apply (rule quietly_if, rule quietly_throw)
    apply (rule quietly_then [OF keeps_ok [OF owners_working(1)] trace.register_keeps])
    apply (rule quietly_exact)
    apply (rule lookup_quietly, assumption)
    apply (rule quietly_then [OF trueJ _ deduplicated_quietly])
    apply (intro keeps_rules input_trace_keeps)
    done
qed

lemma locked_spent:
  assumes "quietly tr (working i (spent (recorded oi))) op Q"
    and "w_disk w = StateFile s" and "tgt i (s_targets s) = Some t" and "in_journal oi t \<or> t_inFlight t \<noteq> None"
    and "locked P op w = (r, w')" and "w_trace w = tr"
  shows "w_trace w' = tr \<and> (\<forall>a. r = Inr a \<longrightarrow> Q a)"
proof -
  have "working i (spent (recorded oi)) (w\<lparr>w_work := s\<rparr>)" if "valid_state s" for w :: "'a world"
  proof -
    have "isTarget t" using that find_SomeD [OF assms(3)] by (auto simp: valid_state_iff list_all_iff)
    then have "named_in_flight t"
      by (auto simp: isTarget_def isInFlight_def isStoredString_def optional_def named_in_flight_def split: option.splits)
    with assms(3,4) show ?thesis by (auto simp: working_def spent_def)
  qed
  then have "triple (\<lambda>w. w_disk w = StateFile s \<and> w_trace w = tr) (locked P op) (\<lambda>a w. Q a \<and> w_trace w = tr) (\<lambda>_ w. w_trace w = tr)"
    by (intro locked_triple [OF _ _ _ assms(1) [unfolded quietly_def]]) (auto simp: loaded_def)
  note T = this
  show ?thesis
  proof (cases r)
    case (Inl e)
    with tripleD_err [OF T, of w e w'] assms(2,5,6) show ?thesis by simp
  next
    case (Inr a)
    with tripleD_ok [OF T, of w a w'] assms(2,5,6) show ?thesis by simp
  qed
qed

lemma kill_spent:
  "quietly tr (working (l_controlTargetId l) (spent (recorded oi)))
     (bindE (targetE (l_controlTargetId l)) (\<lambda>t.
      bindE (liftE (existingOperation t oi (instanceId (l_owner l)) (l_fence l) (h t) k))
        (case_option (thenE (assertTargetCurrent P (l_controlTargetId l)) (thenE (validLeaseE l False) (m t)))
          (\<lambda>op. bindE (getsE w_work) (\<lambda>s. retE (Operated (operationResult s op True))))))) not_executed"
proof (rule quietly_bind [where J' = "\<lambda>t w. working (l_controlTargetId l) (\<lambda>e u. spent (recorded oi) e u \<and> u = t) w", OF _ target_keep])
  let ?i = "l_controlTargetId l"
  show "ok (working ?i (spent (recorded oi))) (targetE ?i) (\<lambda>t. working ?i (\<lambda>e u. spent (recorded oi) e u \<and> u = t))"
    by (rule okI) (auto simp: targetE_run working_def)
  fix t
  let ?J = "working ?i (\<lambda>e u. spent (recorded oi) e u \<and> u = t)"
  let ?f = "\<lambda>op. bindE (getsE w_work) (\<lambda>s. retE (Operated (operationResult s op True)))"
  show "quietly tr ?J (bindE (liftE (existingOperation t oi (instanceId (l_owner l)) (l_fence l) (h t) k))
      (case_option (thenE (assertTargetCurrent P ?i) (thenE (validLeaseE l False) (m t))) ?f)) not_executed"
  proof (cases "in_journal oi t")
    case True
    then show ?thesis by (rule lookup_quietly) (rule deduplicated_quietly)
  next
    case False
    then have "ok ?J (assertTargetCurrent P ?i) (\<lambda>_. working ?i (spent (\<lambda>_. False)))"
      by (intro triple_pre [OF assert_spent]) (auto simp: working_def spent_def)
    then have stuck: "quietly tr ?J (thenE (assertTargetCurrent P ?i) (thenE (validLeaseE l False) (m t))) not_executed"
      by (rule quietly_then [OF _ trace.assertTargetCurrent_keeps [OF TrueI]])
        (rule quietly_then [OF valid_spent [OF refl] trace.validLease_keeps], rule quietly_impossible,
          simp add: working_def)
    have "find (\<lambda>op. op_operationId op = oi) (t_completedOperations t) = None"
      using False by (auto simp: recorded_def find_None_iff)
    then have "existingOperation t oi (instanceId (l_owner l)) (l_fence l) (h t) k = Inr None"
      by (simp add: existingOperation_def)
    with stuck show ?thesis by (simp add: bindE_def liftE_def)
  qed
qed

text \<open>
  C6. An operation that the state file still records is not sent again. If the file records the
  operation of a request in the journal of its target, committed or in doubt, or if it records an
  operation still in flight there (the process died before settling it), then the request reaches
  no terminal, and no answer to it claims that the operation was carried out now. Nothing is said of
  an operation whose record the bounded journal has dropped.
\<close>

theorem settled_operation_is_not_repeated:
  assumes "operation_of r = Some (l, oi, k)" and "w_disk w = StateFile s"
    and "tgt (l_controlTargetId l) (s_targets s) = Some t"
    and "oi \<in> op_operationId ` set (t_completedOperations t) \<or> t_inFlight t \<noteq> None"
    and "handleV1 P r w = (res, w')"
  shows "w_trace w' = w_trace w \<and> (\<forall>op. res = Inr (Operated op) \<longrightarrow> or_deduplicated op)"
proof -
  have spent: "in_journal oi t \<or> t_inFlight t \<noteq> None" using assms(4) by (simp add: recorded_def)
  have "w_trace w' = w_trace w \<and> (\<forall>a. res = Inr a \<longrightarrow> not_executed a)"
  proof (cases "k = LifecycleKillOp")
    case True
    with assms(1,5) have run: "executeLifecycleKill P l oi w = (res, w')" by (cases r) auto
    show ?thesis
      by (rule locked_spent [OF kill_spent assms(2,3) spent run [unfolded executeLifecycleKill_def Let_def] refl])
  next
    case False
    with assms(1,5) obtain pane payload where run: "executeInput P l oi pane k payload w = (res, w')"
      by (cases r) auto
    show ?thesis
      by (rule locked_spent [OF executeInput_spent assms(2,3) spent run [unfolded executeInput_def Let_def] refl])
  qed
  then show ?thesis by auto
qed

end
