(* ===== verification/JS_Text.thy ===== *)
theory JS_Text
  imports Main
begin

text \<open>
  JavaScript string operations on the development's strings, whose elements are code units
  below 256.
\<close>

text \<open>\<open>String.prototype.trim\<close> and the white space it removes.\<close>

definition js_space :: "char \<Rightarrow> bool" where
  "js_space c \<longleftrightarrow> (of_char c :: nat) \<in> {9, 10, 11, 12, 13, 32, 160}"

definition trim :: "string \<Rightarrow> string" where
  "trim s = rev (dropWhile js_space (rev (dropWhile js_space s)))"

text \<open>\<open>Buffer.byteLength(value, "utf8")\<close> for code units below 256.\<close>

definition utf8_length :: "string \<Rightarrow> nat" where
  "utf8_length s = sum_list (map (\<lambda>c. if (of_char c :: nat) < 128 then 1 else 2) s)"

end
