(* ===== verification/TC_Exact.thy ===== *)
theory TC_Exact
  imports TC_Input JS_Text "HOL-Library.AList"
begin

text \<open>
  Relay v2 exact targets of \<open>TerminalControlAuthority\<close>: reservations (claims) of an exact
  incarnation of a managed target, read-only observations, and the fences that make them lose
  against every other request.

  A claim or an observation is an opaque object of the process; here it is a number drawn from
  \<open>w_nextHandle\<close>. The maps from objects to records and the sets of live objects change together
  in the source, so \<open>w_claims\<close> stands for both, and a live observation is an open record of
  \<open>w_observations\<close>. The timer of a claim only calls \<open>rollbackRelayV2ExactTarget\<close>, which any
  schedule may also do. \<open>inputJson\<close> is the canonical JSON of the normalised input; it is compared
  for equality only, and records of this fixed shape are equal exactly when that text is, so the
  model compares the records.

  While an operation awaits, other requests of the same process run up to their own first await:
  \<open>awaitE\<close> performs what the environment reports of that (\<open>interference\<close>) at the points where the
  code reads the fences afterwards.
\<close>

section \<open>Input validation\<close>

definition relayV2ExactBoundedId :: "nat \<Rightarrow> string \<Rightarrow> tc_error + string" where
  "relayV2ExactBoundedId maxBytes v =
     (if v = [] \<or> trim v \<noteq> v
        \<or> list_ex (\<lambda>c. c = CHR 0x00 \<or> c = CHR 0x0D \<or> c = CHR 0x0A) v
        \<or> maxBytes < utf8_length v
      then Inl (protocol_error INVALID_REQUEST ''Relay v2 exact target identity is invalid'')
      else Inr v)"

definition terminalDisplaySizeHint :: "int \<times> int \<Rightarrow> tc_error + int \<times> int" where
  "terminalDisplaySizeHint hint =
     (case hint of (cols, rows) \<Rightarrow>
        if cols < 1 \<or> 1000 < cols \<or> rows < 1 \<or> 500 < rows
        then Inl (protocol_error INVALID_REQUEST ''terminal display size hint is invalid'')
        else Inr (cols, rows))"

text \<open>The regular expression \<open>^twinc2\.[A-Za-z0-9_-]{43}$\<close>.\<close>

definition base64url_char :: "char \<Rightarrow> bool" where
  "base64url_char c \<longleftrightarrow> is_digit c
     \<or> (65 \<le> (of_char c :: nat) \<and> (of_char c :: nat) \<le> 90)
     \<or> (97 \<le> (of_char c :: nat) \<and> (of_char c :: nat) \<le> 122) \<or> c = CHR ''_'' \<or> c = CHR ''-''"

definition is_incarnation :: "string \<Rightarrow> bool" where
  "is_incarnation s \<longleftrightarrow> take 7 s = ''twinc2.'' \<and> length s = 50 \<and> list_all base64url_char (drop 7 s)"

fun check_all :: "(tc_error + string) list \<Rightarrow> 'a \<Rightarrow> tc_error + 'a" where
  "check_all [] a = Inr a"
| "check_all (c # cs) a = (case c of Inl e \<Rightarrow> Inl e | Inr _ \<Rightarrow> check_all cs a)"

definition relayV2ExactInput :: "exact_input \<Rightarrow> tc_error + exact_input" where
  "relayV2ExactInput v =
     (if xi_pane v < 0 \<or> 65535 < xi_pane v \<or> \<not> is_incarnation (xi_incarnation v) \<or> okind (xi_owner v) \<noteq> RelayV2
      then Inl (protocol_error INVALID_REQUEST ''Relay v2 exact target input is malformed'')
      else check_all
        [relayV2ExactBoundedId 128 (xi_hostId v), relayV2ExactBoundedId 128 (xi_scopeId v),
         relayV2ExactBoundedId 128 (xi_sessionId v), relayV2ExactBoundedId 128 (pt_targetId (xi_processTarget v)),
         relayV2ExactBoundedId 128 (xi_backendInstanceKey v), relayV2ExactBoundedId 128 (xi_name v),
         relayV2ExactBoundedId 256 (instanceId (xi_owner v))] v)"

definition ownerRelayV2ExactConsumer :: "owner \<Rightarrow> tc_error + owner" where
  "ownerRelayV2ExactConsumer v =
     (if okind v \<noteq> RelayV2
      then Inl (protocol_error INVALID_REQUEST ''Relay v2 exact target consumer owner is invalid'')
      else check_all [relayV2ExactBoundedId 256 (instanceId v)] v)"

definition relayV2ExactIdentity :: "exact_identity \<Rightarrow> tc_error + exact_identity" where
  "relayV2ExactIdentity v =
     check_all [relayV2ExactBoundedId 128 (id_controlTargetId v), relayV2ExactBoundedId 128 (id_controlEpoch v),
       relayV2ExactBoundedId 128 (id_targetIncarnationProof v)] v"

definition relayV2ExactObservedIdentity ::
  "exact_input \<Rightarrow> exact_observation \<Rightarrow> bool \<Rightarrow> tc_error + string option" where
  "relayV2ExactObservedIdentity input observed requireTmuxIdentity =
     (if ms_name (eo_managedSession observed) \<noteq> xi_name input
        \<or> ms_kind (eo_managedSession observed) \<noteq> xi_kind input
        \<or> eo_managedIncarnation observed \<noteq> xi_incarnation input
      then Inl (protocol_error TARGET_GONE ''managed target changed during Relay v2 exact preparation'')
      else if \<not> isCanonicalTimestamp (ms_createdAt (eo_managedSession observed))
        \<or> \<not> isStoredString (eo_paneIdentity observed) 128
        \<or> \<not> optional (\<lambda>t. isStoredString t 128) (eo_tmuxInstanceId observed)
      then Inl (protocol_error RECOVERY_REQUIRED ''exact terminal backend identity is malformed'')
      else if requireTmuxIdentity \<and> eo_tmuxInstanceId observed = None
      then Inl (protocol_error RECOVERY_REQUIRED ''exact terminal backend identity is unavailable'')
      else Inr (eo_tmuxInstanceId observed))"

definition relayV2TargetIncarnationProof ::
  "'b platform \<Rightarrow> exact_input \<Rightarrow> tc_state \<Rightarrow> target \<Rightarrow> string \<Rightarrow> string" where
  "relayV2TargetIncarnationProof P input s t paneIdentity =
     ''twct2.'' @ p_proofDigest P
       \<lparr>pf_request = input, pf_controlEpoch = s_controlEpoch s, pf_controlTargetId = t_controlTargetId t,
        pf_targetRevision = t_revision t, pf_targetCreatedAt = ms_createdAt (t_managedSession t),
        pf_tmuxInstanceId = t_tmuxInstanceId t, pf_outputGeneration = t_outputGeneration t,
        pf_paneIdentity = paneIdentity\<rparr>"

section \<open>External operations\<close>

definition external_state_of :: "string \<Rightarrow> 'b world \<Rightarrow> external_state" where
  "external_state_of i w =
     (case map_of (w_targetExternalStates w) i of
        None \<Rightarrow> \<lparr>xs_epoch = 0, xs_operations = 0, xs_lastTouchedMs = 0\<rparr>
      | Some x \<Rightarrow> x)"

definition set_external :: "string \<Rightarrow> external_state \<Rightarrow> 'b world \<Rightarrow> 'b world" where
  "set_external i x w = w\<lparr>w_targetExternalStates := AList.update i x (w_targetExternalStates w)\<rparr>"

definition swept :: "timestamp \<Rightarrow> (string \<times> external_state) list \<Rightarrow> (string \<times> external_state) list" where
  "swept cutoff xs = filter (\<lambda>(i, x). \<not> (xs_operations x = 0 \<and> xs_lastTouchedMs x < cutoff)) xs"

definition sweepRelayV2TargetExternalStates :: "'b platform \<Rightarrow> ('b, unit) tc" where
  "sweepRelayV2TargetExternalStates P =
     bindE (nowE P) (\<lambda>n. modifyE (\<lambda>w. w\<lparr>w_targetExternalStates :=
       swept (n - p_relayV2ExactTargetTtlMs P) (w_targetExternalStates w)\<rparr>))"

definition begin_external :: "'b world \<Rightarrow> 'b world" where
  "begin_external w = w\<lparr>w_externalOperations := w_externalOperations w + 1, w_externalEpoch := w_externalEpoch w + 1\<rparr>"

definition end_external :: "'b world \<Rightarrow> 'b world" where
  "end_external w = w\<lparr>w_externalOperations := w_externalOperations w - 1, w_externalEpoch := w_externalEpoch w + 1\<rparr>"

definition begin_target_external :: "string \<Rightarrow> timestamp \<Rightarrow> 'b world \<Rightarrow> 'b world" where
  "begin_target_external i n w =
     (let x = external_state_of i w
      in set_external i (x\<lparr>xs_operations := xs_operations x + 1, xs_epoch := xs_epoch x + 1, xs_lastTouchedMs := n\<rparr>) w)"

definition end_target_external :: "string \<Rightarrow> 'b world \<Rightarrow> 'b world" where
  "end_target_external i w =
     (let x = external_state_of i w
      in set_external i (x\<lparr>xs_operations := xs_operations x - 1, xs_epoch := xs_epoch x + 1\<rparr>) w)"

text \<open>The first, synchronous part of the two withdrawals: the claims leave the registry.\<close>

definition live_claim :: "claim_record \<Rightarrow> bool" where
  "live_claim r \<longleftrightarrow> cl_state r \<noteq> Consumed \<and> cl_state r \<noteq> Revoked"

definition drop_claims :: "(claim_record \<Rightarrow> bool) \<Rightarrow> 'b world \<Rightarrow> 'b world" where
  "drop_claims p w = w\<lparr>w_claims := filter (\<lambda>(h, r). \<not> p r) (w_claims w)\<rparr>"

definition claims_for :: "string \<Rightarrow> claim_record \<Rightarrow> bool" where
  "claims_for i r \<longleftrightarrow> id_controlTargetId (cl_identity r) = i"

text \<open>
  Only what an interfering operation does before it queues for the store lock: it fences, and drops the claims. The
  rollback of their durable reservations takes the lock, and is a locked section of its own that
  runs before or after the one that awaits; it is not part of the interference.
\<close>

fun interfere :: "int \<Rightarrow> interference \<Rightarrow> 'b world \<Rightarrow> 'b world" where
  "interfere ttl ExternalBegins w = drop_claims (\<lambda>_. True) (begin_external w)"
| "interfere ttl ExternalEnds w = end_external w"
| "interfere ttl (TargetExternalBegins i swept_at touched_at) w =
     drop_claims (claims_for i)
       (begin_target_external i touched_at
         (w\<lparr>w_targetExternalStates := swept (swept_at - ttl) (w_targetExternalStates w)\<rparr>))"
| "interfere ttl (TargetExternalEnds i) w = end_target_external i w"

definition awaitE :: "'b platform \<Rightarrow> ('b, unit) tc" where
  "awaitE P = bindE (envE (p_interference P)) (\<lambda>is. modifyE (fold (interfere (p_relayV2ExactTargetTtlMs P)) is))"

section \<open>Claims\<close>

definition relayV2ExactClaimRecord :: "nat \<Rightarrow> ('b, claim_record) tc" where
  "relayV2ExactClaimRecord h =
     bindE (getsE (\<lambda>w. map_of (w_claims w) h)) (\<lambda>r.
       case r of
         None \<Rightarrow> throwE (protocol_error PERMISSION_DENIED ''Relay v2 exact target claim is not owned by this authority'')
       | Some r \<Rightarrow> retE r)"

definition claim_unfenced :: "claim_record \<Rightarrow> 'b world \<Rightarrow> bool" where
  "claim_unfenced r w \<longleftrightarrow>
     \<not> w_exactClosed w \<and> w_externalOperations w = 0 \<and> w_externalEpoch w = cl_externalEpoch r
     \<and> xs_operations (external_state_of (id_controlTargetId (cl_identity r)) w) = 0
     \<and> xs_epoch (external_state_of (id_controlTargetId (cl_identity r)) w) = cl_targetExternalEpoch r"

definition relayV2ExactClaimCurrent :: "'b platform \<Rightarrow> claim_record \<Rightarrow> ('b, bool) tc" where
  "relayV2ExactClaimCurrent P r =
     bindE (getsE (claim_unfenced r)) (\<lambda>u.
       if \<not> u then retE False
       else bindE (nowE P) (\<lambda>n. retE (n < l_expiresAt (cl_lease r))))"

definition reservation_held :: "target \<Rightarrow> lease \<Rightarrow> bool" where
  "reservation_held t l \<longleftrightarrow>
     is_Held (t_ownership t)
     \<and> ow_leaseId (t_ownership t) = l_leaseId l \<and> ow_fence (t_ownership t) = l_fence l
     \<and> sameOwner (ow_owner (t_ownership t)) (l_owner l)"

text \<open>\<open>FREE\<close> under the next fence: how a reservation is given back.\<close>

definition freeE :: "'b platform \<Rightarrow> string \<Rightarrow> ('b, unit) tc" where
  "freeE P i =
     thenE (resetInteractiveOwners i)
     (thenE (modTarget i (\<lambda>t. t\<lparr>t_ownership := Free (nextDecimal (ow_fence (t_ownership t)))\<rparr>))
       (touchE P i))"

definition relayV2RollbackRecord :: "'b platform \<Rightarrow> claim_record \<Rightarrow> ('b, bool) tc" where
  "relayV2RollbackRecord P r =
     (let l = cl_lease r; i = l_controlTargetId l in
      locked P
        (bindE (getsE w_work) (\<lambda>s.
         case find (\<lambda>t. t_controlTargetId t = i) (s_targets s) of
           None \<Rightarrow> retE False
         | Some t \<Rightarrow>
             (if s_controlEpoch s \<noteq> l_controlEpoch l \<or> \<not> reservation_held t l then retE False
              else thenE (freeE P i) (thenE (saveTerminalControlState P) (retE True))))))"

text \<open>\<open>Promise.allSettled\<close> of the rollbacks, which the store lock runs one after the other.\<close>

fun rollback_all :: "'b platform \<Rightarrow> claim_record list \<Rightarrow> ('b, unit) tc" where
  "rollback_all P [] = retE ()"
| "rollback_all P (r # rs) =
     bindE (tryE (relayV2RollbackRecord P r)) (\<lambda>first.
     bindE (tryE (rollback_all P rs)) (\<lambda>rest.
       case first of Inl e \<Rightarrow> throwE e | Inr _ \<Rightarrow> liftE rest))"

definition withdraw_claims :: "'b platform \<Rightarrow> (claim_record \<Rightarrow> bool) \<Rightarrow> ('b, unit) tc" where
  "withdraw_claims P p =
     bindE (getsE (\<lambda>w. filter live_claim (filter p (map snd (w_claims w))))) (\<lambda>records.
     thenE (modifyE (drop_claims p)) (rollback_all P records))"

abbreviation relayV2WithdrawAllExactClaims :: "'b platform \<Rightarrow> ('b, unit) tc" where
  "relayV2WithdrawAllExactClaims P \<equiv> withdraw_claims P (\<lambda>_. True)"

abbreviation relayV2WithdrawExactClaimsForTarget :: "'b platform \<Rightarrow> string \<Rightarrow> ('b, unit) tc" where
  "relayV2WithdrawExactClaimsForTarget P i \<equiv> withdraw_claims P (claims_for i)"

definition relayV2ExternalOperation :: "'b platform \<Rightarrow> ('b, 'a) tc \<Rightarrow> ('b, 'a) tc" where
  "relayV2ExternalOperation P operation =
     thenE (modifyE begin_external)
       (finallyE (thenE (relayV2WithdrawAllExactClaims P) operation) end_external)"

definition relayV2TargetExternalOperation :: "'b platform \<Rightarrow> string \<Rightarrow> ('b, 'a) tc \<Rightarrow> ('b, 'a) tc" where
  "relayV2TargetExternalOperation P i operation =
     thenE (sweepRelayV2TargetExternalStates P)
     (bindE (nowE P) (\<lambda>n.
      thenE (modifyE (begin_target_external i n))
        (finallyE (thenE (relayV2WithdrawExactClaimsForTarget P i) operation) (end_target_external i))))"

definition handle :: "'b platform \<Rightarrow> request \<Rightarrow> ('b, result) tc" where
  "handle P r =
     (case r of
        Ping \<Rightarrow> handleV1 P r
      | OwnershipStatus i \<Rightarrow> relayV2TargetExternalOperation P i (handleV1 P r)
      | _ \<Rightarrow> relayV2ExternalOperation P (handleV1 P r))"

definition initializeContinuity :: "'b platform \<Rightarrow> ('b, string) tc" where
  "initializeContinuity P = relayV2ExternalOperation P (initializeContinuity_locked P)"

definition set_claim_state :: "nat \<Rightarrow> claim_state \<Rightarrow> 'b world \<Rightarrow> 'b world" where
  "set_claim_state h st w =
     w\<lparr>w_claims := map (\<lambda>(k, v). (k, if k = h then v\<lparr>cl_state := st\<rparr> else v)) (w_claims w)\<rparr>"

definition remove_claim :: "nat \<Rightarrow> 'b world \<Rightarrow> 'b world" where
  "remove_claim h w = w\<lparr>w_claims := filter (\<lambda>(k, v). k \<noteq> h) (w_claims w)\<rparr>"

definition rollbackRelayV2ExactTarget :: "'b platform \<Rightarrow> nat \<Rightarrow> ('b, bool) tc" where
  "rollbackRelayV2ExactTarget P h =
     bindE (getsE (\<lambda>w. map_of (w_claims w) h)) (\<lambda>record.
       case record of
         None \<Rightarrow> retE False
       | Some r \<Rightarrow>
           (if \<not> live_claim r then retE False
            else thenE (modifyE (remove_claim h))
                   (relayV2RollbackRecord P r)))"

section \<open>Reservation\<close>

record preparation =
  pr_preparationId :: string
  pr_claim :: nat
  pr_identity :: exact_identity
  pr_expiresAt :: timestamp

abbreviation busy_error :: "string \<Rightarrow> tc_error" where
  "busy_error m \<equiv> ProtocolError RESOURCE_EXHAUSTED m True"

definition exact_backend_input_of :: "exact_input \<Rightarrow> exact_backend_input" where
  "exact_backend_input_of input =
     \<lparr>bi_managedName = xi_name input, bi_managedKind = xi_kind input,
      bi_managedIncarnation = xi_incarnation input, bi_pane = xi_pane input\<rparr>"

definition named_targets :: "exact_input \<Rightarrow> tc_state \<Rightarrow> target list" where
  "named_targets input s =
     filter (\<lambda>t. t_lifecycle t \<noteq> GONE \<and> ms_name (t_managedSession t) = xi_name input) (s_targets s)"

definition same_lifecycle :: "exact_observation \<Rightarrow> target \<Rightarrow> bool" where
  "same_lifecycle ob t \<longleftrightarrow>
     ms_kind (t_managedSession t) = ms_kind (eo_managedSession ob)
     \<and> ms_createdAt (t_managedSession t) = ms_createdAt (eo_managedSession ob)"

definition exact_match :: "exact_observation \<Rightarrow> target \<Rightarrow> bool" where
  "exact_match ob t \<longleftrightarrow> same_lifecycle ob t \<and> Some (t_tmuxInstanceId t) = eo_tmuxInstanceId ob"

text \<open>Whether no record of the current incarnation exists, so that one may be provisioned.\<close>

definition must_provision :: "'b platform \<Rightarrow> exact_input \<Rightarrow> target list \<Rightarrow> ('b, bool) tc" where
  "must_provision P input named =
     (if named = [] then retE True
      else case p_observeExactTarget P of
          None \<Rightarrow> retE False
        | Some observe \<Rightarrow>
            bindE (callE (observe (exact_backend_input_of input))) (\<lambda>observed.
            bindE (liftE (relayV2ExactObservedIdentity input observed False)) (\<lambda>tmux.
              retE (filter (exact_match observed) named = []
                \<and> \<not> (tmux = None \<and> filter (same_lifecycle observed) named \<noteq> [])))))"

definition inspected_target ::
  "'b platform \<Rightarrow> exact_input \<Rightarrow> target list \<Rightarrow> bool \<Rightarrow> ('b, exact_observation) tc" where
  "inspected_target P input named provision =
     (if \<not> provision then
        (case p_inspectExactTarget P of
           None \<Rightarrow> throwE (PlainError ''inspectExactTarget is undefined'')
         | Some inspect \<Rightarrow>
             bindE (callE (inspect (exact_backend_input_of input))) (\<lambda>inspected.
             thenE (liftE (relayV2ExactObservedIdentity input inspected True))
             (let matches = filter (exact_match inspected) named in
              if length matches \<noteq> 1
              then throwE (protocol_error (if matches = [] then TARGET_NOT_FOUND else RECOVERY_REQUIRED)
                     ''exact terminal-control target is missing or ambiguous'')
              else retE inspected)))
      else
        (case p_establishExactTarget P of
           None \<Rightarrow> throwE (protocol_error TARGET_NOT_FOUND ''exact terminal-control target is missing'')
         | Some establish \<Rightarrow>
             bindE (callE (establish (exact_backend_input_of input))) (\<lambda>inspected.
             thenE (liftE (relayV2ExactObservedIdentity input inspected True)) (retE inspected))))"

fun invalidate_all :: "'b platform \<Rightarrow> string list \<Rightarrow> ('b, unit) tc" where
  "invalidate_all P [] = retE ()"
| "invalidate_all P (i # is) = thenE (invalidateTargetE P i) (invalidate_all P is)"

text \<open>The record the reservation is made on: a new one, or the only exact match.\<close>

definition exact_record ::
  "'b platform \<Rightarrow> target list \<Rightarrow> exact_observation \<Rightarrow> bool \<Rightarrow> ('b, string) tc" where
  "exact_record P named inspected provision =
     (if provision then
        bindE (randomUUID P) (\<lambda>i.
        bindE (randomUUID P) (\<lambda>g.
        bindE (nowE P) (\<lambda>n.
        thenE (invalidate_all P (map t_controlTargetId named))
        (thenE (pushTarget (fresh_target i (eo_managedSession inspected)
                  (with_default '''' (eo_tmuxInstanceId inspected)) g n))
        (thenE (prepareOutput P i True) (retE i))))))
      else
        (case filter (exact_match inspected) named of
           [] \<Rightarrow> throwE (PlainError ''target is undefined'')
         | t # _ \<Rightarrow> retE (t_controlTargetId t)))"

definition in_doubt_relay_message :: "target \<Rightarrow> bool" where
  "in_doubt_relay_message t \<longleftrightarrow>
     t_lifecycle t = RECOVERY \<and> t_inFlight t = None
     \<and> (case t_recovery t of
          None \<Rightarrow> False
        | Some r \<Rightarrow>
            rc_reason r = OP_IN_DOUBT \<and> rc_previousOwnerKind r = Some RelayV2
            \<and> (case rc_operationId r of
                 None \<Rightarrow> False
               | Some oi \<Rightarrow> oi \<noteq> ''''
                   \<and> (case find (\<lambda>op. op_operationId op = oi) (t_completedOperations t) of
                        None \<Rightarrow> False
                      | Some op \<Rightarrow> op_disposition op = InDoubt \<and> op_kind op = AgentMessageOp)))"

definition reconcileRelayV2ExactInDoubtOperation :: "'b platform \<Rightarrow> string \<Rightarrow> ('b, bool) tc" where
  "reconcileRelayV2ExactInDoubtOperation P i =
     bindE (targetE i) (\<lambda>t.
       if \<not> in_doubt_relay_message t then retE False
       else
         thenE (catchE (assertCurrentE P t) (\<lambda>e.
           if is_gone_error e then goneE P i e
           else throwE (protocol_error RECOVERY_REQUIRED (lifecycle_message e))))
         (thenE (recoverOutput P i)
         (thenE (resetInteractiveOwners i)
         (thenE (modTarget i (\<lambda>t. t\<lparr>t_lifecycle := ACTIVE, t_recovery := None,
                   t_ownership := Free (ow_fence (t_ownership t))\<rparr>))
         (thenE (touchE P i)
         (thenE (saveTerminalControlState P) (retE True)))))))"

definition reserve_locked ::
  "'b platform \<Rightarrow> exact_input \<Rightarrow> int \<Rightarrow> ('b, exact_identity \<times> lease \<times> int) tc" where
  "reserve_locked P input externalEpoch =
     thenE (awaitE P)
     (bindE (getsE (\<lambda>w. w_exactClosed w \<or> w_externalOperations w \<noteq> 0 \<or> w_externalEpoch w \<noteq> externalEpoch)) (\<lambda>busy.
      if busy then throwE (busy_error ''terminal-control is busy'')
      else
        bindE (getsE (\<lambda>w. named_targets input (w_work w))) (\<lambda>named.
        bindE (must_provision P input named) (\<lambda>provision.
        bindE (inspected_target P input named provision) (\<lambda>inspected.
        bindE (exact_record P named inspected provision) (\<lambda>i.
        thenE (reconcileAbandonedOwnership P i)
        (thenE (reconcileRelayV2ExactInDoubtOperation P i)
        (thenE (awaitE P)
        (bindE (targetE i) (\<lambda>t.
         thenE (liftE (ensureOperable t))
         (bindE (getsE (external_state_of i)) (\<lambda>x.
          if xs_operations x \<noteq> 0 then throwE (busy_error ''terminal-control target is busy'')
          else if \<not> is_Free (t_ownership t)
          then throwE (busy_error ''exact terminal-control target already has an input owner'')
          else
            thenE (grantE P i (xi_owner input) (p_relayV2ExactTargetTtlMs P))
            (thenE (resetInteractiveOwners i)
            (thenE (registerInteractiveOwner i (xi_owner input))
            (thenE (touchE P i)
            (thenE (saveTerminalControlState P)
            (bindE (getsE w_work) (\<lambda>s.
             bindE (targetE i) (\<lambda>t.
             bindE (liftE (leaseForOwner s t (xi_owner input))) (\<lambda>l.
               retE (\<lparr>id_controlTargetId = i, id_controlEpoch = s_controlEpoch s,
                      id_targetIncarnationProof =
                        relayV2TargetIncarnationProof P input s t (eo_paneIdentity inspected)\<rparr>,
                     l, xs_epoch x)))))))))))))))))))))"

definition prepareRelayV2ExactTargetForProcess ::
  "'b platform \<Rightarrow> exact_input \<Rightarrow> process_target option \<Rightarrow> ('b, preparation) tc" where
  "prepareRelayV2ExactTargetForProcess P rawInput expectedProcessTarget =
     bindE (liftE (relayV2ExactInput rawInput)) (\<lambda>input.
     bindE (getsE w_exactClosed) (\<lambda>closed.
       if closed \<or> expectedProcessTarget = None \<or> p_inspectExactTarget P = None
       then throwE (protocol_error PERMISSION_DENIED ''Relay v2 exact terminal target authority is unavailable'')
       else if Some (xi_processTarget input) \<noteq> expectedProcessTarget
       then throwE (protocol_error PERMISSION_DENIED ''Relay v2 exact terminal target crossed process authority'')
       else
         bindE (getsE w_externalOperations) (\<lambda>operations.
         if operations \<noteq> 0 then throwE (busy_error ''terminal-control is busy'')
         else
           bindE (getsE w_externalEpoch) (\<lambda>externalEpoch.
           bindE (locked P (reserve_locked P input externalEpoch)) (\<lambda>(identity, l, targetExternalEpoch).
           thenE (awaitE P)
           (bindE (randomUUID P) (\<lambda>preparationId.
           bindE (getsE w_nextHandle) (\<lambda>h.
           (let record = \<lparr>cl_preparationId = preparationId, cl_input = input, cl_identity = identity, cl_lease = l,
                  cl_externalEpoch = externalEpoch, cl_targetExternalEpoch = targetExternalEpoch,
                  cl_state = Prepared\<rparr> in
            thenE (modifyE (\<lambda>w. w\<lparr>w_nextHandle := h + 1, w_claims := w_claims w @ [(h, record)]\<rparr>))
            (bindE (relayV2ExactClaimCurrent P record) (\<lambda>current.
             if \<not> current
             then thenE (rollbackRelayV2ExactTarget P h)
                    (throwE (protocol_error PERMISSION_DENIED ''Relay v2 exact terminal target preparation was fenced''))
             else retE \<lparr>pr_preparationId = preparationId, pr_claim = h, pr_identity = identity,
                         pr_expiresAt = l_expiresAt l\<rparr>)))))))))))"

text \<open>The view issued to one remote connection: the same operations, with the checked process target.\<close>

definition captureRelayV2ExactProcessTarget :: "process_target \<Rightarrow> tc_error + process_target" where
  "captureRelayV2ExactProcessTarget rawTarget =
     check_all [relayV2ExactBoundedId 128 (pt_targetId rawTarget)] rawTarget"

abbreviation prepareRelayV2ExactTarget :: "'b platform \<Rightarrow> exact_input \<Rightarrow> ('b, preparation) tc" where
  "prepareRelayV2ExactTarget P rawInput \<equiv>
     prepareRelayV2ExactTargetForProcess P rawInput (p_relayV2ProcessTarget P)"

definition fenceRelayV2ExactTarget :: "'b platform \<Rightarrow> nat \<Rightarrow> exact_input \<Rightarrow> ('b, unit) tc" where
  "fenceRelayV2ExactTarget P h rawInput =
     bindE (liftE (relayV2ExactInput rawInput)) (\<lambda>input.
     bindE (relayV2ExactClaimRecord h) (\<lambda>r.
     bindE (if cl_state r \<noteq> Prepared \<or> cl_input r \<noteq> input then retE False else relayV2ExactClaimCurrent P r) (\<lambda>current.
       if \<not> current
       then throwE (protocol_error PERMISSION_DENIED ''Relay v2 exact terminal target claim is stale or mismatched'')
       else modifyE (set_claim_state h Admitted))))"

definition consumeRelayV2ExactTarget ::
  "'b platform \<Rightarrow> nat \<Rightarrow> exact_input \<Rightarrow> owner \<Rightarrow> ('b, lease) tc" where
  "consumeRelayV2ExactTarget P h rawInput rawConsumerOwner =
     bindE (liftE (relayV2ExactInput rawInput)) (\<lambda>input.
     bindE (liftE (ownerRelayV2ExactConsumer rawConsumerOwner)) (\<lambda>consumerOwner.
     bindE (relayV2ExactClaimRecord h) (\<lambda>r.
     bindE (if cl_state r \<noteq> Admitted \<or> cl_input r \<noteq> input then retE False else relayV2ExactClaimCurrent P r) (\<lambda>current.
       if \<not> current
       then throwE (protocol_error PERMISSION_DENIED ''Relay v2 exact terminal target claim cannot be consumed'')
       else
         thenE (resetInteractiveOwners (l_controlTargetId (cl_lease r)))
         (thenE (registerInteractiveOwner (l_controlTargetId (cl_lease r)) consumerOwner)
         (thenE (modifyE (remove_claim h))
           (retE ((cl_lease r)\<lparr>l_owner := consumerOwner\<rparr>))))))))"

section \<open>Observations\<close>

record observation_binding =
  bd_observation :: nat
  bd_controlTargetId :: string
  bd_controlEpoch :: string
  bd_targetIncarnationProof :: string
  bd_outputGeneration :: string
  bd_outputCursor :: int

abbreviation consume_observation_error :: tc_error where
  "consume_observation_error \<equiv>
     protocol_error PERMISSION_DENIED ''Relay v2 exact terminal target claim cannot be consumed for observation''"

abbreviation changed_error :: tc_error where
  "changed_error \<equiv> protocol_error TARGET_GONE ''managed target changed before Relay v2 exact observation''"

text \<open>\<open>rejectFencedReservation\<close>: the reservation is still ours; free it before refusing.\<close>

definition rejectFencedReservation :: "'b platform \<Rightarrow> string \<Rightarrow> ('b, 'a) tc" where
  "rejectFencedReservation P i =
     thenE (freeE P i) (thenE (saveTerminalControlState P) (throwE consume_observation_error))"

text \<open>The backend moved on: the target is over, or its identity can no longer be proved.\<close>

definition backendLost :: "'b platform \<Rightarrow> string \<Rightarrow> string \<Rightarrow> tc_error \<Rightarrow> ('b, 'a) tc" where
  "backendLost P i message e =
     (if is_gone_error e then goneE P i e
      else recoveryE P i BACKEND_IDENTITY_UNCERTAIN (message @ error_message e))"

definition inspection_matches :: "exact_input \<Rightarrow> target \<Rightarrow> exact_observation \<Rightarrow> bool" where
  "inspection_matches input t inspected \<longleftrightarrow>
     ms_name (eo_managedSession inspected) = xi_name input
     \<and> ms_kind (eo_managedSession inspected) = xi_kind input
     \<and> ms_createdAt (eo_managedSession inspected) = ms_createdAt (t_managedSession t)
     \<and> eo_managedIncarnation inspected = xi_incarnation input
     \<and> eo_tmuxInstanceId inspected = Some (t_tmuxInstanceId t)"

text \<open>\<open>String(pane)\<close> of a pane number.\<close>

definition pane_string :: "int \<Rightarrow> string" where
  "pane_string n = int_string n"

definition openObservation :: "claim_record \<Rightarrow> target \<Rightarrow> 'b world \<Rightarrow> 'b world" where
  "openObservation r t w =
     (let h = w_nextHandle w; i = id_controlTargetId (cl_identity r) in
      w\<lparr>w_nextHandle := h + 1,
        w_observations := w_observations w @
          [(h, \<lparr>ob_controlTargetId = i, ob_controlEpoch = id_controlEpoch (cl_identity r),
                ob_targetIncarnationProof = id_targetIncarnationProof (cl_identity r),
                ob_outputGeneration = t_outputGeneration t, ob_pane = pane_string (xi_pane (cl_input r)),
                ob_open = True\<rparr>)],
        w_observersByTarget := (w_observersByTarget w)(i := w_observersByTarget w i @ [h])\<rparr>)"

definition observe_locked ::
  "'b platform \<Rightarrow> (exact_backend_input \<Rightarrow> ('b, exact_observation) call) \<Rightarrow> claim_record \<Rightarrow> (int \<times> int) option
   \<Rightarrow> ('b, observation_binding) tc" where
  "observe_locked P inspect r hint =
     (let i = id_controlTargetId (cl_identity r) in
      thenE (awaitE P)
      (bindE (targetE i) (\<lambda>t.
       bindE (getsE w_work) (\<lambda>s.
       if s_controlEpoch s \<noteq> id_controlEpoch (cl_identity r) \<or> \<not> reservation_held t (cl_lease r)
       then throwE (protocol_error PERMISSION_DENIED ''Relay v2 exact observation target record is fenced'')
       else
         bindE (relayV2ExactClaimCurrent P r) (\<lambda>current.
         if \<not> current then rejectFencedReservation P i
         else
           thenE (liftE (ensureOperable t))
           (bindE (catchE (callE (inspect (exact_backend_input_of (cl_input r))))
              (backendLost P i ''could not prove the exact terminal backend lifecycle: '')) (\<lambda>inspected.
            if \<not> inspection_matches (cl_input r) t inspected
              \<or> relayV2TargetIncarnationProof P (cl_input r) s t (eo_paneIdentity inspected)
                  \<noteq> id_targetIncarnationProof (cl_identity r)
            then thenE (invalidateTargetE P i) (thenE (saveTerminalControlState P) (throwE changed_error))
            else
              thenE (case hint of
                  None \<Rightarrow> retE ()
                | Some (cols, rows) \<Rightarrow>
                    catchE
                      (effectE (Resize (ms_name (t_managedSession t)) (pane_string (xi_pane (cl_input r))) cols rows)
                        (p_resize P (ms_name (t_managedSession t)) (pane_string (xi_pane (cl_input r))) cols rows))
                      (backendLost P i ''could not size the exact terminal before observation: ''))
              (bindE (getsE (observer_count i)) (\<lambda>observers.
               bindE (if observers = 0 then resetOutput P i else prepareOutput P i True) (\<lambda>out.
               thenE (awaitE P)
               (bindE (relayV2ExactClaimCurrent P r) (\<lambda>current.
                if \<not> current then rejectFencedReservation P i
                else
                  thenE (freeE P i)
                  (bindE (getsE w_nextHandle) (\<lambda>h.
                   bindE (targetE i) (\<lambda>t.
                   thenE (modifyE (openObservation r t))
                   (thenE (saveTerminalControlState P)
                     (retE \<lparr>bd_observation = h, bd_controlTargetId = i, bd_controlEpoch = id_controlEpoch (cl_identity r),
                            bd_targetIncarnationProof = id_targetIncarnationProof (cl_identity r),
                            bd_outputGeneration = t_outputGeneration t,
                            bd_outputCursor = with_default (pos_cursor out) (pos_retainedStartCursor out)\<rparr>)))))))))))))))))"

definition consumeRelayV2ExactObservation ::
  "'b platform \<Rightarrow> nat \<Rightarrow> exact_input \<Rightarrow> exact_identity \<Rightarrow> (int \<times> int) option \<Rightarrow> ('b, observation_binding) tc" where
  "consumeRelayV2ExactObservation P h rawInput rawIdentity rawHint =
     (case p_inspectExactTarget P of
        None \<Rightarrow> throwE (protocol_error PERMISSION_DENIED ''Relay v2 exact terminal target authority is unavailable'')
      | Some inspect \<Rightarrow>
          bindE (liftE (relayV2ExactInput rawInput)) (\<lambda>input.
          bindE (liftE (relayV2ExactIdentity rawIdentity)) (\<lambda>identity.
          bindE (case rawHint of
                   None \<Rightarrow> retE None
                 | Some hint \<Rightarrow> bindE (liftE (terminalDisplaySizeHint hint)) (\<lambda>v. retE (Some v))) (\<lambda>hint.
          bindE (relayV2ExactClaimRecord h) (\<lambda>r.
          bindE (if cl_state r \<noteq> Admitted \<or> cl_input r \<noteq> input \<or> identity \<noteq> cl_identity r then retE False
                 else relayV2ExactClaimCurrent P r) (\<lambda>current.
            if \<not> current then throwE consume_observation_error
            else thenE (modifyE (remove_claim h)) (locked P (observe_locked P inspect r hint))))))))"

definition relayV2ExactObservationRecord :: "nat \<Rightarrow> ('b, observation_record) tc" where
  "relayV2ExactObservationRecord h =
     bindE (getsE (\<lambda>w. map_of (w_observations w) h)) (\<lambda>r.
       case r of
         None \<Rightarrow> throwE (protocol_error PERMISSION_DENIED ''Relay v2 exact observation is not owned by this authority'')
       | Some r \<Rightarrow> retE r)"

definition observation_open :: "nat \<Rightarrow> 'b world \<Rightarrow> bool" where
  "observation_open h w = (case map_of (w_observations w) h of None \<Rightarrow> False | Some r \<Rightarrow> ob_open r)"

definition observation_tailable :: "nat \<Rightarrow> ('b, unit) tc" where
  "observation_tailable h =
     bindE (getsE (\<lambda>w. observation_open h w \<and> \<not> w_exactClosed w)) (\<lambda>tailable.
       if tailable then retE ()
       else throwE (protocol_error PERMISSION_DENIED ''Relay v2 exact observation is closed''))"

record observation_tail =
  ot_controlEpoch :: string
  ot_chunk :: output_chunk

definition still_open :: "nat \<Rightarrow> ('b, unit) tc" where
  "still_open h = bindE (getsE (observation_open h)) (\<lambda>b. if b then retE () else throwE stale_cursor_error)"

definition tailRelayV2ExactObservation ::
  "'b platform \<Rightarrow> nat \<Rightarrow> int \<Rightarrow> int option \<Rightarrow> ('b, observation_tail) tc" where
  "tailRelayV2ExactObservation P h cursor maxBytesOption =
     (let maxBytes = with_default TERMINAL_CONTROL_MAX_OUTPUT_TAIL_BYTES maxBytesOption in
      if \<not> isSafeCount cursor \<or> maxBytes < 1 \<or> TERMINAL_CONTROL_MAX_OUTPUT_TAIL_BYTES < maxBytes
      then throwE (protocol_error INVALID_REQUEST ''Relay v2 exact observation tail bounds are invalid'')
      else
        bindE (relayV2ExactObservationRecord h) (\<lambda>r.
        thenE (observation_tailable h)
        (locked P
          (let i = ob_controlTargetId r in
           thenE (observation_tailable h)
           (bindE (targetE i) (\<lambda>t.
            thenE (relayV2ExactPruneStaleObservers i)
            (if t_lifecycle t = GONE
             then throwE (protocol_error TARGET_GONE ''control target backend lifecycle has ended'')
             else
               thenE (still_open h)
               (thenE (catchE (assertTargetCurrent P i)
                  (\<lambda>e. thenE (relayV2ExactPruneStaleObservers i) (throwE e)))
               (thenE (relayV2ExactPruneStaleObservers i)
               (thenE (still_open h)
               (bindE (catchE
                  (callE (p_tailOutput P i (ms_name (t_managedSession t)) (ob_pane r) (ob_outputGeneration r) cursor maxBytes))
                  (tailFailed P i)) (\<lambda>chunk.
                bindE (getsE w_work) (\<lambda>s.
                  retE \<lparr>ot_controlEpoch = s_controlEpoch s, ot_chunk = chunk\<rparr>)))))))))))))"

definition closeRelayV2ExactObservation :: "'b platform \<Rightarrow> nat \<Rightarrow> ('b, unit) tc" where
  "closeRelayV2ExactObservation P h =
     bindE (getsE (\<lambda>w. map_of (w_observations w) h)) (\<lambda>record.
       case record of
         None \<Rightarrow> retE ()
       | Some r \<Rightarrow>
           (if \<not> ob_open r then retE ()
            else
              bindE (getsE w_exactClosed) (\<lambda>closed.
              thenE (whenE (\<not> closed)
                (locked P
                  (let i = ob_controlTargetId r in
                   bindE (getsE w_work) (\<lambda>s.
                   case find (\<lambda>t. t_controlTargetId t = i) (s_targets s) of
                     None \<Rightarrow> retE ()
                   | Some t \<Rightarrow>
                       thenE (relayV2ExactPruneStaleObservers i)
                       (bindE (getsE (\<lambda>w. observation_open h w \<and> observer_count i w = 1)) (\<lambda>last.
                        if \<not> last \<or> t_lifecycle t \<noteq> ACTIVE \<or> \<not> is_Free (t_ownership t) \<or> t_inFlight t \<noteq> None
                        then retE ()
                        else thenE (resetOutput P i) (thenE (touchE P i) (saveTerminalControlState P))))))))
              (modifyE (retire_observation h)))))"

fun close_observations :: "'b platform \<Rightarrow> nat list \<Rightarrow> ('b, unit) tc" where
  "close_observations P [] = retE ()"
| "close_observations P (h # hs) = thenE (closeRelayV2ExactObservation P h) (close_observations P hs)"

definition live_observations :: "'b world \<Rightarrow> nat list" where
  "live_observations w = map fst (filter (\<lambda>(h, r). ob_open r) (w_observations w))"

definition closeRelayV2ExactTargetAuthority :: "'b platform \<Rightarrow> ('b, unit) tc" where
  "closeRelayV2ExactTargetAuthority P =
     bindE (getsE w_exactClosed) (\<lambda>closed.
       if closed then retE ()
       else
         thenE (relayV2WithdrawAllExactClaims P)
         (bindE (getsE live_observations) (\<lambda>hs.
          thenE (close_observations P hs)
            (modifyE (\<lambda>w. w\<lparr>w_exactClosed := True, w_externalEpoch := w_externalEpoch w + 1\<rparr>)))))"

record idle_snapshot =
  is_observations :: nat
  is_pendingClaims :: nat
  is_activeLeases :: nat

definition target_busy :: "timestamp \<Rightarrow> target \<Rightarrow> bool" where
  "target_busy now t \<longleftrightarrow>
     \<not> is_Free (t_ownership t) \<and> now < ow_leaseExpiresAt (t_ownership t) \<or> t_inFlight t \<noteq> None"

fun prune_all :: "string list \<Rightarrow> ('b, unit) tc" where
  "prune_all [] = retE ()"
| "prune_all (i # is) = thenE (relayV2ExactPruneStaleObservers i) (prune_all is)"

definition relayV2ExactIdleActivitySnapshot :: "'b platform \<Rightarrow> ('b, idle_snapshot) tc" where
  "relayV2ExactIdleActivitySnapshot P =
     bindE (getsE w_exactClosed) (\<lambda>closed.
       if closed then retE \<lparr>is_observations = 0, is_pendingClaims = 0, is_activeLeases = 0\<rparr>
       else
         bindE (nowE P) (\<lambda>now.
         bindE (getsE (\<lambda>w. length (filter (\<lambda>(h, r). (cl_state r = Prepared \<or> cl_state r = Admitted)
             \<and> now < l_expiresAt (cl_lease r)) (w_claims w)))) (\<lambda>pending.
         bindE (catchE
           (locked P
             (bindE (getsE w_work) (\<lambda>s.
              thenE (prune_all (map t_controlTargetId (s_targets s)))
                (retE (length (filter (target_busy now) (s_targets s)))))))
           (\<lambda>_. retE 1)) (\<lambda>active.
         bindE (getsE (\<lambda>w. length (live_observations w))) (\<lambda>observations.
           retE \<lparr>is_observations = observations, is_pendingClaims = pending, is_activeLeases = active\<rparr>)))))"

end
