(* ===== verification/TC_ExactInv.thy ===== *)
theory TC_ExactInv
  imports TC_Exact TC_Fencing
begin

text \<open>
  The contract of \<open>TC_Invariants\<close> for every operation of the authority, the exact-target ones
  included. \<open>registry_step\<close> lists the writes they make to the process-local registries. An exact
  operation alternates between such writes and locked sections, so \<open>exact_invariant\<close> asks of both
  its predicates that they survive a registry step, and of the durable one that a locked section
  may start from it again.
\<close>

section \<open>The writes to the registries\<close>

inductive registry_step :: "'b world \<Rightarrow> 'b world \<Rightarrow> bool" where
  rs_drop: "registry_step w (drop_claims p w)"
| rs_begin: "registry_step w (begin_external w)"
| rs_end: "registry_step w (end_external w)"
| rs_begin_target: "registry_step w (begin_target_external i n w)"
| rs_end_target: "registry_step w (end_target_external i w)"
| rs_sweep: "registry_step w (w\<lparr>w_targetExternalStates := swept n (w_targetExternalStates w)\<rparr>)"
| rs_admit: "registry_step w (set_claim_state h Admitted w)"
| rs_remove: "registry_step w (remove_claim h w)"
| rs_register: "registry_step w (w\<lparr>w_nextHandle := w_nextHandle w + 1, w_claims := w_claims w @ [(w_nextHandle w, r)]\<rparr>)"
| rs_open: "registry_step w (openObservation r t w)"
| rs_retire: "registry_step w (retire_observation h w)"
| rs_close: "registry_step w (w\<lparr>w_exactClosed := True, w_externalEpoch := w_externalEpoch w + 1\<rparr>)"
| rs_owners: "registry_step w (w\<lparr>w_interactiveOwners := m\<rparr>)"

lemma registry_base:
  "registry_step w w' \<Longrightarrow> w_disk w' = w_disk w \<and> w_work w' = w_work w \<and> w_trace w' = w_trace w"
  by (induction rule: registry_step.induct)
    (simp_all add: drop_claims_def begin_external_def end_external_def begin_target_external_def
      end_target_external_def set_external_def set_claim_state_def remove_claim_def openObservation_def
      retire_observation_def Let_def split: option.split)

lemma fold_steps:
  assumes "\<And>x w. J w \<Longrightarrow> J (f x w)"
  shows "J w \<Longrightarrow> J (fold f xs w)"
  using assms by (induction xs arbitrary: w) simp_all

lemma interfere_step:
  assumes K: "\<And>w w'. K w \<Longrightarrow> registry_step w w' \<Longrightarrow> K w'" and "K w"
  shows "K (interfere ttl x w)"
proof (cases x)
  case ExternalBegins
  then show ?thesis using K [OF K [OF \<open>K w\<close> rs_begin] rs_drop] by simp
next
  case (TargetExternalBegins i s t)
  then show ?thesis using K [OF K [OF K [OF \<open>K w\<close> rs_sweep] rs_begin_target] rs_drop] by simp
qed (simp_all add: K [OF \<open>K w\<close>] registry_step.intros)

lemma keeps_gets_modify:
  assumes "\<And>w. J w \<Longrightarrow> J (f (g w) w)" and "\<And>h. keeps J (k h)"
  shows "keeps J (bindE (getsE g) (\<lambda>h. thenE (modifyE (f h)) (k h)))"
  using assms by (auto simp: moves_def em_defs)

section \<open>The calls\<close>

datatype authority_call =
    Handle request
  | Initialize
  | Prepare exact_input "process_target option"
  | Fence nat exact_input
  | Consume nat exact_input owner
  | Observe nat exact_input exact_identity "(int \<times> int) option"
  | Tail nat int "int option"
  | CloseObservation nat
  | Rollback nat
  | CloseAuthority
  | IdleSnapshot

fun call :: "'b platform \<Rightarrow> authority_call \<Rightarrow> 'b world \<Rightarrow> 'b world" where
  "call P (Handle r) w = snd (handle P r w)"
| "call P Initialize w = snd (initializeContinuity P w)"
| "call P (Prepare input expected) w = snd (prepareRelayV2ExactTargetForProcess P input expected w)"
| "call P (Fence h input) w = snd (fenceRelayV2ExactTarget P h input w)"
| "call P (Consume h input o') w = snd (consumeRelayV2ExactTarget P h input o' w)"
| "call P (Observe h input identity hint) w = snd (consumeRelayV2ExactObservation P h input identity hint w)"
| "call P (Tail h cursor m) w = snd (tailRelayV2ExactObservation P h cursor m w)"
| "call P (CloseObservation h) w = snd (closeRelayV2ExactObservation P h w)"
| "call P (Rollback h) w = snd (rollbackRelayV2ExactTarget P h w)"
| "call P CloseAuthority w = snd (closeRelayV2ExactTargetAuthority P w)"
| "call P IdleSnapshot w = snd (relayV2ExactIdleActivitySnapshot P w)"

section \<open>The contract\<close>

locale exact_invariant = authority_invariant J "\<lambda>_. True" P F F
  for J :: "'b world \<Rightarrow> bool" and P :: "'b platform" and F :: "'b world \<Rightarrow> bool" +
  assumes J_registry: "J w \<Longrightarrow> registry_step w w' \<Longrightarrow> J w'"
    and F_registry: "F w \<Longrightarrow> registry_step w w' \<Longrightarrow> F w'"
begin

lemma locked_keeps_F: "keeps J op \<Longrightarrow> keeps F (locked P op)"
  by (simp add: moves_def locked_F)

lemma modify_registry:
  "(\<And>w. registry_step w (f w)) \<Longrightarrow> keeps J (modifyE f)" "(\<And>w. registry_step w (f w)) \<Longrightarrow> keeps F (modifyE f)"
  by (auto intro!: keeps_modify intro: J_registry F_registry)

lemma interferes_J: "J w \<Longrightarrow> J (fold (interfere ttl) xs w)" and interferes_F: "F w \<Longrightarrow> F (fold (interfere ttl) xs w)"
  by (erule fold_steps [rotated], erule interfere_step [rotated], erule (1) J_registry F_registry)+

lemma env_F: "keeps F (envE f)" and call_F: "keeps F (callE g)"
  by (auto simp: moves_def envE_def callE_def Let_def Pre_env split: prod.splits)

lemma await_J: "keeps J (awaitE P)" and await_F: "keeps F (awaitE P)"
  unfolding awaitE_def
  by (intro keeps_rules env_keeps env_F keeps_modify interferes_J interferes_F; assumption)+

lemma claim_record_keep: "keeps K (relayV2ExactClaimRecord h)"
  unfolding relayV2ExactClaimRecord_def by (intro keeps_rules)

lemma current_J: "keeps J (relayV2ExactClaimCurrent P r)" and current_F: "keeps F (relayV2ExactClaimCurrent P r)"
  unfolding relayV2ExactClaimCurrent_def by (intro keeps_rules env_keeps env_F)+

lemma free_J: "keeps J (freeE P i)"
  unfolding freeE_def by (intro keeps_rules handler_keeps mod_keeps ts_release TrueI)

lemma rollback_record_F: "keeps F (relayV2RollbackRecord P r)"
  unfolding relayV2RollbackRecord_def Let_def
  by (intro locked_keeps_F keeps_rules free_J handler_keeps)

lemma rollback_all_F: "keeps F (rollback_all P rs)"
  by (induction rs) (auto intro!: keeps_rules rollback_record_F)

lemma withdraw_claims_F: "keeps F (withdraw_claims P p)"
  unfolding withdraw_claims_def by (intro keeps_rules modify_registry rollback_all_F registry_step.intros)

lemma finally_F: "keeps F m \<Longrightarrow> (\<And>w. registry_step w (f w)) \<Longrightarrow> keeps F (finallyE m f)"
  unfolding finallyE_def by (intro keeps_rules modify_registry)

lemma external_F: "keeps F m \<Longrightarrow> keeps F (relayV2ExternalOperation P m)"
  unfolding relayV2ExternalOperation_def
  by (intro keeps_rules modify_registry finally_F withdraw_claims_F registry_step.intros)

lemma target_external_F: "keeps F m \<Longrightarrow> keeps F (relayV2TargetExternalOperation P i m)"
  unfolding relayV2TargetExternalOperation_def sweepRelayV2TargetExternalStates_def
  by (intro keeps_rules modify_registry finally_F withdraw_claims_F env_F registry_step.intros)

lemma handleV1_keeps: "keeps F (handleV1 P r)"
  by (simp add: moves_def handleV1_F)

lemma handle_F: "keeps F (handle P r)"
  unfolding handle_def by (cases r) (simp_all add: external_F target_external_F handleV1_keeps del: handleV1.simps)

lemma rollback_F: "keeps F (rollbackRelayV2ExactTarget P h)"
  unfolding rollbackRelayV2ExactTarget_def
  by (intro keeps_rules modify_registry rollback_record_F registry_step.intros)

lemma invalidate_all_J: "keeps J (invalidate_all P is)"
  by (induction "is") (auto intro!: keeps_rules invalidate_keeps)

lemma provision_J: "p_randomUUID P b = (i, b') \<Longrightarrow> keeps J (pushTarget (fresh_target i m tm g n))"
  unfolding pushTarget_def by (rule keeps_modify) (rule J_push, simp_all)

lemma case_list_keep: "keeps K a \<Longrightarrow> (\<And>x xs. keeps K (f x xs)) \<Longrightarrow> keeps K (case v of [] \<Rightarrow> a | x # xs \<Rightarrow> f x xs)"
  by (cases v) simp_all

lemma exact_record_J: "keeps J (exact_record P named ob provision)"
proof -
  have fresh: "keeps J (bindE (randomUUID P) k)" if k: "\<And>b i b'. p_randomUUID P b = (i, b') \<Longrightarrow> keeps J (k i)"
    for k :: "string \<Rightarrow> ('b, string) tc"
  proof (rule movesI, rule impI)
    fix w r w' assume run: "bindE (randomUUID P) k w = (r, w')" and J: "J w"
    obtain i b where u: "p_randomUUID P (w_env w) = (i, b)" by (cases "p_randomUUID P (w_env w)")
    have "J (w\<lparr>w_env := b\<rparr>)" by (rule J_env [OF J])
    with k [OF u] run u show "J w'" by (auto simp: bindE_def envE_def moves_def dest: spec [of _ "w\<lparr>w_env := b\<rparr>"])
  qed
  show ?thesis
    unfolding exact_record_def
    by (intro moves_if fresh keeps_rules case_list_keep env_keeps handler_keeps invalidate_all_J provision_J TrueI)
qed

lemma in_doubt_J: "keeps J (reconcileRelayV2ExactInDoubtOperation P i)"
  unfolding reconcileRelayV2ExactInDoubtOperation_def
  by (intro keeps_rules handler_keeps mod_keeps ts_reopen TrueI)

lemma must_provision_J: "keeps J (must_provision P input named)"
  unfolding must_provision_def by (intro keeps_rules handler_keeps)

lemma inspected_J: "keeps J (inspected_target P input named provision)"
  unfolding inspected_target_def Let_def by (intro keeps_rules handler_keeps)

lemma reserve_J: "keeps J (reserve_locked P input e)"
  unfolding reserve_locked_def
  by (intro keeps_rules await_J must_provision_J inspected_J exact_record_J in_doubt_J handler_keeps TrueI)

lemma prepare_F: "keeps F (prepareRelayV2ExactTargetForProcess P input expected)"
  unfolding prepareRelayV2ExactTargetForProcess_def Let_def
  by (intro keeps_gets_modify keeps_rules locked_keeps_F reserve_J await_F env_F current_F rollback_F
      F_registry [OF _ rs_register])

lemma fence_F: "keeps F (fenceRelayV2ExactTarget P h input)"
  unfolding fenceRelayV2ExactTarget_def
  by (intro keeps_rules claim_record_keep current_F modify_registry registry_step.intros)

lemma owners_F: "keeps F (registerInteractiveOwner i o')" "keeps F (resetInteractiveOwners i)"
  unfolding registerInteractiveOwner_def resetInteractiveOwners_def
  by (intro keeps_rules modify_registry registry_step.intros)+

lemma consume_F: "keeps F (consumeRelayV2ExactTarget P h input o')"
  unfolding consumeRelayV2ExactTarget_def
  by (intro keeps_rules claim_record_keep current_F owners_F modify_registry registry_step.intros)

lemma lost_J: "keeps J (backendLost P i m e)"
  unfolding backendLost_def by (intro keeps_rules handler_keeps TrueI)

lemma reject_J: "keeps J (rejectFencedReservation P i)"
  unfolding rejectFencedReservation_def by (intro keeps_rules free_J handler_keeps)

lemma observe_J: "keeps J (observe_locked P inspect r hint)"
  unfolding observe_locked_def Let_def
  by (intro keeps_rules await_J current_J reject_J lost_J free_J effect_keeps handler_keeps modify_registry
      registry_step.intros TrueI)

lemma observation_F: "keeps F (consumeRelayV2ExactObservation P h input identity hint)"
  unfolding consumeRelayV2ExactObservation_def
  by (intro keeps_rules claim_record_keep current_F modify_registry registry_step.intros locked_keeps_F observe_J)

lemma tail_F': "keeps F (tailRelayV2ExactObservation P h c m)"
  unfolding tailRelayV2ExactObservation_def relayV2ExactObservationRecord_def observation_tailable_def still_open_def Let_def
  by (intro keeps_rules locked_keeps_F handler_keeps tailFailed_keeps TrueI)

lemma close_F: "keeps F (closeRelayV2ExactObservation P h)"
  unfolding closeRelayV2ExactObservation_def Let_def
  by (intro keeps_rules locked_keeps_F handler_keeps modify_registry registry_step.intros TrueI)

lemma closes_F: "keeps F (close_observations P hs)"
  by (induction hs) (auto intro!: keeps_rules close_F)

lemma close_authority_F: "keeps F (closeRelayV2ExactTargetAuthority P)"
  unfolding closeRelayV2ExactTargetAuthority_def
  by (intro keeps_rules withdraw_claims_F closes_F modify_registry registry_step.intros)

lemma prune_all_J: "keeps J (prune_all is)"
  by (induction "is") (auto intro!: keeps_rules prune_keeps)

lemma snapshot_F: "keeps F (relayV2ExactIdleActivitySnapshot P)"
  unfolding relayV2ExactIdleActivitySnapshot_def
  by (intro keeps_rules env_F locked_keeps_F prune_all_J)

lemma request_F: "c \<noteq> Initialize \<Longrightarrow> F w \<Longrightarrow> F (call P c w)"
  using handle_F prepare_F fence_F consume_F observation_F tail_F' close_F rollback_F
    close_authority_F snapshot_F
  by (cases c) (simp_all add: moves_def)

end

locale full_invariant = exact_invariant J P F + restart_invariant J "\<lambda>_. True" P F F
  for J :: "'b world \<Rightarrow> bool" and P :: "'b platform" and F :: "'b world \<Rightarrow> bool"
begin

lemma initialize_F: "keeps F (initializeContinuity P)"
  unfolding initializeContinuity_def by (rule external_F) (simp add: moves_def initializeContinuity_F)

lemma every_call_F: "F w \<Longrightarrow> F (call P c w)"
  using initialize_F request_F by (cases "c = Initialize") (simp_all add: moves_def)

end

abbreviation call_run :: "'b platform \<Rightarrow> authority_call list \<Rightarrow> 'b world \<Rightarrow> 'b world" where
  "call_run P cs w \<equiv> fold (call P) cs w"

end
