(* ===== verification/TC_Runs.thy ===== *)
theory TC_Runs
  imports TC_ExactInv
begin

text \<open>
  Whole runs of the authority: any sequence of requests, restarts and exact-target operations, on
  any platform. The authority is a \<open>machine\<close> whose invariant is that the state file is one the
  validator accepts; the interpretations of \<open>full_invariant\<close> here are the predicates of the file
  that every call keeps.
\<close>

section \<open>A passed fence never comes back\<close>

text \<open>The floor survives as long as no new target is given the same identity.\<close>

lemma floor_invariant:
  assumes fresh: "\<And>b. fst (p_randomUUID P b) \<noteq> i"
  shows "full_invariant (floor_in i n) P (\<lambda>w. fence_floor i n (disk_targets (w_disk w)))"
proof unfold_locales
  fix w :: "'a world" and j m tm g t b b'
  assume J: "floor_in i n w" and "p_randomUUID P b = (j, b')"
  then have "j \<noteq> i" using fresh [of b] by auto
  with J show "floor_in i n (w\<lparr>w_work := (w_work w)\<lparr>s_targets := s_targets (w_work w) @ [fresh_target j m tm g t]\<rparr>\<rparr>)"
    by (auto simp: floor_in_def fence_floor_def find_append fresh_target_def split: option.splits)
qed (auto simp: floor_in_def loaded_targets dest!: registry_base intro: floor_step floor_save)

lemma floor_run:
  assumes "\<And>b. fst (p_randomUUID P b) \<noteq> i" and "fence_floor i n (disk_targets (w_disk w))"
  shows "fence_floor i n (disk_targets (w_disk (call_run P cs w)))"
proof -
  have step: "fence_floor i n (disk_targets (w_disk (call P c w)))"
    if "fence_floor i n (disk_targets (w_disk w))" for c and w :: "'a world"
    by (rule full_invariant.every_call_F [OF floor_invariant [of P i n, OF assms(1)]]) (rule that)
  show ?thesis
    using assms(2) by (induction cs arbitrary: w) (simp_all add: step)
qed

text \<open>
  C2. Once the durable fence of a target has passed the fence of a lease, no sequence of
  requests, restarts and exact-target operations makes that lease valid again, in any state it
  leaves on disk (as long as the UUID generator does not reissue the identity of the target).
\<close>

theorem passed_lease_never_validates:
  assumes "\<And>b. fst (p_randomUUID P b) \<noteq> l_controlTargetId l"
    and "\<And>t. tgt (l_controlTargetId l) (disk_targets (w_disk w)) = Some t \<Longrightarrow> decimal_value (l_fence l) < fence_value t"
    and "w_disk (call_run P cs w) = StateFile s"
    and "tgt (l_controlTargetId l) (s_targets s) = Some t"
  shows "validateLease s t l allowDraining \<noteq> Inr ()"
proof
  assume valid: "validateLease s t l allowDraining = Inr ()"
  have "fence_floor (l_controlTargetId l) (Suc (decimal_value (l_fence l))) (disk_targets (w_disk w))"
    using assms(2) by (auto simp: fence_floor_def)
  from floor_run [OF assms(1) this, of cs] assms(3,4)
  have "decimal_value (l_fence l) < fence_value t" by (auto simp: fence_floor_def)
  with valid show False by (simp add: validateLease_iff fence_value_def)
qed

section \<open>The file stays valid\<close>

fun valid_disk :: "disk \<Rightarrow> bool" where
  "valid_disk (StateFile s) = valid_state s"
| "valid_disk NoFile = True"
| "valid_disk (BadFile m) = False"

interpretation valid_file: full_invariant "\<lambda>w. valid_disk (w_disk w)" P "\<lambda>w. valid_disk (w_disk w)" for P
proof unfold_locales
  fix w :: "'a world" and lc c
  assume "prepared_save lc (w_work w) = Inr c"
  then show "valid_disk (w_disk (w\<lparr>w_disk := StateFile c\<rparr>))"
    using prepared_save_InrD compact_state_valid by fastforce
qed (auto dest!: registry_base)

definition same_epoch :: "disk \<Rightarrow> disk \<Rightarrow> bool" where
  "same_epoch d d' \<longleftrightarrow>
     (\<forall>s. d = StateFile s \<longrightarrow> (\<exists>s'. d' = StateFile s' \<and> s_controlEpoch s' = s_controlEpoch s))"

definition epoch_on :: "string \<Rightarrow> disk \<Rightarrow> bool" where
  "epoch_on e d \<longleftrightarrow> (\<exists>s. d = StateFile s \<and> s_controlEpoch s = e)"

interpretation epoch_file: exact_invariant
  "\<lambda>w. epoch_on e (w_disk w) \<and> s_controlEpoch (w_work w) = e" P "\<lambda>w. epoch_on e (w_disk w)" for e P
proof unfold_locales
  fix w :: "'a world" and lc c
  assume "epoch_on e (w_disk w) \<and> s_controlEpoch (w_work w) = e" and "prepared_save lc (w_work w) = Inr c"
  then show "epoch_on e (w_disk (w\<lparr>w_disk := StateFile c\<rparr>)) \<and> s_controlEpoch (w_work (w\<lparr>w_disk := StateFile c\<rparr>)) = e"
    using prepared_save_InrD [of lc "w_work w" c] by (auto simp: epoch_on_def compact_state_def)
qed (auto simp: epoch_on_def loaded_def upd_target_def dest!: registry_base)

fun epoch_call :: "'b platform \<Rightarrow> authority_call \<Rightarrow> 'b world \<Rightarrow> 'b world" where
  "epoch_call P Initialize w = w"
| "epoch_call P c w = call P c w"

interpretation authority: machine "epoch_call P" "\<lambda>w. valid_disk (w_disk w)"
  "\<lambda>w w'. same_epoch (w_disk w) (w_disk w')" for P
proof unfold_locales
  fix c and w :: "'a world"
  have run: "epoch_call P c w = (if c = Initialize then w else call P c w)" by (cases c) simp_all
  show "valid_disk (w_disk (epoch_call P c w))" if "valid_disk (w_disk w)"
    using valid_file.every_call_F [OF that] that by (simp add: run)
  show "same_epoch (w_disk w) (w_disk (epoch_call P c w))"
    unfolding same_epoch_def
  proof (intro allI impI)
    fix s assume "w_disk w = StateFile s"
    then have "epoch_on (s_controlEpoch s) (w_disk w)" by (simp add: epoch_on_def)
    then have "epoch_on (s_controlEpoch s) (w_disk (epoch_call P c w))"
      by (auto simp: run intro: epoch_file.request_F)
    then show "\<exists>s'. w_disk (epoch_call P c w) = StateFile s' \<and> s_controlEpoch s' = s_controlEpoch s"
      by (simp add: epoch_on_def)
  qed
qed (auto simp: same_epoch_def)

lemma epoch_run: "Initialize \<notin> set cs \<Longrightarrow> fold (epoch_call P) cs w = call_run P cs w"
proof (induction cs arbitrary: w)
  case (Cons c cs)
  then have "epoch_call P c w = call P c w" by (cases c) auto
  with Cons show ?case by simp
qed simp

text \<open>
  C14. Starting from a state file the validator accepts, every sequence of requests and
  exact-target operations, whatever the backend and the file system do, leaves a state file the
  validator accepts, and under the same controller epoch: only a restart changes it.
\<close>

theorem runs_keep_file_valid:
  assumes "w_disk w = StateFile s" and "valid_state s" and "Initialize \<notin> set cs"
  shows "\<exists>s'. w_disk (call_run P cs w) = StateFile s' \<and> valid_state s' \<and> s_controlEpoch s' = s_controlEpoch s"
proof -
  have v: "valid_disk (w_disk w)" using assms by simp
  have "valid_disk (w_disk (fold (epoch_call P) cs w))" by (rule authority.run_inv) (rule v)
  moreover have "same_epoch (w_disk w) (w_disk (fold (epoch_call P) cs w))" by (rule authority.run_rel) (rule v)
  ultimately show ?thesis using assms(1,3) by (auto simp: same_epoch_def epoch_run)
qed

section \<open>Unreadable files\<close>

definition readable :: "disk \<Rightarrow> bool" where
  "readable d \<longleftrightarrow> (\<exists>s. loaded d s)"

interpretation unreadable: full_invariant
  "\<lambda>_. False" P "\<lambda>w. w_disk w = d0 \<and> \<not> readable d0" for d0 P
  by unfold_locales (auto simp: readable_def dest!: registry_base)

text \<open>
  C15. A state file that does not parse or that the validator rejects is preserved: no sequence of
  requests, restarts and exact-target operations overwrites it, so its contents remain available
  to the operator.
\<close>

theorem invalid_file_is_preserved:
  assumes "w_disk w = BadFile m \<or> w_disk w = StateFile s \<and> parseTerminalControlState s \<noteq> Inr s"
  shows "w_disk (call_run P cs w) = w_disk w"
proof -
  have "\<not> readable (w_disk w)" using assms by (auto simp: readable_def loaded_def)
  then have "w_disk (call_run P cs v) = w_disk w" if "w_disk v = w_disk w" for v
    using that
  proof (induction cs arbitrary: v)
    case (Cons c cs)
    have "w_disk (call P c v) = w_disk w \<and> \<not> readable (w_disk w)"
      by (rule unreadable.every_call_F) (use Cons.prems in simp)
    with Cons show ?case by simp
  qed simp
  then show ?thesis by simp
qed

end
