(* ===== verification/TC_Claims.thy ===== *)
theory TC_Claims
  imports TC_Runs TC_Durability
begin

text \<open>
  Reservations of exact targets. \<open>later\<close> is what every call of the authority does to the claim
  registry: handles are never reissued, a claim that left the registry never returns, a registered
  claim changes in no more than its admission, and the external epoch only grows. It is the
  relation of the interpretation \<open>registry\<close> below, so it holds across whole runs; the single use of a
  claim and its fencing by other requests follow.
\<close>

section \<open>The registry over time\<close>

definition claim_later :: "claim_record \<Rightarrow> claim_record \<Rightarrow> bool" where
  "claim_later r r' \<longleftrightarrow> r' = r \<or> r' = r\<lparr>cl_state := Admitted\<rparr>"

definition later :: "'b world \<Rightarrow> 'b world \<Rightarrow> bool" where
  "later w w' \<longleftrightarrow>
     w_nextHandle w \<le> w_nextHandle w' \<and> w_externalEpoch w \<le> w_externalEpoch w'
     \<and> (w_exactClosed w \<longrightarrow> w_exactClosed w')
     \<and> (\<forall>h r'. (h, r') \<in> set (w_claims w') \<longrightarrow>
          w_nextHandle w \<le> h \<and> h < w_nextHandle w'
          \<or> (\<exists>r. (h, r) \<in> set (w_claims w) \<and> claim_later r r'))"

lemma claim_later_refl [simp]: "claim_later r r"
  by (simp add: claim_later_def)

lemma claim_later_trans: "claim_later a b \<Longrightarrow> claim_later b c \<Longrightarrow> claim_later a c"
  by (auto simp: claim_later_def)

lemma later_refl [simp]: "later w w"
  by (auto simp: later_def)

lemma later_trans:
  assumes "later a b" and "later b c"
  shows "later a c"
  unfolding later_def
proof (intro conjI allI impI)
  fix h r' assume "(h, r') \<in> set (w_claims c)"
  with assms(2) consider "w_nextHandle b \<le> h" "h < w_nextHandle c" | r where "(h, r) \<in> set (w_claims b)" "claim_later r r'"
    by (auto simp: later_def)
  then show "w_nextHandle a \<le> h \<and> h < w_nextHandle c \<or> (\<exists>r. (h, r) \<in> set (w_claims a) \<and> claim_later r r')"
  proof cases
    case 1
    with assms(1) show ?thesis by (auto simp: later_def)
  next
    case 2
    with assms show ?thesis by (fastforce simp: later_def intro: claim_later_trans)
  qed
qed (use assms in \<open>auto simp: later_def\<close>)

lemma later_registry: "registry_step w w' \<Longrightarrow> later w w'"
proof (induction rule: registry_step.induct)
  case (rs_admit w h)
  show ?case by (fastforce simp: later_def set_claim_state_def claim_later_def)
qed (force simp: later_def drop_claims_def begin_external_def end_external_def begin_target_external_def
      end_target_external_def set_external_def remove_claim_def openObservation_def
      retire_observation_def Let_def split: option.split)+

interpretation registry: full_invariant "later w0" P "later w0" for w0 :: "'b world" and P
proof unfold_locales
  show "later w0 w'" if "later w0 w" and "registry_step w w'" for w w' :: "'b world"
    by (rule later_trans [OF that(1) later_registry [OF that(2)]])
qed (simp_all add: later_def)

interpretation claims: machine "call P" "\<lambda>_. True" later for P
  by unfold_locales (auto intro: later_trans registry.every_call_F)

lemma later_run: "later w (call_run P cs w)"
  by (rule claims.run_rel) simp

section \<open>Single use\<close>

definition claim_closed :: "nat \<Rightarrow> 'b world \<Rightarrow> bool" where
  "claim_closed h w \<longleftrightarrow> h < w_nextHandle w \<and> map_of (w_claims w) h = None"

lemma claim_closed_later: "claim_closed h w \<Longrightarrow> later w w' \<Longrightarrow> claim_closed h w'"
  unfolding claim_closed_def map_of_eq_None_iff later_def by (fastforce simp: image_iff)

lemma registered_handle:
  assumes "w_claims w0 = []" and "later w0 w" and "map_of (w_claims w) h = Some r"
  shows "h < w_nextHandle w"
  using assms by (auto simp: later_def dest: map_of_SomeD)

lemma closed_by_removal: "h < w_nextHandle w \<Longrightarrow> claim_closed h (remove_claim h w)"
  by (auto simp: claim_closed_def remove_claim_def map_of_eq_None_iff)

text \<open>The two ways a claim is used, with the worlds before and after.\<close>

definition claim_used :: "'b platform \<Rightarrow> nat \<Rightarrow> 'b world \<Rightarrow> 'b world \<Rightarrow> bool" where
  "claim_used P h w w' \<longleftrightarrow>
     (\<exists>input o' l. consumeRelayV2ExactTarget P h input o' w = (Inr l, w'))
     \<or> (\<exists>input identity hint b. consumeRelayV2ExactObservation P h input identity hint w = (Inr b, w'))"

lemma claim_record_ok:
  assumes "\<And>r w. I w \<Longrightarrow> map_of (w_claims w) h = Some r \<Longrightarrow> K r w"
  shows "ok I (relayV2ExactClaimRecord h) K"
  using assms by (intro okI) (auto simp: relayV2ExactClaimRecord_def em_defs split: option.splits)

lemma current_ok: "ok (\<lambda>w. I w) (relayV2ExactClaimCurrent P r) (\<lambda>b w. b \<longrightarrow> claim_unfenced r w)"
  by (rule okI) (auto simp: relayV2ExactClaimCurrent_def claim_unfenced_def external_state_of_def em_defs envE_def
      Let_def split: if_splits prod.splits)

lemma later_moves: "(\<And>w0. keeps (later w0) m) \<Longrightarrow> m w = (r, w') \<Longrightarrow> later w w'"
  by (drule_tac x = w in meta_spec) (auto dest: keepsD)

lemma closed_keeps: "(\<And>w0. keeps (later w0) m) \<Longrightarrow> keeps (claim_closed h) m"
  by (rule movesI) (blast intro: claim_closed_later later_moves)

lemma handle_keeps: "keeps (\<lambda>w. h < w_nextHandle w) (resetInteractiveOwners i)"
  "keeps (\<lambda>w. h < w_nextHandle w) (registerInteractiveOwner i o')"
  "keeps (\<lambda>w. h < w_nextHandle w) (if b then retE c else relayV2ExactClaimCurrent P r)"
  unfolding resetInteractiveOwners_def registerInteractiveOwner_def
  by (intro keeps_rules keeps_modify; simp)
    (auto simp: moves_def relayV2ExactClaimCurrent_def em_defs envE_def Let_def split: prod.splits option.splits)+

abbreviation handle_issued :: "nat \<Rightarrow> 'b world \<Rightarrow> bool" where
  "handle_issued h \<equiv> \<lambda>w. \<forall>r. map_of (w_claims w) h = Some r \<longrightarrow> h < w_nextHandle w"

lemma issued_bind:
  assumes "\<And>r. ok (\<lambda>w. h < w_nextHandle w) (f r) Q"
  shows "ok (handle_issued h) (bindE (relayV2ExactClaimRecord h) f) Q"
  by (rule triple_bind [OF claim_record_ok assms]) blast

lemma removal_then: "keeps (claim_closed h) k \<Longrightarrow> ok (\<lambda>w. h < w_nextHandle w) (thenE (modifyE (remove_claim h)) k) (\<lambda>_. claim_closed h)"
  by (rule ok_then_ok [OF _ keeps_ok]) (auto intro: triple_pre [OF triple_modify] closed_by_removal)

lemma consume_closes:
  "ok (handle_issued h) (consumeRelayV2ExactTarget P h input o') (\<lambda>_. claim_closed h)"
  unfolding consumeRelayV2ExactTarget_def
  by (intro issued_bind removal_then ok_if ok_bind_keeps ok_then_keeps handle_keeps ok_throw keeps_rules)

lemma observe_closes:
  "ok (handle_issued h) (consumeRelayV2ExactObservation P h input identity hint) (\<lambda>_. claim_closed h)"
  unfolding consumeRelayV2ExactObservation_def
  by (intro issued_bind removal_then ok_case_option ok_if ok_bind_keeps handle_keeps ok_throw keeps_rules
      closed_keeps registry.locked_keeps_F registry.observe_J)

lemma used_closes:
  assumes "w_claims w0 = []" and "claim_used P h (call_run P cs w0) w'"
  shows "claim_closed h w'"
proof -
  have "\<forall>r. map_of (w_claims (call_run P cs w0)) h = Some r \<longrightarrow> h < w_nextHandle (call_run P cs w0)"
    using registered_handle [OF assms(1) later_run] by blast
  with assms(2) show ?thesis
    unfolding claim_used_def by (blast dest: okD [OF consume_closes] okD [OF observe_closes])
qed

lemma closed_not_used: "claim_closed h w \<Longrightarrow> \<not> claim_used P h w w'"
  by (auto simp: claim_used_def claim_closed_def consumeRelayV2ExactTarget_def consumeRelayV2ExactObservation_def
      relayV2ExactClaimRecord_def em_defs split: option.splits sum.splits prod.splits)

text \<open>
  C16. A claim is used at most once: after a claim of this process has been consumed, for input or
  for an observation, no later sequence of calls leads to a state in which it can be consumed
  again, either way.
\<close>

theorem claim_is_used_once:
  assumes "w_claims w0 = []" and "claim_used P h (call_run P cs w0) w1"
  shows "\<not> claim_used P h (call_run P cs' w1) w2"
  by (rule closed_not_used [OF claim_closed_later [OF used_closes [OF assms] later_run]])

section \<open>Fencing by other requests\<close>

text \<open>The registries the requests themselves leave alone.\<close>

definition fences :: "'b world \<Rightarrow> (nat \<times> claim_record) list \<times> int \<times> int \<times> bool" where
  "fences w = (w_claims w, w_externalEpoch w, w_externalOperations w, w_exactClosed w)"

interpretation fences: restart_invariant
  "\<lambda>w. fences w = x" "\<lambda>_. True" P "\<lambda>w. fences w = x" "\<lambda>w. fences w = x" for x P
  by unfold_locales (simp_all add: fences_def)

lemma fences_rollback: "keeps (\<lambda>w. fences w = x) (relayV2RollbackRecord P r)"
  unfolding relayV2RollbackRecord_def freeE_def Let_def moves_def
  by (intro allI impI fences.locked_F keeps_rules fences.handler_keeps fences.mod_keeps ts_release TrueI)

lemma fences_rollback_all: "keeps (\<lambda>w. fences w = x) (rollback_all P rs)"
  by (induction rs) (auto intro!: keeps_rules fences_rollback)

lemma fences_handleV1: "keeps (\<lambda>w. fences w = x) (handleV1 P r)"
  by (simp add: moves_def fences.handleV1_F)

lemma fences_dropped:
  "triple (\<lambda>w. fences w = (cs, e, n, b)) (withdraw_claims P p)
     (\<lambda>_ w. fences w = (filter (\<lambda>(h, r). \<not> p r) cs, e, n, b)) (\<lambda>_ w. fences w = (filter (\<lambda>(h, r). \<not> p r) cs, e, n, b))"
proof -
  have "triple (\<lambda>w. fences w = (cs, e, n, b)) (thenE (modifyE (drop_claims p)) (rollback_all P rs))
     (\<lambda>_ w. fences w = (filter (\<lambda>(h, r). \<not> p r) cs, e, n, b)) (\<lambda>_ w. fences w = (filter (\<lambda>(h, r). \<not> p r) cs, e, n, b))" for rs
    by (rule triple_then [OF _ fences_rollback_all [unfolded keeps_triple]])
      (rule triple_pre [OF triple_modify], simp add: fences_def drop_claims_def)
  then show ?thesis
    unfolding withdraw_claims_def by (intro triple_bind [OF triple_gets])
qed

text \<open>\<open>relayV2ExternalOperation\<close>: the claims are dropped, the epoch advances twice, however the operation ends.\<close>

lemma triple_always: "triple I m (\<lambda>_. K) (\<lambda>_. K) \<Longrightarrow> I w \<Longrightarrow> K (snd (m w))"
  by (cases "m w"; cases "fst (m w)") (auto dest: tripleD_ok tripleD_err)

lemma triple_env: "(\<And>w b. I w \<Longrightarrow> I (w\<lparr>w_env := b\<rparr>)) \<Longrightarrow> triple I (envE f) (\<lambda>_. I) E"
  by (auto simp: triple_def envE_def Let_def split: prod.splits)

lemma finally_triple:
  assumes "triple I m (\<lambda>_. K) (\<lambda>_. K)" and "\<And>w. K w \<Longrightarrow> L (f w)"
  shows "triple I (finallyE m f) (\<lambda>_. L) (\<lambda>_. L)"
  unfolding finallyE_def
proof (rule triple_bind [OF triple_try [OF assms(1)]])
  show "triple K (thenE (modifyE f) (liftE r)) (\<lambda>_. L) (\<lambda>_. L)" for r :: "'b + 'c"
    by (rule triple_then [where R = L])
      (rule triple_pre [OF triple_modify], simp add: assms(2), rule triple_pre [OF triple_lift], simp split: sum.split)
qed

lemma external_fences:
  assumes "\<And>x. keeps (\<lambda>w. fences w = x) m" and "fences w = (cs, e, n, b)"
  shows "fences (snd (relayV2ExternalOperation P m w)) = ([], e + 2, n, b)"
proof -
  have "triple (\<lambda>w. fences w = (cs, e + 1, n + 1, b)) (thenE (withdraw_claims P (\<lambda>_. True)) m)
     (\<lambda>_ w. fences w = ([], e + 1, n + 1, b)) (\<lambda>_ w. fences w = ([], e + 1, n + 1, b))"
    by (rule triple_then [OF _ assms(1) [unfolded keeps_triple]]) (rule triple_weaken [OF fences_dropped], auto)
  then have "triple (\<lambda>w. fences w = (cs, e + 1, n + 1, b)) (finallyE (thenE (withdraw_claims P (\<lambda>_. True)) m) end_external)
     (\<lambda>_ w. fences w = ([], e + 2, n, b)) (\<lambda>_ w. fences w = ([], e + 2, n, b))"
    by (rule finally_triple) (simp add: fences_def end_external_def)
  then have "triple (\<lambda>w. fences w = (cs, e, n, b)) (relayV2ExternalOperation P m)
     (\<lambda>_ w. fences w = ([], e + 2, n, b)) (\<lambda>_ w. fences w = ([], e + 2, n, b))"
    unfolding relayV2ExternalOperation_def
    by (rule triple_then [rotated]) (rule triple_pre [OF triple_modify], simp add: fences_def begin_external_def)
  from triple_always [OF this assms(2)] show ?thesis .
qed

lemma target_external_fences:
  assumes "\<And>x. keeps (\<lambda>w. fences w = x) m" and "fences w = (cs, e, n, b)"
  shows "fences (snd (relayV2TargetExternalOperation P i m w)) = (filter (\<lambda>(h, r). \<not> claims_for i r) cs, e, n, b)"
proof -
  let ?after = "\<lambda>_ w. fences w = (filter (\<lambda>(h, r). \<not> claims_for i r) cs, e, n, b)"
  have "triple (\<lambda>w. fences w = (cs, e, n, b)) (thenE (withdraw_claims P (claims_for i)) m) ?after ?after"
    by (rule triple_then [OF fences_dropped assms(1) [unfolded keeps_triple]])
  then have body: "triple (\<lambda>w. fences w = (cs, e, n, b))
      (finallyE (thenE (withdraw_claims P (claims_for i)) m) (end_target_external i)) ?after ?after"
    by (rule finally_triple) (simp add: fences_def end_target_external_def set_external_def Let_def)
  have "triple (\<lambda>w. fences w = (cs, e, n, b)) (relayV2TargetExternalOperation P i m) ?after ?after"
    unfolding relayV2TargetExternalOperation_def sweepRelayV2TargetExternalStates_def
    by (intro triple_then [OF _ body] triple_bind [OF triple_env]
        triple_then [where R = "\<lambda>w. fences w = (cs, e, n, b)"] triple_pre [OF triple_modify])
      (auto simp: fences_def begin_target_external_def set_external_def Let_def)
  from triple_always [OF this assms(2)] show ?thesis .
qed

fun external_request :: "request \<Rightarrow> bool" where
  "external_request Ping = False"
| "external_request (OwnershipStatus i) = False"
| "external_request r = True"

lemma handle_external: "external_request r \<Longrightarrow> handle P r = relayV2ExternalOperation P (handleV1 P r)"
  by (cases r) (simp_all add: handle_def del: handleV1.simps)

lemma fences_of: "fences w = (w_claims w, w_externalEpoch w, w_externalOperations w, w_exactClosed w)"
  by (simp add: fences_def)

text \<open>The registry after a request, whatever the backend answers.\<close>

lemma claims_after_request:
  "w_claims (snd (handle P r w)) =
     (if external_request r then []
      else case r of OwnershipStatus i \<Rightarrow> filter (\<lambda>(h, c). \<not> claims_for i c) (w_claims w) | _ \<Rightarrow> w_claims w)"
proof (cases "external_request r")
  case True
  with external_fences [OF fences_handleV1 fences_of, of P P r w] show ?thesis
    by (simp add: handle_external fences_def)
next
  case False
  then consider "r = Ping" | i where "r = OwnershipStatus i" by (cases r) auto
  then show ?thesis
  proof cases
    case 1
    then show ?thesis by (simp add: handle_def retE_def)
  next
    case 2
    with target_external_fences [OF fences_handleV1 fences_of, of P i P r w] show ?thesis
      by (simp add: handle_def fences_def)
  qed
qed

lemma passed_epoch_fences: "cl_externalEpoch c < w_externalEpoch w \<Longrightarrow> later w w' \<Longrightarrow> \<not> claim_unfenced c w'"
  by (auto simp: claim_unfenced_def later_def)

text \<open>
  C18. A request other than a ping or a status poll fences every reservation made before it: no
  record stamped with the external epoch it found, or an earlier one, is current in any state a
  later sequence of calls leads to, so it can be neither admitted nor consumed.
\<close>

theorem external_request_fences_claims:
  assumes "external_request r" and "cl_externalEpoch c \<le> w_externalEpoch w"
  shows "\<not> claim_unfenced c (call_run P cs (snd (handle P r w)))"
proof (rule passed_epoch_fences [OF _ later_run])
  have "w_externalEpoch (snd (handle P r w)) = w_externalEpoch w + 2"
    using external_fences [OF fences_handleV1 fences_of, of P P r w] assms(1) by (simp add: handle_external fences_def)
  with assms(2) show "cl_externalEpoch c < w_externalEpoch (snd (handle P r w))" by simp
qed

end
