(* ===== verification/TC_Witnesses.thy ===== *)
theory TC_Witnesses
  imports TC_Records TC_Restart TC_Replay TC_Claims
begin

text \<open>
  Concrete runs. \<open>demo\<close> is a platform whose backend always succeeds, with a counter as clock and
  identifier source; \<open>demo_world\<close> has one target in its file. The witnesses below apply the
  theorems to runs of the handlers on them.
\<close>

definition demo_uuid :: "nat \<Rightarrow> string" where
  "demo_uuid n = ''u'' @ decimal_string n"

definition demo_position :: "string \<Rightarrow> output_position" where
  "demo_position g = \<lparr>pos_generation = g, pos_cursor = 7, pos_retainedStartCursor = None\<rparr>"

definition demo_session :: managed_session where
  "demo_session = \<lparr>ms_name = ''tw-main'', ms_kind = WorktreeSession, ms_createdAt = 5\<rparr>"

definition demo_activity :: agent_activity where
  "demo_activity = \<lparr>aa_agentSupported = True, aa_agentRunning = False, aa_provider = None, aa_source = None, aa_progress = None\<rparr>"

definition demo_result :: agent_result where
  "demo_result = \<lparr>ar_source = \<lparr>as_provider = Claude, as_boundary = Exact, as_sourceId = ''s'', as_sessionId = ''s'',
     as_turnId = ''t'', as_startedAt = 1\<rparr>, ar_completedAt = 2, ar_text = ''done'', ar_truncated = False\<rparr>"

definition demo_process :: process_target where
  "demo_process = \<lparr>pt_kind = LocalProcess, pt_targetId = ''local''\<rparr>"

definition demo_incarnation :: string where
  "demo_incarnation = ''twinc2.'' @ replicate 43 CHR ''a''"

definition demo_observation :: exact_observation where
  "demo_observation = \<lparr>eo_managedSession = demo_session, eo_managedIncarnation = demo_incarnation,
     eo_paneIdentity = ''%0'', eo_tmuxInstanceId = Some ''$1''\<rparr>"

definition demo :: "nat platform" where
  "demo = \<lparr>p_statePath = ''/s'',
     p_now = (\<lambda>b. (int b, Suc b)),
     p_randomUUID = (\<lambda>b. (demo_uuid b, Suc b)),
     p_sha256 = (\<lambda>_. replicate 64 CHR ''a''),
     p_sha256json = (\<lambda>_. replicate 64 CHR ''b''),
     p_localeCompare = (\<lambda>a b. 0),
     p_acquireLock = (\<lambda>b. (Inr (), b)),
     p_persist = (\<lambda>s b. (Persisted, b)),
     p_resolveManagedSession = (\<lambda>n b. (Inr (demo_session, ''$1''), b)),
     p_assertCurrent = (\<lambda>m t b. (Inr (), b)),
     p_prepareOutput = (\<lambda>i n p g c b. (Inr (demo_position g), b)),
     p_resetOutput = (\<lambda>i n p g b. (Inr (demo_position (demo_uuid b)), Suc b)),
     p_recoverOutput = (\<lambda>i n p g h b. (Inr (demo_position h), b)),
     p_tailOutput = (\<lambda>i n p g c m b. (Inr \<lparr>ch_generation = g, ch_cursor = c, ch_dataBase64 = '''', ch_nextCursor = c\<rparr>, b)),
     p_writeRaw = (\<lambda>n p d b. (Inr (), b)),
     p_rawInputPosition = None,
     p_writeRawFenced = None,
     p_sendAgentMessage = (\<lambda>n p m s b. (Inr (), b)),
     p_sendAgentMessageFenced = None,
     p_scroll = (\<lambda>n p d l b. (Inr (), b)),
     p_resize = (\<lambda>n p c r b. (Inr (), b)),
     p_killManaged = (\<lambda>n b. (Inr (), b)),
     p_captureRenderedSnapshot = (\<lambda>m t g p n b. (Inr ('''', False), b)),
     p_agentStatus = (\<lambda>m t g p b. (Inr demo_activity, b)),
     p_agentResult = (\<lambda>m t g p s n b. (Inr demo_result, b)),
     p_relayV2ProcessTarget = Some demo_process,
     p_relayV2ExactTargetTtlMs = 30000,
     p_proofDigest = (\<lambda>f. pf_controlTargetId f @ pf_targetRevision f),
     p_interference = (\<lambda>b. ([], b)),
     p_inspectExactTarget = Some (\<lambda>i b. (Inr demo_observation, b)),
     p_observeExactTarget = Some (\<lambda>i b. (Inr demo_observation, b)),
     p_establishExactTarget = Some (\<lambda>i b. (Inr demo_observation, b))\<rparr>"

definition demo_target :: "string \<Rightarrow> ownership \<Rightarrow> target" where
  "demo_target i own =
     \<lparr>t_controlTargetId = i, t_lifecycle = ACTIVE, t_managedSession = demo_session, t_tmuxInstanceId = ''$1'',
      t_outputGeneration = ''g0'', t_ownership = own, t_revision = ''1'', t_inFlight = None, t_recovery = None,
      t_completedOperations = [], t_updatedAt = 1\<rparr>"

definition demo_world :: "target list \<Rightarrow> nat world" where
  "demo_world ts =
     \<lparr>w_disk = StateFile \<lparr>s_controlEpoch = ''e1'', s_targets = ts\<rparr>,
      w_work = \<lparr>s_controlEpoch = '''', s_targets = []\<rparr>, w_interactiveOwners = (\<lambda>_. None), w_claims = [],
      w_observations = [], w_observersByTarget = (\<lambda>_. []), w_targetExternalStates = [], w_externalEpoch = 0,
      w_externalOperations = 0, w_exactClosed = False, w_nextHandle = 0, w_env = 10, w_trace = []\<rparr>"

definition dash :: owner where "dash = \<lparr>okind = Dashboard, instanceId = ''d1''\<rparr>"
definition bot :: owner where "bot = \<lparr>okind = Feishu, instanceId = ''f1''\<rparr>"

definition demo_lease :: "string \<Rightarrow> owner \<Rightarrow> lease" where
  "demo_lease f o' = \<lparr>l_controlTargetId = ''t1'', l_controlEpoch = ''e1'', l_leaseId = ''l1'', l_fence = f, l_owner = o',
     l_expiresAt = 1000\<rparr>"

definition free_world :: "nat world" where
  "free_world = demo_world [demo_target ''t1'' (Free ''4'')]"

definition held_target :: target where
  "held_target = demo_target ''t1'' (Held ''4'' dash ''l1'' 1000)"

definition held_world :: "nat world" where
  "held_world = demo_world [held_target, demo_target ''t2'' (Free ''0'')]"

section \<open>Fencing\<close>

lemma acquire_run:
  "case tgt ''t1'' (disk_targets (w_disk (snd (handleV1 demo (LeaseAcquire ''t1'' dash None) free_world)))) of
     None \<Rightarrow> False | Some u \<Rightarrow> t_ownership u = Held ''5'' dash ''u10'' 60011"
  by code_simp

theorem handle_fence_monotone_witness:
  "\<exists>t u. tgt ''t1'' (disk_targets (w_disk free_world)) = Some t
     \<and> tgt ''t1'' (disk_targets (w_disk (snd (handleV1 demo (LeaseAcquire ''t1'' dash None) free_world)))) = Some u
     \<and> holder u \<noteq> holder t \<and> fence_value t < fence_value u"
proof -
  let ?t = "demo_target ''t1'' (Free ''4'')"
  obtain u where u: "tgt ''t1'' (disk_targets (w_disk (snd (handleV1 demo (LeaseAcquire ''t1'' dash None) free_world)))) = Some u"
    "t_ownership u = Held ''5'' dash ''u10'' 60011"
    using acquire_run by (auto split: option.splits)
  have t: "tgt ''t1'' (disk_targets (w_disk free_world)) = Some ?t"
    by (simp add: free_world_def demo_world_def demo_target_def)
  have "holder u \<noteq> None" "holder u \<noteq> holder ?t"
    using u(2) by (simp_all add: holder_def demo_target_def)
  with handle_fence_monotone [OF t u(1)] t u(1) show ?thesis by blast
qed

lemma disk_run:
  "case w_disk (call_run demo [Handle (LeaseAcquire ''t1'' dash None)] free_world) of
     StateFile s \<Rightarrow> (case tgt ''t1'' (s_targets s) of None \<Rightarrow> False | Some u \<Rightarrow> True) | _ \<Rightarrow> False"
  by code_simp

theorem passed_lease_never_validates_witness:
  "\<exists>s t. w_disk (call_run demo [Handle (LeaseAcquire ''t1'' dash None)] free_world) = StateFile s
     \<and> tgt ''t1'' (s_targets s) = Some t \<and> validateLease s t (demo_lease ''3'' dash) True \<noteq> Inr ()"
proof -
  obtain s t where s: "w_disk (call_run demo [Handle (LeaseAcquire ''t1'' dash None)] free_world) = StateFile s"
    and t: "tgt ''t1'' (s_targets s) = Some t"
    using disk_run by (auto split: disk.splits option.splits)
  have fresh: "fst (p_randomUUID demo b) \<noteq> l_controlTargetId (demo_lease ''3'' dash)" for b
    by (simp add: demo_def demo_uuid_def demo_lease_def)
  have i: "l_controlTargetId (demo_lease ''3'' dash) = ''t1''" by (simp add: demo_lease_def)
  have low: "decimal_value (l_fence (demo_lease ''3'' dash)) < fence_value u"
    if "tgt (l_controlTargetId (demo_lease ''3'' dash)) (disk_targets (w_disk free_world)) = Some u" for u
    using that by (auto simp: free_world_def demo_world_def demo_target_def demo_lease_def fence_value_def
        decimal_value_def digit_value_def)
  show ?thesis
    using passed_lease_never_validates [of demo "demo_lease ''3'' dash" free_world, OF fresh low s] s t i by auto
qed

section \<open>Durability\<close>

lemma acquire_result:
  "case fst (handleV1 demo (LeaseAcquire ''t1'' dash None) free_world) of
     Inr (Leased l v) \<Rightarrow> l_controlTargetId l = ''t1'' \<and> l_fence l = ''5'' | _ \<Rightarrow> False"
  by code_simp

theorem granted_lease_is_durable_witness:
  "\<exists>l v w' s t. handleV1 demo (LeaseAcquire ''t1'' dash None) free_world = (Inr (Leased l v), w') \<and> l_fence l = ''5''
     \<and> w_disk w' = StateFile s \<and> tgt ''t1'' (s_targets s) = Some t \<and> validateLease s t l True = Inr ()"
proof -
  obtain l v w' where run: "handleV1 demo (LeaseAcquire ''t1'' dash None) free_world = (Inr (Leased l v), w')"
    and l: "l_controlTargetId l = ''t1''" "l_fence l = ''5''"
    using acquire_result by (cases "handleV1 demo (LeaseAcquire ''t1'' dash None) free_world")
      (auto simp del: handleV1.simps split: sum.splits result.splits)
  from granted_lease_is_durable [OF run] run l show ?thesis by auto
qed

section \<open>Replay\<close>

definition done_operation :: operation where
  "done_operation = \<lparr>op_operationId = ''o1'', op_ownerInstanceId = ''d1'', op_fence = ''4'',
     op_payloadHash = replicate 64 CHR ''a'', op_kind = RawOp, op_disposition = Committed,
     op_outputGeneration = None, op_outputCursor = None, op_completedAt = 3\<rparr>"

definition spent_target :: target where
  "spent_target = held_target\<lparr>t_completedOperations := [done_operation]\<rparr>"

abbreviation repeat_input :: request where
  "repeat_input \<equiv> InputRaw (demo_lease ''4'' dash) ''o1'' ''0'' ''ls''"

lemma repeat_run:
  "case fst (handleV1 demo repeat_input (demo_world [spent_target])) of Inr (Operated op) \<Rightarrow> or_deduplicated op | _ \<Rightarrow> False"
  by code_simp

theorem settled_operation_is_not_repeated_witness:
  "\<exists>op w'. handleV1 demo repeat_input (demo_world [spent_target]) = (Inr (Operated op), w')
     \<and> w_trace w' = [] \<and> or_deduplicated op"
proof -
  obtain op w' where run: "handleV1 demo repeat_input (demo_world [spent_target]) = (Inr (Operated op), w')"
    using repeat_run by (cases "handleV1 demo repeat_input (demo_world [spent_target])")
      (auto simp del: handleV1.simps split: sum.splits result.splits)
  have "w_trace w' = w_trace (demo_world [spent_target])
      \<and> (\<forall>op'. Inr (Operated op) = (Inr (Operated op') :: tc_error + result) \<longrightarrow> or_deduplicated op')"
    by (rule settled_operation_is_not_repeated [OF _ _ _ _ run,
          of "demo_lease ''4'' dash" "''o1''" RawOp "\<lparr>s_controlEpoch = ''e1'', s_targets = [spent_target]\<rparr>" spent_target])
      (simp_all add: demo_world_def spent_target_def held_target_def demo_target_def demo_lease_def done_operation_def)
  with run show ?thesis by (auto simp: demo_world_def simp del: handleV1.simps)
qed

section \<open>Lifecycle\<close>

definition gone_target :: target where
  "gone_target = (demo_target ''t1'' (Free ''9''))\<lparr>t_lifecycle := GONE\<rparr>"

theorem retired_target_is_final_witness:
  "tgt ''t1'' (disk_targets (w_disk (snd (handleV1 demo (LeaseAcquire ''t1'' dash None) (demo_world [gone_target])))))
     \<in> {None, Some gone_target, Some (gone_target\<lparr>t_completedOperations := []\<rparr>)}"
  by (rule retired_target_is_final [THEN conjunct1])
    (simp_all add: demo_world_def gone_target_def demo_target_def)

section \<open>Records\<close>

abbreviation demo_state :: tc_state where
  "demo_state \<equiv> \<lparr>s_controlEpoch = ''e1'', s_targets = [spent_target\<lparr>t_lifecycle := GONE, t_ownership := Free ''4''\<rparr>]\<rparr>"

abbreviation demo_saved :: tc_state where
  "demo_saved \<equiv> \<lparr>s_controlEpoch = ''e1'', s_targets = [spent_target\<lparr>t_lifecycle := GONE, t_ownership := Free ''4'', t_completedOperations := []\<rparr>]\<rparr>"

lemma demo_save: "prepared_save (\<lambda>_ _. 0) demo_state = Inr demo_saved"
  by code_simp

theorem save_compacts_witness:
  "prepared_save (\<lambda>_ _. 0) demo_state = Inr demo_saved \<and> parseTerminalControlState demo_saved = Inr demo_saved
   \<and> length (filter (\<lambda>t. t_lifecycle t = GONE) (s_targets demo_saved)) \<le> 64"
  using save_compacts [OF demo_save] demo_save by blast

theorem save_idempotent_witness: "prepared_save (\<lambda>_ _. 0) demo_saved = Inr demo_saved"
  by (rule save_idempotent [OF demo_save])

theorem payload_preimage_identifies_witness:
  "payload_preimage RawOp ''0'' ''a'' \<noteq> payload_preimage ScrollOp ''0'' ''a''"
  using payload_preimage_identifies [of "''0''" "''0''" RawOp "''a''" ScrollOp "''a''"] by simp

theorem journal_is_bounded_witness:
  "length (journal_append [done_operation] done_operation) \<le> max 128 (in_doubt_count (journal_append [done_operation] done_operation))"
  using journal_is_bounded [of "[done_operation]" done_operation] by simp

theorem input_payloads_round_trip_witness:
  "decode_scroll (encode_scroll Up 3) = Some (Up, 3) \<and> decode_resize (encode_resize 80 24) = Some (80, 24)"
  using input_payloads_round_trip [of "''x''" True None 3 Up 80 24] by simp

section \<open>Runs\<close>

theorem runs_keep_file_valid_witness:
  "\<exists>s'. w_disk (call_run demo [Handle (LeaseAcquire ''t1'' dash None), CloseAuthority] held_world) = StateFile s'
     \<and> valid_state s' \<and> s_controlEpoch s' = ''e1''"
proof -
  let ?s = "\<lparr>s_controlEpoch = ''e1'', s_targets = [held_target, demo_target ''t2'' (Free ''0'')]\<rparr>"
  have d: "w_disk held_world = StateFile ?s" by (simp add: held_world_def demo_world_def)
  have v: "valid_state ?s" by code_simp
  show ?thesis
    using runs_keep_file_valid [OF d v, of "[Handle (LeaseAcquire ''t1'' dash None), CloseAuthority]" demo]
    by (simp del: fold_simps)
qed

definition broken_world :: "nat world" where
  "broken_world = held_world\<lparr>w_disk := BadFile ''not json''\<rparr>"

theorem invalid_file_is_preserved_witness:
  "w_disk (call_run demo [Initialize, Handle (LeaseAcquire ''t1'' dash None)] broken_world) = BadFile ''not json''"
proof -
  have d: "w_disk broken_world = BadFile ''not json''" by (simp add: broken_world_def)
  show ?thesis using invalid_file_is_preserved [OF disjI1, OF d, of demo] d by metis
qed

end
