(* ===== verification/TC_Reserve.thy ===== *)
theory TC_Reserve
  imports TC_Claims
begin

text \<open>
  What the exact-target operations leave on disk. A prepared reservation is a held lease of the
  requesting owner that the file holds and the registry knows; consuming a claim for an
  observation gives the input lease back under the next fence and pins the observation to the
  output generation on disk.
  The facts on disk are interpretations of \<open>steady\<close>.
\<close>

section \<open>Reservations\<close>












lemma check_all_same: "check_all cs a = Inr b \<Longrightarrow> b = a"
  by (induction cs) (auto split: sum.splits)

lemma input_same: "relayV2ExactInput v = Inr u \<Longrightarrow> u = v"
  by (auto simp: relayV2ExactInput_def simp del: check_all.simps dest: check_all_same split: if_splits)

lemma ok_input: "ok J (f input) Q \<Longrightarrow> ok J (bindE (liftE (relayV2ExactInput input)) f) Q"
  by (cases "relayV2ExactInput input") (auto simp: bindE_def liftE_def triple_def dest!: input_same)

lemma ok_identity: "ok J (f identity) Q \<Longrightarrow> ok J (bindE (liftE (relayV2ExactIdentity identity)) f) Q"
  by (cases "relayV2ExactIdentity identity")
    (auto simp: bindE_def liftE_def triple_def relayV2ExactIdentity_def simp del: check_all.simps dest!: check_all_same)

lemma claim_record_bind:
  assumes "\<And>r. map_of cs h = Some r \<Longrightarrow> ok (\<lambda>v. w_claims v = cs) (f r) Q"
  shows "ok (\<lambda>v. w_claims v = cs) (bindE (relayV2ExactClaimRecord h) f) Q"
proof (cases "map_of cs h")
  case None
  then show ?thesis by (intro okI) (auto simp: relayV2ExactClaimRecord_def em_defs)
next
  case (Some r)
  with assms show ?thesis
    by (intro okI) (auto simp: relayV2ExactClaimRecord_def em_defs dest: okD)
qed








section \<open>Observations\<close>

text \<open>The reservation an observation starts from, and the state it leaves the target in.\<close>

definition reservation_of :: "exact_identity \<Rightarrow> lease \<Rightarrow> string \<Rightarrow> target \<Rightarrow> bool" where
  "reservation_of idn l e t \<longleftrightarrow> operable e t \<and> e = id_controlEpoch idn \<and> reservation_held t l"

definition given_back :: "exact_identity \<Rightarrow> lease \<Rightarrow> string \<Rightarrow> target \<Rightarrow> bool" where
  "given_back idn l e t \<longleftrightarrow> operable e t \<and> e = id_controlEpoch idn \<and> t_ownership t = Free (nextDecimal (l_fence l))"

interpretation reservation_of: steady "reservation_of idn l" for idn l
  by unfold_locales (auto simp: reservation_of_def reservation_held_def operable_def dest: core_fields)

interpretation given_back: steady "given_back idn l" for idn l
  by unfold_locales (auto simp: given_back_def operable_def dest: core_fields)

lemma work_keeps:
  "keeps (working i \<Phi>) (awaitE P)" "keeps (working i \<Phi>) (relayV2ExactClaimCurrent P r)" "keeps (working i \<Phi>) (effectE e f)"
proof -
  have "w_work (fold (interfere ttl) xs w) = w_work w" for ttl xs and w :: "'a world"
  proof (rule fold_steps [where J = "\<lambda>v. w_work v = w_work w"])
    show "w_work (interfere ttl x v) = w_work w" if "w_work v = w_work w" for x and v :: "'a world"
      by (rule interfere_step [where K = "\<lambda>v. w_work v = w_work w", OF _ that]) (auto dest: registry_base)
  qed simp
  then show "keeps (working i \<Phi>) (awaitE P)"
    unfolding awaitE_def by (intro keeps_rules keeps_modify env_working) (simp add: working_def)
  show "keeps (working i \<Phi>) (relayV2ExactClaimCurrent P r)" "keeps (working i \<Phi>) (effectE e f)"
    unfolding relayV2ExactClaimCurrent_def effectE_def
    by (intro keeps_rules env_working call_working keeps_modify; simp add: working_def)+
qed

lemma lost_never_returns: "ok J (backendLost P i m e) Q"
  unfolding backendLost_def by (intro ok_if gone_never_returns recovery_never_returns)

lemma reject_never_returns: "ok J (rejectFencedReservation P i) Q"
  unfolding rejectFencedReservation_def by (intro ok_skip ok_throw)

lemma reset_output_working:
  "ok (working i (reservation_of idn l)) (resetOutput P i) (\<lambda>_. working i (reservation_of idn l))"
  unfolding resetOutput_def
  by (rule triple_catch [OF reservation_of.reset_working [unfolded keeps_triple]]) (rule recovery_never_returns)

lemma ensure_reservation:
  assumes "\<And>t s. ok (working i (reservation_of idn l)) (k t s) Q" and "\<And>J. ok J n Q"
  shows "ok J (bindE (targetE i) (\<lambda>t. bindE (getsE w_work) (\<lambda>s.
     if s_controlEpoch s \<noteq> id_controlEpoch idn \<or> \<not> reservation_held t l then throwE e
     else bindE (relayV2ExactClaimCurrent P r) (\<lambda>current.
       if \<not> current then n else thenE (liftE (ensureOperable t)) (k t s))))) Q"
proof -
  let ?\<Phi> = "\<lambda>t e u. u = t \<and> e = id_controlEpoch idn \<and> reservation_held t l"
  have ensure: "ok (working i (?\<Phi> t)) (thenE (liftE (ensureOperable t)) (k t s)) Q" for t s
    by (rule triple_then [OF okI assms(1)])
      (auto simp: liftE_def working_def reservation_of_def dest: ensureOperable_iff [THEN iffD1])
  have check: "ok (working i (?\<Phi> t)) (bindE (relayV2ExactClaimCurrent P r) (\<lambda>current.
       if \<not> current then n else thenE (liftE (ensureOperable t)) (k t s))) Q" for t s
    by (intro ok_bind_keeps [OF work_keeps(2)] ok_if assms(2) ensure)
  have "ok (\<lambda>w. J w \<and> tgt i (s_targets (w_work w)) = Some t) (bindE (getsE w_work) (\<lambda>s.
     if s_controlEpoch s \<noteq> id_controlEpoch idn \<or> \<not> reservation_held t l then throwE e
     else bindE (relayV2ExactClaimCurrent P r) (\<lambda>current.
       if \<not> current then n else thenE (liftE (ensureOperable t)) (k t s)))) Q" for t
  proof (rule triple_bind [where R = "\<lambda>s w. s = w_work w \<and> tgt i (s_targets s) = Some t"])
    show "ok (\<lambda>w. J w \<and> tgt i (s_targets (w_work w)) = Some t) (getsE w_work)
        (\<lambda>s w. s = w_work w \<and> tgt i (s_targets s) = Some t)"
      by (rule ok_gets) simp
    show "ok (\<lambda>w. s = w_work w \<and> tgt i (s_targets s) = Some t)
        (if s_controlEpoch s \<noteq> id_controlEpoch idn \<or> \<not> reservation_held t l then throwE e
         else bindE (relayV2ExactClaimCurrent P r) (\<lambda>current.
           if \<not> current then n else thenE (liftE (ensureOperable t)) (k t s))) Q" for s
      by (intro ok_if ok_throw triple_pre [OF check]) (auto simp: working_def)
  qed
  then show ?thesis by (rule ok_bind_target)
qed

text \<open>An active target reaches the file as it stands in the working copy.\<close>

lemma save_exact:
  assumes K: "\<And>t w d b. K t w \<Longrightarrow> K t (w\<lparr>w_env := b, w_disk := d\<rparr>)"
  shows "ok (\<lambda>w. tgt i (s_targets (w_work w)) = Some t \<and> t_lifecycle t = ACTIVE \<and> s_controlEpoch (w_work w) = e \<and> K t w)
     (saveTerminalControlState P)
     (\<lambda>_ w. \<exists>s. w_disk w = StateFile s \<and> tgt i (s_targets s) = Some t \<and> s_controlEpoch s = e \<and> K t w)"
proof (rule okI)
  fix w a w'
  assume pre: "tgt i (s_targets (w_work w)) = Some t \<and> t_lifecycle t = ACTIVE \<and> s_controlEpoch (w_work w) = e \<and> K t w"
    and run: "saveTerminalControlState P w = (Inr a, w')"
  obtain c where c: "prepared_save (p_localeCompare P) (w_work w) = Inr c"
    using run by (cases "prepared_save (p_localeCompare P) (w_work w)")
      (auto simp: saveTerminalControlState_def em_defs)
  obtain out b where p: "p_persist P c (w_env w) = (out, b)" by (cases "p_persist P c (w_env w)")
  have w': "w' = w\<lparr>w_env := b, w_disk := StateFile c\<rparr>"
    using run c p by (auto simp: saveTerminalControlState_def em_defs envE_def split: persist_outcome.splits if_splits)
  from prepared_save_InrD [OF c] pre
  have "tgt i (s_targets c) = Some t" "s_controlEpoch c = e"
    by (auto simp: compact_state_def valid_state_iff intro: find_compact)
  with w' pre K show "\<exists>s. w_disk w' = StateFile s \<and> tgt i (s_targets s) = Some t \<and> s_controlEpoch s = e \<and> K t w'" by simp
qed

lemma free_gives_back: "ok (working i (reservation_of idn l)) (freeE P i) (\<lambda>_. working i (given_back idn l))"
  unfolding freeE_def
  by (intro ok_then_keeps [OF owners_working(2)] ok_then_ok [OF ok_mod keeps_ok [OF given_back.touch_working]])
    (auto simp: reservation_of_def reservation_held_def given_back_def operable_def)

definition observation_opened :: "claim_record \<Rightarrow> observation_binding \<Rightarrow> target \<Rightarrow> 'b world \<Rightarrow> bool" where
  "observation_opened r b t w \<longleftrightarrow>
     bd_outputGeneration b = t_outputGeneration t
     \<and> (\<exists>ob. (bd_observation b, ob) \<in> set (w_observations w) \<and> ob_open ob
          \<and> ob_controlTargetId ob = id_controlTargetId (cl_identity r) \<and> ob_controlEpoch ob = id_controlEpoch (cl_identity r)
          \<and> ob_outputGeneration ob = t_outputGeneration t)
     \<and> bd_observation b \<in> set (w_observersByTarget w (id_controlTargetId (cl_identity r)))"

definition observation_published :: "claim_record \<Rightarrow> observation_binding \<Rightarrow> 'b world \<Rightarrow> bool" where
  "observation_published r b w \<longleftrightarrow>
     (\<exists>s t. w_disk w = StateFile s \<and> tgt (id_controlTargetId (cl_identity r)) (s_targets s) = Some t
        \<and> given_back (cl_identity r) (cl_lease r) (s_controlEpoch s) t \<and> observation_opened r b t w)"

lemma opened:
  "w_work (openObservation r t w) = w_work w"
  "bd_observation b = w_nextHandle w \<Longrightarrow> bd_outputGeneration b = t_outputGeneration t \<Longrightarrow>
   observation_opened r b t (openObservation r t w)"
  by (simp_all add: observation_opened_def openObservation_def Let_def) (rule exI, rule conjI, rule disjI1, rule refl, simp)

lemma publish:
  assumes i: "i = id_controlTargetId (cl_identity r)"
  shows "ok (working i (reservation_of (cl_identity r) (cl_lease r)))
     (thenE (freeE P i) (bindE (getsE w_nextHandle) (\<lambda>h. bindE (targetE i) (\<lambda>t.
        thenE (modifyE (openObservation r t)) (thenE (saveTerminalControlState P)
          (retE \<lparr>bd_observation = h, bd_controlTargetId = i, bd_controlEpoch = ep, bd_targetIncarnationProof = pf,
             bd_outputGeneration = t_outputGeneration t, bd_outputCursor = c\<rparr>))))))
     (observation_published r)"
proof -
  let ?g = "given_back (cl_identity r) (cl_lease r)"
  let ?b = "\<lambda>h t. \<lparr>bd_observation = h, bd_controlTargetId = i, bd_controlEpoch = ep, bd_targetIncarnationProof = pf,
             bd_outputGeneration = t_outputGeneration t, bd_outputCursor = c\<rparr>"
  let ?e = "id_controlEpoch (cl_identity r)"
  have save: "ok (\<lambda>w. tgt i (s_targets (w_work w)) = Some t \<and> t_lifecycle t = ACTIVE \<and> s_controlEpoch (w_work w) = ?e
        \<and> ?g ?e t \<and> observation_opened r (?b h t) t w)
      (thenE (saveTerminalControlState P) (retE (?b h t))) (observation_published r)" for h t
    by (rule triple_then [OF save_exact [where K = "\<lambda>t w. ?g ?e t \<and> observation_opened r (?b h t) t w"]])
      (auto simp: observation_published_def observation_opened_def i intro!: ok_ret)
  have open': "ok (\<lambda>w. (working i ?g w \<and> h = w_nextHandle w) \<and> tgt i (s_targets (w_work w)) = Some t)
      (thenE (modifyE (openObservation r t)) (thenE (saveTerminalControlState P) (retE (?b h t)))) (observation_published r)" for h t
  proof (rule triple_then [OF _ save], rule triple_pre [OF triple_modify], elim conjE)
    fix w :: "'a world"
    assume w: "working i ?g w" "h = w_nextHandle w" "tgt i (s_targets (w_work w)) = Some t"
    then have "?g (s_controlEpoch (w_work w)) t" by (simp add: working_def)
    then have "t_lifecycle t = ACTIVE" "s_controlEpoch (w_work w) = ?e" "?g ?e t"
      by (simp_all add: given_back_def operable_def)
    with w show "tgt i (s_targets (w_work (openObservation r t w))) = Some t \<and> t_lifecycle t = ACTIVE
        \<and> s_controlEpoch (w_work (openObservation r t w)) = ?e \<and> ?g ?e t
        \<and> observation_opened r (?b h t) t (openObservation r t w)"
      by (simp add: opened)
  qed
  have "ok (working i ?g) (bindE (getsE w_nextHandle) (\<lambda>h. bindE (targetE i) (\<lambda>t.
      thenE (modifyE (openObservation r t)) (thenE (saveTerminalControlState P) (retE (?b h t)))))) (observation_published r)"
    by (rule triple_bind [where R = "\<lambda>h w. working i ?g w \<and> h = w_nextHandle w"])
      (auto intro!: ok_gets ok_bind_target [OF open'])
  then show ?thesis by (rule ok_then_ok [OF free_gives_back])
qed

lemma observe_publishes: "ok J (observe_locked P inspect r hint) (observation_published r)"
proof -
  let ?i = "id_controlTargetId (cl_identity r)"
  let ?w = "working ?i (reservation_of (cl_identity r) (cl_lease r))"
  have probe: "ok ?w (catchE m (backendLost P ?i msg)) (\<lambda>_. ?w)" if "keeps ?w m" for m :: "('a, 'c) tc" and msg
    by (rule triple_catch [OF that [unfolded keeps_triple]]) (rule lost_never_returns)
  have size: "ok ?w (case hint of None \<Rightarrow> retE () | Some (cols, rows) \<Rightarrow>
      catchE (effectE (e cols rows) (g cols rows)) (backendLost P ?i msg)) (\<lambda>_. ?w)" for e g msg
    by (cases hint) (auto intro: ok_ret probe work_keeps)
  have out: "ok ?w (if b then resetOutput P ?i else prepareOutput P ?i True) (\<lambda>_. ?w)" for b
    by (intro ok_if reset_output_working reservation_of.prepareOutput_working)
  show ?thesis
    unfolding observe_locked_def Let_def
    by (rule ok_skip, rule ensure_reservation, rule ok_bind_ok [OF probe [OF call_working]], rule ok_if,
        intro ok_skip ok_throw, rule ok_then_ok [OF size], rule ok_bind_keeps [OF moves_gets [OF keeps_preorder]],
        rule ok_bind_ok [OF out], rule ok_then_keeps [OF work_keeps(1)], rule ok_bind_keeps [OF work_keeps(2)],
        rule ok_if, rule reject_never_returns, rule publish, rule refl, rule reject_never_returns)
qed

text \<open>
  C20. Opening an observation grants no input: when it is returned, the file on disk holds the
  target active and free, under the fence after the one of the reservation, so neither the lease
  of the claim nor any other validates; and the observation is registered, pinned to the controller
  epoch of the reservation and to the output generation that the file records.
\<close>

theorem observation_grants_no_input:
  assumes "consumeRelayV2ExactObservation P h input identity hint w = (Inr b, w')"
  shows "\<exists>r s t. map_of (w_claims w) h = Some r \<and> cl_state r = Admitted \<and> cl_input r = input \<and> cl_identity r = identity
     \<and> w_disk w' = StateFile s \<and> tgt (id_controlTargetId identity) (s_targets s) = Some t
     \<and> t_lifecycle t = ACTIVE \<and> t_ownership t = Free (nextDecimal (l_fence (cl_lease r)))
     \<and> (\<forall>l d. validateLease s t l d \<noteq> Inr ()) \<and> observation_opened r b t w'"
proof -
  let ?claim = "\<lambda>r. map_of (w_claims w) h = Some r \<and> cl_state r = Admitted \<and> cl_input r = input \<and> cl_identity r = identity"
  have "ok (\<lambda>v. w_claims v = w_claims w) (consumeRelayV2ExactObservation P h input identity hint)
      (\<lambda>b v. \<exists>r. ?claim r \<and> observation_published r b v)"
    unfolding consumeRelayV2ExactObservation_def
  proof (rule ok_case_option [OF ok_throw], rule ok_input, rule ok_identity, rule ok_bind_keeps, intro keeps_rules,
      rule claim_record_bind, goal_cases)
    case (1 inspect hint' r)
    have "ok J (bindE (relayV2ExactClaimCurrent P r) (\<lambda>current. if \<not> current then throwE consume_observation_error
        else thenE (modifyE (remove_claim h)) (locked P (observe_locked P inspect r hint')))) (observation_published r)" for J
      by (rule ok_skip_bind, rule ok_if, rule ok_throw, rule ok_skip, rule locked_ok, rule observe_publishes)
    then show ?case
      by (cases "cl_state r \<noteq> Admitted \<or> cl_input r \<noteq> input \<or> identity \<noteq> cl_identity r")
        (auto simp: bind_ret 1 intro: ok_weaken)
  qed
  from okD [OF this _ assms] obtain r where r: "?claim r" "observation_published r b w'" by auto
  then show ?thesis
    by (auto simp: observation_published_def given_back_def operable_def validateLease_current lease_current_def)
qed

end
