(* ===== verification/TC_Withdraw.thy ===== *)
theory TC_Withdraw
  imports TC_Reserve TC_Restart
begin

text \<open>
  The withdrawal of reservations. A rollback gives back the reservation of its own claim, and
  \<open>rolled_back\<close> says exactly what that does to the file; every request but a ping first drops the
  claims it fences and rolls their reservations back, and only then runs its handler. What a
  request or a restart does to a target it does not name follows: nothing, or the rollback of a
  reservation of this process.
\<close>

section \<open>Rollback of one reservation\<close>

text \<open>The reservation of a claim, in a file.\<close>

definition holds_reservation :: "lease \<Rightarrow> disk \<Rightarrow> bool" where
  "holds_reservation l d \<longleftrightarrow> on_disk (l_controlTargetId l) (\<lambda>e t. e = l_controlEpoch l \<and> reservation_held t l) d"

text \<open>A target after its reservation was given back at time \<open>n\<close>: free under the next fence, otherwise as before.\<close>

definition released :: "timestamp \<Rightarrow> target \<Rightarrow> target" where
  "released n t = (revision t)\<lparr>t_ownership := Free (nextDecimal (ow_fence (t_ownership t))), t_updatedAt := n\<rparr>"

definition rolled_back :: "lease \<Rightarrow> disk \<Rightarrow> disk \<Rightarrow> bool" where
  "rolled_back l d d' \<longleftrightarrow>
     (\<exists>s s' t n. d = StateFile s \<and> d' = StateFile s'
        \<and> s_controlEpoch s = l_controlEpoch l \<and> s_controlEpoch s' = s_controlEpoch s
        \<and> tgt (l_controlTargetId l) (s_targets s) = Some t \<and> reservation_held t l \<and> t_lifecycle t = ACTIVE
        \<and> tgt (l_controlTargetId l) (s_targets s') = Some (released n t)
        \<and> (\<forall>j. j \<noteq> l_controlTargetId l \<longrightarrow> unchanged (tgt j (s_targets s)) (tgt j (s_targets s'))))"

lemma released_fields [simp]:
  "t_controlTargetId (released n t) = t_controlTargetId t" "t_lifecycle (released n t) = t_lifecycle t"
  "t_ownership (released n t) = Free (nextDecimal (ow_fence (t_ownership t)))"
  by (simp_all add: released_def revision_def)

lemma released_not_held [simp]: "\<not> reservation_held (released n t) l"
  by (simp add: reservation_held_def)

lemma held_active: "loaded d s \<Longrightarrow> tgt i (s_targets s) = Some t \<Longrightarrow> reservation_held t l \<Longrightarrow> t_lifecycle t = ACTIVE \<and> d = StateFile s"
  by (cases "t_ownership t")
    (auto simp: loaded_def valid_state_iff list_all_iff isTarget_def reservation_held_def dest: find_SomeD)

lemma free_release:
  "update_first (\<lambda>t. t_controlTargetId t = i) (\<lambda>t. (revision t)\<lparr>t_updatedAt := n\<rparr>)
     (update_first (\<lambda>t. t_controlTargetId t = i) (\<lambda>t. t\<lparr>t_ownership := Free (nextDecimal (ow_fence (t_ownership t)))\<rparr>) ts)
   = update_first (\<lambda>t. t_controlTargetId t = i) (released n) ts"
  by (induction ts) (simp_all add: released_def revision_def)

text \<open>The steps of a rollback, as they change the world.\<close>

lemma free_run:
  "\<exists>n b. freeE P i w = (Inr (), w\<lparr>w_env := b, w_work := upd_target i (released n) (w_work w),
     w_interactiveOwners := (w_interactiveOwners w)(i := None)\<rparr>)"
proof -
  obtain n b where "p_now P (w_env w) = (n, b)" by (cases "p_now P (w_env w)")
  then have "freeE P i w = (Inr (), w\<lparr>w_env := b, w_work := upd_target i (released n) (w_work w),
     w_interactiveOwners := (w_interactiveOwners w)(i := None)\<rparr>)"
    by (simp add: freeE_def resetInteractiveOwners_def modTarget_def touchE_def em_defs envE_def upd_target_def free_release)
  then show ?thesis by blast
qed

lemma save_run:
  "\<exists>b d. snd (saveTerminalControlState P w) = w\<lparr>w_env := b, w_disk := d\<rparr>
     \<and> (d = w_disk w \<and> fst (saveTerminalControlState P w) \<noteq> Inr ()
        \<or> (\<exists>c. prepared_save (p_localeCompare P) (w_work w) = Inr c \<and> d = StateFile c))"
proof (cases "prepared_save (p_localeCompare P) (w_work w)")
  case (Inl e)
  then have "saveTerminalControlState P w = (Inl e, w)"
    by (simp add: saveTerminalControlState_def em_defs)
  then show ?thesis by (intro exI [of _ "w_env w"] exI [of _ "w_disk w"]) simp
next
  case (Inr c)
  obtain out b where p: "p_persist P c (w_env w) = (out, b)" by (cases "p_persist P c (w_env w)")
  then show ?thesis
  proof (cases out)
    case Persisted
    with Inr p show ?thesis
      by (intro exI [of _ b] exI [of _ "StateFile c"]) (simp add: saveTerminalControlState_def em_defs envE_def)
  next
    case (PersistFailed renamed e)
    with Inr p show ?thesis
      by (intro exI [of _ b] exI [of _ "if renamed then StateFile c else w_disk w"])
        (simp add: saveTerminalControlState_def em_defs envE_def)
  qed
qed

lemma release_saved:
  assumes "loaded d s" and "tgt (l_controlTargetId l) (s_targets s) = Some t"
    and "s_controlEpoch s = l_controlEpoch l" and "reservation_held t l"
    and "prepared_save lc (upd_target (l_controlTargetId l) (released n) s) = Inr c"
  shows "rolled_back l d (StateFile c)"
proof -
  let ?i = "l_controlTargetId l" and ?s = "upd_target (l_controlTargetId l) (released n) s"
  have a: "t_lifecycle t = ACTIVE" "d = StateFile s" using held_active [OF assms(1,2,4)] by auto
  have "tgt ?i (s_targets ?s) = Some (released n t)"
    using assms(2) by (simp add: tgt_update_same)
  from saved_live_target [OF assms(5) this] a have "tgt ?i (s_targets c) = Some (released n t)" by simp
  moreover have "unchanged (tgt j (s_targets s)) (tgt j (s_targets c))" if "j \<noteq> ?i" for j
    using unchanged_save [OF assms(5), of j] that by (simp add: tgt_update_other)
  moreover have "s_controlEpoch c = s_controlEpoch s"
    using prepared_save_InrD [OF assms(5)] by (simp add: compact_state_def)
  ultimately show ?thesis
    using a assms(2-4) unfolding rolled_back_def by blast
qed

lemma locked_run:
  assumes "locked P m w = (res, w')"
  shows "(\<exists>e b. res = Inl e \<and> w' = w\<lparr>w_env := b\<rparr>)
     \<or> (\<exists>s b. loaded (w_disk w) s \<and> m (w\<lparr>w_env := b, w_work := s\<rparr>) = (res, w'))"
proof -
  obtain x b where lock: "p_acquireLock P (w_env w) = (x, b)" by (cases "p_acquireLock P (w_env w)")
  obtain u c where uuid: "p_randomUUID P b = (u, c)" by (cases "p_randomUUID P b")
  show ?thesis
  proof (cases x)
    case (Inl e)
    with assms lock show ?thesis by (auto simp: locked_def em_defs callE_def)
  next
    case (Inr a)
    show ?thesis
    proof (cases "w_disk w")
      case NoFile
      with assms lock uuid Inr have "loaded (w_disk w) \<lparr>s_controlEpoch = u, s_targets = []\<rparr>"
        "m (w\<lparr>w_env := c, w_work := \<lparr>s_controlEpoch = u, s_targets = []\<rparr>\<rparr>) = (res, w')"
        by (simp_all add: locked_def em_defs callE_def envE_def loadTerminalControlState_def
            emptyTerminalControlState_def loaded_def)
      then show ?thesis by blast
    next
      case (BadFile t)
      with assms lock Inr show ?thesis
        by (auto simp: locked_def em_defs callE_def loadTerminalControlState_def)
    next
      case (StateFile s)
      show ?thesis
      proof (cases "parseTerminalControlState s")
        case (Inl e)
        with assms lock Inr StateFile show ?thesis
          by (auto simp: locked_def em_defs callE_def loadTerminalControlState_def)
      next
        case (Inr v)
        then have "v = s" "valid_state s" by (auto dest: parse_cases)
        with assms lock \<open>x = Inr a\<close> StateFile have "loaded (w_disk w) s" "m (w\<lparr>w_env := b, w_work := s\<rparr>) = (res, w')"
          by (simp_all add: locked_def em_defs callE_def loadTerminalControlState_def loaded_def)
        then show ?thesis by blast
      qed
    qed
  qed
qed

text \<open>
  What a rollback does, by its result. A rollback that fails may have failed before the file was
  replaced or after.
\<close>

definition rollback_result :: "lease \<Rightarrow> 'b world \<Rightarrow> tc_error + bool \<Rightarrow> 'b world \<Rightarrow> bool" where
  "rollback_result l w res w' \<longleftrightarrow>
     (case res of
        Inr True \<Rightarrow> rolled_back l (w_disk w) (w_disk w')
          \<and> w' = w\<lparr>w_env := w_env w', w_work := w_work w', w_disk := w_disk w',
               w_interactiveOwners := (w_interactiveOwners w)(l_controlTargetId l := None)\<rparr>
      | Inr False \<Rightarrow> \<not> holds_reservation l (w_disk w) \<and> w' = w\<lparr>w_env := w_env w', w_work := w_work w'\<rparr>
      | Inl e \<Rightarrow> (w_disk w' = w_disk w \<or> rolled_back l (w_disk w) (w_disk w'))
          \<and> w' = w\<lparr>w_env := w_env w', w_work := w_work w', w_disk := w_disk w', w_interactiveOwners := w_interactiveOwners w'\<rparr>)"

abbreviation rollback_body :: "'b platform \<Rightarrow> lease \<Rightarrow> ('b, bool) tc" where
  "rollback_body P l \<equiv>
     bindE (getsE w_work) (\<lambda>s.
       case tgt (l_controlTargetId l) (s_targets s) of
         None \<Rightarrow> retE False
       | Some t \<Rightarrow>
           (if s_controlEpoch s \<noteq> l_controlEpoch l \<or> \<not> reservation_held t l then retE False
            else thenE (freeE P (l_controlTargetId l)) (thenE (saveTerminalControlState P) (retE True))))"

lemma rollback_body_run:
  assumes "loaded (w_disk w) s" and "v = w\<lparr>w_env := b, w_work := s\<rparr>"
    and "rollback_body P l v = (res, w')"
  shows "rollback_result l w res w'"
proof -
  from assms(2,3) have run: "(case tgt (l_controlTargetId l) (s_targets s) of None \<Rightarrow> retE False
        | Some t \<Rightarrow> (if s_controlEpoch s \<noteq> l_controlEpoch l \<or> \<not> reservation_held t l then retE False
             else thenE (freeE P (l_controlTargetId l)) (thenE (saveTerminalControlState P) (retE True)))) v = (res, w')"
    by (simp add: bindE_def getsE_def cong: option.case_cong)
  show ?thesis
  proof (cases "\<exists>t. tgt (l_controlTargetId l) (s_targets s) = Some t \<and> s_controlEpoch s = l_controlEpoch l \<and> reservation_held t l")
    case False
    with run have "res = Inr False" "w' = v" by (auto simp: retE_def split: option.splits if_splits)
    moreover have "\<not> holds_reservation l (w_disk w)"
      using False assms(1) by (auto simp: holds_reservation_def on_disk_def loaded_def)
    ultimately show ?thesis using assms(2) by (simp add: rollback_result_def)
  next
    case True
    then obtain t where t: "tgt (l_controlTargetId l) (s_targets s) = Some t" "s_controlEpoch s = l_controlEpoch l"
      "reservation_held t l" by blast
    let ?i = "l_controlTargetId l"
    obtain n b' where f: "freeE P ?i v = (Inr (), v\<lparr>w_env := b', w_work := upd_target ?i (released n) (w_work v),
        w_interactiveOwners := (w_interactiveOwners v)(?i := None)\<rparr>)" (is "_ = (_, ?v)")
      using free_run [of P ?i v] by blast
    obtain b'' d where save: "snd (saveTerminalControlState P ?v) = ?v\<lparr>w_env := b'', w_disk := d\<rparr>"
      and d: "d = w_disk ?v \<and> fst (saveTerminalControlState P ?v) \<noteq> Inr ()
        \<or> (\<exists>c. prepared_save (p_localeCompare P) (w_work ?v) = Inr c \<and> d = StateFile c)"
      using save_run [of P ?v] by blast
    have rb: "d = w_disk w \<and> fst (saveTerminalControlState P ?v) \<noteq> Inr () \<or> rolled_back l (w_disk w) d"
      using d assms(2) release_saved [OF assms(1) t] by auto
    from run t f have "thenE (saveTerminalControlState P) (retE True) ?v = (res, w')"
      by (simp add: thenE_def bindE_def)
    with save rb assms(2) show ?thesis
      by (cases "saveTerminalControlState P ?v"; cases "fst (saveTerminalControlState P ?v)")
        (auto simp: rollback_result_def em_defs)
  qed
qed

lemma rollback_outcome:
  assumes "relayV2RollbackRecord P r w = (res, w')"
  shows "rollback_result (cl_lease r) w res w'"
proof -
  have "relayV2RollbackRecord P r = locked P (rollback_body P (cl_lease r))"
    unfolding relayV2RollbackRecord_def Let_def ..
  with assms have "locked P (rollback_body P (cl_lease r)) w = (res, w')" by simp
  from locked_run [OF this] show ?thesis
  proof (elim disjE exE conjE)
    fix e b assume "res = Inl e" "w' = w\<lparr>w_env := b\<rparr>"
    then show ?thesis by (simp add: rollback_result_def)
  qed (rule rollback_body_run [OF _ refl])
qed

text \<open>
  C21. A rollback gives back the reservation of its own claim and touches nothing else. When it
  reports success, the file held that very reservation, and now holds the same target free under
  the next fence, with its revision and time stamp advanced and nothing else of it changed; the
  controller epoch and every other target are as they were, up to the compaction of retired targets
  by the save; and in memory only the interactive owner of that target is forgotten. When it
  reports that there was nothing to do, the file did not hold the reservation and is as it was. When
  it fails, the file is as it was or the rollback reached it all the same.
\<close>

theorem rollback_frees_own_reservation:
  assumes "relayV2RollbackRecord P r w = (res, w')"
  shows "case res of
       Inr True \<Rightarrow> holds_reservation (cl_lease r) (w_disk w) \<and> rolled_back (cl_lease r) (w_disk w) (w_disk w')
         \<and> w' = w\<lparr>w_env := w_env w', w_work := w_work w', w_disk := w_disk w',
              w_interactiveOwners := (w_interactiveOwners w)(l_controlTargetId (cl_lease r) := None)\<rparr>
     | Inr False \<Rightarrow> \<not> holds_reservation (cl_lease r) (w_disk w) \<and> w' = w\<lparr>w_env := w_env w', w_work := w_work w'\<rparr>
     | Inl e \<Rightarrow> w_disk w' = w_disk w \<or> rolled_back (cl_lease r) (w_disk w) (w_disk w')"
  using rollback_outcome [OF assms]
  by (auto simp: rollback_result_def rolled_back_def holds_reservation_def on_disk_def split: sum.split bool.split)

section \<open>Rollback of several reservations\<close>

lemma unchanged_held: "unchanged x (Some u) \<Longrightarrow> reservation_held u l \<Longrightarrow> \<exists>t. x = Some t \<and> reservation_held t l"
  by (cases x) (auto simp: unchanged_def reservation_held_def split: if_splits)

lemma rolled_back_gone: "rolled_back l d d' \<Longrightarrow> \<not> holds_reservation l d'"
  by (auto simp: rolled_back_def holds_reservation_def on_disk_def)

lemma rolled_back_grants_none:
  assumes "rolled_back l d d'" and "holds_reservation m d'"
  shows "holds_reservation m d"
proof (cases "l_controlTargetId m = l_controlTargetId l")
  case True
  with assms show ?thesis by (auto simp: rolled_back_def holds_reservation_def on_disk_def)
next
  case False
  with assms show ?thesis
    by (fastforce simp: rolled_back_def holds_reservation_def on_disk_def dest: unchanged_held)
qed

text \<open>What the rollback of the claims \<open>cs\<close> may do to a file: release targets one of them reserves.\<close>

definition releases :: "claim_record set \<Rightarrow> disk \<Rightarrow> disk \<Rightarrow> bool" where
  "releases cs d d' \<longleftrightarrow>
     (\<forall>m. holds_reservation m d' \<longrightarrow> holds_reservation m d)
     \<and> (\<forall>i t. tgt i (disk_targets d) = Some t \<longrightarrow> t_lifecycle t \<noteq> GONE \<longrightarrow>
          tgt i (disk_targets d') = Some t
          \<or> (\<exists>c \<in> cs. \<exists>n. l_controlTargetId (cl_lease c) = i \<and> reservation_held t (cl_lease c)
               \<and> tgt i (disk_targets d') = Some (released n t)))"

lemma releases_refl [simp]: "releases cs d d"
  by (simp add: releases_def)

lemma releases_rollback:
  assumes "rolled_back (cl_lease c) d d'"
  shows "releases (insert c cs) d d'"
  unfolding releases_def
proof (intro conjI allI impI)
  fix i t
  assume t: "tgt i (disk_targets d) = Some t" "t_lifecycle t \<noteq> GONE"
  show "tgt i (disk_targets d') = Some t \<or> (\<exists>x \<in> insert c cs. \<exists>n. l_controlTargetId (cl_lease x) = i
      \<and> reservation_held t (cl_lease x) \<and> tgt i (disk_targets d') = Some (released n t))"
  proof (cases "i = l_controlTargetId (cl_lease c)")
    case True
    with assms t show ?thesis by (auto simp: rolled_back_def)
  next
    case False
    with assms have "unchanged (tgt i (disk_targets d)) (tgt i (disk_targets d'))" by (auto simp: rolled_back_def)
    with t show ?thesis by (simp add: unchanged_def)
  qed
qed (rule rolled_back_grants_none [OF assms])

lemma releases_trans:
  assumes "releases cs a b" and "releases cs b c"
  shows "releases cs a c"
  unfolding releases_def
proof (intro conjI allI impI)
  fix i t
  assume t: "tgt i (disk_targets a) = Some t" "t_lifecycle t \<noteq> GONE"
  then consider "tgt i (disk_targets b) = Some t"
    | x n where "x \<in> cs" "l_controlTargetId (cl_lease x) = i" "reservation_held t (cl_lease x)"
      "tgt i (disk_targets b) = Some (released n t)"
    using assms(1) unfolding releases_def by blast
  then show "tgt i (disk_targets c) = Some t \<or> (\<exists>x \<in> cs. \<exists>n. l_controlTargetId (cl_lease x) = i
      \<and> reservation_held t (cl_lease x) \<and> tgt i (disk_targets c) = Some (released n t))"
  proof cases
    case 1
    with assms(2) t(2) show ?thesis by (auto simp: releases_def)
  next
    case 2
    with assms(2) t(2) have "tgt i (disk_targets c) = Some (released n t)" by (fastforce simp: releases_def)
    with 2 show ?thesis by blast
  qed
qed (use assms in \<open>auto simp: releases_def\<close>)

lemma releases_mono: "releases cs d d' \<Longrightarrow> cs \<subseteq> cs' \<Longrightarrow> releases cs' d d'"
  unfolding releases_def by blast

text \<open>The fields of the world that no rollback touches.\<close>

definition registries :: "'b world \<Rightarrow> _" where
  "registries w = (w_claims w, w_observations w, w_observersByTarget w, w_targetExternalStates w, w_externalEpoch w,
     w_externalOperations w, w_exactClosed w, w_nextHandle w, w_trace w)"

lemma registries_only:
  "w' = w\<lparr>w_env := b, w_work := k, w_disk := d, w_interactiveOwners := os\<rparr> \<Longrightarrow> registries w' = registries w"
  "w' = w\<lparr>w_env := b, w_work := k\<rparr> \<Longrightarrow> registries w' = registries w \<and> w_disk w' = w_disk w"
  by (simp_all add: registries_def)

lemma rollback_step:
  assumes "relayV2RollbackRecord P r w = (res, w')"
  shows "registries w' = registries w \<and> releases (insert r cs) (w_disk w) (w_disk w')
     \<and> (\<forall>b. res = Inr b \<longrightarrow> \<not> holds_reservation (cl_lease r) (w_disk w'))"
proof -
  from rollback_outcome [OF assms] consider
      e where "res = Inl e" "w_disk w' = w_disk w \<or> rolled_back (cl_lease r) (w_disk w) (w_disk w')"
        "registries w' = registries w"
    | "res = Inr True" "rolled_back (cl_lease r) (w_disk w) (w_disk w')" "registries w' = registries w"
    | "res = Inr False" "\<not> holds_reservation (cl_lease r) (w_disk w)" "registries w' = registries w" "w_disk w' = w_disk w"
    unfolding rollback_result_def
    by (auto dest: registries_only split: sum.splits bool.splits)
  then show ?thesis
    by cases (auto intro: releases_rollback dest: rolled_back_gone)
qed

lemma rollback_all_outcome:
  assumes "rollback_all P rs w = (res, w')"
  shows "registries w' = registries w \<and> releases (set rs) (w_disk w) (w_disk w')
     \<and> (case res of Inr _ \<Rightarrow> \<forall>c \<in> set rs. \<not> holds_reservation (cl_lease c) (w_disk w')
          | Inl e \<Rightarrow> \<exists>c \<in> set rs. \<exists>v v'. relayV2RollbackRecord P c v = (Inl e, v'))"
  using assms
proof (induction rs arbitrary: w res)
  case Nil
  then show ?case by (auto simp: retE_def)
next
  case (Cons r rs)
  obtain x v where first: "relayV2RollbackRecord P r w = (x, v)" by (cases "relayV2RollbackRecord P r w")
  obtain y v' where rest: "rollback_all P rs v = (y, v')" by (cases "rollback_all P rs v")
  from Cons.prems first rest have w': "v' = w'" and res: "res = (case x of Inl e \<Rightarrow> Inl e | Inr _ \<Rightarrow> y)"
    by (auto simp: em_defs split: sum.splits)
  note a = rollback_step [OF first, of "set rs"] and b = Cons.IH [OF rest [unfolded w']]
  have rel: "releases (insert r (set rs)) (w_disk w) (w_disk w')"
    by (rule releases_trans [where b = "w_disk v"]) (use a b in \<open>auto intro: releases_mono\<close>)
  show ?case
  proof (cases x)
    case (Inl e)
    with a b rel res first show ?thesis by auto
  next
    case (Inr q)
    with a b rel res show ?thesis by (cases y) (auto simp: releases_def)
  qed
qed

section \<open>Withdrawal before a request\<close>

text \<open>The claims a request withdraws, and the fence it lifts when it ends.\<close>

fun withdraws :: "request \<Rightarrow> claim_record \<Rightarrow> bool" where
  "withdraws Ping c = False"
| "withdraws (OwnershipStatus i) c = claims_for i c"
| "withdraws r c = True"

fun end_request :: "request \<Rightarrow> 'b world \<Rightarrow> 'b world" where
  "end_request Ping w = w"
| "end_request (OwnershipStatus i) w = end_target_external i w"
| "end_request r w = end_external w"

lemma withdraws_all: "external_request r \<Longrightarrow> withdraws r = (\<lambda>_. True) \<and> end_request r = end_external"
  by (cases r) auto

abbreviation withdrawn :: "(claim_record \<Rightarrow> bool) \<Rightarrow> 'b world \<Rightarrow> claim_record set" where
  "withdrawn p w \<equiv> {c. live_claim c \<and> p c \<and> (\<exists>h. (h, c) \<in> set (w_claims w))}"

lemma withdraw_outcome:
  assumes "withdraw_claims P p w = (res, w')"
  shows "w_claims w' = filter (\<lambda>(h, c). \<not> p c) (w_claims w) \<and> w_trace w' = w_trace w
     \<and> releases (withdrawn p w) (w_disk w) (w_disk w')
     \<and> (case res of Inr _ \<Rightarrow> \<forall>c \<in> withdrawn p w. \<not> holds_reservation (cl_lease c) (w_disk w')
          | Inl e \<Rightarrow> \<exists>c \<in> withdrawn p w. \<exists>v v'. relayV2RollbackRecord P c v = (Inl e, v'))"
proof -
  let ?rs = "filter live_claim (filter p (map snd (w_claims w)))"
  from assms have run: "rollback_all P ?rs (drop_claims p w) = (res, w')"
    by (simp add: withdraw_claims_def em_defs)
  have rs: "set ?rs = withdrawn p w" by (force simp: image_iff)
  show ?thesis
    using rollback_all_outcome [OF run] unfolding rs
    by (simp add: registries_def drop_claims_def)
qed

lemma external_run:
  "relayV2ExternalOperation P m w =
     (case withdraw_claims P (\<lambda>_. True) (begin_external w) of
        (Inl e, w1) \<Rightarrow> (Inl e, end_external w1)
      | (Inr _, w1) \<Rightarrow> (fst (m w1), end_external (snd (m w1))))"
  by (simp add: relayV2ExternalOperation_def finallyE_def em_defs split: prod.split sum.split)

lemma target_external_run:
  "\<exists>v. w_claims v = w_claims w \<and> w_disk v = w_disk w \<and> w_trace v = w_trace w
     \<and> relayV2TargetExternalOperation P i m w =
       (case withdraw_claims P (claims_for i) v of
          (Inl e, w1) \<Rightarrow> (Inl e, end_target_external i w1)
        | (Inr _, w1) \<Rightarrow> (fst (m w1), end_target_external i (snd (m w1))))"
proof -
  obtain n b where n: "p_now P (w_env w) = (n, b)" by (cases "p_now P (w_env w)")
  obtain n' b' where n': "p_now P b = (n', b')" by (cases "p_now P b")
  let ?v = "begin_target_external i n'
    (w\<lparr>w_targetExternalStates := swept (n - p_relayV2ExactTargetTtlMs P) (w_targetExternalStates w), w_env := b'\<rparr>)"
  have "w_claims ?v = w_claims w" "w_disk ?v = w_disk w" "w_trace ?v = w_trace w"
    by (simp_all add: begin_target_external_def set_external_def Let_def)
  moreover have "relayV2TargetExternalOperation P i m w =
       (case withdraw_claims P (claims_for i) ?v of
          (Inl e, w1) \<Rightarrow> (Inl e, end_target_external i w1)
        | (Inr _, w1) \<Rightarrow> (fst (m w1), end_target_external i (snd (m w1))))"
    using n n'
    by (simp add: relayV2TargetExternalOperation_def sweepRelayV2TargetExternalStates_def finallyE_def em_defs envE_def
        split: prod.split sum.split)
  ultimately show ?thesis by blast
qed

text \<open>A request other than a ping: its claims are withdrawn, then its handler runs, then its fence is lifted.\<close>

lemma request_run:
  assumes "r \<noteq> Ping"
  obtains v x w1 where "w_claims v = w_claims w" "w_disk v = w_disk w" "w_trace v = w_trace w"
    "withdraw_claims P (withdraws r) v = (x, w1)"
    "handle P r w = (case x of Inl e \<Rightarrow> (Inl e, end_request r w1)
       | Inr _ \<Rightarrow> (fst (handleV1 P r w1), end_request r (snd (handleV1 P r w1))))"
proof (cases "external_request r")
  case True
  obtain x w1 where run: "withdraw_claims P (withdraws r) (begin_external w) = (x, w1)"
    by (cases "withdraw_claims P (withdraws r) (begin_external w)")
  then have "handle P r w = (case x of Inl e \<Rightarrow> (Inl e, end_request r w1)
       | Inr _ \<Rightarrow> (fst (handleV1 P r w1), end_request r (snd (handleV1 P r w1))))"
    unfolding withdraws_all [OF True, THEN conjunct1] withdraws_all [OF True, THEN conjunct2] handle_external [OF True] external_run
    by (simp split: sum.split)
  with run show ?thesis by (intro that) (simp_all add: begin_external_def)
next
  case False
  with assms obtain i where r: "r = OwnershipStatus i" by (cases r) auto
  then have eqs: "claims_for i = withdraws r" "end_target_external i = end_request r"
    "relayV2TargetExternalOperation P i (handleV1 P r) w = handle P r w"
    by (auto simp: handle_def simp del: handleV1.simps)
  obtain v where v: "w_claims v = w_claims w" "w_disk v = w_disk w" "w_trace v = w_trace w"
    "handle P r w = (case withdraw_claims P (withdraws r) v of
          (Inl e, w1) \<Rightarrow> (Inl e, end_request r w1)
        | (Inr _, w1) \<Rightarrow> (fst (handleV1 P r w1), end_request r (snd (handleV1 P r w1))))"
    using target_external_run [of w P i "handleV1 P r"] unfolding eqs by blast
  obtain x w1 where "withdraw_claims P (withdraws r) v = (x, w1)" by (cases "withdraw_claims P (withdraws r) v")
  with v show ?thesis by (intro that) (simp_all split: sum.split)
qed

lemma end_request_disk [simp]: "w_disk (end_request r w) = w_disk w"
  by (cases "(r, w)" rule: end_request.cases)
    (simp_all add: end_external_def end_target_external_def set_external_def Let_def)

lemma withdraws_claims: "w_claims (snd (handle P r w)) = filter (\<lambda>(h, c). \<not> withdraws r c) (w_claims w)"
  unfolding claims_after_request by (cases r) auto

text \<open>
  C17. What a request does to the reservations of the process, whatever the backend answers. A ping
  leaves them alone and changes nothing. Every other request first withdraws the claims it fences (a
  status poll those of its own target, any other request all of them): they leave the registry, and
  the durable reservation of each live one is rolled back, which changes no live target of the file
  in any other way than by releasing it. Only when the file holds none of these
  reservations any more does the handler of the request run, from that state; when a rollback
  fails, the request fails with its error and the handler does not run. No terminal is touched
  before that, and no other claim leaves the registry.
\<close>

theorem requests_withdraw_claims:
  "w_claims (snd (handle P r w)) = filter (\<lambda>(h, c). \<not> withdraws r c) (w_claims w)
   \<and> (if r = Ping then snd (handle P r w) = w
      else \<exists>w1. w_claims w1 = filter (\<lambda>(h, c). \<not> withdraws r c) (w_claims w) \<and> w_trace w1 = w_trace w
        \<and> releases (withdrawn (withdraws r) w) (w_disk w) (w_disk w1)
        \<and> ((\<forall>c \<in> withdrawn (withdraws r) w. \<not> holds_reservation (cl_lease c) (w_disk w1))
             \<and> handle P r w = (fst (handleV1 P r w1), end_request r (snd (handleV1 P r w1)))
           \<or> (\<exists>c \<in> withdrawn (withdraws r) w. \<exists>e v v'. relayV2RollbackRecord P c v = (Inl e, v')
                \<and> handle P r w = (Inl e, end_request r w1))))"
proof (cases "r = Ping")
  case True
  then show ?thesis by (simp add: handle_def retE_def)
next
  case False
  obtain v x w1 where v: "w_claims v = w_claims w" "w_disk v = w_disk w" "w_trace v = w_trace w"
    and run: "withdraw_claims P (withdraws r) v = (x, w1)"
    and h: "handle P r w = (case x of Inl e \<Rightarrow> (Inl e, end_request r w1)
       | Inr _ \<Rightarrow> (fst (handleV1 P r w1), end_request r (snd (handleV1 P r w1))))"
    by (rule request_run [OF False])
  from withdraw_outcome [OF run, unfolded v] have out: "w_claims w1 = filter (\<lambda>(h, c). \<not> withdraws r c) (w_claims w)" "w_trace w1 = w_trace w"
    "releases (withdrawn (withdraws r) w) (w_disk w) (w_disk w1)"
    "case x of Inr _ \<Rightarrow> \<forall>c \<in> withdrawn (withdraws r) w. \<not> holds_reservation (cl_lease c) (w_disk w1)
       | Inl e \<Rightarrow> \<exists>c \<in> withdrawn (withdraws r) w. \<exists>v v'. relayV2RollbackRecord P c v = (Inl e, v')"
    by simp_all
  have "(\<forall>c \<in> withdrawn (withdraws r) w. \<not> holds_reservation (cl_lease c) (w_disk w1))
             \<and> handle P r w = (fst (handleV1 P r w1), end_request r (snd (handleV1 P r w1)))
           \<or> (\<exists>c \<in> withdrawn (withdraws r) w. \<exists>e v v'. relayV2RollbackRecord P c v = (Inl e, v')
                \<and> handle P r w = (Inl e, end_request r w1))"
    using out(4) h by (cases x) (auto simp del: handleV1.simps)
  with out(1-3) False show ?thesis
    by (simp only: withdraws_claims if_False) blast
qed

section \<open>Targets a request does not name\<close>


text \<open>
  C8. A controller restart fences everything it finds in use. When it returns, the file has the
  returned epoch, and for every live target that was in the file (one that was not retired) and
  that no claim of this process reserves (a process that starts has none): if it was active and held,
  draining or in the middle of an operation, it is now in recovery, free under the next fence, with
  that operation journalled as in doubt; otherwise its ownership, journal and lifecycle are
  unchanged. Retired targets are subject to the compaction of the save and not covered.
\<close>

theorem restart_fences:
  assumes "initializeContinuity P w = (Inr e, w')" and "w_disk w = StateFile s"
    and "tgt i (s_targets s) = Some t" and "t_lifecycle t \<noteq> GONE"
    and "\<forall>(h, c) \<in> set (w_claims w). l_controlTargetId (cl_lease c) \<noteq> i"
  shows "\<exists>s' u. w_disk w' = StateFile s' \<and> s_controlEpoch s' = e \<and> tgt i (s_targets s') = Some u
     \<and> (if t_lifecycle t = ACTIVE \<and> (\<not> is_Free (t_ownership t) \<or> t_inFlight t \<noteq> None)
        then t_lifecycle u = RECOVERY \<and> t_ownership u = Free (nextDecimal (ow_fence (t_ownership t)))
          \<and> t_inFlight u = None
          \<and> (\<forall>f. t_inFlight t = Some f \<longrightarrow>
               (\<exists>op \<in> set (t_completedOperations u). op_operationId op = if_operationId f \<and> op_disposition op = InDoubt))
        else t_lifecycle u = t_lifecycle t \<and> t_ownership u = t_ownership t \<and> t_inFlight u = t_inFlight t
          \<and> t_completedOperations u = t_completedOperations t)"
proof -
  obtain x w1 where run: "withdraw_claims P (\<lambda>_. True) (begin_external w) = (x, w1)"
    by (cases "withdraw_claims P (\<lambda>_. True) (begin_external w)")
  with assms(1) obtain w2 where init: "initializeContinuity_locked P w1 = (Inr e, w2)" and w': "w' = end_external w2"
    by (cases x; cases "initializeContinuity_locked P w1") (auto simp: initializeContinuity_def external_run)
  from withdraw_outcome [OF run] assms(2-5) have "tgt i (disk_targets (w_disk w1)) = Some t"
    by (fastforce simp: releases_def begin_external_def)
  then obtain s1 where "w_disk w1 = StateFile s1" "tgt i (s_targets s1) = Some t" by (cases "w_disk w1") auto
  from locked_restart_fences [OF init this assms(4)] show ?thesis by (simp add: w' end_external_def)
qed

end
