(* ===== verification/TC_ExactWitnesses.thy ===== *)
theory TC_ExactWitnesses
  imports TC_Witnesses TC_Withdraw
begin

text \<open>
  Concrete runs of the exact-target operations on the platform \<open>demo\<close>: a reservation is prepared,
  admitted, and consumed for input or for an observation, or rolled back; a request withdraws a
  reservation before it runs, and a restart fences what is in use.
\<close>

definition phone :: owner where "phone = \<lparr>okind = RelayV2, instanceId = ''r1''\<rparr>"

definition demo_input :: exact_input where
  "demo_input = \<lparr>xi_hostId = ''h'', xi_scopeId = ''s'', xi_sessionId = ''n'', xi_pane = 0, xi_processTarget = demo_process,
     xi_backendInstanceKey = ''k'', xi_name = ''tw-main'', xi_kind = WorktreeSession, xi_incarnation = demo_incarnation,
     xi_owner = phone\<rparr>"

abbreviation prepare_demo :: "nat world \<Rightarrow> (tc_error + preparation) \<times> nat world" where
  "prepare_demo \<equiv> prepareRelayV2ExactTargetForProcess demo demo_input (Some demo_process)"



abbreviation admitted_world :: "nat world" where
  "admitted_world \<equiv> call_run demo [Prepare demo_input (Some demo_process), Fence 0 demo_input] free_world"

lemma consume_run:
  "case fst (consumeRelayV2ExactTarget demo 0 demo_input phone admitted_world) of Inr l \<Rightarrow> l_fence l = ''5'' | Inl _ \<Rightarrow> False"
  by code_simp

theorem claim_is_used_once_witness:
  "\<exists>w1. claim_used demo 0 admitted_world w1 \<and> (\<forall>w2. \<not> claim_used demo 0 (call_run demo [IdleSnapshot] w1) w2)"
proof -
  obtain l w1 where "consumeRelayV2ExactTarget demo 0 demo_input phone admitted_world = (Inr l, w1)"
    using consume_run by (cases "consumeRelayV2ExactTarget demo 0 demo_input phone admitted_world")
      (auto simp del: fold_simps split: sum.splits)
  then have used: "claim_used demo 0 admitted_world w1" unfolding claim_used_def by blast
  have "w_claims free_world = []" by (simp add: free_world_def demo_world_def)
  from claim_is_used_once [OF this used] used show ?thesis by blast
qed

definition demo_claim :: claim_record where
  "demo_claim = (case w_claims (snd (prepare_demo free_world)) of (h, r) # _ \<Rightarrow> r)"

lemma rollback_run:
  "fst (relayV2RollbackRecord demo demo_claim (snd (prepare_demo free_world))) = Inr True"
  by code_simp

theorem rollback_frees_own_reservation_witness:
  "\<exists>w'. relayV2RollbackRecord demo demo_claim (snd (prepare_demo free_world)) = (Inr True, w')
     \<and> holds_reservation (cl_lease demo_claim) (w_disk (snd (prepare_demo free_world)))
     \<and> rolled_back (cl_lease demo_claim) (w_disk (snd (prepare_demo free_world))) (w_disk w')
     \<and> w_claims w' = w_claims (snd (prepare_demo free_world))"
proof -
  obtain w' where run: "relayV2RollbackRecord demo demo_claim (snd (prepare_demo free_world)) = (Inr True, w')"
    using rollback_run by (cases "relayV2RollbackRecord demo demo_claim (snd (prepare_demo free_world))") simp
  from rollback_frees_own_reservation [OF run] have
    "holds_reservation (cl_lease demo_claim) (w_disk (snd (prepare_demo free_world)))"
    "rolled_back (cl_lease demo_claim) (w_disk (snd (prepare_demo free_world))) (w_disk w')"
    "w_claims w' = w_claims (snd (prepare_demo free_world))"
    by (auto dest: arg_cong [of w' _ w_claims])
  with run show ?thesis by blast
qed

definition demo_identity :: exact_identity where
  "demo_identity = \<lparr>id_controlTargetId = ''t1'', id_controlEpoch = ''e1'', id_targetIncarnationProof = ''twct2.t11''\<rparr>"

definition early_claim :: claim_record where
  "early_claim = \<lparr>cl_preparationId = ''p'', cl_input = demo_input, cl_identity = demo_identity,
     cl_lease = demo_lease ''5'' phone, cl_externalEpoch = 0, cl_targetExternalEpoch = 0, cl_state = Prepared\<rparr>"

definition claim_world :: "nat world" where
  "claim_world = (demo_world [demo_target ''t1'' (Held ''5'' phone ''l1'' 1000)])
     \<lparr>w_claims := [(0, early_claim\<lparr>cl_state := Admitted\<rparr>)], w_nextHandle := 1\<rparr>"

lemma observe_run:
  "case fst (consumeRelayV2ExactObservation demo 0 demo_input demo_identity None claim_world) of
     Inr b \<Rightarrow> bd_outputCursor b = 7 | Inl _ \<Rightarrow> False"
  by code_simp

theorem observation_grants_no_input_witness:
  "\<exists>b w' s t. consumeRelayV2ExactObservation demo 0 demo_input demo_identity None claim_world = (Inr b, w')
     \<and> w_disk w' = StateFile s \<and> tgt ''t1'' (s_targets s) = Some t \<and> t_lifecycle t = ACTIVE \<and> is_Free (t_ownership t)
     \<and> (\<forall>l d. validateLease s t l d \<noteq> Inr ())"
proof -
  obtain b w' where run: "consumeRelayV2ExactObservation demo 0 demo_input demo_identity None claim_world = (Inr b, w')"
    using observe_run by (cases "consumeRelayV2ExactObservation demo 0 demo_input demo_identity None claim_world")
      (auto simp del: fold_simps split: sum.splits)
  from observation_grants_no_input [OF run] obtain r :: claim_record and s t where
    "w_disk w' = StateFile s" "tgt (id_controlTargetId demo_identity) (s_targets s) = Some t"
    "t_lifecycle t = ACTIVE" "t_ownership t = Free (nextDecimal (l_fence (cl_lease r)))" "\<forall>l d. validateLease s t l d \<noteq> Inr ()"
    by blast
  moreover from this(2) have "tgt ''t1'' (s_targets s) = Some t" by (simp add: demo_identity_def)
  ultimately show ?thesis using run by (intro exI conjI) (assumption | simp)+
qed

theorem external_request_fences_claims_witness:
  "claim_unfenced early_claim free_world
   \<and> \<not> claim_unfenced early_claim (call_run demo [IdleSnapshot] (snd (handle demo (LeaseAcquire ''t1'' dash None) free_world)))"
proof
  show "claim_unfenced early_claim free_world"
    by (simp add: claim_unfenced_def early_claim_def free_world_def demo_world_def external_state_of_def)
  show "\<not> claim_unfenced early_claim (call_run demo [IdleSnapshot] (snd (handle demo (LeaseAcquire ''t1'' dash None) free_world)))"
    by (rule external_request_fences_claims) (simp_all add: early_claim_def free_world_def demo_world_def)
qed

section \<open>Withdrawal\<close>

abbreviation acquire_t1 :: request where "acquire_t1 \<equiv> LeaseAcquire ''t1'' dash None"

lemma withdraw_run: "case fst (handle demo acquire_t1 claim_world) of Inr (Leased l v) \<Rightarrow> l_fence l = ''7'' | _ \<Rightarrow> False"
  by code_simp

theorem requests_withdraw_claims_witness:
  "holds_reservation (demo_lease ''5'' phone) (w_disk claim_world)
   \<and> (\<exists>w1. w_claims w1 = [] \<and> \<not> holds_reservation (demo_lease ''5'' phone) (w_disk w1)
        \<and> handle demo acquire_t1 claim_world = (fst (handleV1 demo acquire_t1 w1), end_external (snd (handleV1 demo acquire_t1 w1))))"
proof
  show "holds_reservation (demo_lease ''5'' phone) (w_disk claim_world)"
    by (simp add: holds_reservation_def on_disk_def claim_world_def demo_world_def demo_target_def demo_lease_def reservation_held_def)
  have c: "early_claim\<lparr>cl_state := Admitted\<rparr> \<in> withdrawn (withdraws acquire_t1) claim_world"
    by (simp add: claim_world_def live_claim_def)
  have ok: "\<forall>e. fst (handle demo acquire_t1 claim_world) \<noteq> Inl e"
    using withdraw_run by (auto simp del: handleV1.simps)
  from requests_withdraw_claims [of demo acquire_t1 claim_world]
  obtain w1 where w1: "w_claims w1 = filter (\<lambda>(h, c). \<not> withdraws acquire_t1 c) (w_claims claim_world)"
    "\<forall>c \<in> withdrawn (withdraws acquire_t1) claim_world. \<not> holds_reservation (cl_lease c) (w_disk w1)"
    "handle demo acquire_t1 claim_world = (fst (handleV1 demo acquire_t1 w1), end_request acquire_t1 (snd (handleV1 demo acquire_t1 w1)))"
    using ok by (auto simp del: handleV1.simps)
  from w1(2) c have "\<not> holds_reservation (demo_lease ''5'' phone) (w_disk w1)" by (fastforce simp: early_claim_def)
  with w1(1,3) show "\<exists>w1. w_claims w1 = [] \<and> \<not> holds_reservation (demo_lease ''5'' phone) (w_disk w1)
        \<and> handle demo acquire_t1 claim_world = (fst (handleV1 demo acquire_t1 w1), end_external (snd (handleV1 demo acquire_t1 w1)))"
    by (intro exI [of _ w1]) (simp del: handleV1.simps)
qed


lemma restart_run: "case fst (initializeContinuity demo held_world) of Inr e \<Rightarrow> e = ''u10'' | _ \<Rightarrow> False"
  by code_simp

theorem restart_fences_witness:
  "\<exists>w' s' u. initializeContinuity demo held_world = (Inr ''u10'', w') \<and> w_disk w' = StateFile s'
     \<and> s_controlEpoch s' = ''u10'' \<and> tgt ''t1'' (s_targets s') = Some u
     \<and> t_lifecycle u = RECOVERY \<and> t_ownership u = Free ''5''"
proof -
  obtain w' where run: "initializeContinuity demo held_world = (Inr ''u10'', w')"
    using restart_run by (cases "initializeContinuity demo held_world") (auto split: sum.splits)
  have fence: "nextDecimal ''4'' = ''5''" by code_simp
  have d: "w_disk held_world = StateFile \<lparr>s_controlEpoch = ''e1'', s_targets = [held_target, demo_target ''t2'' (Free ''0'')]\<rparr>"
    by (simp add: held_world_def demo_world_def)
  have t: "tgt ''t1'' (s_targets \<lparr>s_controlEpoch = ''e1'', s_targets = [held_target, demo_target ''t2'' (Free ''0'')]\<rparr>) = Some held_target"
    by (simp add: held_target_def demo_target_def)
  have "t_lifecycle held_target \<noteq> GONE" "t_lifecycle held_target = ACTIVE" "t_ownership held_target = Held ''4'' dash ''l1'' 1000"
    by (simp_all add: held_target_def demo_target_def)
  moreover have "\<forall>(h, c) \<in> set (w_claims held_world). l_controlTargetId (cl_lease c) \<noteq> ''t1''"
    by (simp add: held_world_def demo_world_def)
  ultimately show ?thesis using restart_fences [OF run d t] run fence by (auto simp: fence)
qed

end
