(* ===== verification/JS_Json.thy ===== *)
theory JS_Json
  imports TW_Prelude "HOL-Library.List_Lexorder"
begin

text \<open>
  JSON values as the program handles them, and \<open>canonicalJson\<close> (canonicalJson.ts), the
  sorted-key serialisation whose bytes feed the fingerprints.

  A JavaScript string is a list of UTF-16 code units, here numbers below \<open>2 ^ 16\<close>; the type of
  strings is a parameter of \<open>jvalue\<close>, since the terminal-control request parser works on the
  development's \<open>string\<close>s. An object is the list of its members in the order in which they
  were written; the definitions that read an object look a member up by its name. A number is an
  integer, or a decimal \<open>m * 10 ^ e\<close> that stands for the double nearest to it.
\<close>

datatype 's jvalue =
    JNull
  | JBool bool
  | JInt int
  | JDec int int
  | JStr 's
  | JArr "'s jvalue list"
  | JObj "('s \<times> 's jvalue) list"

type_synonym jtext = "nat list"

section \<open>Serialisation\<close>

definition hex_digit_unit :: "nat \<Rightarrow> nat" where
  "hex_digit_unit d = (if d < 10 then 48 + d else 87 + d)"

definition unicode_escape :: "nat \<Rightarrow> jtext" where
  "unicode_escape c =
     [92, 117, hex_digit_unit (c div 4096), hex_digit_unit (c div 256 mod 16),
      hex_digit_unit (c div 16 mod 16), hex_digit_unit (c mod 16)]"

definition high_surrogate :: "nat \<Rightarrow> bool" where
  "high_surrogate c \<longleftrightarrow> 55296 \<le> c \<and> c < 56320"

definition low_surrogate :: "nat \<Rightarrow> bool" where
  "low_surrogate c \<longleftrightarrow> 56320 \<le> c \<and> c < 57344"

definition quote_unit :: "nat \<Rightarrow> jtext" where
  "quote_unit c =
     (if c = 34 then [92, 34] else if c = 92 then [92, 92]
      else if c = 8 then [92, 98] else if c = 12 then [92, 102] else if c = 10 then [92, 110]
      else if c = 13 then [92, 114] else if c = 9 then [92, 116]
      else if c < 32 \<or> high_surrogate c \<or> low_surrogate c then unicode_escape c
      else [c])"

text \<open>\<open>JSON.stringify\<close> of a string: a surrogate pair stands for itself, a lone surrogate is escaped.\<close>

fun quote_units :: "jtext \<Rightarrow> jtext" where
  "quote_units [] = []"
| "quote_units [c] = quote_unit c"
| "quote_units (c # d # ds) =
     (if high_surrogate c \<and> low_surrogate d then c # d # quote_units ds
      else quote_unit c @ quote_units (d # ds))"

definition stringify_string :: "jtext \<Rightarrow> jtext" where
  "stringify_string s = 34 # quote_units s @ [34]"

fun decimal_units :: "nat \<Rightarrow> jtext" where
  "decimal_units n = (if n < 10 then [48 + n] else decimal_units (n div 10) @ [48 + n mod 10])"

declare decimal_units.simps [simp del]

definition stringify_int :: "int \<Rightarrow> jtext" where
  "stringify_int n = (if n < 0 then 45 # decimal_units (nat (- n)) else decimal_units (nat n))"

fun join_units :: "jtext list \<Rightarrow> jtext" where
  "join_units [] = []"
| "join_units [x] = x"
| "join_units (x # xs) = x @ 44 # join_units xs"

text \<open>
  \<open>canonicalJson\<close>. The text of a number that is not an integer is the parameter \<open>decimal\<close>
  (the shortest decimal of the double). The members are serialised before they are sorted by
  key, which gives the same list.
\<close>

primrec canonicalJson :: "(int \<Rightarrow> int \<Rightarrow> jtext) \<Rightarrow> jtext jvalue \<Rightarrow> jtext" where
  "canonicalJson decimal JNull = [110, 117, 108, 108]"
| "canonicalJson decimal (JBool b) = (if b then [116, 114, 117, 101] else [102, 97, 108, 115, 101])"
| "canonicalJson decimal (JInt n) = stringify_int n"
| "canonicalJson decimal (JDec m e) = decimal m e"
| "canonicalJson decimal (JStr s) = stringify_string s"
| "canonicalJson decimal (JArr vs) = 91 # join_units (map (canonicalJson decimal) vs) @ [93]"
| "canonicalJson decimal (JObj kvs) =
     123 # join_units (map (\<lambda>(k, text). stringify_string k @ 58 # text)
       (sort_key fst (map (map_prod id (canonicalJson decimal)) kvs))) @ [125]"

end
