(* ===== verification/JS_Date.thy ===== *)
theory JS_Date
  imports TC_Store
begin

text \<open>
  The part of JavaScript's \<open>Date\<close> the program uses on timestamps: \<open>toISOString\<close> on the proleptic
  Gregorian calendar, and the time value a canonical ISO text denotes. The two are inverse on the
  range of a \<open>Date\<close>, which justifies representing a canonical timestamp by its time value.
\<close>

section \<open>Calendar\<close>

text \<open>
  The date of a day counted from 1970-01-01. Years are counted from March within cycles of 400
  years of 146097 days, so that a leap day is the last day of its year.
\<close>

definition cycle_year :: "int \<Rightarrow> int \<times> int" where
  "cycle_year doe =
     (let c = min (doe div 36524) 3; r = doe - 36524 * c; q = r div 1461; r4 = r mod 1461; y = min (r4 div 365) 3
      in (100 * c + 4 * q + y, r4 - 365 * y))"

definition civil_from_days :: "int \<Rightarrow> int \<times> int \<times> int" where
  "civil_from_days days =
     (let z = days + 719468; era = z div 146097; (yoe, doy) = cycle_year (z mod 146097);
          mp = (5 * doy + 2) div 153; m = (if mp < 10 then mp + 3 else mp - 9)
      in (400 * era + yoe + (if m \<le> 2 then 1 else 0), m, doy - (153 * mp + 2) div 5 + 1))"

definition days_from_civil :: "int \<Rightarrow> int \<Rightarrow> int \<Rightarrow> int" where
  "days_from_civil y m d =
     (let y' = (if m \<le> 2 then y - 1 else y); yoe = y' mod 400; mp = (if m \<le> 2 then m + 9 else m - 3)
      in 146097 * (y' div 400) + 365 * yoe + yoe div 4 - yoe div 100 + (153 * mp + 2) div 5 + d - 1 - 719468)"

lemma div_bounds: "0 < c \<Longrightarrow> c * (x div c) \<le> x \<and> x < c * (x div c) + c" for c x :: int
  using pos_mod_bound [of c x] pos_mod_sign [of c x] mult_div_mod_eq [of c x] by linarith

lemma cycle_year:
  assumes "0 \<le> doe" "doe < 146097" and "cycle_year doe = (yoe, doy)"
  shows "0 \<le> yoe \<and> yoe < 400" and "0 \<le> doy \<and> doy < 366" and "365 * yoe + yoe div 4 - yoe div 100 + doy = doe"
proof -
  define c r where "c = min (doe div 36524) 3" and "r = doe - 36524 * c"
  define q r4 where "q = r div 1461" and "r4 = r mod 1461"
  define y where "y = min (r4 div 365) 3"
  have s: "yoe = 100 * c + 4 * q + y" "doy = r4 - 365 * y"
    using assms(3) by (simp_all add: cycle_year_def Let_def c_def r_def q_def r4_def y_def)
  have c: "0 \<le> c" "c \<le> 3" using assms(1) by (simp_all add: c_def)
  have r: "0 \<le> r" "r \<le> 36524"
    using assms(1,2) div_bounds [of 36524 doe] unfolding r_def c_def by (simp_all add: min_def)
  have q: "0 \<le> q" "q \<le> 24" "r = 1461 * q + r4" "0 \<le> r4" "r4 < 1461"
    using r div_bounds [of 1461 r] by (simp_all add: q_def r4_def)
  have y: "0 \<le> y" "y \<le> 3" "0 \<le> r4 - 365 * y" "r4 - 365 * y < 366" using q(4,5) div_bounds [of 365 r4] unfolding y_def by (auto simp: min_def)
  have "(100 * c + 4 * q + y) div 4 = 25 * c + q" "(100 * c + 4 * q + y) div 100 = c"
    using y q(1,2) by (intro int_div_pos_eq [of _ _ _ y] int_div_pos_eq [of _ _ _ "4 * q + y"]; simp)+
  with s y q r c show "0 \<le> yoe \<and> yoe < 400" and "0 \<le> doy \<and> doy < 366" and "365 * yoe + yoe div 4 - yoe div 100 + doy = doe"
    by (simp_all add: r_def)
qed

lemma regroup: "a + b + q - h + k + (doy - k + 1) - 1 - n = a + (b + q - h + doy) - n" for a :: int
  by simp

lemma civil_bounds:
  assumes "civil_from_days days = (y, m, d)"
  shows "1 \<le> m \<and> m \<le> 12" and "1 \<le> d \<and> d \<le> 31" and "days_from_civil y m d = days"
proof -
  define z where "z = days + 719468"
  obtain yoe doy where c: "cycle_year (z mod 146097) = (yoe, doy)" by force
  note b = cycle_year [OF _ _ c, simplified]
  define mp where "mp = (5 * doy + 2) div 153"
  have e: "m = (if mp < 10 then mp + 3 else mp - 9)" "y = 400 * (z div 146097) + yoe + (if m \<le> 2 then 1 else 0)"
    "d = doy - (153 * mp + 2) div 5 + 1"
    using assms c by (auto simp: civil_from_days_def Let_def z_def mp_def split: prod.splits)
  define k where "k = (153 * mp + 2) div 5"
  have m5: "153 * mp \<le> 5 * doy + 2" "5 * doy + 2 < 153 * mp + 153" and k5: "5 * k \<le> 153 * mp + 2" "153 * mp + 2 < 5 * k + 5"
    using div_bounds [of 153 "5 * doy + 2"] div_bounds [of 5 "153 * mp + 2"] unfolding mp_def k_def by simp_all
  have mp: "0 \<le> mp" "mp \<le> 11" using b(2) m5 by linarith+
  then show "1 \<le> m \<and> m \<le> 12" using e(1) by auto
  show "1 \<le> d \<and> d \<le> 31" using m5 k5 e(3) unfolding k_def [symmetric] by linarith
  have inverse: "(if m \<le> 2 then m + 9 else m - 3) = mp" "(if m \<le> 2 then y - 1 else y) = 400 * (z div 146097) + yoe"
    using e(1,2) mp by auto
  have "(400 * (z div 146097) + yoe) div 400 = z div 146097" "(400 * (z div 146097) + yoe) mod 400 = yoe"
    using b(1) by simp_all
  then have "days_from_civil y m d = 146097 * (z div 146097) + (365 * yoe + yoe div 4 - yoe div 100 + doy) - 719468"
    unfolding days_from_civil_def inverse Let_def e(3) by (simp only: regroup)
  then show "days_from_civil y m d = days" unfolding b(3) mult_div_mod_eq z_def by simp
qed

lemma year_range:
  assumes "civil_from_days days = (y, m, d)" and "- 100000000 \<le> days" "days \<le> 100000000"
  shows "- 999999 \<le> y" and "y \<le> 999999"
proof -
  define z where "z = days + 719468"
  obtain yoe doy where c: "cycle_year (z mod 146097) = (yoe, doy)" by force
  note b = cycle_year(1) [OF _ _ c, simplified]
  have "y = 400 * (z div 146097) + yoe + (if m \<le> 2 then 1 else 0)"
    using assms(1) c by (auto simp: civil_from_days_def Let_def z_def split: prod.splits)
  moreover have "- 680 \<le> z div 146097" "z div 146097 \<le> 689"
    using assms(2,3) div_bounds [of 146097 z] by (simp_all add: z_def)
  ultimately show "- 999999 \<le> y" "y \<le> 999999" using b by (simp_all split: if_split)
qed

section \<open>ISO text\<close>

fun pad :: "nat \<Rightarrow> nat \<Rightarrow> string" where
  "pad 0 n = []"
| "pad (Suc w) n = pad w (n div 10) @ [digit_char (n mod 10)]"

lemma pad_length [simp]: "length (pad w n) = w"
  by (induction w arbitrary: n) simp_all

lemma pad_value: "n < 10 ^ w \<Longrightarrow> decimal_value (pad w n) = n"
proof (induction w arbitrary: n)
  case 0
  then show ?case by (simp add: decimal_value_def)
next
  case (Suc w)
  then have "n div 10 < 10 ^ w" by (simp add: less_mult_imp_div_less mult.commute)
  with Suc.IH show ?case by simp
qed

definition year_text :: "int \<Rightarrow> string" where
  "year_text y =
     (if 0 \<le> y \<and> y \<le> 9999 then pad 4 (nat y)
      else if 0 \<le> y then CHR ''+'' # pad 6 (nat y) else CHR ''-'' # pad 6 (nat (- y)))"

definition toISOString :: "timestamp \<Rightarrow> string" where
  "toISOString t =
     (case civil_from_days (t div 86400000) of (y, m, d) \<Rightarrow>
        (let r = nat (t mod 86400000) in
         year_text y @ CHR ''-'' # pad 2 (nat m) @ CHR ''-'' # pad 2 (nat d) @ CHR ''T'' # pad 2 (r div 3600000)
         @ CHR '':'' # pad 2 (r div 60000 mod 60) @ CHR '':'' # pad 2 (r div 1000 mod 60)
         @ CHR ''.'' # pad 3 (r mod 1000) @ [CHR ''Z'']))"

text \<open>The time value that the digits of an ISO text denote.\<close>

definition signed_year :: "string \<Rightarrow> bool" where
  "signed_year s \<longleftrightarrow> take 1 s = [CHR ''+''] \<or> take 1 s = [CHR ''-'']"

definition iso_year :: "string \<Rightarrow> int" where
  "iso_year s =
     (if signed_year s then (if take 1 s = [CHR ''-''] then - 1 else 1) * int (decimal_value (take 6 (drop 1 s)))
      else int (decimal_value (take 4 s)))"

definition iso_time :: "string \<Rightarrow> timestamp" where
  "iso_time s =
     (let r = drop (if signed_year s then 7 else 4) s; n = (\<lambda>i k. int (decimal_value (take k (drop i r)))) in
      86400000 * days_from_civil (iso_year s) (n 1 2) (n 4 2)
      + 3600000 * n 7 2 + 60000 * n 10 2 + 1000 * n 13 2 + n 16 3)"

text \<open>
  \<open>Date.parse\<close> followed by the comparison with \<open>toISOString\<close>: whatever \<open>Date.parse\<close> makes of
  another text, only a canonical one prints back as itself.
\<close>

definition date_parse :: "string \<Rightarrow> timestamp option" where
  "date_parse s = (let t = iso_time s in if isCanonicalTimestamp t \<and> toISOString t = s then Some t else None)"

lemma pad_head: "\<exists>c cs. pad (Suc w) n = c # cs \<and> is_digit c"
proof (induction w arbitrary: n)
  case (Suc w)
  from Suc [of "n div 10"] obtain c cs where "pad (Suc w) (n div 10) = c # cs" "is_digit c" by blast
  then show ?case unfolding pad.simps(2) [of "Suc w"] by simp
qed simp

lemma pad_unsigned: "\<not> signed_year (pad 4 n @ s)"
  using pad_head [of 3 n] by (auto simp: signed_year_def is_digit_def)

lemma year_text_read:
  assumes "- 999999 \<le> y" "y \<le> 999999"
  shows "iso_year (year_text y @ s) = y" and "drop (if signed_year (year_text y @ s) then 7 else 4) (year_text y @ s) = s"
proof -
  show "iso_year (year_text y @ s) = y"
    using assms by (simp add: year_text_def iso_year_def pad_unsigned pad_value) (simp add: signed_year_def pad_value)
  show "drop (if signed_year (year_text y @ s) then 7 else 4) (year_text y @ s) = s"
    by (simp add: year_text_def pad_unsigned) (simp add: signed_year_def)
qed

lemma iso_fields:
  assumes "length a = 2" "length b = 2" "length c = 2" "length d = 2" "length e = 2" "length f = 3"
  shows "take 2 (drop 1 (s1 # a @ s2 # b @ s3 # c @ s4 # d @ s5 # e @ s6 # f @ s7)) = a"
    "take 2 (drop 4 (s1 # a @ s2 # b @ s3 # c @ s4 # d @ s5 # e @ s6 # f @ s7)) = b"
    "take 2 (drop 7 (s1 # a @ s2 # b @ s3 # c @ s4 # d @ s5 # e @ s6 # f @ s7)) = c"
    "take 2 (drop 10 (s1 # a @ s2 # b @ s3 # c @ s4 # d @ s5 # e @ s6 # f @ s7)) = d"
    "take 2 (drop 13 (s1 # a @ s2 # b @ s3 # c @ s4 # d @ s5 # e @ s6 # f @ s7)) = e"
    "take 3 (drop 16 (s1 # a @ s2 # b @ s3 # c @ s4 # d @ s5 # e @ s6 # f @ s7)) = f"
  using assms by simp_all

lemma clock: "a = 60 * b + c \<Longrightarrow> d = 60 * a + e \<Longrightarrow> r = 1000 * d + f \<Longrightarrow> 3600000 * b + 60000 * c + 1000 * e + f = (r :: nat)"
  by simp

lemma iso_time_read:
  assumes "isCanonicalTimestamp t"
  shows "iso_time (toISOString t) = t"
proof -
  obtain y m d where c: "civil_from_days (t div 86400000) = (y, m, d)" by (metis prod_cases3)
  note b = civil_bounds [OF c]
  have "- 100000000 \<le> t div 86400000" "t div 86400000 \<le> 100000000"
    using assms div_bounds [of 86400000 t] by (simp_all add: isCanonicalTimestamp_def)
  then have y: "- 999999 \<le> y" "y \<le> 999999" using year_range [OF c] by blast+
  define r where "r = nat (t mod 86400000)"
  have r: "r < 86400000" "t = 86400000 * (t div 86400000) + int r" by (simp_all add: r_def nat_less_iff)
  have "r div 3600000 < 10 ^ 2" "r div 60000 mod 60 < 10 ^ 2" "r div 1000 mod 60 < 10 ^ 2" "r mod 1000 < 10 ^ 3"
    using r(1) mod_less_divisor [of 60 "r div 60000"] mod_less_divisor [of 60 "r div 1000"] by simp_all
  note v = this [THEN pad_value]
  have md: "decimal_value (pad 2 (nat m)) = nat m" "decimal_value (pad 2 (nat d)) = nat d"
    using b(1,2) by (intro pad_value; simp add: nat_less_iff)+
  have hms: "3600000 * (r div 3600000) + 60000 * (r div 60000 mod 60) + 1000 * (r div 1000 mod 60) + r mod 1000 = r"
    by (rule clock [of "r div 60000" _ _ "r div 1000"]) (use div_mult2_eq [of r 60000 60] div_mult2_eq [of r 1000 60] in simp_all)
  have "iso_time (toISOString t) = 86400000 * days_from_civil y (int (nat m)) (int (nat d))
      + (3600000 * int (r div 3600000) + 60000 * int (r div 60000 mod 60) + 1000 * int (r div 1000 mod 60) + int (r mod 1000))"
    unfolding toISOString_def c prod.case Let_def iso_time_def year_text_read [OF y] r_def [symmetric]
    by (simp only: iso_fields pad_length v md add.assoc)
  also have "\<dots> = 86400000 * (t div 86400000) + int r"
    using b(1,2,3) arg_cong [OF hms, of int] by simp
  finally show ?thesis using r(2) by simp
qed

lemma date_parse_iso: "isCanonicalTimestamp t \<Longrightarrow> date_parse (toISOString t) = Some t"
  by (simp add: date_parse_def iso_time_read)

lemma date_parse_Some: "date_parse s = Some t \<longleftrightarrow> isCanonicalTimestamp t \<and> toISOString t = s"
  by (auto simp: date_parse_def iso_time_read Let_def split: if_splits)

lemma pad_digits: "c \<in> set (pad w n) \<Longrightarrow> is_digit c"
  by (induction w arbitrary: n) auto

lemma iso_stored: "isStoredString (toISOString t) 64"
proof -
  have "length (year_text y) \<le> 7" for y by (simp add: year_text_def)
  moreover have "c \<noteq> CHR 0x00 \<and> c \<noteq> CHR 0x0D \<and> c \<noteq> CHR 0x0A" if "is_digit c" for c
    using that by (auto simp: is_digit_def)
  ultimately show ?thesis
    by (auto simp: isStoredString_def toISOString_def Let_def list_all_iff year_text_def dest!: pad_digits split: prod.split)
qed

end
