(* ===== verification/JS_Base64.thy ===== *)
theory JS_Base64
  imports TC_Store
begin

text \<open>
  Base64 as \<open>Buffer\<close> writes it. A byte is a \<open>char\<close>. \<open>is_base64\<close> is the regular expression the
  request parser applies before it decodes; on such a text \<open>Buffer.from(text, "base64")\<close> is the
  standard decoding, in which the unused bits of a last group are dropped.
\<close>

definition base64_char :: "nat \<Rightarrow> char" where
  "base64_char n = char_of (if n < 26 then 65 + n else if n < 52 then 71 + n else if n < 62 then n - 4
     else if n = 62 then 43 else 47)"

definition base64_alphabet :: "char \<Rightarrow> bool" where
  "base64_alphabet c \<longleftrightarrow> (let n = (of_char c :: nat) in
     65 \<le> n \<and> n \<le> 90 \<or> 97 \<le> n \<and> n \<le> 122 \<or> 48 \<le> n \<and> n \<le> 57 \<or> n = 43 \<or> n = 47)"

definition base64_value :: "char \<Rightarrow> nat" where
  "base64_value c = (let n = of_char c in
     if n = 43 then 62 else if n = 47 then 63 else if n \<le> 57 then n + 4 else if n \<le> 90 then n - 65 else n - 71)"

text \<open>\<open>^(?:[A-Za-z0-9+/]{4})*(?:[A-Za-z0-9+/]{2}==|[A-Za-z0-9+/]{3}=)?$\<close>\<close>

fun is_base64 :: "string \<Rightarrow> bool" where
  "is_base64 [] = True"
| "is_base64 (a # b # c # d # s) =
     (base64_alphabet a \<and> base64_alphabet b
      \<and> (if base64_alphabet c then (if base64_alphabet d then is_base64 s else d = CHR ''='' \<and> s = [])
         else c = CHR ''='' \<and> d = CHR ''='' \<and> s = []))"
| "is_base64 s = False"

fun base64_encode :: "string \<Rightarrow> string" where
  "base64_encode [] = []"
| "base64_encode [x] =
     (let n = 65536 * of_char x in [base64_char (n div 262144), base64_char (n div 4096 mod 64), CHR ''='', CHR ''=''])"
| "base64_encode [x, y] =
     (let n = 65536 * of_char x + 256 * of_char y in
      [base64_char (n div 262144), base64_char (n div 4096 mod 64), base64_char (n div 64 mod 64), CHR ''=''])"
| "base64_encode (x # y # z # bs) =
     (let n = 65536 * of_char x + 256 * of_char y + of_char z in
      base64_char (n div 262144) # base64_char (n div 4096 mod 64) # base64_char (n div 64 mod 64) # base64_char (n mod 64)
      # base64_encode bs)"

fun base64_decode :: "string \<Rightarrow> string" where
  "base64_decode (a # b # c # d # s) =
     (let n = 262144 * base64_value a + 4096 * base64_value b in
      if c = CHR ''='' then [char_of (n div 65536)]
      else if d = CHR ''='' then (let n' = n + 64 * base64_value c in [char_of (n' div 65536), char_of (n' div 256 mod 256)])
      else (let n' = n + 64 * base64_value c + base64_value d in
            char_of (n' div 65536) # char_of (n' div 256 mod 256) # char_of (n' mod 256) # base64_decode s))"
| "base64_decode s = []"

lemma base64_alphabet [simp]: "n < 64 \<Longrightarrow> base64_alphabet (base64_char n)"
  by (auto simp: base64_alphabet_def base64_char_def Let_def)

lemma base64_value [simp]: "n < 64 \<Longrightarrow> base64_value (base64_char n) = n"
  by (auto simp: base64_value_def base64_char_def Let_def)

lemma base64_not_pad [simp]: "n < 64 \<Longrightarrow> base64_char n \<noteq> CHR ''=''"
  using base64_alphabet [of n] by (auto simp: base64_alphabet_def)

lemma group6:
  "262144 * (n div 262144) + 4096 * (n div 4096 mod 64) + 64 * (n div 64 mod 64) + n mod 64 = (n :: nat)"
proof -
  have "n = 64 * (n div 64) + n mod 64" "n div 64 = 64 * (n div 4096) + n div 64 mod 64"
    "n div 4096 = 64 * (n div 262144) + n div 4096 mod 64"
    using div_mult2_eq [of n 64 64] div_mult2_eq [of n 4096 64] by simp_all
  moreover have "a = 64 * b + c \<Longrightarrow> b = 64 * d + e \<Longrightarrow> d = 64 * f + g \<Longrightarrow> 262144 * f + 4096 * g + 64 * e + c = (a :: nat)" for a b c d e f g
    by simp
  ultimately show ?thesis by blast
qed

lemma group8:
  assumes "y < 256" "z < (256 :: nat)"
  shows "(65536 * x + 256 * y + z) div 65536 = x" "(65536 * x + 256 * y + z) div 256 mod 256 = y" "(65536 * x + 256 * y + z) mod 256 = z"
proof -
  have a: "65536 * x + 256 * y + z = 65536 * x + (256 * y + z)" and b: "65536 * x + 256 * y + z = 256 * (256 * x + y) + z" by simp_all
  show "(65536 * x + 256 * y + z) div 65536 = x" unfolding a using assms by (simp del: add.assoc)
  show "(65536 * x + 256 * y + z) div 256 mod 256 = y" unfolding b div_mult_self4 using assms by (simp only: div_mult_self4) simp
  show "(65536 * x + 256 * y + z) mod 256 = z" unfolding b using assms by (simp only: mod_mult_self4) simp
qed

lemma char_of_byte: "n mod 256 = (of_char c :: nat) \<Longrightarrow> char_of n = c"
  by (metis char_of_mod_256 char_of_char)

lemma char_of_shift: "char_of (256 * n + of_char c :: nat) = c"
  using char_of_mod_256 [of "256 * n + of_char c :: nat"] by simp

lemma group_small: "x < 256 \<Longrightarrow> y < 256 \<Longrightarrow> z < 256 \<Longrightarrow> (65536 * x + 256 * y + z) div 262144 < (64 :: nat)"
  by (rule less_mult_imp_div_less) simp

lemma decode_encode: "base64_decode (base64_encode bs) = bs"
proof (induction bs rule: base64_encode.induct)
  case (2 x)
  let ?n = "65536 * of_char x :: nat"
  have "262144 * (?n div 262144) + 4096 * (?n div 4096 mod 64) = ?n" using group6 [of ?n] by simp
  then show ?case using group_small [of "of_char x" 0 0] by (simp add: Let_def)
next
  case (3 x y)
  let ?n = "65536 * of_char x + 256 * of_char y :: nat"
  have "262144 * (?n div 262144) + 4096 * (?n div 4096 mod 64) + 64 * (?n div 64 mod 64) = ?n"
    using group6 [of ?n] by simp
  then show ?case
    using group_small [of "of_char x" "of_char y" 0] group8 [of "of_char y" 0 "of_char x"] by (simp add: Let_def char_of_shift)
next
  case (4 x y z bs)
  then show ?case
    using group_small [of "of_char x" "of_char y" "of_char z"] group8 [of "of_char y" "of_char z" "of_char x"] group6
    by (simp add: Let_def char_of_byte)
qed simp

lemma is_base64_encode: "is_base64 (base64_encode bs)"
proof (induction bs rule: base64_encode.induct)
  case (2 x)
  show ?case using group_small [of "of_char x" 0 0] by (simp add: Let_def base64_alphabet_def [of "CHR ''=''"])
next
  case (3 x y)
  show ?case using group_small [of "of_char x" "of_char y" 0] by (simp add: Let_def base64_alphabet_def [of "CHR ''=''"])
next
  case (4 x y z bs)
  then show ?case using group_small [of "of_char x" "of_char y" "of_char z"] by (simp add: Let_def)
qed simp

end
