(* ===== verification/TC_Protocol.thy ===== *)
theory TC_Protocol
  imports TC_Authority JS_Json JS_Date JS_Base64 JS_Text
begin

text \<open>
  The request and response parsers of \<open>src/terminalControl/protocol.ts\<close>, on the values
  \<open>JSON.parse\<close> returns: a member that is absent (\<open>undefined\<close>) is \<open>None\<close>, an integer is a
  \<open>JInt\<close>. A parser returns what the source returns, or the error it throws; checks and fields are in
  the order in which the source evaluates them. A timestamp is returned as its time value
  (\<open>JS_Date\<close>), the data of a raw input as its bytes.
\<close>

type_synonym json = "string jvalue"
type_synonym json_record = "(string \<times> json) list"
type_synonym 'a checked = "tc_error + 'a"

section \<open>Checks\<close>

definition bindC :: "'a checked \<Rightarrow> ('a \<Rightarrow> 'b checked) \<Rightarrow> 'b checked" where
  "bindC m f = (case m of Inl e \<Rightarrow> Inl e | Inr a \<Rightarrow> f a)"

abbreviation invalid :: "string \<Rightarrow> 'a checked" where
  "invalid message \<equiv> Inl (protocol_error INVALID_REQUEST message)"

definition ensure :: "bool \<Rightarrow> string \<Rightarrow> 'a checked \<Rightarrow> 'a checked" where
  "ensure b message k = (if b then k else invalid message)"

fun isRecord :: "json option \<Rightarrow> json_record option" where
  "isRecord (Some (JObj kvs)) = Some kvs"
| "isRecord v = None"

definition exactKeys :: "json_record \<Rightarrow> string list \<Rightarrow> string list \<Rightarrow> bool" where
  "exactKeys kvs required allowed \<longleftrightarrow>
     list_all (\<lambda>k. k \<in> fst ` set kvs) required \<and> list_all (\<lambda>(k, v). k \<in> set (required @ allowed)) kvs"

fun boundedString :: "json option \<Rightarrow> string \<Rightarrow> nat \<Rightarrow> bool \<Rightarrow> string checked" where
  "boundedString (Some (JStr s)) field maxlen allowEmpty =
     ensure ((allowEmpty \<or> s \<noteq> []) \<and> length s \<le> maxlen) (field @ '' is invalid'')
     (ensure (list_all (\<lambda>c. c \<noteq> CHR 0x00 \<and> c \<noteq> CHR 0x0D \<and> c \<noteq> CHR 0x0A) s)
        (field @ '' contains a forbidden control character'') (Inr s))"
| "boundedString v field maxlen allowEmpty = invalid (field @ '' is invalid'')"

definition parse_timestamp :: "json option \<Rightarrow> string \<Rightarrow> timestamp checked" where
  "parse_timestamp v field =
     bindC (boundedString v field 64 False) (\<lambda>s.
       case date_parse s of None \<Rightarrow> invalid (field @ '' is invalid'') | Some t \<Rightarrow> Inr t)"

definition TERMINAL_CONTROL_MIN_LEASE_TTL_MS :: int where
  "TERMINAL_CONTROL_MIN_LEASE_TTL_MS = 5000"

definition TERMINAL_CONTROL_MAX_LEASE_TTL_MS :: int where
  "TERMINAL_CONTROL_MAX_LEASE_TTL_MS = 300000"

definition TERMINAL_CONTROL_MAX_INPUT_BYTES :: nat where
  "TERMINAL_CONTROL_MAX_INPUT_BYTES = 262144"

text \<open>A number that is absent, or a safe integer between two bounds.\<close>

fun int_between :: "json option \<Rightarrow> int \<Rightarrow> int \<Rightarrow> bool" where
  "int_between (Some (JInt n)) a b = (a \<le> n \<and> n \<le> b)"
| "int_between v a b = False"

fun int_of :: "json option \<Rightarrow> int" where
  "int_of (Some (JInt n)) = n"
| "int_of v = 0"

definition optionalTtl :: "json option \<Rightarrow> int option checked" where
  "optionalTtl v =
     (if v = None then Inr None
      else ensure (int_between v TERMINAL_CONTROL_MIN_LEASE_TTL_MS TERMINAL_CONTROL_MAX_LEASE_TTL_MS)
        ''ttlMs must be between 5000 and 300000'' (Inr (Some (int_of v))))"

definition optionalMaxBytes :: "json option \<Rightarrow> int \<Rightarrow> string \<Rightarrow> int option checked" where
  "optionalMaxBytes v limit message =
     (if v = None then Inr None else ensure (int_between v 1 limit) message (Inr (Some (int_of v))))"

text \<open>\<open>list.includes(value)\<close> and \<open>list.find((x) => x === value)\<close> on the names of a datatype.\<close>

fun named :: "('a \<Rightarrow> string) \<Rightarrow> 'a list \<Rightarrow> json option \<Rightarrow> 'a option" where
  "named name xs (Some (JStr s)) = find (\<lambda>x. name x = s) xs"
| "named name xs v = None"

definition ensure_some :: "'a option \<Rightarrow> string \<Rightarrow> ('a \<Rightarrow> 'b checked) \<Rightarrow> 'b checked" where
  "ensure_some v message k = (case v of None \<Rightarrow> invalid message | Some a \<Rightarrow> k a)"

section \<open>Parts of requests\<close>

text \<open>The class \<open>[A-Za-z0-9._:-]\<close>.\<close>

definition model_char :: "char \<Rightarrow> bool" where
  "model_char c \<longleftrightarrow> is_digit c \<or> (65 \<le> (of_char c :: nat) \<and> (of_char c :: nat) \<le> 90)
     \<or> (97 \<le> (of_char c :: nat) \<and> (of_char c :: nat) \<le> 122) \<or> c \<in> set ''._:-''"

definition model_of :: "json option \<Rightarrow> string option checked" where
  "model_of v =
     (if v = Some JNull then Inr None
      else bindC (boundedString v ''runtime.model'' 128 False) (\<lambda>s.
        ensure (list_all model_char s) ''runtime.model is invalid'' (Inr (Some s))))"

definition effort_of :: "json option \<Rightarrow> reasoning_effort option option" where
  "effort_of v = (if v = Some JNull then Some None else map_option Some (named effort_name [Low, Medium, High, XHigh, MaxEffort, Ultra] v))"

definition agentRuntimeSettings :: "json option \<Rightarrow> agent_runtime checked" where
  "agentRuntimeSettings value =
     ensure_some (isRecord value) ''runtime is invalid'' (\<lambda>r.
     ensure (exactKeys r [''model'', ''reasoningEffort'', ''mode''] []) ''runtime is invalid''
     (bindC (model_of (map_of r ''model'')) (\<lambda>model.
      ensure_some (effort_of (map_of r ''reasoningEffort'')) ''runtime.reasoningEffort is invalid'' (\<lambda>effort.
      ensure_some (named mode_name [DefaultMode, PlanMode] (map_of r ''mode'')) ''runtime.mode is invalid'' (\<lambda>mode.
      ensure (\<not> (model = Some ''gpt-5.6-luna'' \<and> effort = Some Ultra)) ''GPT-5.6-Luna does not support ultra reasoning effort''
        (Inr \<lparr>rt_model = model, rt_reasoningEffort = effort, rt_mode = mode\<rparr>))))))"

definition TERMINAL_CONTROL_OWNER_KINDS :: "owner_kind list" where
  "TERMINAL_CONTROL_OWNER_KINDS = [Feishu, Dashboard, LocalCli, RelayV2, TwServe]"

definition parse_owner :: "json option \<Rightarrow> owner checked" where
  "parse_owner value =
     ensure_some (isRecord value) ''owner is invalid'' (\<lambda>r.
     ensure (exactKeys r [''kind'', ''instanceId''] []) ''owner is invalid''
     (ensure_some (named owner_kind_name TERMINAL_CONTROL_OWNER_KINDS (map_of r ''kind'')) ''owner.kind is invalid'' (\<lambda>kind.
      bindC (boundedString (map_of r ''instanceId'') ''owner.instanceId'' 256 False) (\<lambda>i.
        Inr \<lparr>okind = kind, instanceId = i\<rparr>))))"

definition parse_lease :: "json option \<Rightarrow> lease checked" where
  "parse_lease value =
     ensure_some (isRecord value) ''lease is invalid'' (\<lambda>r.
     ensure (exactKeys r [''controlTargetId'', ''controlEpoch'', ''leaseId'', ''fence'', ''owner'', ''expiresAt''] []) ''lease is invalid''
     (bindC (boundedString (map_of r ''fence'') ''lease.fence'' 32 False) (\<lambda>fence.
      ensure (isDecimal fence) ''lease.fence is invalid''
      (bindC (boundedString (map_of r ''controlTargetId'') ''lease.controlTargetId'' 128 False) (\<lambda>i.
       bindC (boundedString (map_of r ''controlEpoch'') ''lease.controlEpoch'' 128 False) (\<lambda>epoch.
       bindC (boundedString (map_of r ''leaseId'') ''lease.leaseId'' 128 False) (\<lambda>l.
       bindC (parse_owner (map_of r ''owner'')) (\<lambda>w.
       bindC (parse_timestamp (map_of r ''expiresAt'') ''lease.expiresAt'') (\<lambda>t.
         Inr \<lparr>l_controlTargetId = i, l_controlEpoch = epoch, l_leaseId = l, l_fence = fence, l_owner = w, l_expiresAt = t\<rparr>)))))))))"

fun disposition_name :: "drain_disposition \<Rightarrow> string" where
  "disposition_name Drained = ''drained''"
| "disposition_name Cancelled = ''cancelled''"
| "disposition_name Uncertain = ''uncertain''"

definition drainProof :: "json option \<Rightarrow> drain_proof checked" where
  "drainProof value =
     ensure_some (isRecord value) ''drain proof is invalid'' (\<lambda>r.
     ensure (exactKeys r [''disposition'', ''recordId'', ''recordedAt''] []) ''drain proof is invalid''
     (ensure_some (named disposition_name [Drained, Cancelled, Uncertain] (map_of r ''disposition'')) ''drain.disposition is invalid'' (\<lambda>d.
      bindC (boundedString (map_of r ''recordId'') ''drain.recordId'' 192 False) (\<lambda>i.
      bindC (parse_timestamp (map_of r ''recordedAt'') ''drain.recordedAt'') (\<lambda>t.
        Inr \<lparr>dp_disposition = d, dp_recordId = i, dp_recordedAt = t\<rparr>)))))"

fun proof_kind_name :: "recovery_proof_kind \<Rightarrow> string" where
  "proof_kind_name FeishuTurnCancelled = ''feishu-turn-cancelled''"
| "proof_kind_name OperatorAcknowledgedInDoubt = ''operator-acknowledged-in-doubt''"
| "proof_kind_name OwnerUnreachable = ''owner-unreachable''"

definition recoveryProof :: "json option \<Rightarrow> recovery_proof checked" where
  "recoveryProof value =
     ensure_some (isRecord value) ''recovery proof is invalid'' (\<lambda>r.
     ensure (exactKeys r [''kind'', ''recordId'', ''recordedAt''] []) ''recovery proof is invalid''
     (ensure_some (named proof_kind_name [FeishuTurnCancelled, OperatorAcknowledgedInDoubt, OwnerUnreachable] (map_of r ''kind'')) ''proof.kind is invalid'' (\<lambda>k.
      bindC (boundedString (map_of r ''recordId'') ''proof.recordId'' 192 False) (\<lambda>i.
      bindC (parse_timestamp (map_of r ''recordedAt'') ''proof.recordedAt'') (\<lambda>t.
        Inr \<lparr>rp_kind = k, rp_recordId = i, rp_recordedAt = t\<rparr>)))))"

text \<open>The regular expression \<open>^(?:0|[1-9]\d{0,4})$\<close>.\<close>

definition parse_pane :: "json option \<Rightarrow> string checked" where
  "parse_pane v =
     bindC (boundedString v ''pane'' 8 False) (\<lambda>s.
       ensure (isDecimal s \<and> length s \<le> 5) ''pane is invalid'' (Inr s))"

fun provider_name :: "agent_provider \<Rightarrow> string" where
  "provider_name Claude = ''claude''"
| "provider_name Codex = ''codex''"

fun boundary_name :: "source_boundary \<Rightarrow> string" where
  "boundary_name After = ''after''"
| "boundary_name Inclusive = ''inclusive''"
| "boundary_name Exact = ''exact''"

definition agentSource :: "json option \<Rightarrow> agent_source checked" where
  "agentSource value =
     ensure_some (isRecord value) ''Agent result source is invalid'' (\<lambda>r.
     ensure (exactKeys r [''provider'', ''boundary'', ''sourceId'', ''sessionId'', ''turnId'', ''startedAt''] []) ''Agent result source is invalid''
     (ensure_some (named provider_name [Claude, Codex] (map_of r ''provider'')) ''Agent result provider is invalid'' (\<lambda>p.
      ensure_some (named boundary_name [After, Inclusive, Exact] (map_of r ''boundary'')) ''Agent result boundary is invalid'' (\<lambda>b.
      bindC (boundedString (map_of r ''sourceId'') ''source.sourceId'' 64 False) (\<lambda>i.
      ensure (isPayloadHash i) ''Agent result sourceId is invalid''
      (bindC (boundedString (map_of r ''sessionId'') ''source.sessionId'' 128 False) (\<lambda>s.
       bindC (boundedString (map_of r ''turnId'') ''source.turnId'' 128 False) (\<lambda>u.
       bindC (parse_timestamp (map_of r ''startedAt'') ''source.startedAt'') (\<lambda>t.
         Inr \<lparr>as_provider = p, as_boundary = b, as_sourceId = i, as_sessionId = s, as_turnId = u, as_startedAt = t\<rparr>)))))))))"

section \<open>Requests\<close>

text \<open>
  The cases of \<open>parseTerminalControlRequest\<close>, each behind its test of \<open>exactKeys\<close>; what a case
  returns besides \<open>type\<close> and \<open>requestId\<close> is the \<open>request\<close>.
\<close>

definition string_field :: "json_record \<Rightarrow> string \<Rightarrow> nat \<Rightarrow> string checked" where
  "string_field r field maxlen = boundedString (map_of r field) field maxlen False"

definition case_target_resolve :: "json_record \<Rightarrow> request checked" where
  "case_target_resolve r = bindC (string_field r ''sessionName'' 128) (\<lambda>s. Inr (TargetResolve s))"

definition case_ownership_status :: "json_record \<Rightarrow> request checked" where
  "case_ownership_status r = bindC (string_field r ''controlTargetId'' 128) (\<lambda>i. Inr (OwnershipStatus i))"

definition case_lease_acquire :: "json_record \<Rightarrow> request checked" where
  "case_lease_acquire r =
     bindC (string_field r ''controlTargetId'' 128) (\<lambda>i.
     bindC (parse_owner (map_of r ''owner'')) (\<lambda>w.
     bindC (optionalTtl (map_of r ''ttlMs'')) (\<lambda>ttl. Inr (LeaseAcquire i w ttl))))"

definition case_lease_renew :: "json_record \<Rightarrow> request checked" where
  "case_lease_renew r =
     bindC (parse_lease (map_of r ''lease'')) (\<lambda>l.
     bindC (optionalTtl (map_of r ''ttlMs'')) (\<lambda>ttl. Inr (LeaseRenew l ttl)))"

definition case_lease_release :: "json_record \<Rightarrow> request checked" where
  "case_lease_release r = bindC (parse_lease (map_of r ''lease'')) (\<lambda>l. Inr (LeaseRelease l))"

definition case_handoff_begin :: "json_record \<Rightarrow> request checked" where
  "case_handoff_begin r =
     bindC (string_field r ''controlTargetId'' 128) (\<lambda>i.
     bindC (parse_owner (map_of r ''nextOwner'')) (\<lambda>w.
     if map_of r ''currentLease'' = None then Inr (HandoffBegin i w None)
     else bindC (parse_lease (map_of r ''currentLease'')) (\<lambda>l. Inr (HandoffBegin i w (Some l)))))"

definition case_handoff_commit :: "json_record \<Rightarrow> request checked" where
  "case_handoff_commit r =
     bindC (string_field r ''handoffId'' 128) (\<lambda>h.
     bindC (parse_lease (map_of r ''currentLease'')) (\<lambda>l.
     bindC (drainProof (map_of r ''drain'')) (\<lambda>d.
     bindC (optionalTtl (map_of r ''ttlMs'')) (\<lambda>ttl. Inr (HandoffCommit h l d ttl)))))"

definition case_handoff_cancel :: "json_record \<Rightarrow> request checked" where
  "case_handoff_cancel r =
     bindC (string_field r ''handoffId'' 128) (\<lambda>h.
     bindC (parse_lease (map_of r ''currentLease'')) (\<lambda>l. Inr (HandoffCancel h l)))"

definition case_handoff_withdraw :: "json_record \<Rightarrow> request checked" where
  "case_handoff_withdraw r =
     bindC (string_field r ''controlTargetId'' 128) (\<lambda>i.
     bindC (string_field r ''handoffId'' 128) (\<lambda>h.
     bindC (parse_owner (map_of r ''nextOwner'')) (\<lambda>w. Inr (HandoffWithdraw i h w))))"

definition case_handoff_force :: "json_record \<Rightarrow> request checked" where
  "case_handoff_force r =
     ensure (map_of r ''acknowledgeUncertainOperation'' = Some (JBool True)) ''force handoff requires acknowledgeUncertainOperation=true''
     (bindC (string_field r ''controlTargetId'' 128) (\<lambda>i.
      bindC (string_field r ''expectedControlEpoch'' 128) (\<lambda>epoch.
      bindC (parse_owner (map_of r ''nextOwner'')) (\<lambda>w.
      bindC (recoveryProof (map_of r ''proof'')) (\<lambda>p.
      bindC (optionalTtl (map_of r ''ttlMs'')) (\<lambda>ttl. Inr (HandoffForce i epoch w p True ttl)))))))"

definition case_input_raw :: "json_record \<Rightarrow> request checked" where
  "case_input_raw r =
     bindC (boundedString (map_of r ''dataBase64'') ''dataBase64'' (TERMINAL_CONTROL_MAX_INPUT_BYTES * 2) True) (\<lambda>dataBase64.
     ensure (is_base64 dataBase64) ''dataBase64 is invalid''
     (let bytes = base64_decode dataBase64 in
      ensure (length bytes \<le> TERMINAL_CONTROL_MAX_INPUT_BYTES \<and> base64_encode bytes = dataBase64) ''dataBase64 is invalid or too large''
      (bindC (parse_lease (map_of r ''lease'')) (\<lambda>l.
       bindC (string_field r ''operationId'' 192) (\<lambda>oi.
       bindC (parse_pane (map_of r ''pane'')) (\<lambda>p. Inr (InputRaw l oi p bytes)))))))"

definition message_of :: "json option \<Rightarrow> string option" where
  "message_of v =
     (case v of
        Some (JStr s) \<Rightarrow> if utf8_length s \<le> TERMINAL_CONTROL_MAX_INPUT_BYTES then Some s else None
      | _ \<Rightarrow> None)"

definition bool_of :: "json option \<Rightarrow> bool option" where
  "bool_of v = (case v of Some (JBool b) \<Rightarrow> Some b | _ \<Rightarrow> None)"

definition case_input_agent_message :: "json_record \<Rightarrow> request checked" where
  "case_input_agent_message r =
     ensure_some (message_of (map_of r ''message'')) ''message is invalid or too large'' (\<lambda>m.
     ensure_some (bool_of (map_of r ''submit'')) ''submit must be boolean'' (\<lambda>submit.
     bindC (parse_lease (map_of r ''lease'')) (\<lambda>l.
     bindC (string_field r ''operationId'' 192) (\<lambda>oi.
     bindC (parse_pane (map_of r ''pane'')) (\<lambda>p.
     if map_of r ''runtime'' = None then Inr (InputAgentMessage l oi p m submit None)
     else bindC (agentRuntimeSettings (map_of r ''runtime'')) (\<lambda>rt. Inr (InputAgentMessage l oi p m submit (Some rt))))))))"

text \<open>\<open>Number.isSafeInteger\<close>\<close>

definition is_safe_integer :: "json option \<Rightarrow> bool" where
  "is_safe_integer v = int_between v (- 9007199254740991) 9007199254740991"

definition case_input_resize :: "json_record \<Rightarrow> request checked" where
  "case_input_resize r =
     (let cols = map_of r ''cols''; rows = map_of r ''rows'' in
      ensure (is_safe_integer cols \<and> is_safe_integer rows) ''cols and rows must be integers''
      (ensure (int_between cols 1 1000 \<and> int_between rows 1 500) ''terminal size is out of range''
      (bindC (parse_lease (map_of r ''lease'')) (\<lambda>l.
       bindC (string_field r ''operationId'' 192) (\<lambda>oi.
       bindC (parse_pane (map_of r ''pane'')) (\<lambda>p. Inr (InputResize l oi p (int_of cols) (int_of rows))))))))"

definition case_input_scroll :: "json_record \<Rightarrow> request checked" where
  "case_input_scroll r =
     ensure_some (named direction_name [Up, Down] (map_of r ''direction'')) ''scroll direction must be up or down'' (\<lambda>d.
     ensure (int_between (map_of r ''lines'') 1 100) ''scroll lines must be an integer from 1 to 100''
     (bindC (parse_lease (map_of r ''lease'')) (\<lambda>l.
      bindC (string_field r ''operationId'' 192) (\<lambda>oi.
      bindC (parse_pane (map_of r ''pane'')) (\<lambda>p. Inr (InputScroll l oi p d (int_of (map_of r ''lines''))))))))"

definition case_lifecycle_kill :: "json_record \<Rightarrow> request checked" where
  "case_lifecycle_kill r =
     bindC (parse_lease (map_of r ''lease'')) (\<lambda>l.
     bindC (string_field r ''operationId'' 192) (\<lambda>oi. Inr (LifecycleKill l oi)))"

definition case_output_tail :: "json_record \<Rightarrow> request checked" where
  "case_output_tail r =
     ensure (int_between (map_of r ''cursor'') 0 9007199254740991) ''cursor is invalid''
     (bindC (optionalMaxBytes (map_of r ''maxBytes'') TERMINAL_CONTROL_MAX_OUTPUT_TAIL_BYTES ''maxBytes is invalid'') (\<lambda>maxBytes.
      bindC (string_field r ''controlTargetId'' 128) (\<lambda>i.
      bindC (string_field r ''controlEpoch'' 128) (\<lambda>epoch.
      bindC (string_field r ''outputGeneration'' 128) (\<lambda>g.
        Inr (OutputTail i epoch g (int_of (map_of r ''cursor'')) maxBytes))))))"

definition case_rendered_snapshot :: "json_record \<Rightarrow> request checked" where
  "case_rendered_snapshot r =
     bindC (optionalMaxBytes (map_of r ''maxBytes'') TERMINAL_CONTROL_MAX_RENDERED_SNAPSHOT_BYTES ''maxBytes is invalid'') (\<lambda>maxBytes.
     bindC (parse_lease (map_of r ''lease'')) (\<lambda>l.
     bindC (string_field r ''outputGeneration'' 128) (\<lambda>g.
     bindC (parse_pane (map_of r ''pane'')) (\<lambda>p. Inr (OutputRenderedSnapshot l g p maxBytes)))))"

definition case_agent_status :: "json_record \<Rightarrow> request checked" where
  "case_agent_status r =
     bindC (parse_lease (map_of r ''lease'')) (\<lambda>l.
     bindC (string_field r ''outputGeneration'' 128) (\<lambda>g.
     bindC (parse_pane (map_of r ''pane'')) (\<lambda>p. Inr (ActivityAgentStatus l g p))))"

definition case_agent_result :: "json_record \<Rightarrow> request checked" where
  "case_agent_result r =
     bindC (optionalMaxBytes (map_of r ''maxBytes'') TERMINAL_CONTROL_MAX_AGENT_RESULT_BYTES ''Agent result maxBytes is invalid'') (\<lambda>maxBytes.
     bindC (parse_lease (map_of r ''lease'')) (\<lambda>l.
     bindC (string_field r ''outputGeneration'' 128) (\<lambda>g.
     bindC (parse_pane (map_of r ''pane'')) (\<lambda>p.
     bindC (agentSource (map_of r ''source'')) (\<lambda>s. Inr (ActivityAgentResult l g p s maxBytes))))))"

text \<open>The \<open>switch\<close>: the fields a type requires and allows besides the common ones, and its case.\<close>

definition request_cases :: "(string \<times> string list \<times> string list \<times> (json_record \<Rightarrow> request checked)) list" where
  "request_cases =
     [(''ping'', [], [], \<lambda>r. Inr Ping),
      (''target.resolve'', [''sessionName''], [], case_target_resolve),
      (''ownership.status'', [''controlTargetId''], [], case_ownership_status),
      (''lease.acquire'', [''controlTargetId'', ''owner''], [''ttlMs''], case_lease_acquire),
      (''lease.renew'', [''lease''], [''ttlMs''], case_lease_renew),
      (''lease.release'', [''lease''], [], case_lease_release),
      (''handoff.begin'', [''controlTargetId'', ''nextOwner''], [''currentLease''], case_handoff_begin),
      (''handoff.commit'', [''handoffId'', ''currentLease'', ''drain''], [''ttlMs''], case_handoff_commit),
      (''handoff.cancel'', [''handoffId'', ''currentLease''], [], case_handoff_cancel),
      (''handoff.withdraw'', [''controlTargetId'', ''handoffId'', ''nextOwner''], [], case_handoff_withdraw),
      (''handoff.force'', [''controlTargetId'', ''expectedControlEpoch'', ''nextOwner'', ''proof'', ''acknowledgeUncertainOperation''],
         [''ttlMs''], case_handoff_force),
      (''input.raw'', [''lease'', ''operationId'', ''pane'', ''dataBase64''], [], case_input_raw),
      (''input.agent-message'', [''lease'', ''operationId'', ''pane'', ''message'', ''submit''], [''runtime''], case_input_agent_message),
      (''input.resize'', [''lease'', ''operationId'', ''pane'', ''cols'', ''rows''], [], case_input_resize),
      (''input.scroll'', [''lease'', ''operationId'', ''pane'', ''direction'', ''lines''], [], case_input_scroll),
      (''lifecycle.kill'', [''lease'', ''operationId''], [], case_lifecycle_kill),
      (''output.tail'', [''controlTargetId'', ''controlEpoch'', ''outputGeneration'', ''cursor''], [''maxBytes''], case_output_tail),
      (''output.rendered-snapshot'', [''lease'', ''outputGeneration'', ''pane''], [''maxBytes''], case_rendered_snapshot),
      (''activity.agent-status'', [''lease'', ''outputGeneration'', ''pane''], [], case_agent_status),
      (''activity.agent-result'', [''lease'', ''outputGeneration'', ''pane'', ''source''], [''maxBytes''], case_agent_result)]"

definition common :: "json \<Rightarrow> (json_record \<times> string \<times> string) checked" where
  "common value =
     ensure_some (isRecord (Some value)) ''request must be an object'' (\<lambda>r.
     if map_of r ''protocolVersion'' \<noteq> Some (JInt 1)
     then Inl (protocol_error UNSUPPORTED_VERSION ''unsupported terminal-control protocolVersion'')
     else bindC (string_field r ''requestId'' 128) (\<lambda>requestId.
          bindC (string_field r ''type'' 64) (\<lambda>ty. Inr (r, requestId, ty))))"

definition parseTerminalControlRequest :: "json \<Rightarrow> (string \<times> request) checked" where
  "parseTerminalControlRequest value =
     bindC (common value) (\<lambda>(r, requestId, ty).
       let unknown = invalid (''invalid or unknown request type: '' @ ty) in
       case map_of request_cases ty of
         None \<Rightarrow> unknown
       | Some (required, allowed, body) \<Rightarrow>
           if exactKeys r ([''protocolVersion'', ''requestId'', ''type''] @ required) allowed
           then bindC (body r) (\<lambda>request. Inr (requestId, request))
           else unknown)"

section \<open>Responses\<close>

fun error_code_name :: "error_code \<Rightarrow> string" where
  "error_code_name INVALID_REQUEST = ''INVALID_REQUEST''"
| "error_code_name UNSUPPORTED_VERSION = ''UNSUPPORTED_VERSION''"
| "error_code_name TARGET_NOT_FOUND = ''TARGET_NOT_FOUND''"
| "error_code_name TARGET_GONE = ''TARGET_GONE''"
| "error_code_name PERMISSION_DENIED = ''PERMISSION_DENIED''"
| "error_code_name HANDOFF_PENDING = ''HANDOFF_PENDING''"
| "error_code_name RECOVERY_REQUIRED = ''RECOVERY_REQUIRED''"
| "error_code_name STALE_OUTPUT_CURSOR = ''STALE_OUTPUT_CURSOR''"
| "error_code_name OPERATION_IN_DOUBT = ''OPERATION_IN_DOUBT''"
| "error_code_name RESOURCE_EXHAUSTED = ''RESOURCE_EXHAUSTED''"
| "error_code_name INTERNAL = ''INTERNAL''"

definition TERMINAL_CONTROL_ERROR_CODES :: "error_code list" where
  "TERMINAL_CONTROL_ERROR_CODES =
     [INVALID_REQUEST, UNSUPPORTED_VERSION, TARGET_NOT_FOUND, TARGET_GONE, PERMISSION_DENIED, HANDOFF_PENDING,
      RECOVERY_REQUIRED, STALE_OUTPUT_CURSOR, OPERATION_IN_DOUBT, RESOURCE_EXHAUSTED, INTERNAL]"

datatype 'r response =
    Success string 'r
  | Failure string error_code string bool

definition response_error :: "json_record \<Rightarrow> (error_code \<times> string \<times> bool) option" where
  "response_error e =
     (case (named error_code_name TERMINAL_CONTROL_ERROR_CODES (map_of e ''code''), map_of e ''message'', bool_of (map_of e ''retryable'')) of
        (Some c, Some (JStr m), Some b) \<Rightarrow>
          if m \<noteq> [] \<and> CHR 0x00 \<notin> set m \<and> utf8_length m \<le> 8192 then Some (c, m, b) else None
      | _ \<Rightarrow> None)"

definition parseTerminalControlResponse :: "json \<Rightarrow> string option \<Rightarrow> json response checked" where
  "parseTerminalControlResponse value expectedRequestId =
     ensure_some (isRecord (Some value)) ''response must be an object'' (\<lambda>r.
     if map_of r ''protocolVersion'' \<noteq> Some (JInt 1)
     then Inl (protocol_error UNSUPPORTED_VERSION ''unsupported terminal-control protocolVersion'')
     else
       bindC (string_field r ''requestId'' 128) (\<lambda>requestId.
       ensure (expectedRequestId = None \<or> expectedRequestId = Some requestId) ''response requestId does not match the request''
       (if map_of r ''ok'' = Some (JBool True)
        then ensure (exactKeys r [''protocolVersion'', ''requestId'', ''ok'', ''result''] []) ''successful response envelope is invalid''
               (ensure_some (map_of r ''result'') ''successful response envelope is invalid'' (\<lambda>v. Inr (Success requestId v)))
        else
          (case isRecord (map_of r ''error'') of
             Some e \<Rightarrow>
               ensure (map_of r ''ok'' = Some (JBool False) \<and> exactKeys r [''protocolVersion'', ''requestId'', ''ok'', ''error''] []
                   \<and> exactKeys e [''code'', ''message'', ''retryable''] []) ''error response envelope is invalid''
                 (ensure_some (response_error e) ''terminal-control response error is invalid'' (\<lambda>(c, m, b). Inr (Failure requestId c m b)))
           | None \<Rightarrow> invalid ''error response envelope is invalid''))))"

text \<open>The value a response is on the wire; the result of a successful one is encoded by \<open>enc\<close>.\<close>

fun response_json :: "('r \<Rightarrow> json) \<Rightarrow> 'r response \<Rightarrow> json" where
  "response_json enc (Success requestId v) =
     JObj [(''protocolVersion'', JInt 1), (''requestId'', JStr requestId), (''ok'', JBool True), (''result'', enc v)]"
| "response_json enc (Failure requestId c m b) =
     JObj [(''protocolVersion'', JInt 1), (''requestId'', JStr requestId), (''ok'', JBool False),
       (''error'', JObj [(''code'', JStr (error_code_name c)), (''message'', JStr m), (''retryable'', JBool b)])]"

fun terminalControlErrorResponse :: "string \<Rightarrow> tc_error \<Rightarrow> 'r response" where
  "terminalControlErrorResponse requestId (ProtocolError c m b) = Failure requestId c m b"
| "terminalControlErrorResponse requestId (AgentMessageNotApplied c m b) = Failure requestId c m b"
| "terminalControlErrorResponse requestId (PlainError m) = Failure requestId INTERNAL m False"

end
