(* ===== verification/TC_ProtocolFacts.thy ===== *)
theory TC_ProtocolFacts
  imports TC_Protocol
begin

text \<open>
  What the request parser accepts is well formed, every well-formed request is read back from its
  JSON value, and an error response is read back under the conditions the client's parser imposes.
\<close>

section \<open>Well-formed requests\<close>

definition isLease :: "lease \<Rightarrow> bool" where
  "isLease l \<longleftrightarrow> isStoredString (l_controlTargetId l) 128 \<and> isStoredString (l_controlEpoch l) 128
     \<and> isStoredString (l_leaseId l) 128 \<and> isDecimal (l_fence l) \<and> length (l_fence l) \<le> 32
     \<and> isOwner (l_owner l) \<and> isCanonicalTimestamp (l_expiresAt l)"

definition isTtl :: "int option \<Rightarrow> bool" where
  "isTtl = optional (\<lambda>n. TERMINAL_CONTROL_MIN_LEASE_TTL_MS \<le> n \<and> n \<le> TERMINAL_CONTROL_MAX_LEASE_TTL_MS)"

definition isMaxBytes :: "int \<Rightarrow> int option \<Rightarrow> bool" where
  "isMaxBytes limit = optional (\<lambda>n. 1 \<le> n \<and> n \<le> limit)"

definition isPane :: "string \<Rightarrow> bool" where
  "isPane p \<longleftrightarrow> isDecimal p \<and> length p \<le> 5"

definition isRuntime :: "agent_runtime \<Rightarrow> bool" where
  "isRuntime rt \<longleftrightarrow> optional (\<lambda>m. m \<noteq> [] \<and> length m \<le> 128 \<and> list_all model_char m) (rt_model rt)
     \<and> \<not> (rt_model rt = Some ''gpt-5.6-luna'' \<and> rt_reasoningEffort rt = Some Ultra)"

definition isRecoveryProof :: "recovery_proof \<Rightarrow> bool" where
  "isRecoveryProof p \<longleftrightarrow> isStoredString (rp_recordId p) 192 \<and> isCanonicalTimestamp (rp_recordedAt p)"

definition isSource :: "agent_source \<Rightarrow> bool" where
  "isSource s \<longleftrightarrow> isPayloadHash (as_sourceId s) \<and> isStoredString (as_sessionId s) 128
     \<and> isStoredString (as_turnId s) 128 \<and> isCanonicalTimestamp (as_startedAt s)"

fun isRequest :: "request \<Rightarrow> bool" where
  "isRequest Ping = True"
| "isRequest (TargetResolve s) = isStoredString s 128"
| "isRequest (OwnershipStatus i) = isStoredString i 128"
| "isRequest (LeaseAcquire i w ttl) = (isStoredString i 128 \<and> isOwner w \<and> isTtl ttl)"
| "isRequest (LeaseRenew l ttl) = (isLease l \<and> isTtl ttl)"
| "isRequest (LeaseRelease l) = isLease l"
| "isRequest (HandoffBegin i w l) = (isStoredString i 128 \<and> isOwner w \<and> optional isLease l)"
| "isRequest (HandoffCommit h l d ttl) = (isStoredString h 128 \<and> isLease l \<and> isDrainProof d \<and> isTtl ttl)"
| "isRequest (HandoffCancel h l) = (isStoredString h 128 \<and> isLease l)"
| "isRequest (HandoffWithdraw i h w) = (isStoredString i 128 \<and> isStoredString h 128 \<and> isOwner w)"
| "isRequest (HandoffForce i e w p ack ttl) =
     (isStoredString i 128 \<and> isStoredString e 128 \<and> isOwner w \<and> isRecoveryProof p \<and> ack \<and> isTtl ttl)"
| "isRequest (InputRaw l oi p bytes) =
     (isLease l \<and> isStoredString oi 192 \<and> isPane p \<and> length bytes \<le> TERMINAL_CONTROL_MAX_INPUT_BYTES)"
| "isRequest (InputAgentMessage l oi p m submit rt) =
     (isLease l \<and> isStoredString oi 192 \<and> isPane p \<and> utf8_length m \<le> TERMINAL_CONTROL_MAX_INPUT_BYTES \<and> optional isRuntime rt)"
| "isRequest (InputResize l oi p cols rows) =
     (isLease l \<and> isStoredString oi 192 \<and> isPane p \<and> 1 \<le> cols \<and> cols \<le> 1000 \<and> 1 \<le> rows \<and> rows \<le> 500)"
| "isRequest (InputScroll l oi p d lines) =
     (isLease l \<and> isStoredString oi 192 \<and> isPane p \<and> 1 \<le> lines \<and> lines \<le> 100)"
| "isRequest (LifecycleKill l oi) = (isLease l \<and> isStoredString oi 192)"
| "isRequest (OutputTail i e g c maxBytes) =
     (isStoredString i 128 \<and> isStoredString e 128 \<and> isStoredString g 128 \<and> isSafeCount c
      \<and> isMaxBytes TERMINAL_CONTROL_MAX_OUTPUT_TAIL_BYTES maxBytes)"
| "isRequest (OutputRenderedSnapshot l g p maxBytes) =
     (isLease l \<and> isStoredString g 128 \<and> isPane p \<and> isMaxBytes TERMINAL_CONTROL_MAX_RENDERED_SNAPSHOT_BYTES maxBytes)"
| "isRequest (ActivityAgentStatus l g p) = (isLease l \<and> isStoredString g 128 \<and> isPane p)"
| "isRequest (ActivityAgentResult l g p s maxBytes) =
     (isLease l \<and> isStoredString g 128 \<and> isPane p \<and> isSource s \<and> isMaxBytes TERMINAL_CONTROL_MAX_AGENT_RESULT_BYTES maxBytes)"

section \<open>What is accepted\<close>

text \<open>\<open>good P m\<close>: \<open>m\<close> returns a value with \<open>P\<close>, or throws a protocol error for a bad request.\<close>

definition good :: "('a \<Rightarrow> bool) \<Rightarrow> 'a checked \<Rightarrow> bool" where
  "good P m \<longleftrightarrow> (case m of Inl e \<Rightarrow> \<exists>c message. e = protocol_error c message \<and> c \<in> {INVALID_REQUEST, UNSUPPORTED_VERSION} | Inr a \<Rightarrow> P a)"

named_theorems good_rules

lemma good_ret [good_rules]: "P a \<Longrightarrow> good P (Inr a)"
  by (simp add: good_def)

lemma good_throw [good_rules]: "good P (invalid message)" "good P (Inl (protocol_error UNSUPPORTED_VERSION message))"
  by (simp_all add: good_def)

lemma good_bind [good_rules]: "good Q m \<Longrightarrow> (\<And>a. Q a \<Longrightarrow> good P (f a)) \<Longrightarrow> good P (bindC m f)"
  by (cases m) (simp_all add: good_def bindC_def)

lemma good_ensure [good_rules]: "(b \<Longrightarrow> good P k) \<Longrightarrow> good P (ensure b message k)"
  by (auto simp: ensure_def good_throw)

lemma good_some [good_rules]: "(\<And>a. v = Some a \<Longrightarrow> good P (k a)) \<Longrightarrow> good P (ensure_some v message k)"
  by (auto simp: ensure_some_def good_throw split: option.splits)

lemma good_if [good_rules]: "(b \<Longrightarrow> good P m) \<Longrightarrow> (\<not> b \<Longrightarrow> good P k) \<Longrightarrow> good P (if b then m else k)"
  by simp

lemma good_weaken: "good P m \<Longrightarrow> (\<And>a. P a \<Longrightarrow> Q a) \<Longrightarrow> good Q m"
  by (auto simp: good_def split: sum.splits)

definition no_control :: "string \<Rightarrow> bool" where
  "no_control s \<longleftrightarrow> list_all (\<lambda>c. c \<noteq> CHR 0x00 \<and> c \<noteq> CHR 0x0D \<and> c \<noteq> CHR 0x0A) s"

lemma good_bounded: "good (\<lambda>s. (e \<or> s \<noteq> []) \<and> length s \<le> n \<and> no_control s) (boundedString v field n e)"
  by (cases "(v, field, n, e)" rule: boundedString.cases) (auto simp: no_control_def intro!: good_rules)

lemma good_string: "good (\<lambda>s. isStoredString s n) (boundedString v field n False)"
  using good_bounded by (rule good_weaken) (auto simp: isStoredString_def no_control_def)

lemma good_field: "good (\<lambda>s. isStoredString s n) (string_field r field n)"
  unfolding string_field_def by (rule good_string)

lemma good_timestamp: "good isCanonicalTimestamp (parse_timestamp v field)"
  unfolding parse_timestamp_def
  by (rule good_bind [OF good_string]) (auto split: option.split simp: date_parse_Some intro: good_rules)

lemma good_ttl: "good isTtl (optionalTtl v)"
  by (cases v rule: option.exhaust) (auto simp: optionalTtl_def isTtl_def optional_def intro!: good_rules elim!: int_between.elims)

lemma good_max: "good (isMaxBytes limit) (optionalMaxBytes v limit message)"
  by (cases v rule: option.exhaust) (auto simp: optionalMaxBytes_def isMaxBytes_def optional_def intro!: good_rules elim!: int_between.elims)

lemma good_pane: "good isPane (parse_pane v)"
  unfolding parse_pane_def by (auto intro!: good_rules good_string simp: isPane_def)

lemma good_owner: "good isOwner (parse_owner v)"
  unfolding parse_owner_def by (auto intro!: good_rules good_bind [OF good_string] simp: isOwner_def)

lemma good_lease: "good isLease (parse_lease v)"
  unfolding parse_lease_def
  by (intro good_some good_ensure good_bind [OF good_string] good_bind [OF good_owner] good_bind [OF good_timestamp] good_ret)
    (simp add: isLease_def isStoredString_def)

lemma good_drain: "good isDrainProof (drainProof v)"
  unfolding drainProof_def
  by (intro good_some good_ensure good_bind [OF good_string] good_bind [OF good_timestamp] good_ret) (simp add: isDrainProof_def)

lemma good_recovery: "good isRecoveryProof (recoveryProof v)"
  unfolding recoveryProof_def
  by (intro good_some good_ensure good_bind [OF good_string] good_bind [OF good_timestamp] good_ret) (simp add: isRecoveryProof_def)

lemma good_source: "good isSource (agentSource v)"
  unfolding agentSource_def
  by (intro good_some good_ensure good_bind [OF good_string] good_bind [OF good_timestamp] good_ret) (simp add: isSource_def)

lemma good_runtime: "good isRuntime (agentRuntimeSettings v)"
proof -
  have "good (optional (\<lambda>m. m \<noteq> [] \<and> length m \<le> 128 \<and> list_all model_char m)) (model_of v)" for v
    unfolding model_of_def
    by (intro good_if good_bind [OF good_string] good_ensure good_ret) (simp_all add: optional_def isStoredString_def)
  then show ?thesis
    unfolding agentRuntimeSettings_def
    by (intro good_some good_ensure good_bind [where P = isRuntime] good_ret) (assumption, simp add: isRuntime_def)
qed

lemmas good_parts = good_bind [OF good_field] good_bind [OF good_bounded] good_bind [OF good_ttl] good_bind [OF good_max] good_bind [OF good_pane]
  good_bind [OF good_owner] good_bind [OF good_lease] good_bind [OF good_drain] good_bind [OF good_recovery]
  good_bind [OF good_source] good_bind [OF good_runtime]

lemma good_case:
  assumes "map_of request_cases ty = Some (required, allowed, body)"
  shows "good isRequest (body r)"
proof -
  have "list_all (\<lambda>(ty, required, allowed, body). good isRequest (body r)) request_cases"
    unfolding request_cases_def list.pred_inject prod.case
    case_target_resolve_def case_ownership_status_def case_lease_acquire_def case_lease_renew_def case_lease_release_def
    case_handoff_begin_def case_handoff_commit_def case_handoff_cancel_def case_handoff_withdraw_def case_handoff_force_def
    case_input_raw_def case_input_agent_message_def case_input_resize_def case_input_scroll_def case_lifecycle_kill_def
    case_output_tail_def case_rendered_snapshot_def case_agent_status_def case_agent_result_def Let_def
    by (intro conjI TrueI good_parts good_if good_ensure good_some good_ret;
        simp add: optional_def message_of_def isSafeCount_def split: option.splits jvalue.splits if_splits; (erule conjE)?; (elim int_between.elims; simp)?)
  with map_of_SomeD [OF assms] show ?thesis by (auto simp: list_all_iff)
qed

lemma good_request: "good (\<lambda>(requestId, r). isStoredString requestId 128 \<and> isRequest r) (parseTerminalControlRequest v)"
proof -
  have "good (\<lambda>(r, requestId, ty). isStoredString requestId 128) (common v)"
    unfolding common_def by (intro good_rules good_bind [OF good_field]) simp
  then show ?thesis
    unfolding parseTerminalControlRequest_def Let_def
    by (rule good_bind) (auto split: option.split intro!: good_throw good_if good_bind [OF good_case] good_ret)
qed

text \<open>
  C27. Whatever value a client sends, the request parser returns a request whose every part is well
  formed (bounded strings without control characters, decimal fences, canonical timestamps,
  times to live, sizes and byte counts within their ranges, raw data within the input limit, and a
  forced handoff only if it was acknowledged), or it throws a protocol error with code
  \<open>INVALID_REQUEST\<close> or \<open>UNSUPPORTED_VERSION\<close>.
\<close>

theorem parsed_request_is_well_formed:
  "case parseTerminalControlRequest v of
     Inl e \<Rightarrow> \<exists>c message. e = protocol_error c message \<and> c \<in> {INVALID_REQUEST, UNSUPPORTED_VERSION}
   | Inr (requestId, r) \<Rightarrow> isStoredString requestId 128 \<and> isRequest r"
  using good_request [of v] by (auto simp: good_def split: sum.splits prod.splits)

section \<open>Round trip\<close>

definition owner_json :: "owner \<Rightarrow> json" where
  "owner_json w = JObj [(''kind'', JStr (owner_kind_name (okind w))), (''instanceId'', JStr (instanceId w))]"

definition lease_json :: "lease \<Rightarrow> json" where
  "lease_json l =
     JObj [(''controlTargetId'', JStr (l_controlTargetId l)), (''controlEpoch'', JStr (l_controlEpoch l)),
       (''leaseId'', JStr (l_leaseId l)), (''fence'', JStr (l_fence l)), (''owner'', owner_json (l_owner l)),
       (''expiresAt'', JStr (toISOString (l_expiresAt l)))]"

definition drain_json :: "drain_proof \<Rightarrow> json" where
  "drain_json d = JObj [(''disposition'', JStr (disposition_name (dp_disposition d))), (''recordId'', JStr (dp_recordId d)),
     (''recordedAt'', JStr (toISOString (dp_recordedAt d)))]"

definition recovery_json :: "recovery_proof \<Rightarrow> json" where
  "recovery_json p = JObj [(''kind'', JStr (proof_kind_name (rp_kind p))), (''recordId'', JStr (rp_recordId p)),
     (''recordedAt'', JStr (toISOString (rp_recordedAt p)))]"

definition source_json :: "agent_source \<Rightarrow> json" where
  "source_json s = JObj [(''provider'', JStr (provider_name (as_provider s))), (''boundary'', JStr (boundary_name (as_boundary s))),
     (''sourceId'', JStr (as_sourceId s)), (''sessionId'', JStr (as_sessionId s)), (''turnId'', JStr (as_turnId s)),
     (''startedAt'', JStr (toISOString (as_startedAt s)))]"

definition nullable :: "('a \<Rightarrow> json) \<Rightarrow> 'a option \<Rightarrow> json" where
  "nullable f v = (case v of None \<Rightarrow> JNull | Some a \<Rightarrow> f a)"

definition runtime_json :: "agent_runtime \<Rightarrow> json" where
  "runtime_json rt = JObj [(''model'', nullable JStr (rt_model rt)),
     (''reasoningEffort'', nullable (\<lambda>e. JStr (effort_name e)) (rt_reasoningEffort rt)), (''mode'', JStr (mode_name (rt_mode rt)))]"

text \<open>A field that is left out when its value is absent.\<close>

definition field_if :: "string \<Rightarrow> ('a \<Rightarrow> json) \<Rightarrow> 'a option \<Rightarrow> json_record" where
  "field_if k f v = (case v of None \<Rightarrow> [] | Some a \<Rightarrow> [(k, f a)])"

text \<open>The type of a request and its fields on the wire.\<close>

fun request_fields :: "request \<Rightarrow> string \<times> json_record" where
  "request_fields Ping = (''ping'', [])"
| "request_fields (TargetResolve s) = (''target.resolve'', [(''sessionName'', JStr s)])"
| "request_fields (OwnershipStatus i) = (''ownership.status'', [(''controlTargetId'', JStr i)])"
| "request_fields (LeaseAcquire i w ttl) =
     (''lease.acquire'', [(''controlTargetId'', JStr i), (''owner'', owner_json w)] @ field_if ''ttlMs'' JInt ttl)"
| "request_fields (LeaseRenew l ttl) = (''lease.renew'', (''lease'', lease_json l) # field_if ''ttlMs'' JInt ttl)"
| "request_fields (LeaseRelease l) = (''lease.release'', [(''lease'', lease_json l)])"
| "request_fields (HandoffBegin i w l) =
     (''handoff.begin'', [(''controlTargetId'', JStr i), (''nextOwner'', owner_json w)] @ field_if ''currentLease'' lease_json l)"
| "request_fields (HandoffCommit h l d ttl) =
     (''handoff.commit'', [(''handoffId'', JStr h), (''currentLease'', lease_json l), (''drain'', drain_json d)] @ field_if ''ttlMs'' JInt ttl)"
| "request_fields (HandoffCancel h l) = (''handoff.cancel'', [(''handoffId'', JStr h), (''currentLease'', lease_json l)])"
| "request_fields (HandoffWithdraw i h w) =
     (''handoff.withdraw'', [(''controlTargetId'', JStr i), (''handoffId'', JStr h), (''nextOwner'', owner_json w)])"
| "request_fields (HandoffForce i e w p ack ttl) =
     (''handoff.force'', [(''controlTargetId'', JStr i), (''expectedControlEpoch'', JStr e), (''nextOwner'', owner_json w),
        (''proof'', recovery_json p), (''acknowledgeUncertainOperation'', JBool ack)] @ field_if ''ttlMs'' JInt ttl)"
| "request_fields (InputRaw l oi p bytes) =
     (''input.raw'', [(''lease'', lease_json l), (''operationId'', JStr oi), (''pane'', JStr p), (''dataBase64'', JStr (base64_encode bytes))])"
| "request_fields (InputAgentMessage l oi p m submit rt) =
     (''input.agent-message'', [(''lease'', lease_json l), (''operationId'', JStr oi), (''pane'', JStr p), (''message'', JStr m),
        (''submit'', JBool submit)] @ field_if ''runtime'' runtime_json rt)"
| "request_fields (InputResize l oi p cols rows) =
     (''input.resize'', [(''lease'', lease_json l), (''operationId'', JStr oi), (''pane'', JStr p), (''cols'', JInt cols), (''rows'', JInt rows)])"
| "request_fields (InputScroll l oi p d lines) =
     (''input.scroll'', [(''lease'', lease_json l), (''operationId'', JStr oi), (''pane'', JStr p), (''direction'', JStr (direction_name d)),
        (''lines'', JInt lines)])"
| "request_fields (LifecycleKill l oi) = (''lifecycle.kill'', [(''lease'', lease_json l), (''operationId'', JStr oi)])"
| "request_fields (OutputTail i e g c maxBytes) =
     (''output.tail'', [(''controlTargetId'', JStr i), (''controlEpoch'', JStr e), (''outputGeneration'', JStr g), (''cursor'', JInt c)]
        @ field_if ''maxBytes'' JInt maxBytes)"
| "request_fields (OutputRenderedSnapshot l g p maxBytes) =
     (''output.rendered-snapshot'', [(''lease'', lease_json l), (''outputGeneration'', JStr g), (''pane'', JStr p)] @ field_if ''maxBytes'' JInt maxBytes)"
| "request_fields (ActivityAgentStatus l g p) =
     (''activity.agent-status'', [(''lease'', lease_json l), (''outputGeneration'', JStr g), (''pane'', JStr p)])"
| "request_fields (ActivityAgentResult l g p s maxBytes) =
     (''activity.agent-result'', [(''lease'', lease_json l), (''outputGeneration'', JStr g), (''pane'', JStr p), (''source'', source_json s)]
        @ field_if ''maxBytes'' JInt maxBytes)"

definition request_json :: "string \<Rightarrow> request \<Rightarrow> json" where
  "request_json requestId r =
     (case request_fields r of (ty, fs) \<Rightarrow>
        JObj ([(''protocolVersion'', JInt 1), (''requestId'', JStr requestId), (''type'', JStr ty)] @ fs))"

declare boundedString.simps [simp del]

lemma bindC_ret [simp]: "bindC (Inr a) f = f a"
  by (simp add: bindC_def)

lemma ensure_true [simp]: "ensure True message k = k"
  by (simp add: ensure_def)

lemma ensure_some_Some [simp]: "ensure_some (Some a) message k = k a"
  by (simp add: ensure_some_def)

lemma read_string [simp]: "isStoredString s n \<Longrightarrow> boundedString (Some (JStr s)) field n False = Inr s"
  by (simp add: isStoredString_def boundedString.simps)

lemma read_field [simp]: "map_of r field = Some (JStr s) \<Longrightarrow> isStoredString s n \<Longrightarrow> string_field r field n = Inr s"
  by (simp add: string_field_def)

lemma read_timestamp [simp]: "isCanonicalTimestamp t \<Longrightarrow> parse_timestamp (Some (JStr (toISOString t))) field = Inr t"
  by (simp add: parse_timestamp_def iso_stored date_parse_iso)

lemma digits_no_control: "isDecimal s \<Longrightarrow> s \<noteq> [] \<and> list_all (\<lambda>c. c \<noteq> CHR 0x00 \<and> c \<noteq> CHR 0x0D \<and> c \<noteq> CHR 0x0A) s"
  by (cases s) (auto simp: list_all_iff is_digit_def split: if_splits)

lemma stored_decimal: "isDecimal s \<Longrightarrow> length s \<le> n \<Longrightarrow> isStoredString s n"
  using digits_no_control [of s] by (simp add: isStoredString_def)

lemma read_owner [simp]: "isOwner w \<Longrightarrow> parse_owner (Some (owner_json w)) = Inr w"
  by (cases "okind w") (simp_all add: parse_owner_def owner_json_def exactKeys_def isOwner_def TERMINAL_CONTROL_OWNER_KINDS_def)

lemma read_lease [simp]: "isLease l \<Longrightarrow> parse_lease (Some (lease_json l)) = Inr l"
  by (simp add: parse_lease_def lease_json_def exactKeys_def isLease_def stored_decimal)

lemma read_drain [simp]: "isDrainProof d \<Longrightarrow> drainProof (Some (drain_json d)) = Inr d"
  by (cases "dp_disposition d") (simp_all add: drainProof_def drain_json_def exactKeys_def isDrainProof_def)

lemma read_recovery [simp]: "isRecoveryProof p \<Longrightarrow> recoveryProof (Some (recovery_json p)) = Inr p"
  by (cases "rp_kind p") (simp_all add: recoveryProof_def recovery_json_def exactKeys_def isRecoveryProof_def)

lemma stored_hash: "isPayloadHash s \<Longrightarrow> isStoredString s 64"
  by (auto simp: isPayloadHash_def isStoredString_def list_all_iff is_digit_def)

lemma read_source [simp]: "isSource s \<Longrightarrow> agentSource (Some (source_json s)) = Inr s"
  by (cases "as_provider s"; cases "as_boundary s")
    (simp_all add: agentSource_def source_json_def exactKeys_def isSource_def stored_hash)

lemma read_pane [simp]: "isPane p \<Longrightarrow> parse_pane (Some (JStr p)) = Inr p"
  by (simp add: parse_pane_def isPane_def stored_decimal)

lemma model_stored: "m \<noteq> [] \<Longrightarrow> length m \<le> 128 \<Longrightarrow> list_all model_char m \<Longrightarrow> isStoredString m 128"
  by (auto simp: isStoredString_def model_char_def is_digit_def list_all_iff)

lemma read_model: "optional (\<lambda>m. m \<noteq> [] \<and> length m \<le> 128 \<and> list_all model_char m) m \<Longrightarrow> model_of (Some (nullable JStr m)) = Inr m"
  using model_stored by (cases m) (auto simp: model_of_def nullable_def optional_def)

lemma read_effort: "effort_of (Some (nullable (\<lambda>e. JStr (effort_name e)) e)) = Some e"
proof (cases e)
  case (Some x)
  then show ?thesis by (cases x) (simp_all add: effort_of_def nullable_def)
qed (simp add: effort_of_def nullable_def)

lemma read_runtime [simp]: "isRuntime rt \<Longrightarrow> agentRuntimeSettings (Some (runtime_json rt)) = Inr rt"
  by (cases "rt_mode rt")
    (simp_all add: agentRuntimeSettings_def runtime_json_def exactKeys_def isRuntime_def read_model read_effort)

declare named.simps [simp del]

lemma read_direction [simp]: "named direction_name [Up, Down] (Some (JStr (direction_name d))) = Some d"
  by (cases d) (simp_all add: named.simps)

lemma read_ttl [simp]: "isTtl v \<Longrightarrow> optionalTtl (map_option JInt v) = Inr v"
  by (cases v) (auto simp: optionalTtl_def isTtl_def optional_def)

lemma read_max [simp]: "isMaxBytes limit v \<Longrightarrow> optionalMaxBytes (map_option JInt v) limit message = Inr v"
  by (cases v) (auto simp: optionalMaxBytes_def isMaxBytes_def optional_def)

lemma field_if_map [simp]: "map_of (field_if k f v) = (\<lambda>j. if j = k then map_option f v else None)"
  by (cases v) (auto simp: field_if_def)

lemma field_if_keys [simp]: "list_all (\<lambda>(j, x). P j) (field_if k f v) \<longleftrightarrow> v = None \<or> P k" "fst ` set (field_if k f v) = (if v = None then {} else {k})"
  by (cases v; simp add: field_if_def)+

lemma base64_length: "3 * length (base64_encode bs) \<le> 4 * (length bs + 2)"
  by (induction bs rule: base64_encode.induct) (simp_all add: Let_def)

lemma base64_no_control: "is_base64 s \<Longrightarrow> list_all (\<lambda>c. c \<noteq> CHR 0x00 \<and> c \<noteq> CHR 0x0D \<and> c \<noteq> CHR 0x0A) s"
  by (induction s rule: is_base64.induct) (auto simp: base64_alphabet_def split: if_splits)

lemma read_base64:
  "length bytes \<le> TERMINAL_CONTROL_MAX_INPUT_BYTES \<Longrightarrow>
   boundedString (Some (JStr (base64_encode bytes))) field (TERMINAL_CONTROL_MAX_INPUT_BYTES * 2) True = Inr (base64_encode bytes)"
  using base64_length [of bytes] base64_no_control [OF is_base64_encode [of bytes]]
  by (simp add: boundedString.simps ensure_def TERMINAL_CONTROL_MAX_INPUT_BYTES_def)

lemmas request_case_defs =
  case_target_resolve_def case_ownership_status_def case_lease_acquire_def case_lease_renew_def case_lease_release_def
  case_handoff_begin_def case_handoff_commit_def case_handoff_cancel_def case_handoff_withdraw_def case_handoff_force_def
  case_input_raw_def case_input_agent_message_def case_input_resize_def case_input_scroll_def case_lifecycle_kill_def
  case_output_tail_def case_rendered_snapshot_def case_agent_status_def case_agent_result_def

lemma request_case:
  "map_of request_cases ''ping'' = Some ([], [], \<lambda>r. Inr Ping)"
  "map_of request_cases ''target.resolve'' = Some ([''sessionName''], [], case_target_resolve)"
  "map_of request_cases ''ownership.status'' = Some ([''controlTargetId''], [], case_ownership_status)"
  "map_of request_cases ''lease.acquire'' = Some ([''controlTargetId'', ''owner''], [''ttlMs''], case_lease_acquire)"
  "map_of request_cases ''lease.renew'' = Some ([''lease''], [''ttlMs''], case_lease_renew)"
  "map_of request_cases ''lease.release'' = Some ([''lease''], [], case_lease_release)"
  "map_of request_cases ''handoff.begin'' = Some ([''controlTargetId'', ''nextOwner''], [''currentLease''], case_handoff_begin)"
  "map_of request_cases ''handoff.commit'' = Some ([''handoffId'', ''currentLease'', ''drain''], [''ttlMs''], case_handoff_commit)"
  "map_of request_cases ''handoff.cancel'' = Some ([''handoffId'', ''currentLease''], [], case_handoff_cancel)"
  "map_of request_cases ''handoff.withdraw'' = Some ([''controlTargetId'', ''handoffId'', ''nextOwner''], [], case_handoff_withdraw)"
  "map_of request_cases ''handoff.force'' = Some ([''controlTargetId'', ''expectedControlEpoch'', ''nextOwner'', ''proof'', ''acknowledgeUncertainOperation''], [''ttlMs''], case_handoff_force)"
  "map_of request_cases ''input.raw'' = Some ([''lease'', ''operationId'', ''pane'', ''dataBase64''], [], case_input_raw)"
  "map_of request_cases ''input.agent-message'' = Some ([''lease'', ''operationId'', ''pane'', ''message'', ''submit''], [''runtime''], case_input_agent_message)"
  "map_of request_cases ''input.resize'' = Some ([''lease'', ''operationId'', ''pane'', ''cols'', ''rows''], [], case_input_resize)"
  "map_of request_cases ''input.scroll'' = Some ([''lease'', ''operationId'', ''pane'', ''direction'', ''lines''], [], case_input_scroll)"
  "map_of request_cases ''lifecycle.kill'' = Some ([''lease'', ''operationId''], [], case_lifecycle_kill)"
  "map_of request_cases ''output.tail'' = Some ([''controlTargetId'', ''controlEpoch'', ''outputGeneration'', ''cursor''], [''maxBytes''], case_output_tail)"
  "map_of request_cases ''output.rendered-snapshot'' = Some ([''lease'', ''outputGeneration'', ''pane''], [''maxBytes''], case_rendered_snapshot)"
  "map_of request_cases ''activity.agent-status'' = Some ([''lease'', ''outputGeneration'', ''pane''], [], case_agent_status)"
  "map_of request_cases ''activity.agent-result'' = Some ([''lease'', ''outputGeneration'', ''pane'', ''source''], [''maxBytes''], case_agent_result)"
  by (simp_all add: request_cases_def)

lemma request_type: "isStoredString (fst (request_fields r)) 64"
  by (cases r) (simp_all add: isStoredString_def)

lemma read_request:
  assumes "isStoredString requestId 128" and "request_fields r = (ty, fs)" and "map_of request_cases ty = Some (required, allowed, body)"
    and "exactKeys ((''protocolVersion'', JInt 1) # (''requestId'', JStr requestId) # (''type'', JStr ty) # fs)
          (''protocolVersion'' # ''requestId'' # ''type'' # required) allowed"
    and "body ((''protocolVersion'', JInt 1) # (''requestId'', JStr requestId) # (''type'', JStr ty) # fs) = Inr r"
  shows "parseTerminalControlRequest (request_json requestId r) = Inr (requestId, r)"
  using assms request_type [of r] by (simp add: parseTerminalControlRequest_def common_def request_json_def Let_def)

lemmas read_cases =
  read_request [OF _ request_fields.simps(1) request_case(1)]
  read_request [OF _ request_fields.simps(2) request_case(2)]
  read_request [OF _ request_fields.simps(3) request_case(3)]
  read_request [OF _ request_fields.simps(4) request_case(4)]
  read_request [OF _ request_fields.simps(5) request_case(5)]
  read_request [OF _ request_fields.simps(6) request_case(6)]
  read_request [OF _ request_fields.simps(7) request_case(7)]
  read_request [OF _ request_fields.simps(8) request_case(8)]
  read_request [OF _ request_fields.simps(9) request_case(9)]
  read_request [OF _ request_fields.simps(10) request_case(10)]
  read_request [OF _ request_fields.simps(11) request_case(11)]
  read_request [OF _ request_fields.simps(12) request_case(12)]
  read_request [OF _ request_fields.simps(13) request_case(13)]
  read_request [OF _ request_fields.simps(14) request_case(14)]
  read_request [OF _ request_fields.simps(15) request_case(15)]
  read_request [OF _ request_fields.simps(16) request_case(16)]
  read_request [OF _ request_fields.simps(17) request_case(17)]
  read_request [OF _ request_fields.simps(18) request_case(18)]
  read_request [OF _ request_fields.simps(19) request_case(19)]
  read_request [OF _ request_fields.simps(20) request_case(20)]

lemma request_is_read:
  assumes "isStoredString requestId 128" and "isRequest r"
  shows "parseTerminalControlRequest (request_json requestId r) = Inr (requestId, r)"
  by (insert assms(2), cases r; hypsubst; rule read_cases [OF assms(1)])
    (simp_all add: exactKeys_def request_case_defs map_add_def optional_def message_of_def bool_of_def is_safe_integer_def isSafeCount_def
      read_base64 is_base64_encode decode_encode Let_def split: option.splits)

text \<open>
  C28. Every well-formed request is accepted: parsing the JSON value of a request returns that
  request under its id.
\<close>

theorem request_round_trip:
  assumes "isStoredString requestId 128" and "isRequest r"
  shows "parseTerminalControlRequest (request_json requestId r) = Inr (requestId, r)"
  by (rule request_is_read [OF assms])

section \<open>Responses\<close>

fun error_retryable :: "tc_error \<Rightarrow> bool" where
  "error_retryable (ProtocolError c m b) = b"
| "error_retryable (AgentMessageNotApplied c m b) = b"
| "error_retryable (PlainError m) = False"

lemma error_response: "terminalControlErrorResponse requestId e
    = Failure requestId (case error_code_of e of None \<Rightarrow> INTERNAL | Some c \<Rightarrow> c) (error_message e) (error_retryable e)"
  by (cases e) simp_all

lemma read_code [simp]: "named error_code_name TERMINAL_CONTROL_ERROR_CODES (Some (JStr (error_code_name c))) = Some c"
  by (cases c) (simp_all add: TERMINAL_CONTROL_ERROR_CODES_def named.simps)

text \<open>
  C29. The client reads an error response back as the code, message and retryability of the error
  (\<open>INTERNAL\<close> for one that is no protocol error) exactly when the message is not empty, has no NUL
  and at most 8 KiB; otherwise it refuses the response itself, so a longer message replaces the
  error by \<open>INVALID_REQUEST\<close>.
\<close>

theorem error_response_round_trip:
  assumes "isStoredString requestId 128" and "expected = None \<or> expected = Some requestId"
  shows "parseTerminalControlResponse (response_json enc (terminalControlErrorResponse requestId e)) expected =
     (if error_message e \<noteq> [] \<and> CHR 0x00 \<notin> set (error_message e) \<and> utf8_length (error_message e) \<le> 8192
      then Inr (Failure requestId (case error_code_of e of None \<Rightarrow> INTERNAL | Some c \<Rightarrow> c) (error_message e) (error_retryable e))
      else Inl (protocol_error INVALID_REQUEST ''terminal-control response error is invalid''))"
  using assms
  by (auto simp: parseTerminalControlResponse_def error_response exactKeys_def response_error_def bool_of_def ensure_some_def)

section \<open>Examples\<close>

abbreviation sample_lease :: lease where
  "sample_lease \<equiv> \<lparr>l_controlTargetId = ''t1'', l_controlEpoch = ''e1'', l_leaseId = ''l1'', l_fence = ''7'',
     l_owner = \<lparr>okind = Dashboard, instanceId = ''desk''\<rparr>, l_expiresAt = 1700000000000\<rparr>"

theorem request_round_trip_witness:
  "parseTerminalControlRequest (request_json ''r1'' (InputRaw sample_lease ''op'' ''0'' ''ls'')) = Inr (''r1'', InputRaw sample_lease ''op'' ''0'' ''ls'')
   \<and> snd (request_fields (InputRaw sample_lease ''op'' ''0'' ''ls'')) ! 3 = (''dataBase64'', JStr ''bHM='')"
proof -
  have "base64_encode ''ls'' = ''bHM=''" by (simp add: base64_char_def char_of_def bit_iff_odd)
  then show ?thesis
    using request_round_trip [of "''r1''" "InputRaw sample_lease ''op'' ''0'' ''ls''"]
    by (simp add: isStoredString_def isLease_def isOwner_def isPane_def is_digit_def isCanonicalTimestamp_def TERMINAL_CONTROL_MAX_INPUT_BYTES_def
      del: base64_encode.simps)
qed

theorem error_response_round_trip_witness:
  "parseTerminalControlResponse (response_json (\<lambda>_. JNull) (terminalControlErrorResponse ''r1'' (PlainError ''disk full'') :: unit response)) (Some ''r1'')
     = Inr (Failure ''r1'' INTERNAL ''disk full'' False)
   \<and> parseTerminalControlResponse (response_json (\<lambda>_. JNull) (terminalControlErrorResponse ''r1'' (PlainError []) :: unit response)) (Some ''r1'')
     = Inl (protocol_error INVALID_REQUEST ''terminal-control response error is invalid'')"
  using error_response_round_trip [of "''r1''" "Some ''r1''" "\<lambda>_ :: unit. JNull" "PlainError ''disk full''"]
    error_response_round_trip [of "''r1''" "Some ''r1''" "\<lambda>_ :: unit. JNull" "PlainError []"]
  by (simp add: isStoredString_def utf8_length_def)

end
