(* ===== verification/TC_Server.thy ===== *)
theory TC_Server
  imports TC_Runs TC_ProtocolFacts
begin

text \<open>
  The socket front of the terminal-control daemon (\<open>handleSocket\<close> of
  \<open>src/terminalControl/server.ts\<close>): one request per connection, framed by a newline. A
  connection is the closure of one call of \<open>handleSocket\<close>; the server is the authority's world
  with its connections, driven by events in any order: a connection opens, a chunk arrives, the
  authority settles the request of a connection, a connection is destroyed by its peer or its idle
  timeout. \<open>JSON.parse\<close> is the parameter \<open>json_parse\<close> (\<open>Inl\<close> the message of the \<open>SyntaxError\<close>); every
  theorem holds for any function in its place.
\<close>

section \<open>Connections\<close>

record connection =
  cn_buffer :: string
  cn_handled :: bool
  cn_destroyed :: bool
  cn_pending :: "(string \<times> request) option"
  cn_sent :: "result response list"

definition TERMINAL_CONTROL_MAX_FRAME_BYTES :: nat where
  "TERMINAL_CONTROL_MAX_FRAME_BYTES = 393216"

definition accepted_socket :: connection where
  "accepted_socket = \<lparr>cn_buffer = [], cn_handled = False, cn_destroyed = False, cn_pending = None, cn_sent = []\<rparr>"

fun requestIdFrom :: "json \<Rightarrow> string" where
  "requestIdFrom (JObj kvs) =
     (case map_of kvs ''requestId'' of
        Some (JStr s) \<Rightarrow> if s \<noteq> [] \<and> length s \<le> 128 then s else ''invalid''
      | _ \<Rightarrow> ''invalid'')"
| "requestIdFrom v = ''invalid''"

definition writeResponse :: "result response \<Rightarrow> connection \<Rightarrow> connection" where
  "writeResponse response c = (if cn_destroyed c then c else c\<lparr>cn_sent := cn_sent c @ [response]\<rparr>)"

text \<open>\<open>buffer.indexOf("\n")\<close> and the two slices around it.\<close>

definition split_frame :: "string \<Rightarrow> (string \<times> string) option" where
  "split_frame buffer =
     (if CHR 0x0A \<in> set buffer
      then Some (takeWhile (\<lambda>c. c \<noteq> CHR 0x0A) buffer, drop 1 (dropWhile (\<lambda>c. c \<noteq> CHR 0x0A) buffer))
      else None)"

definition on_frame :: "(string \<Rightarrow> string + json) \<Rightarrow> string \<Rightarrow> connection \<Rightarrow> connection" where
  "on_frame json_parse frame c =
     (case json_parse frame of
        Inl message \<Rightarrow> writeResponse (terminalControlErrorResponse ''invalid'' (PlainError message)) c
      | Inr decoded \<Rightarrow>
          (case parseTerminalControlRequest decoded of
             Inl e \<Rightarrow> writeResponse (terminalControlErrorResponse (requestIdFrom decoded) e) c
           | Inr (requestId, request) \<Rightarrow> c\<lparr>cn_pending := Some (requestId, request)\<rparr>))"

definition on_data :: "(string \<Rightarrow> string + json) \<Rightarrow> string \<Rightarrow> connection \<Rightarrow> connection" where
  "on_data json_parse chunk c =
     (if cn_destroyed c then c
      else if cn_handled c then c\<lparr>cn_destroyed := True\<rparr>
      else
        (let buffer = cn_buffer c @ chunk; c1 = c\<lparr>cn_buffer := buffer\<rparr>; c2 = c1\<lparr>cn_handled := True\<rparr> in
         if TERMINAL_CONTROL_MAX_FRAME_BYTES < utf8_length buffer
         then writeResponse (terminalControlErrorResponse ''invalid'' (PlainError ''terminal-control request exceeds the frame limit'')) c2
         else
           (case split_frame buffer of
              None \<Rightarrow> c1
            | Some (frame, after) \<Rightarrow>
                if trim after \<noteq> [] then c2\<lparr>cn_destroyed := True\<rparr> else on_frame json_parse frame c2)))"

definition on_settled :: "tc_error + result \<Rightarrow> connection \<Rightarrow> connection" where
  "on_settled outcome c =
     (case cn_pending c of
        None \<Rightarrow> c
      | Some (requestId, request) \<Rightarrow>
          writeResponse
            (case outcome of Inl e \<Rightarrow> terminalControlErrorResponse requestId e | Inr r \<Rightarrow> Success requestId r)
            (c\<lparr>cn_pending := None\<rparr>))"

section \<open>The server\<close>

record 'b server =
  sv_world :: "'b world"
  sv_connections :: "connection list"

datatype event = Connect | Data nat string | Settle nat | Destroy nat

fun server_event :: "'b platform \<Rightarrow> (string \<Rightarrow> string + json) \<Rightarrow> event \<Rightarrow> 'b server \<Rightarrow> 'b server" where
  "server_event P json_parse Connect s = s\<lparr>sv_connections := sv_connections s @ [accepted_socket]\<rparr>"
| "server_event P json_parse (Data i chunk) s =
     (if i < length (sv_connections s)
      then s\<lparr>sv_connections := (sv_connections s)[i := on_data json_parse chunk (sv_connections s ! i)]\<rparr> else s)"
| "server_event P json_parse (Settle i) s =
     (if i < length (sv_connections s)
      then (case cn_pending (sv_connections s ! i) of
              None \<Rightarrow> s
            | Some (requestId, request) \<Rightarrow>
                (case handle P request (sv_world s) of (outcome, w) \<Rightarrow>
                   s\<lparr>sv_world := w, sv_connections := (sv_connections s)[i := on_settled outcome (sv_connections s ! i)]\<rparr>))
      else s)"
| "server_event P json_parse (Destroy i) s =
     (if i < length (sv_connections s)
      then s\<lparr>sv_connections := (sv_connections s)[i := (sv_connections s ! i)\<lparr>cn_destroyed := True\<rparr>]\<rparr> else s)"

abbreviation server_run :: "'b platform \<Rightarrow> (string \<Rightarrow> string + json) \<Rightarrow> event list \<Rightarrow> 'b server \<Rightarrow> 'b server" where
  "server_run P json_parse evs s \<equiv> fold (server_event P json_parse) evs s"

definition listening :: "'b world \<Rightarrow> 'b server" where
  "listening w = \<lparr>sv_world = w, sv_connections = []\<rparr>"

section \<open>One request and one response per connection\<close>

text \<open>
  A connection with \<open>spent\<close> requests given to the authority: nothing is pending or sent before a
  frame is complete, and at most one of the request and the response exists.
\<close>

definition conn_ok :: "connection \<Rightarrow> bool" where
  "conn_ok c \<longleftrightarrow>
     (\<not> cn_handled c \<longrightarrow> cn_pending c = None \<and> cn_sent c = [])
     \<and> (cn_pending c \<noteq> None \<longrightarrow> cn_sent c = []) \<and> length (cn_sent c) \<le> 1
     \<and> (\<forall>requestId r. cn_pending c = Some (requestId, r) \<longrightarrow> isStoredString requestId 128 \<and> isRequest r)"

lemma conn_ok_accepted: "conn_ok accepted_socket"
  by (simp add: conn_ok_def accepted_socket_def)

lemma parsed_ok: "parseTerminalControlRequest v = Inr (requestId, r) \<Longrightarrow> isStoredString requestId 128 \<and> isRequest r"
  using good_request [of v] by (simp add: good_def)

lemma conn_ok_frame:
  "cn_pending c = None \<Longrightarrow> cn_sent c = [] \<Longrightarrow> cn_handled c \<Longrightarrow> conn_ok (on_frame json_parse frame c)"
  by (auto simp: on_frame_def conn_ok_def writeResponse_def dest: parsed_ok split: sum.split)

lemma conn_ok_data: "conn_ok c \<Longrightarrow> conn_ok (on_data json_parse chunk c)"
proof (cases "cn_destroyed c \<or> cn_handled c")
  case True
  assume "conn_ok c"
  with True show ?thesis by (auto simp: on_data_def conn_ok_def)
next
  case False
  assume "conn_ok c"
  with False have "cn_pending c = None" "cn_sent c = []" by (simp_all add: conn_ok_def)
  with False show ?thesis
    by (auto simp: on_data_def Let_def intro!: conn_ok_frame split: option.split) (auto simp: conn_ok_def writeResponse_def)
qed

lemma conn_ok_settled: "conn_ok c \<Longrightarrow> conn_ok (on_settled outcome c)"
  by (auto simp: on_settled_def conn_ok_def writeResponse_def split: option.split)

lemma conn_ok_destroyed: "conn_ok c \<Longrightarrow> conn_ok (c\<lparr>cn_destroyed := True\<rparr>)"
  by (simp add: conn_ok_def)

text \<open>A handled connection without a pending request is done: no later event gives it one.\<close>

definition undone :: "connection \<Rightarrow> bool" where
  "undone c \<longleftrightarrow> \<not> cn_handled c \<or> cn_pending c \<noteq> None"

lemma undone_data: "conn_ok c \<Longrightarrow> undone (on_data json_parse chunk c) \<Longrightarrow> undone c"
  by (auto simp: undone_def on_data_def conn_ok_def Let_def on_frame_def writeResponse_def split: if_splits option.splits sum.splits prod.splits)

lemma undone_settled: "cn_pending c \<noteq> None \<Longrightarrow> conn_ok c \<Longrightarrow> undone c \<and> \<not> undone (on_settled outcome c)"
  by (auto simp: undone_def on_settled_def conn_ok_def writeResponse_def split: option.splits)

definition pending_count :: "connection list \<Rightarrow> nat" where
  "pending_count cs = length (filter undone cs)"

lemma filter_update:
  assumes "i < length xs" and "Q y \<Longrightarrow> Q (xs ! i)"
  shows "length (filter Q (xs[i := y])) \<le> length (filter Q xs)"
    and "Q (xs ! i) \<Longrightarrow> \<not> Q y \<Longrightarrow> Suc (length (filter Q (xs[i := y]))) = length (filter Q xs)"
proof -
  have x: "xs = take i xs @ xs ! i # drop (Suc i) xs" and y: "xs[i := y] = take i xs @ y # drop (Suc i) xs"
    using assms(1) by (simp_all add: id_take_nth_drop upd_conv_take_nth_drop)
  show "length (filter Q (xs[i := y])) \<le> length (filter Q xs)"
    unfolding y by (subst (3) x) (use assms(2) in simp)
  show "Suc (length (filter Q (xs[i := y]))) = length (filter Q xs)" if "Q (xs ! i)" "\<not> Q y"
    unfolding y by (subst (3) x) (use that in simp)
qed

lemma list_all_update: "list_all Q xs \<Longrightarrow> Q y \<Longrightarrow> list_all Q (xs[i := y])"
  by (auto simp: list_all_iff dest!: set_update_subset_insert [THEN subsetD])

lemma server_step:
  assumes "list_all conn_ok (sv_connections s)"
  shows "list_all conn_ok (sv_connections (server_event P json_parse ev s))
     \<and> (\<exists>rs. sv_world (server_event P json_parse ev s) = call_run P (map Handle rs) (sv_world s) \<and> list_all isRequest rs
          \<and> pending_count (sv_connections (server_event P json_parse ev s)) + length rs
              \<le> pending_count (sv_connections s) + (if ev = Connect then 1 else 0))"
    (is "?A (server_event P json_parse ev s) \<and> (\<exists>rs. ?B (server_event P json_parse ev s) rs)")
proof (cases ev)
  case Connect
  with assms show ?thesis
    by (auto intro!: exI [of _ "[]"] simp: pending_count_def undone_def accepted_socket_def conn_ok_accepted [unfolded accepted_socket_def])
next
  case (Data i chunk)
  show ?thesis
  proof (cases "i < length (sv_connections s)")
    case True
    then have ok: "conn_ok (sv_connections s ! i)" using assms by (simp add: list_all_length)
    show ?thesis
      using True Data assms conn_ok_data [OF ok] filter_update(1) [where Q = undone, OF True undone_data [OF ok]]
      by (auto intro!: exI [of _ "[]"] list_all_update simp: pending_count_def)
  qed (use assms Data in \<open>auto intro!: exI [of _ "[]"]\<close>)
next
  case (Settle i)
  show ?thesis
  proof (cases "i < length (sv_connections s) \<and> cn_pending (sv_connections s ! i) \<noteq> None")
    case True
    then obtain requestId r where p: "cn_pending (sv_connections s ! i) = Some (requestId, r)" and i: "i < length (sv_connections s)" by auto
    have ok: "conn_ok (sv_connections s ! i)" using assms i by (simp add: list_all_length)
    obtain x w where h: "handle P r (sv_world s) = (x, w)" by (cases "handle P r (sv_world s)")
    have "isRequest r" using ok p by (simp add: conn_ok_def)
    moreover have "Suc (pending_count ((sv_connections s)[i := on_settled x (sv_connections s ! i)])) = pending_count (sv_connections s)"
      unfolding pending_count_def
      by (rule filter_update(2) [OF i]) (use undone_settled [OF _ ok] p in auto)
    ultimately show ?thesis
      using Settle i p h assms conn_ok_settled [OF ok] by (auto intro!: exI [of _ "[r]"] list_all_update)
  next
    case False
    with Settle assms show ?thesis by (auto intro!: exI [of _ "[]"] split: option.split)
  qed
next
  case (Destroy i)
  show ?thesis
  proof (cases "i < length (sv_connections s)")
    case True
    then have ok: "conn_ok (sv_connections s ! i)" using assms by (simp add: list_all_length)
    have "undone ((sv_connections s ! i)\<lparr>cn_destroyed := True\<rparr>) \<Longrightarrow> undone (sv_connections s ! i)" by (simp add: undone_def)
    from filter_update(1) [where Q = undone, OF True this] show ?thesis
      using True Destroy assms conn_ok_destroyed [OF ok]
      by (auto intro!: exI [of _ "[]"] list_all_update simp: pending_count_def)
  qed (use assms Destroy in \<open>auto intro!: exI [of _ "[]"]\<close>)
qed

lemma server_runs:
  assumes "list_all conn_ok (sv_connections s)"
  shows "list_all conn_ok (sv_connections (server_run P json_parse evs s))
     \<and> (\<exists>rs. sv_world (server_run P json_parse evs s) = call_run P (map Handle rs) (sv_world s) \<and> list_all isRequest rs
          \<and> length rs \<le> pending_count (sv_connections s) + count_list evs Connect)"
  using assms
proof (induction evs arbitrary: s)
  case Nil
  then show ?case by (auto intro!: exI [of _ "[]"])
next
  case (Cons ev evs)
  let ?s = "server_event P json_parse ev s"
  obtain rs where ok: "list_all conn_ok (sv_connections ?s)" and rs: "sv_world ?s = call_run P (map Handle rs) (sv_world s)" "list_all isRequest rs"
    "pending_count (sv_connections ?s) + length rs \<le> pending_count (sv_connections s) + (if ev = Connect then 1 else 0)"
    using server_step [OF Cons.prems] by blast
  obtain rs' where "list_all conn_ok (sv_connections (server_run P json_parse evs ?s))"
    "sv_world (server_run P json_parse evs ?s) = call_run P (map Handle rs') (sv_world ?s)" "list_all isRequest rs'"
    "length rs' \<le> pending_count (sv_connections ?s) + count_list evs Connect"
    using Cons.IH [OF ok] by blast
  with rs show ?case by (auto intro!: exI [of _ "rs @ rs'"])
qed

text \<open>
  C30. Whatever clients connect and send, in whatever chunks and interleaving, the daemon refines the
  authority: what its events do to the authority's world is a sequence of calls of \<open>handle\<close> with
  well-formed requests, at most one for each connection that was opened, and no connection is
  sent more than one response.
\<close>

theorem server_refines_authority:
  "(\<exists>rs. sv_world (server_run P json_parse evs (listening w)) = call_run P (map Handle rs) w
       \<and> list_all isRequest rs \<and> length rs \<le> count_list evs Connect)
   \<and> list_all (\<lambda>c. length (cn_sent c) \<le> 1) (sv_connections (server_run P json_parse evs (listening w)))"
  using server_runs [of "listening w" P json_parse evs]
  by (auto simp: listening_def pending_count_def conn_ok_def list_all_iff)

section \<open>Every request is answered\<close>

lemma utf8_length_append: "utf8_length (s @ t) = utf8_length s + utf8_length t"
  by (simp add: utf8_length_def)

lemma read_chunks:
  assumes "concat chunks = frame @ [CHR 0x0A]" and "CHR 0x0A \<notin> set frame" and "[] \<notin> set chunks"
    and "utf8_length (b @ frame @ [CHR 0x0A]) \<le> TERMINAL_CONTROL_MAX_FRAME_BYTES" and "CHR 0x0A \<notin> set b"
    and "c = accepted_socket\<lparr>cn_buffer := b\<rparr>"
  shows "\<exists>c'. cn_handled c' \<and> \<not> cn_destroyed c' \<and> cn_pending c' = None \<and> cn_sent c' = []
     \<and> fold (on_data json_parse) chunks c = on_frame json_parse (b @ frame) c'"
  using assms
proof (induction chunks arbitrary: b frame c)
  case (Cons ch chunks)
  let ?nl = "CHR 0x0A :: char"
  have small: "utf8_length (b @ ch) \<le> TERMINAL_CONTROL_MAX_FRAME_BYTES"
  proof -
    have "utf8_length (b @ frame @ [?nl]) = utf8_length (b @ ch) + utf8_length (concat chunks)"
      using Cons.prems(1) utf8_length_append [of "b @ ch" "concat chunks"] by simp
    then show ?thesis using Cons.prems(4) by simp
  qed
  show ?case
  proof (cases "chunks = []")
    case True
    then have ch: "ch = frame @ [?nl]" using Cons.prems(1) by simp
    have "split_frame (b @ frame @ [?nl]) = Some (b @ frame, [])"
      using Cons.prems(2,5) by (auto simp: split_frame_def takeWhile_append dropWhile_append)
    then show ?thesis
      using True ch small Cons.prems(6)
      by (auto simp: on_data_def Let_def accepted_socket_def trim_def
          intro!: exI [of _ "accepted_socket\<lparr>cn_buffer := b @ frame @ [?nl], cn_handled := True\<rparr>", unfolded accepted_socket_def, simplified])
  next
    case False
    then have "concat chunks \<noteq> []" using Cons.prems(3) by (cases chunks) auto
    then obtain rest where rest: "concat chunks = rest @ [?nl]" "frame = ch @ rest"
      using Cons.prems(1) by (cases "concat chunks" rule: rev_cases) (simp, metis append.assoc append1_eq_conv concat.simps(2))
    have "fold (on_data json_parse) (ch # chunks) c = fold (on_data json_parse) chunks (accepted_socket\<lparr>cn_buffer := b @ ch\<rparr>)"
      using Cons.prems(2,5,6) rest(2) small by (simp add: on_data_def split_frame_def Let_def accepted_socket_def)
    moreover have "\<exists>c'. cn_handled c' \<and> \<not> cn_destroyed c' \<and> cn_pending c' = None \<and> cn_sent c' = []
       \<and> fold (on_data json_parse) chunks (accepted_socket\<lparr>cn_buffer := b @ ch\<rparr>) = on_frame json_parse ((b @ ch) @ rest) c'"
      by (rule Cons.IH) (use rest Cons.prems in auto)
    ultimately show ?thesis using rest(2) by simp
  qed
qed simp

text \<open>
  C31. A client that sends a well-formed request as one frame within the limit, in whatever chunks,
  is answered: its request is given to the authority, and when the authority settles it exactly
  one response is sent, which carries the id of the request and the authority's outcome.
\<close>

theorem framed_request_is_answered:
  assumes "json_parse frame = Inr (request_json requestId r)" and "isStoredString requestId 128" and "isRequest r"
    and "concat chunks = frame @ [CHR 0x0A]" and "CHR 0x0A \<notin> set frame" and "[] \<notin> set chunks"
    and "utf8_length frame < TERMINAL_CONTROL_MAX_FRAME_BYTES"
  shows "cn_pending (fold (on_data json_parse) chunks accepted_socket) = Some (requestId, r)
     \<and> cn_sent (on_settled outcome (fold (on_data json_parse) chunks accepted_socket))
         = [case outcome of Inl e \<Rightarrow> terminalControlErrorResponse requestId e | Inr x \<Rightarrow> Success requestId x]"
proof -
  have "utf8_length ([] @ frame @ [CHR 0x0A]) \<le> TERMINAL_CONTROL_MAX_FRAME_BYTES"
    using assms(7) utf8_length_append [of frame "[CHR 0x0A]"] by (simp add: utf8_length_def)
  from read_chunks [OF assms(4-6) this, of accepted_socket json_parse]
  obtain c where c: "cn_handled c" "\<not> cn_destroyed c" "cn_pending c = None" "cn_sent c = []"
    "fold (on_data json_parse) chunks accepted_socket = on_frame json_parse frame c"
    by (auto simp: accepted_socket_def)
  have "parseTerminalControlRequest (request_json requestId r) = Inr (requestId, r)"
    by (rule request_is_read [OF assms(2,3)])
  with c assms(1) show ?thesis by (simp add: on_frame_def on_settled_def writeResponse_def)
qed

theorem framed_request_is_answered_witness:
  "cn_pending (fold (on_data (\<lambda>_. Inr (request_json ''r1'' Ping))) [''p'', [CHR 0x0A]] accepted_socket) = Some (''r1'', Ping)
   \<and> cn_sent (on_settled (Inl (PlainError ''x'')) (fold (on_data (\<lambda>_. Inr (request_json ''r1'' Ping))) [''p'', [CHR 0x0A]] accepted_socket))
       = [Failure ''r1'' INTERNAL ''x'' False]"
  using framed_request_is_answered [of "\<lambda>_. Inr (request_json ''r1'' Ping)" "''p''" "''r1''" Ping "[''p'', [CHR 0x0A]]" "Inl (PlainError ''x'')"]
  by (simp add: isStoredString_def utf8_length_def TERMINAL_CONTROL_MAX_FRAME_BYTES_def)

end
