(* ===== verification/RV2_StrictJson.thy ===== *)
theory RV2_StrictJson
  imports JS_Json
begin

text \<open>
  The strict JSON parser of Relay v2 (relay/v2/strictJson.ts): the class \<open>StrictJsonParser\<close> with
  its fields as the record \<open>parser\<close>. \<open>offset\<close> is represented by what is left of the source
  from it. A throw is \<open>Fail\<close> with the failure class. The mutually recursive methods take a bound
  on the number of nested calls and loop rounds; \<open>Stuck\<close> would be running out of it, and never
  happens with the bound \<open>parse_bound\<close> the entry points use (C22).
\<close>

section \<open>State\<close>

datatype failure_class =
    DuplicateKey | InvalidUtf8 | JsonDepthLimit | JsonDirectKeyLimit | JsonTotalKeyLimit | JsonNodeLimit
  | MalformedJson | NonObjectRoot | SafeIntegerLimit | TrailingJson

datatype stop = Fail failure_class | Stuck

record json_limits =
  maxDepth :: nat
  maxDirectKeys :: nat
  maxTotalKeys :: nat
  maxNodes :: nat

record parser =
  rest :: jtext
  totalKeys :: nat
  totalNodes :: nat
  rootType :: "jtext option"
  rootIsObject :: bool

type_synonym 'a parse = "(parser, stop, 'a) em"

abbreviation malformed :: "'a parse" where
  "malformed \<equiv> throwE (Fail MalformedJson)"

abbreviation failIf :: "bool \<Rightarrow> failure_class \<Rightarrow> unit parse" where
  "failIf b f \<equiv> whenE b (throwE (Fail f))"

text \<open>\<open>this.source[this.offset]\<close>\<close>

definition peek :: "parser \<Rightarrow> nat option" where
  "peek p = (case rest p of [] \<Rightarrow> None | c # _ \<Rightarrow> Some c)"

definition advance :: "nat \<Rightarrow> unit parse" where
  "advance n = modifyE (\<lambda>p. p\<lparr>rest := drop n (rest p)\<rparr>)"

definition json_space :: "nat \<Rightarrow> bool" where
  "json_space c \<longleftrightarrow> c = 32 \<or> c = 9 \<or> c = 13 \<or> c = 10"

definition skipWhitespace :: "unit parse" where
  "skipWhitespace = modifyE (\<lambda>p. p\<lparr>rest := dropWhile json_space (rest p)\<rparr>)"

section \<open>Strings\<close>

definition hex_unit :: "nat \<Rightarrow> bool" where
  "hex_unit c \<longleftrightarrow> 48 \<le> c \<and> c \<le> 57 \<or> 97 \<le> c \<and> c \<le> 102 \<or> 65 \<le> c \<and> c \<le> 70"

definition hex_unit_value :: "nat \<Rightarrow> nat" where
  "hex_unit_value c = (if c \<le> 57 then c - 48 else if c \<le> 70 then c - 55 else c - 87)"

text \<open>
  The scan of \<open>parseString\<close> from behind the opening quote: the text between the quotes, still
  escaped, and what follows the closing one.
\<close>

fun scan_string :: "jtext \<Rightarrow> (jtext \<times> jtext) option" where
  "scan_string [] = None"
| "scan_string (c # cs) =
     (if c = 34 then Some ([], cs)
      else if c < 32 then None
      else if c = 92 then
        (case cs of
           [] \<Rightarrow> None
         | e # es \<Rightarrow>
             if e = 117 then
               (case es of
                  h1 # h2 # h3 # h4 # hs \<Rightarrow>
                    if hex_unit h1 \<and> hex_unit h2 \<and> hex_unit h3 \<and> hex_unit h4
                    then map_option (map_prod (\<lambda>raw. c # e # h1 # h2 # h3 # h4 # raw) id) (scan_string hs)
                    else None
                | _ \<Rightarrow> None)
             else if e \<in> {34, 92, 47, 98, 102, 110, 114, 116}
             then map_option (map_prod (\<lambda>raw. c # e # raw) id) (scan_string es)
             else None)
      else map_option (map_prod (Cons c) id) (scan_string cs))"

definition unescape :: "nat \<Rightarrow> nat" where
  "unescape e = (if e = 98 then 8 else if e = 102 then 12 else if e = 110 then 10 else if e = 114 then 13
     else if e = 116 then 9 else e)"

text \<open>\<open>JSON.parse\<close> of the quoted text; it throws on a text that is no JSON string.\<close>

fun json_parse_string :: "jtext \<Rightarrow> jtext option" where
  "json_parse_string [] = Some []"
| "json_parse_string (c # cs) =
     (if c = 34 \<or> c < 32 then None
      else if c = 92 then
        (case cs of
           [] \<Rightarrow> None
         | e # es \<Rightarrow>
             if e = 117 then
               (case es of
                  h1 # h2 # h3 # h4 # hs \<Rightarrow>
                    if hex_unit h1 \<and> hex_unit h2 \<and> hex_unit h3 \<and> hex_unit h4
                    then map_option (Cons (hex_unit_value h1 * 4096 + hex_unit_value h2 * 256
                           + hex_unit_value h3 * 16 + hex_unit_value h4)) (json_parse_string hs)
                    else None
                | _ \<Rightarrow> None)
             else if e \<in> {34, 92, 47, 98, 102, 110, 114, 116}
             then map_option (Cons (unescape e)) (json_parse_string es)
             else None)
      else map_option (Cons c) (json_parse_string cs))"

definition parseString :: "jtext parse" where
  "parseString =
     bindE (getsE (\<lambda>p. scan_string (drop 1 (rest p)))) (\<lambda>scanned.
       case scanned of
         None \<Rightarrow> malformed
       | Some (raw, after) \<Rightarrow>
           thenE (modifyE (\<lambda>p. p\<lparr>rest := after\<rparr>))
             (case json_parse_string raw of None \<Rightarrow> malformed | Some s \<Rightarrow> retE s))"

section \<open>Numbers and literals\<close>

definition digit_unit :: "nat \<Rightarrow> bool" where
  "digit_unit c \<longleftrightarrow> 48 \<le> c \<and> c \<le> 57"

definition units_value :: "jtext \<Rightarrow> int" where
  "units_value ds = foldl (\<lambda>n c. 10 * n + (int c - 48)) 0 ds"

text \<open>
  The regular expression of \<open>parseNumber\<close>, part by part: the integer part, an optional fraction,
  an optional exponent; each optional part is taken only if it matches as a whole.
\<close>

definition match_integer :: "jtext \<Rightarrow> (jtext \<times> jtext) option" where
  "match_integer cs =
     (case cs of
        [] \<Rightarrow> None
      | c # cs' \<Rightarrow>
          if c = 48 then Some ([48], cs')
          else if digit_unit c then Some (c # takeWhile digit_unit cs', dropWhile digit_unit cs')
          else None)"

definition match_fraction :: "jtext \<Rightarrow> jtext \<times> jtext" where
  "match_fraction cs =
     (case cs of
        c # d # ds \<Rightarrow>
          if c = 46 \<and> digit_unit d then (d # takeWhile digit_unit ds, dropWhile digit_unit ds) else ([], cs)
      | _ \<Rightarrow> ([], cs))"

definition match_exponent :: "jtext \<Rightarrow> int option \<times> jtext" where
  "match_exponent cs =
     (case cs of
        c # d # ds \<Rightarrow>
          if c \<noteq> 101 \<and> c \<noteq> 69 then (None, cs)
          else if digit_unit d
          then (Some (units_value (d # takeWhile digit_unit ds)), dropWhile digit_unit ds)
          else (case ds of
              e # es \<Rightarrow>
                if (d = 43 \<or> d = 45) \<and> digit_unit e
                then (Some ((if d = 45 then - 1 else 1) * units_value (e # takeWhile digit_unit es)), dropWhile digit_unit es)
                else (None, cs)
            | [] \<Rightarrow> (None, cs))
      | _ \<Rightarrow> (None, cs))"

definition MAX_SAFE_INTEGER :: int where
  "MAX_SAFE_INTEGER = 9007199254740991"

text \<open>\<open>Number.isFinite(Number(text))\<close>: the decimal rounds to a finite double.\<close>

definition finite_double :: "int \<Rightarrow> int \<Rightarrow> bool" where
  "finite_double m e \<longleftrightarrow>
     (let limit = 2 ^ 1024 - 2 ^ 970 in
      if 0 \<le> e then \<bar>m\<bar> * 10 ^ nat e < limit else \<bar>m\<bar> < limit * 10 ^ nat (- e))"

text \<open>
  An integer literal too long for any \<open>BigInt\<close> of the engine (malformed in the code) is one beyond
  the safe range here; both are refused.
\<close>

definition parseNumber :: "jtext jvalue parse" where
  "parseNumber =
     bindE (getsE rest) (\<lambda>cs.
       let negative = (take 1 cs = [45]); unsigned = (if negative then drop 1 cs else cs) in
       case match_integer unsigned of
         None \<Rightarrow> malformed
       | Some (digits, cs1) \<Rightarrow>
           (let (fraction, cs2) = match_fraction cs1; (exponent, cs3) = match_exponent cs2;
                sign = (if negative then - 1 else 1) in
            thenE (modifyE (\<lambda>p. p\<lparr>rest := cs3\<rparr>))
              (if fraction = [] \<and> exponent = None
               then (let n = sign * units_value digits in
                     thenE (failIf (MAX_SAFE_INTEGER < n \<or> n < - MAX_SAFE_INTEGER) SafeIntegerLimit) (retE (JInt n)))
               else (let m = sign * units_value (digits @ fraction);
                         e = (case exponent of None \<Rightarrow> 0 | Some e \<Rightarrow> e) - int (length fraction) in
                     if finite_double m e then retE (JDec m e) else malformed))))"

definition parseLiteral :: "jtext \<Rightarrow> jtext jvalue \<Rightarrow> jtext jvalue parse" where
  "parseLiteral text value =
     bindE (getsE (\<lambda>p. take (length text) (rest p))) (\<lambda>found.
       if found \<noteq> text then malformed else thenE (advance (length text)) (retE value))"

section \<open>Values\<close>

definition countNode :: "json_limits \<Rightarrow> unit parse" where
  "countNode l =
     thenE (modifyE (\<lambda>p. p\<lparr>totalNodes := totalNodes p + 1\<rparr>))
       (bindE (getsE totalNodes) (\<lambda>n. failIf (maxNodes l < n) JsonNodeLimit))"

definition countKey :: "json_limits \<Rightarrow> unit parse" where
  "countKey l =
     thenE (modifyE (\<lambda>p. p\<lparr>totalKeys := totalKeys p + 1\<rparr>))
       (bindE (getsE totalKeys) (\<lambda>n. failIf (maxTotalKeys l < n) JsonTotalKeyLimit))"

text \<open>\<open>"type"\<close>\<close>

definition type_key :: jtext where
  "type_key = [116, 121, 112, 101]"

text \<open>
  A parsed value is \<open>undefined\<close> (\<open>None\<close>) for an object or an array when nothing is built. \<open>seen\<close> is
  the set of keys met so far, in a list; \<open>directKeys\<close> is its size. The parsed members and elements
  are accumulated in reverse.
\<close>

fun parseValue :: "bool \<Rightarrow> json_limits \<Rightarrow> nat \<Rightarrow> nat \<Rightarrow> bool \<Rightarrow> jtext jvalue option parse"
and parseMembers :: "bool \<Rightarrow> json_limits \<Rightarrow> nat \<Rightarrow> nat \<Rightarrow> jtext list \<Rightarrow> (jtext \<times> jtext jvalue) list \<Rightarrow> jtext jvalue option parse"
and parseElements :: "bool \<Rightarrow> json_limits \<Rightarrow> nat \<Rightarrow> nat \<Rightarrow> jtext jvalue list \<Rightarrow> jtext jvalue option parse"
where
  "parseValue build l 0 depth root = throwE Stuck"
| "parseValue build l (Suc fuel) depth root =
     thenE (countNode l)
     (bindE (getsE peek) (\<lambda>next.
        if next = Some 123 then
          thenE (failIf (maxDepth l < depth + 1) JsonDepthLimit)
          (thenE (whenE root (modifyE (\<lambda>p. p\<lparr>rootIsObject := True\<rparr>)))
          (thenE (advance 1)
          (thenE skipWhitespace
          (bindE (getsE peek) (\<lambda>first.
             if first = Some 125 then thenE (advance 1) (retE (if build then Some (JObj []) else None))
             else parseMembers build l fuel (depth + 1) [] [])))))
        else if next = Some 91 then
          thenE (failIf (maxDepth l < depth + 1) JsonDepthLimit)
          (thenE (advance 1)
          (thenE skipWhitespace
          (bindE (getsE peek) (\<lambda>first.
             if first = Some 93 then thenE (advance 1) (retE (if build then Some (JArr []) else None))
             else parseElements build l fuel (depth + 1) []))))
        else if next = Some 34 then bindE parseString (\<lambda>s. retE (Some (JStr s)))
        else if next = Some 116 then bindE (parseLiteral [116, 114, 117, 101] (JBool True)) (\<lambda>v. retE (Some v))
        else if next = Some 102 then bindE (parseLiteral [102, 97, 108, 115, 101] (JBool False)) (\<lambda>v. retE (Some v))
        else if next = Some 110 then bindE (parseLiteral [110, 117, 108, 108] JNull) (\<lambda>v. retE (Some v))
        else bindE parseNumber (\<lambda>v. retE (Some v))))"
| "parseMembers build l 0 depth seen acc = throwE Stuck"
| "parseMembers build l (Suc fuel) depth seen acc =
     bindE (getsE peek) (\<lambda>next.
       if next \<noteq> Some 34 then malformed
       else
         bindE parseString (\<lambda>key.
         thenE (failIf (key \<in> set seen) DuplicateKey)
         (thenE (failIf (maxDirectKeys l < length seen + 1) JsonDirectKeyLimit)
         (thenE (countKey l)
         (thenE skipWhitespace
         (bindE (getsE peek) (\<lambda>colon.
            if colon \<noteq> Some 58 then malformed
            else
              thenE (advance 1)
              (thenE skipWhitespace
              (bindE (parseValue build l fuel depth False) (\<lambda>value.
               thenE (case value of
                   Some (JStr s) \<Rightarrow> whenE (depth = 1 \<and> key = type_key) (modifyE (\<lambda>p. p\<lparr>rootType := Some s\<rparr>))
                 | _ \<Rightarrow> retE ())
               (thenE skipWhitespace
               (bindE (getsE peek) (\<lambda>separator.
                  let acc' = (case value of Some v \<Rightarrow> (key, v) # acc | None \<Rightarrow> acc) in
                  if separator = Some 125 then thenE (advance 1) (retE (if build then Some (JObj (rev acc')) else None))
                  else if separator \<noteq> Some 44 then malformed
                  else
                    thenE (advance 1)
                    (thenE skipWhitespace
                      (parseMembers build l fuel depth (key # seen) acc')))))))))))))))"
| "parseElements build l 0 depth acc = throwE Stuck"
| "parseElements build l (Suc fuel) depth acc =
     bindE (getsE peek) (\<lambda>next.
       if next = None then malformed
       else
         bindE (parseValue build l fuel depth False) (\<lambda>value.
         thenE skipWhitespace
         (bindE (getsE peek) (\<lambda>separator.
            let acc' = (case value of Some v \<Rightarrow> v # acc | None \<Rightarrow> acc) in
            if separator = Some 93 then thenE (advance 1) (retE (if build then Some (JArr (rev acc')) else None))
            else if separator \<noteq> Some 44 then malformed
            else
              thenE (advance 1)
              (thenE skipWhitespace
                (parseElements build l fuel depth acc'))))))"

section \<open>Documents\<close>

definition parse_bound :: "jtext \<Rightarrow> nat" where
  "parse_bound source = 2 * length source + 1"

definition parseDocument :: "bool \<Rightarrow> json_limits \<Rightarrow> nat \<Rightarrow> jtext jvalue option parse" where
  "parseDocument build l fuel =
     thenE skipWhitespace
     (bindE (getsE rest) (\<lambda>cs.
        if cs = [] then malformed
        else
          bindE (parseValue build l fuel 0 True) (\<lambda>value.
          thenE skipWhitespace
          (bindE (getsE rest) (\<lambda>cs.
             thenE (failIf (cs \<noteq> []) TrailingJson) (retE value))))))"

definition start :: "jtext \<Rightarrow> parser" where
  "start source = \<lparr>rest = source, totalKeys = 0, totalNodes = 0, rootType = None, rootIsObject = False\<rparr>"

record json_inspection =
  in_rootIsObject :: bool
  in_rootType :: "jtext option"
  in_totalKeys :: nat
  in_totalNodes :: nat

definition inspectRelayV2Json :: "jtext \<Rightarrow> json_limits \<Rightarrow> stop + json_inspection" where
  "inspectRelayV2Json source l =
     (case parseDocument False l (parse_bound source) (start source) of
        (Inl e, p) \<Rightarrow> Inl e
      | (Inr _, p) \<Rightarrow> Inr \<lparr>in_rootIsObject = rootIsObject p, in_rootType = rootType p,
          in_totalKeys = totalKeys p, in_totalNodes = totalNodes p\<rparr>)"

definition parseRelayV2JsonObject :: "jtext \<Rightarrow> json_limits \<Rightarrow> stop + (jtext \<times> jtext jvalue) list" where
  "parseRelayV2JsonObject source l =
     (case parseDocument True l (parse_bound source) (start source) of
        (Inl e, p) \<Rightarrow> Inl e
      | (Inr value, p) \<Rightarrow>
          (case value of
             Some (JObj kvs) \<Rightarrow> if rootIsObject p then Inr kvs else Inl (Fail NonObjectRoot)
           | _ \<Rightarrow> Inl (Fail NonObjectRoot)))"

declare parseValue.simps [simp del] parseMembers.simps [simp del] parseElements.simps [simp del]

end
