(* ===== verification/RV2_JsonFacts.thy ===== *)
theory RV2_JsonFacts
  imports RV2_StrictJson
begin

text \<open>
  The strict parser is total, inspecting a document and parsing it agree, what is accepted
  respects the limits, and canonical text is read back.
\<close>

section \<open>The bound is enough\<close>

text \<open>\<open>within n\<close>: at most \<open>n\<close> units are left. A parse that fits its bound does not get stuck, and consumes.\<close>

abbreviation within :: "nat \<Rightarrow> parser \<Rightarrow> bool" where
  "within n \<equiv> \<lambda>p. length (rest p) \<le> n"

abbreviation unstuck :: "(parser \<Rightarrow> bool) \<Rightarrow> 'a parse \<Rightarrow> nat \<Rightarrow> bool" where
  "unstuck J m n \<equiv> triple J m (\<lambda>_ p. length (rest p) < n) (\<lambda>e _. e \<noteq> Stuck)"

abbreviation steps :: "(parser \<Rightarrow> bool) \<Rightarrow> 'a parse \<Rightarrow> (parser \<Rightarrow> bool) \<Rightarrow> bool" where
  "steps J m K \<equiv> triple J m (\<lambda>_. K) (\<lambda>e _. e \<noteq> Stuck)"

lemma steps_weaken: "steps J m K \<Longrightarrow> (\<And>p. J' p \<Longrightarrow> J p) \<Longrightarrow> (\<And>p. K p \<Longrightarrow> K' p) \<Longrightarrow> steps J' m K'"
  by (erule triple_weaken) auto

lemma steps_peek:
  assumes "\<And>c. triple (\<lambda>p. J p \<and> peek p = c) (f c) Q E"
  shows "triple J (bindE (getsE peek) f) Q E"
  by (rule triple_bind [where R = "\<lambda>c p. J p \<and> peek p = c"], rule triple_pre [OF triple_gets], simp, rule assms)

lemma steps_skip: "triple (within n) skipWhitespace (\<lambda>_. within n) E"
  unfolding skipWhitespace_def
  by (rule triple_pre [OF triple_modify]) (simp add: le_trans [OF length_dropWhile_le])

lemma steps_advance: "triple (\<lambda>p. within n p \<and> peek p = Some c) (advance 1) (\<lambda>_. within (n - 1)) E"
  unfolding advance_def
  by (rule triple_pre [OF triple_modify]) (auto simp: peek_def split: list.splits)

lemma steps_fail_if: "triple J (failIf b f) (\<lambda>_. J) (\<lambda>e _. e \<noteq> Stuck)"
  by (auto simp: triple_def em_defs)

lemma steps_count: "triple (within n) (countNode l) (\<lambda>_. within n) (\<lambda>e _. e \<noteq> Stuck)"
  "triple (within n) (countKey l) (\<lambda>_. within n) (\<lambda>e _. e \<noteq> Stuck)"
  by (auto simp: triple_def countNode_def countKey_def em_defs)

lemma steps_malformed: "triple J malformed Q (\<lambda>e _. e \<noteq> Stuck)"
  by (auto simp: triple_def em_defs)

lemma scan_string_length: "scan_string cs = Some (raw, after) \<Longrightarrow> length after < length cs"
proof (induction cs arbitrary: raw after rule: scan_string.induct)
  case (2 c cs)
  then show ?case
    by (auto split: if_splits list.splits simp: less_SucI)
qed simp

lemma steps_string: "unstuck (\<lambda>p. within n p \<and> peek p = Some 34) parseString n"
  unfolding parseString_def
  by (rule tripleI)
    (auto simp: em_defs peek_def split: option.splits list.splits prod.splits dest!: scan_string_length)

lemma match_lengths:
  "match_integer cs = Some (ds, cs') \<Longrightarrow> length cs' < length cs"
  "match_fraction cs = (fs, cs') \<Longrightarrow> length cs' \<le> length cs"
  "match_exponent cs = (e, cs') \<Longrightarrow> length cs' \<le> length cs"
  by (auto simp: match_integer_def match_fraction_def match_exponent_def
      split: list.splits if_splits intro: le_trans [OF length_dropWhile_le] le_imp_less_Suc length_dropWhile_le)

lemma steps_number: "unstuck (within n) parseNumber n"
  unfolding parseNumber_def
  by (rule tripleI)
    (auto simp: em_defs Let_def split: option.splits prod.splits if_splits dest!: match_lengths)

lemma steps_literal: "text \<noteq> [] \<Longrightarrow> unstuck (within n) (parseLiteral text v) n"
  unfolding parseLiteral_def advance_def
proof (rule tripleI, goal_cases)
  case (2 p v' p')
  then have "length text \<le> length (rest p)" and "p' = p\<lparr>rest := drop (length text) (rest p)\<rparr>"
    by (auto simp: em_defs split: if_splits dest: arg_cong [of _ _ length])
  moreover have "0 < length text" and "length (rest p) \<le> n" using 2 by simp_all
  ultimately show ?case by (simp, arith)
qed (auto simp: em_defs split: if_splits)

lemma steps_ret: "(\<And>p. J p \<Longrightarrow> K p) \<Longrightarrow> triple J (retE a) (\<lambda>_. K) E"
  by (auto simp: triple_def retE_def)

lemma steps_root: "triple (\<lambda>p. within n p \<and> peek p = x) (whenE b (modifyE (\<lambda>p. p\<lparr>rootIsObject := c\<rparr>))) (\<lambda>_ p. within n p \<and> peek p = x) E"
  "triple (within n) (case v of Some (JStr s) \<Rightarrow> whenE b (modifyE (\<lambda>p. p\<lparr>rootType := t s\<rparr>)) | _ \<Rightarrow> retE ()) (\<lambda>_. within n) E"
  by (auto simp: triple_def em_defs peek_def split: option.split jvalue.split)

lemma steps_if: "(b \<Longrightarrow> triple J m Q E) \<Longrightarrow> (\<not> b \<Longrightarrow> triple J k Q E) \<Longrightarrow> triple J (if b then m else k) Q E"
  by simp

lemma steps_drop_peek: "triple J m Q E \<Longrightarrow> triple (\<lambda>p. J p \<and> peek p = c) m Q E"
  by (erule triple_pre) simp

lemma steps_open:
  assumes "triple (within (n - 1)) k Q E"
  shows "triple (\<lambda>p. within n p \<and> peek p = Some c) (thenE (advance 1) k) Q E"
  by (rule triple_then [OF steps_advance assms])

lemma unstuck_map: "unstuck J m n \<Longrightarrow> unstuck J (bindE m (\<lambda>v. retE (f v))) n"
  by (erule triple_bind) (rule steps_ret, assumption)

lemma unstuck_close: "0 < n \<Longrightarrow> unstuck (\<lambda>p. within (n - 1) p \<and> peek p = Some c) (thenE (advance 1) (retE a)) n"
  by (rule steps_open) (rule steps_ret, simp)

definition total_at :: "bool \<Rightarrow> json_limits \<Rightarrow> nat \<Rightarrow> bool" where
  "total_at build l fuel \<longleftrightarrow>
     (\<forall>n depth root. 2 * n + 1 \<le> fuel \<longrightarrow> unstuck (within n) (parseValue build l fuel depth root) n)
     \<and> (\<forall>n depth seen acc. 2 * n + 1 \<le> fuel \<longrightarrow> unstuck (within n) (parseMembers build l fuel depth seen acc) n)
     \<and> (\<forall>n depth acc. 2 * n + 2 \<le> fuel \<longrightarrow> unstuck (within n) (parseElements build l fuel depth acc) n)"

lemma unstuck_later: "unstuck (within m) k m' \<Longrightarrow> m' \<le> n \<Longrightarrow> unstuck (within m) k n"
  by (erule triple_weaken) auto

lemma total_atD:
  assumes "total_at build l fuel"
  shows "2 * n + 1 \<le> fuel \<Longrightarrow> unstuck (within n) (parseValue build l fuel depth root) n"
    and "2 * n + 1 \<le> fuel \<Longrightarrow> unstuck (within n) (parseMembers build l fuel depth seen acc) n"
    and "2 * n + 2 \<le> fuel \<Longrightarrow> unstuck (within n) (parseElements build l fuel depth acc') n"
  using assms unfolding total_at_def by blast+

lemma total_value:
  assumes "total_at build l fuel" and "2 * n + 1 \<le> Suc fuel"
  shows "unstuck (within n) (parseValue build l (Suc fuel) depth root) n"
proof (cases "n = 0")
  case True
  then show ?thesis
    unfolding parseValue.simps
    by (intro triple_then [OF steps_count(1)] steps_peek)
      (auto simp: triple_def peek_def parseNumber_def match_integer_def em_defs split: list.splits)
next
  case False
  have members: "unstuck (within (n - 1)) (parseMembers build l fuel d [] []) n"
    and elements: "unstuck (within (n - 1)) (parseElements build l fuel d []) n" for d
    by (rule unstuck_later [OF total_atD(2) [OF assms(1)]] unstuck_later [OF total_atD(3) [OF assms(1)]];
        use assms(2) False in simp)+
  have first: "unstuck (within (n - 1)) (thenE skipWhitespace (bindE (getsE peek) (\<lambda>first.
      if first = Some c then thenE (advance 1) (retE a) else k))) n" if "unstuck (within (n - 1)) k n" for c a and k :: "jtext jvalue option parse"
    using False that
    by (intro triple_then [OF steps_skip] steps_peek steps_if) (auto simp del: One_nat_def intro: unstuck_close steps_drop_peek)
  have "unstuck (\<lambda>p. within n p \<and> peek p = c) (if c = Some 123 then a1 else if c = Some 91 then a2 else a3) n"
    if "c = Some 123 \<Longrightarrow> unstuck (\<lambda>p. within n p \<and> peek p = Some 123) a1 n"
      "c = Some 91 \<Longrightarrow> unstuck (\<lambda>p. within n p \<and> peek p = Some 91) a2 n"
      "unstuck (\<lambda>p. within n p \<and> peek p = c) a3 n" for c and a1 a2 a3 :: "jtext jvalue option parse"
    using that by auto
  then show ?thesis
    unfolding parseValue.simps
    by (intro triple_then [OF steps_count(1)] steps_peek)
      (auto simp del: One_nat_def intro!: triple_then [OF steps_fail_if] triple_then [OF steps_root(1)] steps_open first members elements
        steps_drop_peek [OF unstuck_map [OF steps_number]] steps_drop_peek [OF unstuck_map [OF steps_literal]]
        unstuck_map [OF steps_string] steps_if)
qed

lemma steps_skip_then: "triple (within n) k Q E \<Longrightarrow> triple (within n) (thenE skipWhitespace k) Q E"
  by (rule triple_then [OF steps_skip])

lemma unstuck_peek_if:
  assumes "unstuck (\<lambda>p. within n p \<and> peek p = Some c) a m" and "unstuck (within n) b m"
  shows "unstuck (\<lambda>p. within n p \<and> peek p = x) (if x = Some c then a else b) m"
    and "unstuck (\<lambda>p. within n p \<and> peek p = x) (if x \<noteq> Some c then b else a) m"
  using assms by (auto intro: steps_drop_peek)

lemma separated:
  assumes "unstuck (within (n - 1)) next n'" and "n - 1 < n'"
  shows "unstuck (within n) (thenE skipWhitespace (bindE (getsE peek) (\<lambda>separator.
     if separator = Some close then thenE (advance 1) (retE a)
     else if separator \<noteq> Some 44 then malformed
     else thenE (advance 1) (thenE skipWhitespace next)))) n'"
proof -
  have close: "unstuck (\<lambda>p. within n p \<and> peek p = Some c) (thenE (advance 1) (retE a)) n'" for c
    using assms(2) by (intro steps_open steps_ret) simp
  have more: "unstuck (\<lambda>p. within n p \<and> peek p = c) (if c \<noteq> Some 44 then malformed
     else thenE (advance 1) (thenE skipWhitespace next)) n'" for c
    by (rule unstuck_peek_if(2)) (intro steps_open steps_skip_then assms(1) steps_malformed)+
  show ?thesis
    by (intro steps_skip_then steps_peek, rule steps_if) (simp_all only: close more)
qed

lemma empty_peek: "(\<And>c. n = 0 \<Longrightarrow> unstuck (\<lambda>p. within 0 p \<and> peek p = None) (f None) m) \<Longrightarrow>
    (\<And>c. 0 < n \<Longrightarrow> unstuck (\<lambda>p. within n p \<and> peek p = c) (f c) m) \<Longrightarrow> unstuck (within n) (bindE (getsE peek) f) m"
proof (rule steps_peek)
  fix c
  assume "\<And>c. n = 0 \<Longrightarrow> unstuck (\<lambda>p. within 0 p \<and> peek p = None) (f None) m"
    and "\<And>c. 0 < n \<Longrightarrow> unstuck (\<lambda>p. within n p \<and> peek p = c) (f c) m"
  note e = this
  show "unstuck (\<lambda>p. within n p \<and> peek p = c) (f c) m"
  proof (cases "n = 0 \<and> c \<noteq> None")
    case True
    then have "\<not> (within n p \<and> peek p = c)" for p by (auto simp: peek_def split: list.splits)
    then show ?thesis by (auto simp: triple_def)
  next
    case False
    with e show ?thesis by (cases "n = 0") auto
  qed
qed

lemma total_members:
  assumes IH: "total_at build l fuel" and f: "2 * n + 1 \<le> Suc fuel"
  shows "unstuck (within n) (parseMembers build l (Suc fuel) depth seen acc) n"
  unfolding parseMembers.simps
proof (rule empty_peek, goal_cases)
  case (2 c)
  then have n: "0 < n" by simp
  have tail: "unstuck (within (n - 1 - 1)) (thenE skipWhitespace (bindE (getsE peek) (\<lambda>separator.
      let acc' = g in if separator = Some 125 then thenE (advance 1) (retE (a acc'))
      else if separator \<noteq> Some 44 then malformed
      else thenE (advance 1) (thenE skipWhitespace (parseMembers build l fuel depth s acc'))))) n" for g a s
    unfolding Let_def
    by (rule separated, rule unstuck_later [OF total_atD(2) [OF IH]]) (use f n in auto)
  have body: "unstuck (within (n - 1 - 1)) (bindE (parseValue build l fuel depth False) k) n"
    if "\<And>v. unstuck (within (n - 1 - 1)) (k v) n" for k :: "_ \<Rightarrow> jtext jvalue option parse"
  proof (rule triple_bind [OF _ that])
    show "triple (within (n - 1 - 1)) (parseValue build l fuel depth False) (\<lambda>_. within (n - 1 - 1)) (\<lambda>e _. e \<noteq> Stuck)"
      by (rule triple_weaken [OF total_atD(1) [OF IH]]) (use f n in auto)
  qed
  have key: "unstuck (\<lambda>p. within n p \<and> peek p = Some 34) (bindE parseString k) n"
    if "\<And>s. unstuck (within (n - 1)) (k s) n" for k :: "_ \<Rightarrow> jtext jvalue option parse"
    by (rule triple_bind [OF triple_weaken [OF steps_string] that]) auto
  show ?case
    by (intro unstuck_peek_if(2) steps_malformed key triple_then [OF steps_fail_if] triple_then [OF steps_count(2)]
        steps_skip_then steps_peek steps_open body triple_then [OF steps_root(2)] tail)
qed (simp add: steps_malformed)

lemma total_elements:
  assumes IH: "total_at build l fuel" and f: "2 * n + 2 \<le> Suc fuel"
  shows "unstuck (within n) (parseElements build l (Suc fuel) depth acc) n"
  unfolding parseElements.simps
proof (rule empty_peek, goal_cases)
  case (2 c)
  then have n: "0 < n" by simp
  have tail: "unstuck (within (n - 1)) (thenE skipWhitespace (bindE (getsE peek) (\<lambda>separator.
      let acc' = g in if separator = Some 93 then thenE (advance 1) (retE (a acc'))
      else if separator \<noteq> Some 44 then malformed
      else thenE (advance 1) (thenE skipWhitespace (parseElements build l fuel depth acc'))))) n" for g a
    unfolding Let_def
    by (rule separated, rule unstuck_later [OF total_atD(3) [OF IH]]) (use f n in auto)
  have body: "unstuck (within n) (bindE (parseValue build l fuel depth False) k) n"
    if "\<And>v. unstuck (within (n - 1)) (k v) n" for k :: "_ \<Rightarrow> jtext jvalue option parse"
    by (rule triple_bind [OF triple_weaken [OF total_atD(1) [OF IH]] that]) (use f in auto)
  show ?case
    by (intro steps_drop_peek steps_if steps_malformed body tail)
qed (simp add: steps_malformed)

lemma total: "total_at build l fuel"
proof (induction fuel)
  case 0
  show ?case by (simp add: total_at_def)
next
  case (Suc fuel)
  show ?case
    unfolding total_at_def
    by (intro conjI allI impI total_value [OF Suc] total_members [OF Suc] total_elements [OF Suc])
qed

lemma document_total: "fst (parseDocument build l (parse_bound source) (start source)) \<noteq> Inl Stuck"
proof -
  have "triple (within (length source)) (parseDocument build l (parse_bound source)) (\<lambda>_ _. True) (\<lambda>e _. e \<noteq> Stuck)"
    unfolding parseDocument_def parse_bound_def
    by (intro steps_skip_then triple_bind [where R = "\<lambda>_. within (length source)"] steps_if steps_malformed
        triple_bind [OF triple_weaken [OF total_atD(1) [OF total]], where R = "\<lambda>_. within (length source)"]
        triple_then [OF steps_fail_if] triple_weaken [OF triple_gets])
      (auto simp: triple_def em_defs)
  from tripleD_err [OF this] show ?thesis
    by (cases "parseDocument build l (parse_bound source) (start source)";
        cases "fst (parseDocument build l (parse_bound source) (start source))") (force simp: start_def)+
qed

text \<open>
  C22. The parser always ends, on every source and with every limits: inspecting and parsing return a
  result or throw one of the failure classes; the bound on calls they run with is never reached.
\<close>

theorem strict_parser_is_total:
  "inspectRelayV2Json source l \<noteq> Inl Stuck \<and> parseRelayV2JsonObject source l \<noteq> Inl Stuck"
  using document_total [of False l source] document_total [of True l source]
  by (auto simp: inspectRelayV2Json_def parseRelayV2JsonObject_def split: prod.splits sum.splits option.splits jvalue.splits)

section \<open>Inspecting and parsing\<close>

definition mapE :: "('a \<Rightarrow> 'b) \<Rightarrow> ('s, 'e, 'a) em \<Rightarrow> ('s, 'e, 'b) em" where
  "mapE g m = bindE m (\<lambda>a. retE (g a))"

lemma bind_assoc: "bindE (bindE m f) g = bindE m (\<lambda>a. bindE (f a) g)"
  by (rule ext) (auto simp: bindE_def split: prod.splits sum.splits)

lemma mapE_bind: "mapE g (bindE m f) = bindE m (\<lambda>a. mapE g (f a))"
  by (simp add: mapE_def bind_assoc)

lemma mapE_then: "mapE g (thenE m k) = thenE m (mapE g k)"
  by (simp add: thenE_def mapE_bind)

lemma mapE_ret: "mapE g (retE a) = retE (g a)" and mapE_throw: "mapE g (throwE e) = throwE e"
  by (auto simp: mapE_def em_defs)

lemma mapE_if: "mapE g (if b then m else k) = (if b then mapE g m else mapE g k)"
  by simp

lemma bind_mapE: "bindE (mapE g m) f = bindE m (\<lambda>a. f (g a))"
  by (simp add: mapE_def bind_assoc bind_ret)

lemmas mapE_rules = mapE_bind mapE_then mapE_ret mapE_throw mapE_if bind_mapE

text \<open>What is left of a value when arrays and objects are not built.\<close>

fun unbuilt :: "'s jvalue option \<Rightarrow> 's jvalue option" where
  "unbuilt (Some (JObj kvs)) = None"
| "unbuilt (Some (JArr vs)) = None"
| "unbuilt v = v"

lemma unbuilt_type: "(case unbuilt v of Some (JStr s) \<Rightarrow> f s | _ \<Rightarrow> k) = (case v of Some (JStr s) \<Rightarrow> f s | _ \<Rightarrow> k)"
  by (cases v rule: unbuilt.cases) simp_all

lemma built_scalar:
  "mapE unbuilt (bindE parseString (\<lambda>s. retE (Some (JStr s)))) = bindE parseString (\<lambda>s. retE (Some (JStr s)))"
  "mapE unbuilt (bindE (parseLiteral t (JBool b)) (\<lambda>v. retE (Some v))) = bindE (parseLiteral t (JBool b)) (\<lambda>v. retE (Some v))"
  "mapE unbuilt (bindE (parseLiteral t JNull) (\<lambda>v. retE (Some v))) = bindE (parseLiteral t JNull) (\<lambda>v. retE (Some v))"
  "mapE unbuilt (bindE parseNumber (\<lambda>v. retE (Some v))) = bindE parseNumber (\<lambda>v. retE (Some v))"
  by (rule ext; auto simp: mapE_def parseLiteral_def parseNumber_def em_defs Let_def split: sum.splits prod.splits option.splits)+

lemma inspect_agrees:
  "parseValue False l fuel depth root = mapE unbuilt (parseValue True l fuel depth root)
   \<and> (\<forall>depth seen acc acc'. parseMembers False l fuel depth seen acc' = mapE unbuilt (parseMembers True l fuel depth seen acc))
   \<and> (\<forall>depth acc acc'. parseElements False l fuel depth acc' = mapE unbuilt (parseElements True l fuel depth acc))"
proof (induction fuel arbitrary: depth root)
  case 0
  show ?case by (simp add: parseValue.simps parseMembers.simps parseElements.simps mapE_throw)
next
  case (Suc fuel)
  have V: "parseValue False l fuel d r = mapE unbuilt (parseValue True l fuel d r)" for d r
    using Suc by blast
  obtain g where M: "\<And>d s a. parseMembers False l fuel d s a = g d s"
      "\<And>d s a. mapE unbuilt (parseMembers True l fuel d s a) = g d s"
    by (rule that [of "\<lambda>d s. parseMembers False l fuel d s []"]) (metis Suc)+
  obtain h where E: "\<And>d a. parseElements False l fuel d a = h d" "\<And>d a. mapE unbuilt (parseElements True l fuel d a) = h d"
    by (rule that [of "\<lambda>d. parseElements False l fuel d []"]) (metis Suc)+
  have "parseValue False l (Suc fuel) depth root = mapE unbuilt (parseValue True l (Suc fuel) depth root)"
    unfolding parseValue.simps mapE_then mapE_bind [where m = "getsE _"] mapE_if built_scalar mapE_ret M E
      unbuilt.simps if_True if_False ..
  moreover have "parseMembers False l (Suc fuel) d s a' = mapE unbuilt (parseMembers True l (Suc fuel) d s a)" for d s a a'
    unfolding parseMembers.simps mapE_then mapE_bind mapE_if mapE_ret mapE_throw V bind_mapE unbuilt_type Let_def M
      unbuilt.simps if_True if_False ..
  moreover have "parseElements False l (Suc fuel) d a' = mapE unbuilt (parseElements True l (Suc fuel) d a)" for d a a'
    unfolding parseElements.simps mapE_then mapE_bind mapE_if mapE_ret mapE_throw V bind_mapE Let_def E
      unbuilt.simps if_True if_False ..
  ultimately show ?case by blast
qed

section \<open>What is accepted\<close>

primrec json_nodes :: "'s jvalue \<Rightarrow> nat" where
  "json_nodes JNull = 1"
| "json_nodes (JBool b) = 1"
| "json_nodes (JInt n) = 1"
| "json_nodes (JDec m e) = 1"
| "json_nodes (JStr s) = 1"
| "json_nodes (JArr vs) = 1 + sum_list (map json_nodes vs)"
| "json_nodes (JObj kvs) = 1 + sum_list (map snd (map (map_prod id json_nodes) kvs))"

primrec json_keys :: "'s jvalue \<Rightarrow> nat" where
  "json_keys JNull = 0"
| "json_keys (JBool b) = 0"
| "json_keys (JInt n) = 0"
| "json_keys (JDec m e) = 0"
| "json_keys (JStr s) = 0"
| "json_keys (JArr vs) = sum_list (map json_keys vs)"
| "json_keys (JObj kvs) = length kvs + sum_list (map snd (map (map_prod id json_keys) kvs))"

text \<open>A value below \<open>depth\<close> enclosing arrays and objects that respects the limits.\<close>

primrec fits :: "json_limits \<Rightarrow> 's jvalue \<Rightarrow> nat \<Rightarrow> bool" where
  "fits l JNull d = True"
| "fits l (JBool b) d = True"
| "fits l (JInt n) d = (\<bar>n\<bar> \<le> MAX_SAFE_INTEGER)"
| "fits l (JDec m e) d = finite_double m e"
| "fits l (JStr s) d = True"
| "fits l (JArr vs) d = (d < maxDepth l \<and> list_all (\<lambda>f. f (d + 1)) (map (fits l) vs))"
| "fits l (JObj kvs) d =
     (d < maxDepth l \<and> length kvs \<le> maxDirectKeys l \<and> distinct (map fst kvs)
      \<and> list_all (\<lambda>(k, f). f (d + 1)) (map (map_prod id (fits l)) kvs))"

definition counted :: "json_limits \<Rightarrow> nat \<Rightarrow> nat \<Rightarrow> parser \<Rightarrow> bool" where
  "counted l a b p \<longleftrightarrow> totalNodes p = a \<and> totalKeys p = b \<and> a \<le> maxNodes l \<and> b \<le> maxTotalKeys l"

lemma counted_step:
  "keeps (counted l a b) skipWhitespace" "keeps (counted l a b) (advance n)" "keeps (counted l a b) parseString"
  "keeps (counted l a b) (whenE c (modifyE (\<lambda>p. p\<lparr>rootIsObject := d\<rparr>)))"
  "keeps (counted l a b) (case v of Some (JStr s) \<Rightarrow> whenE c (modifyE (\<lambda>p. p\<lparr>rootType := t s\<rparr>)) | _ \<Rightarrow> retE ())"
  "keeps (counted l a b) (failIf c f)" "keeps (counted l a b) (getsE g)" "keeps (counted l a b) (parseLiteral text v')"
  by (auto simp: moves_def counted_def skipWhitespace_def advance_def parseString_def parseLiteral_def em_defs
      split: option.split jvalue.split prod.split)

lemma count_node: "ok (\<lambda>p. totalNodes p = a \<and> totalKeys p = b \<and> b \<le> maxTotalKeys l) (countNode l) (\<lambda>_. counted l (a + 1) b)"
  by (rule okI) (auto simp: countNode_def counted_def em_defs split: if_splits)

lemma count_key: "ok (counted l a b) (countKey l) (\<lambda>_. counted l a (b + 1))"
  by (rule okI) (auto simp: countKey_def counted_def em_defs split: if_splits)

lemma counted_fail: "ok J (failIf c f) (\<lambda>_ p. J p \<and> \<not> c)"
  by (rule okI) (auto simp: em_defs split: if_splits)

lemma counted_number: "ok (counted l a b) parseNumber (\<lambda>v p. counted l a b p \<and> fits l v d \<and> json_nodes v = 1 \<and> json_keys v = 0)"
  by (rule okI) (auto simp: parseNumber_def em_defs Let_def counted_def MAX_SAFE_INTEGER_def split: if_splits option.splits prod.splits)

definition accepts_at :: "json_limits \<Rightarrow> nat \<Rightarrow> bool" where
  "accepts_at l fuel \<longleftrightarrow>
     (\<forall>d r a b. ok (\<lambda>p. totalNodes p = a \<and> totalKeys p = b \<and> b \<le> maxTotalKeys l) (parseValue True l fuel d r)
        (\<lambda>v p. \<exists>x. v = Some x \<and> fits l x d \<and> counted l (a + json_nodes x) (b + json_keys x) p))
     \<and> (\<forall>d seen acc a b. ok (counted l a b) (parseMembers True l fuel (d + 1) seen acc)
        (\<lambda>v p. \<exists>kvs. v = Some (JObj (rev acc @ kvs)) \<and> length seen + length kvs \<le> maxDirectKeys l
           \<and> distinct (map fst kvs) \<and> set (map fst kvs) \<inter> set seen = {} \<and> (\<forall>(k, x) \<in> set kvs. fits l x (d + 1))
           \<and> counted l (a + sum_list (map (json_nodes \<circ> snd) kvs)) (b + length kvs + sum_list (map (json_keys \<circ> snd) kvs)) p))
     \<and> (\<forall>d acc a b. ok (counted l a b) (parseElements True l fuel (d + 1) acc)
        (\<lambda>v p. \<exists>vs. v = Some (JArr (rev acc @ vs)) \<and> (\<forall>x \<in> set vs. fits l x (d + 1))
           \<and> counted l (a + sum_list (map json_nodes vs)) (b + sum_list (map json_keys vs)) p))"

lemma accepts_atD:
  assumes "accepts_at l fuel"
  shows "ok (\<lambda>p. totalNodes p = a \<and> totalKeys p = b \<and> b \<le> maxTotalKeys l) (parseValue True l fuel d r)
        (\<lambda>v p. \<exists>x. v = Some x \<and> fits l x d \<and> counted l (a + json_nodes x) (b + json_keys x) p)"
    and "ok (counted l a b) (parseMembers True l fuel (d + 1) seen acc)
        (\<lambda>v p. \<exists>kvs. v = Some (JObj (rev acc @ kvs)) \<and> length seen + length kvs \<le> maxDirectKeys l
           \<and> distinct (map fst kvs) \<and> set (map fst kvs) \<inter> set seen = {} \<and> (\<forall>(k, x) \<in> set kvs. fits l x (d + 1))
           \<and> counted l (a + sum_list (map (json_nodes \<circ> snd) kvs)) (b + length kvs + sum_list (map (json_keys \<circ> snd) kvs)) p)"
    and "ok (counted l a b) (parseElements True l fuel (d + 1) acc')
        (\<lambda>v p. \<exists>vs. v = Some (JArr (rev acc' @ vs)) \<and> (\<forall>x \<in> set vs. fits l x (d + 1))
           \<and> counted l (a + sum_list (map json_nodes vs)) (b + sum_list (map json_keys vs)) p)"
  using assms unfolding accepts_at_def by blast+

lemma ok_then_fail: "(\<not> c \<Longrightarrow> ok J k Q) \<Longrightarrow> ok J (thenE (failIf c f) k) Q"
  by (cases c) (auto simp: triple_def em_defs)

lemma ok_gets_bind: "(\<And>x. ok J (f x) Q) \<Longrightarrow> ok J (bindE (getsE g) f) Q"
  by (rule ok_bind_keeps [OF moves_gets [OF keeps_preorder]])


lemma ok_bind_value:
  assumes "accepts_at l fuel"
    and "\<And>x. fits l x d \<Longrightarrow> ok (counted l (a + json_nodes x) (b + json_keys x)) (f (Some x)) Q"
  shows "ok (counted l a b) (bindE (parseValue True l fuel d r) f) Q"
proof (rule triple_bind [OF triple_pre [OF accepts_atD(1) [OF assms(1)]]])
  show "totalNodes p = a \<and> totalKeys p = b \<and> b \<le> maxTotalKeys l" if "counted l a b p" for p
    using that by (simp add: counted_def)
  show "ok (\<lambda>p. \<exists>x. v = Some x \<and> fits l x d \<and> counted l (a + json_nodes x) (b + json_keys x) p) (f v) Q" for v
    using assms(2) by (cases v) (auto simp: triple_def)
qed

lemma accepts_value:
  assumes "accepts_at l fuel"
  shows "ok (\<lambda>p. totalNodes p = a \<and> totalKeys p = b \<and> b \<le> maxTotalKeys l) (parseValue True l (Suc fuel) d r)
        (\<lambda>v p. \<exists>x. v = Some x \<and> fits l x d \<and> counted l (a + json_nodes x) (b + json_keys x) p)"
    (is "ok ?I _ ?Q")
proof -
  have scalar: "ok (counted l (a + 1) b) (bindE m (\<lambda>v. retE (Some (f v)))) ?Q"
    if "keeps (counted l (a + 1) b) m" and "\<And>v. fits l (f v) d \<and> json_nodes (f v) = 1 \<and> json_keys (f v) = 0"
    for m :: "'x parse" and f
    by (rule ok_bind_keeps [OF that(1)], rule ok_ret) (use that(2) in auto)
  have literal: "ok (counted l (a + 1) b) (bindE (parseLiteral t x) (\<lambda>v. retE (Some v))) ?Q"
    if "fits l x d \<and> json_nodes x = 1 \<and> json_keys x = 0" for t x
    using that
    by (intro okI) (auto simp: parseLiteral_def advance_def counted_def em_defs split: if_splits)
  have number: "ok (counted l (a + 1) b) (bindE parseNumber (\<lambda>v. retE (Some v))) ?Q"
    by (rule triple_bind [OF counted_number [where d = d]], rule ok_ret) auto
  have object: "ok (counted l (a + 1) b) (parseMembers True l fuel (d + 1) [] []) ?Q" if "\<not> maxDepth l < d + 1"
    by (rule ok_weaken [OF accepts_atD(2) [OF assms]])
      (use that in \<open>auto simp: list_all_iff o_def split_def add.assoc\<close>)
  have array: "ok (counted l (a + 1) b) (parseElements True l fuel (d + 1) []) ?Q" if "\<not> maxDepth l < d + 1"
    by (rule ok_weaken [OF accepts_atD(3) [OF assms]])
      (use that in \<open>auto simp: list_all_iff\<close>)
  have empty: "ok (counted l (a + 1) b) (retE (Some x)) ?Q" if "fits l x d \<and> json_nodes x = 1 \<and> json_keys x = 0" for x
    by (rule ok_ret) (use that in auto)
  show ?thesis
    unfolding parseValue.simps if_True
    by (intro ok_then_ok [OF count_node] ok_gets_bind ok_if ok_then_fail ok_then_keeps [OF counted_step(4)]
        ok_then_keeps [OF counted_step(2)] ok_then_keeps [OF counted_step(1)] object array empty
        scalar counted_step literal number) simp_all
qed

lemma accepts_members:
  assumes IH: "accepts_at l fuel"
  shows "ok (counted l a b) (parseMembers True l (Suc fuel) (d + 1) seen acc)
        (\<lambda>v p. \<exists>kvs. v = Some (JObj (rev acc @ kvs)) \<and> length seen + length kvs \<le> maxDirectKeys l
           \<and> distinct (map fst kvs) \<and> set (map fst kvs) \<inter> set seen = {} \<and> (\<forall>(k, x) \<in> set kvs. fits l x (d + 1))
           \<and> counted l (a + sum_list (map (json_nodes \<circ> snd) kvs)) (b + length kvs + sum_list (map (json_keys \<circ> snd) kvs)) p)"
    (is "ok _ _ ?Q")
proof -
  have tail: "ok (counted l (a + json_nodes x) (b + 1 + json_keys x))
      (if c = Some 125 then thenE (advance 1) (retE (Some (JObj (rev ((key, x) # acc)))))
       else if c \<noteq> Some 44 then malformed
       else thenE (advance 1) (thenE skipWhitespace (parseMembers True l fuel (d + 1) (key # seen) ((key, x) # acc)))) ?Q"
    if "key \<notin> set seen" and "\<not> maxDirectKeys l < length seen + 1" and "fits l x (d + 1)" for key x c
  proof -
    have last: "ok (counted l (a + json_nodes x) (b + 1 + json_keys x)) (retE (Some (JObj (rev ((key, x) # acc))))) ?Q"
      by (rule ok_ret, rule exI [of _ "[(key, x)]"]) (use that in auto)
    have more: "ok (counted l (a + json_nodes x) (b + 1 + json_keys x))
        (parseMembers True l fuel (d + 1) (key # seen) ((key, x) # acc)) ?Q"
    proof (rule ok_weaken [OF accepts_atD(2) [OF IH]], assumption, elim exE conjE)
      fix v p kvs
      assume "v = Some (JObj (rev ((key, x) # acc) @ kvs))" "length (key # seen) + length kvs \<le> maxDirectKeys l"
        "distinct (map fst kvs)" "set (map fst kvs) \<inter> set (key # seen) = {}" "\<forall>(k, x)\<in>set kvs. fits l x (d + 1)"
        "counted l (a + json_nodes x + sum_list (map (json_nodes \<circ> snd) kvs))
           (b + 1 + json_keys x + length kvs + sum_list (map (json_keys \<circ> snd) kvs)) p"
      with that show "?Q v p"
        by (intro exI [of _ "(key, x) # kvs"]) (auto simp: ac_simps)
    qed
    show ?thesis
      by (intro ok_if ok_throw ok_then_keeps [OF counted_step(2)] ok_then_keeps [OF counted_step(1)] last more)
  qed
  show ?thesis
    unfolding parseMembers.simps if_True Let_def
    by (intro ok_gets_bind ok_if ok_throw ok_bind_keeps [OF counted_step(3)] ok_then_fail ok_then_ok [OF count_key]
        ok_then_keeps [OF counted_step(1)] ok_then_keeps [OF counted_step(2)] ok_bind_value [OF IH])
      (intro ok_then_keeps [OF counted_step(5)] ok_then_keeps [OF counted_step(1)] ok_gets_bind,
        unfold option.case, rule tail)
qed

lemma accepts_elements:
  assumes IH: "accepts_at l fuel"
  shows "ok (counted l a b) (parseElements True l (Suc fuel) (d + 1) acc)
        (\<lambda>v p. \<exists>vs. v = Some (JArr (rev acc @ vs)) \<and> (\<forall>x \<in> set vs. fits l x (d + 1))
           \<and> counted l (a + sum_list (map json_nodes vs)) (b + sum_list (map json_keys vs)) p)"
    (is "ok _ _ ?Q")
proof -
  have tail: "ok (counted l (a + json_nodes x) (b + json_keys x))
      (if c = Some 93 then thenE (advance 1) (retE (Some (JArr (rev (x # acc)))))
       else if c \<noteq> Some 44 then malformed
       else thenE (advance 1) (thenE skipWhitespace (parseElements True l fuel (d + 1) (x # acc)))) ?Q"
    if "fits l x (d + 1)" for x c
  proof -
    have last: "ok (counted l (a + json_nodes x) (b + json_keys x)) (retE (Some (JArr (rev (x # acc))))) ?Q"
      by (rule ok_ret, rule exI [of _ "[x]"]) (use that in auto)
    have more: "ok (counted l (a + json_nodes x) (b + json_keys x)) (parseElements True l fuel (d + 1) (x # acc)) ?Q"
    proof (rule ok_weaken [OF accepts_atD(3) [OF IH]], assumption, elim exE conjE)
      fix v p vs
      assume "v = Some (JArr (rev (x # acc) @ vs))" "\<forall>x\<in>set vs. fits l x (d + 1)"
        "counted l (a + json_nodes x + sum_list (map json_nodes vs)) (b + json_keys x + sum_list (map json_keys vs)) p"
      with that show "?Q v p" by (intro exI [of _ "x # vs"]) (auto simp: ac_simps)
    qed
    show ?thesis
      by (intro ok_if ok_throw ok_then_keeps [OF counted_step(2)] ok_then_keeps [OF counted_step(1)] last more)
  qed
  show ?thesis
    unfolding parseElements.simps if_True Let_def
    by (intro ok_gets_bind ok_if ok_throw ok_bind_value [OF IH])
      (intro ok_then_keeps [OF counted_step(1)] ok_gets_bind, unfold option.case, rule tail)
qed

lemma accepts: "accepts_at l fuel"
proof (induction fuel)
  case 0
  show ?case by (auto simp: accepts_at_def parseValue.simps parseMembers.simps parseElements.simps)
next
  case (Suc fuel)
  show ?case
    unfolding accepts_at_def
    by (intro conjI allI accepts_value [OF Suc] accepts_members [OF Suc] accepts_elements [OF Suc])
qed

lemma root_step:
  "keeps (\<lambda>p. rootIsObject p = c) skipWhitespace" "keeps (\<lambda>p. rootIsObject p = c) (advance n)"
  "keeps (\<lambda>p. rootIsObject p = c) parseString" "keeps (\<lambda>p. rootIsObject p = c) (countNode l)"
  "keeps (\<lambda>p. rootIsObject p = c) (countKey l)" "keeps (\<lambda>p. rootIsObject p = c) (parseLiteral text v)"
  "keeps (\<lambda>p. rootIsObject p = c) parseNumber"
  "keeps (\<lambda>p. rootIsObject p = c) (case x of Some (JStr s) \<Rightarrow> whenE d (modifyE (\<lambda>p. p\<lparr>rootType := t s\<rparr>)) | _ \<Rightarrow> retE ())"
  by (auto simp: moves_def skipWhitespace_def advance_def parseString_def countNode_def countKey_def parseLiteral_def
      parseNumber_def em_defs Let_def split: option.split jvalue.split prod.split)

lemma root_kept:
  "keeps (\<lambda>p. rootIsObject p = c) (parseValue b l fuel d False)
   \<and> (\<forall>d seen acc. keeps (\<lambda>p. rootIsObject p = c) (parseMembers b l fuel d seen acc))
   \<and> (\<forall>d acc. keeps (\<lambda>p. rootIsObject p = c) (parseElements b l fuel d acc))"
proof (induction fuel arbitrary: d)
  case 0
  show ?case by (auto simp: parseValue.simps parseMembers.simps parseElements.simps intro: keeps_rules)
next
  case (Suc fuel)
  have IH: "keeps (\<lambda>p. rootIsObject p = c) (parseValue b l fuel d False)"
    "keeps (\<lambda>p. rootIsObject p = c) (parseMembers b l fuel d seen acc)"
    "keeps (\<lambda>p. rootIsObject p = c) (parseElements b l fuel d acc')" for d seen acc acc'
    using Suc by blast+
  have "keeps (\<lambda>p. rootIsObject p = c) (parseValue b l (Suc fuel) d False)"
    unfolding parseValue.simps by (intro keeps_rules root_step IH) simp
  moreover have "keeps (\<lambda>p. rootIsObject p = c) (parseMembers b l (Suc fuel) d seen acc)" for d seen acc
    unfolding parseMembers.simps Let_def
    by (intro keeps_rules(5) keeps_rules(6) keeps_rules(1-4) keeps_rules(9) moves_if root_step IH)
  moreover have "keeps (\<lambda>p. rootIsObject p = c) (parseElements b l (Suc fuel) d acc)" for d acc
    unfolding parseElements.simps Let_def by (intro keeps_rules root_step IH)
  ultimately show ?case by blast
qed

lemma members_shape: "ok J (parseMembers True l fuel d seen acc) (\<lambda>v p. \<exists>kvs. v = Some (JObj kvs))"
proof (induction fuel arbitrary: J seen acc)
  case (Suc fuel)
  show ?case
    unfolding parseMembers.simps Let_def if_True
    by (intro ok_if ok_throw ok_skip_bind ok_skip ok_ret Suc) simp
qed (simp add: parseMembers.simps ok_throw)

lemma elements_shape: "ok J (parseElements True l fuel d acc) (\<lambda>v p. \<exists>vs. v = Some (JArr vs))"
proof (induction fuel arbitrary: J acc)
  case (Suc fuel)
  show ?case
    unfolding parseElements.simps Let_def if_True
    by (intro ok_if ok_throw ok_skip_bind ok_skip ok_ret Suc) simp
qed (simp add: parseElements.simps ok_throw)

lemma root_object:
  "ok (\<lambda>p. rootIsObject p = False) (parseValue True l fuel d True)
     (\<lambda>v p. rootIsObject p = (case v of Some (JObj kvs) \<Rightarrow> True | _ \<Rightarrow> False))" (is "ok ?I _ ?Q")
proof (cases fuel)
  case (Suc n)
  have object: "ok (\<lambda>p. rootIsObject p = True) (parseMembers True l n d' [] []) ?Q" for d'
    using ok_conj [OF members_shape [of "\<lambda>_. True"] keeps_ok [OF root_kept [of True True l n d', THEN conjunct2, THEN conjunct1, rule_format]]]
    by (rule ok_weaken) auto
  have array: "ok ?I (parseElements True l n d' []) ?Q" for d'
    using ok_conj [OF elements_shape [of "\<lambda>_. True"] keeps_ok [OF root_kept [of False True l n d', THEN conjunct2, THEN conjunct2, rule_format]]]
    by (rule ok_weaken) auto
  have set_root: "ok ?I (whenE True (modifyE (\<lambda>p. p\<lparr>rootIsObject := True\<rparr>))) (\<lambda>_ p. rootIsObject p = True)"
    by (rule okI) (auto simp: em_defs)
  have scalar: "ok ?I (bindE m (\<lambda>v. retE (Some (f v)))) ?Q"
    if "keeps ?I m" and "\<And>v kvs. f v \<noteq> JObj kvs" for m :: "'x parse" and f
    by (rule ok_bind_keeps [OF that(1)], rule ok_ret) (use that(2) in \<open>auto split: jvalue.split\<close>)
  have plain: "ok ?I (bindE (parseLiteral t x) (\<lambda>v. retE (Some v))) ?Q" if "case x of JObj kvs \<Rightarrow> False | _ \<Rightarrow> True" for t x
    using that by (intro okI) (auto simp: parseLiteral_def advance_def em_defs split: if_splits jvalue.splits)
  have number: "ok ?I (bindE parseNumber (\<lambda>v. retE (Some v))) ?Q"
    by (rule okI) (auto simp: parseNumber_def em_defs Let_def split: if_splits option.splits prod.splits)
  have empty: "ok (\<lambda>p. rootIsObject p = b) (retE (Some x)) ?Q" if "(case x of JObj kvs \<Rightarrow> True | _ \<Rightarrow> False) = b" for x b
    by (rule ok_ret) (use that in auto)
  show ?thesis
    unfolding Suc parseValue.simps if_True
    by (intro ok_then_keeps [OF root_step(4)] ok_gets_bind ok_if ok_then_fail ok_then_ok [OF set_root]
        ok_then_keeps [OF root_step(2)] ok_then_keeps [OF root_step(1)] object array empty scalar root_step plain number)
      simp_all
qed (simp add: parseValue.simps ok_throw)

lemma document_unbuilt: "parseDocument False l fuel = mapE unbuilt (parseDocument True l fuel)"
  unfolding parseDocument_def mapE_then mapE_bind mapE_if mapE_throw mapE_ret
    inspect_agrees [THEN conjunct1, of l fuel 0 True] bind_mapE ..

lemma document_accepts:
  assumes "parseDocument True l fuel (start source) = (Inr v, p)"
  shows "\<exists>x. v = Some x \<and> fits l x 0 \<and> counted l (json_nodes x) (json_keys x) p
     \<and> rootIsObject p = (case x of JObj kvs \<Rightarrow> True | _ \<Rightarrow> False)"
proof -
  let ?R = "\<lambda>v p. (\<exists>x. v = Some x \<and> fits l x 0 \<and> counted l (json_nodes x) (json_keys x) p)
      \<and> rootIsObject p = (case v of Some (JObj kvs) \<Rightarrow> True | _ \<Rightarrow> False)"
  have "ok (\<lambda>p. (totalNodes p = 0 \<and> totalKeys p = 0 \<and> 0 \<le> maxTotalKeys l) \<and> rootIsObject p = False) (parseValue True l fuel 0 True) ?R"
    by (rule ok_weaken [OF ok_conj [OF accepts_atD(1) [OF accepts] root_object]]) auto
  moreover have "ok (?R v) skipWhitespace (\<lambda>_. ?R v)" for v
    by (rule okI) (auto simp: skipWhitespace_def em_defs counted_def)
  moreover have "ok (\<lambda>p. (totalNodes p = 0 \<and> totalKeys p = 0 \<and> 0 \<le> maxTotalKeys l) \<and> rootIsObject p = False) skipWhitespace
      (\<lambda>_ p. (totalNodes p = 0 \<and> totalKeys p = 0 \<and> 0 \<le> maxTotalKeys l) \<and> rootIsObject p = False)"
    by (rule okI) (auto simp: skipWhitespace_def em_defs)
  ultimately have "ok (\<lambda>p. (totalNodes p = 0 \<and> totalKeys p = 0 \<and> 0 \<le> maxTotalKeys l) \<and> rootIsObject p = False)
      (parseDocument True l fuel) ?R"
    unfolding parseDocument_def
    by (intro ok_then_ok [of _ skipWhitespace] ok_gets_bind ok_if ok_throw triple_bind [of _ "parseValue _ _ _ _ _" ?R] ok_then_fail
        ok_ret) blast+
  from okD [OF this _ assms] show ?thesis by (auto simp: start_def)
qed

text \<open>
  C23. Inspecting a document and parsing it agree, for every source and limits: they fail alike; a
  document whose root is reported as an object is parsed, and the reported totals are those of the
  parsed value; any other is refused as a non-object root.
\<close>

theorem inspection_agrees_with_parsing:
  "case inspectRelayV2Json source l of
     Inl e \<Rightarrow> parseRelayV2JsonObject source l = Inl e
   | Inr i \<Rightarrow>
       if in_rootIsObject i
       then \<exists>kvs. parseRelayV2JsonObject source l = Inr kvs
              \<and> in_totalKeys i = json_keys (JObj kvs) \<and> in_totalNodes i = json_nodes (JObj kvs)
       else parseRelayV2JsonObject source l = Inl (Fail NonObjectRoot)"
proof -
  obtain r p where run: "parseDocument True l (parse_bound source) (start source) = (r, p)"
    by (cases "parseDocument True l (parse_bound source) (start source)")
  then have run': "parseDocument False l (parse_bound source) (start source) = (map_sum id unbuilt r, p)"
    unfolding document_unbuilt by (cases r) (simp_all add: mapE_def bindE_def retE_def)
  show ?thesis
  proof (cases r)
    case (Inl e)
    with run run' show ?thesis by (simp add: inspectRelayV2Json_def parseRelayV2JsonObject_def)
  next
    case (Inr v)
    with document_accepts run obtain x where x: "v = Some x" "counted l (json_nodes x) (json_keys x) p"
      "rootIsObject p = (case x of JObj kvs \<Rightarrow> True | _ \<Rightarrow> False)" by blast
    with Inr run run' show ?thesis
      by (cases x) (simp_all add: inspectRelayV2Json_def parseRelayV2JsonObject_def counted_def)
  qed
qed

text \<open>
  C24. A document that is accepted respects the limits: its nesting, the keys of each object and of
  the whole, the number of values; the keys of an object are distinct, every integer is a safe
  integer and every other number a finite double.
\<close>

theorem parsed_document_respects_limits:
  "case parseRelayV2JsonObject source l of
     Inl e \<Rightarrow> e \<noteq> Stuck
   | Inr kvs \<Rightarrow> fits l (JObj kvs) 0 \<and> json_nodes (JObj kvs) \<le> maxNodes l \<and> json_keys (JObj kvs) \<le> maxTotalKeys l"
proof -
  obtain r p where run: "parseDocument True l (parse_bound source) (start source) = (r, p)"
    by (cases "parseDocument True l (parse_bound source) (start source)")
  show ?thesis
  proof (cases r)
    case (Inl e)
    with run document_total [of True l source] show ?thesis by (auto simp: parseRelayV2JsonObject_def)
  next
    case (Inr v)
    with document_accepts run obtain x where "v = Some x" "fits l x 0" "counted l (json_nodes x) (json_keys x) p" by blast
    with Inr run show ?thesis by (cases x) (simp_all add: parseRelayV2JsonObject_def counted_def)
  qed
qed

end
