(* ===== verification/RV2_JsonRoundTrip.thy ===== *)
theory RV2_JsonRoundTrip
  imports RV2_JsonFacts "HOL-Library.Multiset"
begin

text \<open>
  Canonical JSON text is read back by the strict parser: \<open>canonicalJson\<close> followed by
  \<open>parseRelayV2JsonObject\<close> returns the value with the members of every object in the order of their
  keys. \<open>at t a b\<close> describes a parser in front of the text \<open>t\<close>; the rules for it execute the parser
  symbolically, leaving out only that it might be stuck, which C22 excludes.
\<close>

section \<open>Strings\<close>

lemma hex_digit:
  assumes "d < 16"
  shows "hex_unit (hex_digit_unit d)" and "hex_unit_value (hex_digit_unit d) = d"
  using assms by (auto simp: hex_unit_def hex_digit_unit_def hex_unit_value_def)

lemma escape_value:
  assumes "c < 65536"
  shows "c div 4096 * 4096 + c div 256 mod 16 * 256 + c div 16 mod 16 * 16 + c mod 16 = (c :: nat)"
proof -
  have "c = 16 * (c div 16) + c mod 16" "c div 16 = 16 * (c div 256) + c div 16 mod 16" "c div 256 = 16 * (c div 4096) + c div 256 mod 16"
    using div_mult2_eq [of c 16 16] div_mult2_eq [of c 256 16] by simp_all
  then show ?thesis by linarith
qed

lemma escape_digits: "c < 65536 \<Longrightarrow> c div 4096 < (16 :: nat)"
  by (simp add: less_mult_imp_div_less)

lemma scan_escape: "c < 65536 \<Longrightarrow> scan_string (unicode_escape c @ t) = map_option (map_prod (\<lambda>raw. unicode_escape c @ raw) id) (scan_string t)"
  by (simp add: unicode_escape_def hex_digit escape_digits)

lemma decode_escape: "c < 65536 \<Longrightarrow> json_parse_string (unicode_escape c @ t) = map_option (Cons c) (json_parse_string t)"
  using escape_value [of c] by (simp add: unicode_escape_def hex_digit escape_digits)

lemma scan_unit: "c < 65536 \<Longrightarrow> scan_string (quote_unit c @ t) = map_option (map_prod (\<lambda>raw. quote_unit c @ raw) id) (scan_string t)"
  by (simp add: quote_unit_def scan_escape option.map_comp o_def map_prod_def split_def)

lemma decode_unit: "c < 65536 \<Longrightarrow> json_parse_string (quote_unit c @ t) = map_option (Cons c) (json_parse_string t)"
  by (simp add: quote_unit_def decode_escape unescape_def)

lemma scan_quoted: "\<forall>c \<in> set s. c < 65536 \<Longrightarrow> scan_string (quote_units s @ 34 # t) = Some (quote_units s, t)"
proof (induction s rule: quote_units.induct)
  case (2 c)
  then show ?case by (simp add: scan_unit)
next
  case (3 c d ds)
  then show ?case
  proof (cases "high_surrogate c \<and> low_surrogate d")
    case True
    with 3 show ?thesis by (simp add: high_surrogate_def low_surrogate_def)
  next
    case False
    with 3 show ?thesis by (simp add: scan_unit if_not_P [OF False])
  qed
qed simp

lemma decode_quoted: "\<forall>c \<in> set s. c < 65536 \<Longrightarrow> json_parse_string (quote_units s) = Some s"
proof (induction s rule: quote_units.induct)
  case (2 c)
  then show ?case using decode_unit [of c "[]"] by simp
next
  case (3 c d ds)
  then show ?case
  proof (cases "high_surrogate c \<and> low_surrogate d")
    case True
    with 3 show ?thesis by (simp add: high_surrogate_def low_surrogate_def)
  next
    case False
    with 3 show ?thesis by (simp add: decode_unit if_not_P [OF False])
  qed
qed simp

section \<open>Numbers\<close>

lemma decimal_units_small: "n < 10 \<Longrightarrow> decimal_units n = [48 + n]"
  and decimal_units_large: "\<not> n < 10 \<Longrightarrow> decimal_units n = decimal_units (n div 10) @ [48 + n mod 10]"
  by (subst decimal_units.simps, simp)+

lemma decimal_digits: "list_all digit_unit (decimal_units n)"
proof (induction n rule: decimal_units.induct)
  case (1 n)
  then show ?case
    by (cases "n < 10") (auto simp: decimal_units_small decimal_units_large digit_unit_def list_all_iff)
qed

lemma decimal_value: "units_value (decimal_units n) = int n"
proof (induction n rule: decimal_units.induct)
  case (1 n)
  then show ?case
    by (cases "n < 10") (auto simp: decimal_units_small decimal_units_large units_value_def zdiv_int zmod_int)
qed

lemma decimal_head: "\<exists>c cs. decimal_units n = c # cs \<and> digit_unit c \<and> (c = 48 \<longrightarrow> n = 0 \<and> cs = [])"
proof (induction n rule: decimal_units.induct)
  case (1 n)
  then show ?case
    by (cases "n < 10") (auto simp: decimal_units_small decimal_units_large digit_unit_def)
qed

text \<open>What may follow a value: nothing, or a separator.\<close>

definition stops :: "jtext \<Rightarrow> bool" where
  "stops t = (case t of [] \<Rightarrow> True | c # _ \<Rightarrow> c = 44 \<or> c = 93 \<or> c = 125)"

lemma match_decimal:
  assumes "stops t"
  shows "match_integer (decimal_units n @ t) = Some (decimal_units n, t)"
proof -
  obtain c cs where c: "decimal_units n = c # cs" "digit_unit c" "c = 48 \<longrightarrow> n = 0 \<and> cs = []"
    using decimal_head by blast
  have ds: "list_all digit_unit cs" using decimal_digits [of n] c(1) by simp
  have t: "takeWhile digit_unit t = []" "dropWhile digit_unit t = t"
    using assms by (auto simp: stops_def digit_unit_def split: list.splits)
  have "takeWhile digit_unit (cs @ t) = cs" "dropWhile digit_unit (cs @ t) = t"
    using ds t by (simp_all add: list_all_iff takeWhile_append2 dropWhile_append2)
  with c show ?thesis by (auto simp: match_integer_def)
qed

lemma match_stops: "stops t \<Longrightarrow> match_fraction t = ([], t) \<and> match_exponent t = (None, t)"
  by (auto simp: stops_def match_fraction_def match_exponent_def split: list.splits)

lemma parse_int:
  assumes "stops t" and "\<bar>n\<bar> \<le> MAX_SAFE_INTEGER" and "rest p = stringify_int n @ t"
  shows "parseNumber p = (Inr (JInt n), p\<lparr>rest := t\<rparr>)"
proof -
  have "take 1 (decimal_units m @ t) \<noteq> [45]" for m
    using decimal_head [of m] by (auto simp: digit_unit_def)
  then show ?thesis
    using assms match_stops [OF assms(1)]
    by (auto simp: parseNumber_def stringify_int_def match_decimal decimal_value em_defs Let_def)
qed

section \<open>Executing the parser\<close>

definition at :: "jtext \<Rightarrow> nat \<Rightarrow> nat \<Rightarrow> parser \<Rightarrow> bool" where
  "at t a b p \<longleftrightarrow> rest p = t \<and> totalNodes p = a \<and> totalKeys p = b"

abbreviation reads :: "(parser \<Rightarrow> bool) \<Rightarrow> 'a parse \<Rightarrow> ('a \<Rightarrow> parser \<Rightarrow> bool) \<Rightarrow> bool" where
  "reads J m Q \<equiv> triple J m Q (\<lambda>e _. e = Stuck)"

definition unit_at :: "jtext \<Rightarrow> nat option" where
  "unit_at t = (case t of [] \<Rightarrow> None | c # _ \<Rightarrow> Some c)"

lemma unit_at_simps [simp]: "unit_at (c # t) = Some c" "xs \<noteq> [] \<Longrightarrow> unit_at (xs @ t) = unit_at xs"
  by (simp_all add: unit_at_def split: list.split)

lemma at_peek: "reads (at t a b) (f (unit_at t)) Q \<Longrightarrow> reads (at t a b) (bindE (getsE peek) f) Q"
  by (auto simp: triple_def at_def peek_def unit_at_def em_defs)

lemma at_skip:
  "(\<And>c. unit_at t = Some c \<Longrightarrow> \<not> json_space c) \<Longrightarrow> reads (at t a b) k Q \<Longrightarrow> reads (at t a b) (thenE skipWhitespace k) Q"
  by (cases t) (auto simp: triple_def at_def skipWhitespace_def em_defs)

lemma at_advance: "reads (at t a b) k Q \<Longrightarrow> reads (at (c # t) a b) (thenE (advance (Suc 0)) k) Q"
  by (auto simp: triple_def at_def advance_def em_defs)

lemma at_string:
  assumes "\<forall>c \<in> set s. c < 65536" and "reads (at t a b) (f s) Q"
  shows "reads (at (stringify_string s @ t) a b) (bindE parseString f) Q"
  using assms scan_quoted [OF assms(1)] decode_quoted [OF assms(1)]
  by (auto simp: triple_def at_def parseString_def stringify_string_def em_defs)

lemma at_count: "a + 1 \<le> maxNodes l \<Longrightarrow> reads (at t (a + 1) b) k Q \<Longrightarrow> reads (at t a b) (thenE (countNode l) k) Q"
  "b + 1 \<le> maxTotalKeys l \<Longrightarrow> reads (at t a (b + 1)) k Q \<Longrightarrow> reads (at t a b) (thenE (countKey l) k) Q"
  by (auto simp: triple_def at_def countNode_def countKey_def em_defs)

lemma at_pass: "\<not> c \<Longrightarrow> reads J k Q \<Longrightarrow> reads J (thenE (failIf c f) k) Q"
  by (auto simp: triple_def em_defs)

lemma at_mark:
  "reads (at t a b) k Q \<Longrightarrow> reads (at t a b) (thenE (whenE c (modifyE (\<lambda>p. p\<lparr>rootIsObject := d\<rparr>))) k) Q"
  "reads (at t a b) k Q \<Longrightarrow>
   reads (at t a b) (thenE (case v of Some (JStr s) \<Rightarrow> whenE c (modifyE (\<lambda>p. p\<lparr>rootType := f s\<rparr>)) | _ \<Rightarrow> retE ()) k) Q"
  by (auto simp: triple_def at_def em_defs split: option.split jvalue.split)

lemma at_literal:
  "reads (at t a b) (f v) Q \<Longrightarrow> reads (at (text @ t) a b) (bindE (parseLiteral text v) f) Q"
  by (auto simp: triple_def at_def parseLiteral_def advance_def em_defs)

lemma at_int:
  assumes "stops t" and "\<bar>n\<bar> \<le> MAX_SAFE_INTEGER" and "reads (at t a b) (f (JInt n)) Q"
  shows "reads (at (stringify_int n @ t) a b) (bindE parseNumber f) Q"
  using assms by (auto simp: triple_def at_def parse_int bindE_def)

lemma at_ret: "(\<And>p. at t a b p \<Longrightarrow> Q v p) \<Longrightarrow> reads (at t a b) (retE v) Q"
  by (auto simp: triple_def retE_def)

lemma reads_bind: "reads J m (\<lambda>v p. v = x \<and> K p) \<Longrightarrow> reads K (f x) Q \<Longrightarrow> reads J (bindE m f) Q"
  by (erule triple_bind) (auto simp: triple_def)

section \<open>Values\<close>

text \<open>A value whose strings are UTF-16 and whose numbers are integers.\<close>

abbreviation utf16 :: "jtext \<Rightarrow> bool" where
  "utf16 s \<equiv> \<forall>c \<in> set s. c < 65536"

primrec plain_json :: "jtext jvalue \<Rightarrow> bool" where
  "plain_json JNull = True"
| "plain_json (JBool b) = True"
| "plain_json (JInt n) = True"
| "plain_json (JDec m e) = False"
| "plain_json (JStr s) = (\<forall>c \<in> set s. c < 65536)"
| "plain_json (JArr vs) = list_all id (map plain_json vs)"
| "plain_json (JObj kvs) = list_all (\<lambda>(k, p). (\<forall>c \<in> set k. c < 65536) \<and> p) (map (map_prod id plain_json) kvs)"

text \<open>The value with the members of its objects in the order of their keys.\<close>

primrec sort_json :: "('s :: linorder) jvalue \<Rightarrow> 's jvalue" where
  "sort_json JNull = JNull"
| "sort_json (JBool b) = JBool b"
| "sort_json (JInt n) = JInt n"
| "sort_json (JDec m e) = JDec m e"
| "sort_json (JStr s) = JStr s"
| "sort_json (JArr vs) = JArr (map sort_json vs)"
| "sort_json (JObj kvs) = JObj (sort_key fst (map (map_prod id sort_json) kvs))"

lemma join_units_Cons: "join_units (x # xs) = (if xs = [] then x else x @ 44 # join_units xs)"
  by (cases xs) auto

lemma insort_map: "insort_key fst (map_prod id f x) (map (map_prod id f) xs) = map (map_prod id f) (insort_key fst x xs)"
  by (induction xs) auto

lemma sort_map: "sort_key fst (map (map_prod id f) kvs) = map (map_prod id f) (sort_key fst kvs)"
  by (induction kvs) (simp_all add: insort_map [unfolded id_def])

lemma sum_sorted: "sum_list (map (f :: _ \<Rightarrow> nat) (sort_key g xs)) = sum_list (map f xs)"
  by (metis mset_map mset_sort sum_mset_sum_list)

lemma canonical_unit:
  assumes "plain_json v"
  shows "canonicalJson dec v \<noteq> [] \<and> (\<exists>c. unit_at (canonicalJson dec v) = Some c \<and> \<not> json_space c \<and> c \<noteq> 93)"
proof (cases v)
  case (JInt n)
  then show ?thesis
    using decimal_head [of "nat n"] decimal_head [of "nat (- n)"]
    by (auto simp: stringify_int_def digit_unit_def json_space_def)
qed (use assms in \<open>auto simp: json_space_def stringify_string_def\<close>)

definition reads_back :: "(int \<Rightarrow> int \<Rightarrow> jtext) \<Rightarrow> json_limits \<Rightarrow> jtext jvalue \<Rightarrow> bool" where
  "reads_back dec l v \<longleftrightarrow>
     (\<forall>fuel d r t a b. plain_json v \<longrightarrow> fits l v d \<longrightarrow> stops t \<longrightarrow> a + json_nodes v \<le> maxNodes l \<longrightarrow> b + json_keys v \<le> maxTotalKeys l \<longrightarrow>
        reads (at (canonicalJson dec v @ t) a b) (parseValue True l fuel d r)
          (\<lambda>x p. x = Some (sort_json v) \<and> at t (a + json_nodes v) (b + json_keys v) p))"

lemma reads_backD:
  assumes "reads_back dec l v" "plain_json v" "fits l v d" "stops t" "a + json_nodes v \<le> maxNodes l" "b + json_keys v \<le> maxTotalKeys l"
    and "reads (at t (a + json_nodes v) (b + json_keys v)) (f (Some (sort_json v))) Q"
  shows "reads (at (canonicalJson dec v @ t) a b) (bindE (parseValue True l fuel d r) f) Q"
  using assms(1-6) unfolding reads_back_def by (intro reads_bind [where f = f, OF _ assms(7)]) blast

lemma reads_stuck: "reads J (throwE Stuck) Q"
  by (auto simp: triple_def em_defs)

lemma stops_skip: "stops t \<Longrightarrow> unit_at t = Some c \<Longrightarrow> \<not> json_space c"
  by (auto simp: stops_def unit_at_def json_space_def split: list.splits)

lemma read_elements:
  assumes "vs \<noteq> []" and "\<forall>v \<in> set vs. reads_back dec l v \<and> plain_json v \<and> fits l v d"
    and "a + sum_list (map json_nodes vs) \<le> maxNodes l" and "b + sum_list (map json_keys vs) \<le> maxTotalKeys l"
  shows "reads (at (join_units (map (canonicalJson dec) vs) @ 93 # t) a b) (parseElements True l fuel d acc)
    (\<lambda>x p. x = Some (JArr (rev acc @ map sort_json vs))
       \<and> at t (a + sum_list (map json_nodes vs)) (b + sum_list (map json_keys vs)) p)"
  using assms
proof (induction vs arbitrary: fuel acc a b)
  case (Cons v vs)
  show ?case
  proof (cases fuel)
    case (Suc n)
    have v: "reads_back dec l v" "plain_json v" "fits l v d" using Cons.prems by auto
    show ?thesis
    proof (cases "vs = []")
      case True
      with v Cons.prems canonical_unit [of v dec] show ?thesis
        unfolding Suc parseElements.simps
        by (auto intro!: at_peek reads_backD [OF v] at_skip at_advance at_ret simp: stops_def json_space_def)
    next
      case False
      obtain c where c: "canonicalJson dec (hd vs) \<noteq> []" "unit_at (canonicalJson dec (hd vs)) = Some c" "\<not> json_space c"
        using canonical_unit [of "hd vs" dec] Cons.prems False by auto
      have j: "join_units (map (canonicalJson dec) vs) \<noteq> []" "unit_at (join_units (map (canonicalJson dec) vs)) = Some c"
        using False c by (cases vs; cases "tl vs"; simp)+
      have more: "reads (at (join_units (map (canonicalJson dec) vs) @ 93 # t) (a + json_nodes v) (b + json_keys v))
          (parseElements True l n d (sort_json v # acc))
          (\<lambda>x p. x = Some (JArr (rev acc @ map sort_json (v # vs)))
             \<and> at t (a + sum_list (map json_nodes (v # vs))) (b + sum_list (map json_keys (v # vs))) p)"
        using Cons.IH [OF False, of "a + json_nodes v" "b + json_keys v" n "sort_json v # acc"] Cons.prems by (simp add: add.assoc)
      from v j c Cons.prems False canonical_unit [of v dec] show ?thesis
        unfolding Suc parseElements.simps
        by (auto intro!: at_peek reads_backD [OF v] at_skip at_advance more [simplified] simp: stops_def json_space_def join_units_Cons)
    qed
  qed (simp add: parseElements.simps reads_stuck)
qed simp

abbreviation member_text :: "(int \<Rightarrow> int \<Rightarrow> jtext) \<Rightarrow> jtext \<times> jtext jvalue \<Rightarrow> jtext" where
  "member_text dec \<equiv> \<lambda>(k, v). stringify_string k @ 58 # canonicalJson dec v"

lemma member_unit: "unit_at (join_units (map (member_text dec) kvs) @ t) = (if kvs = [] then unit_at t else Some 34)"
  by (cases kvs) (auto simp: join_units_Cons stringify_string_def split: prod.split)

lemma string_unit: "unit_at (stringify_string s @ t) = Some 34"
  by (simp add: stringify_string_def)

lemma read_members:
  assumes "kvs \<noteq> []" and "\<forall>(k, v) \<in> set kvs. reads_back dec l v \<and> plain_json v \<and> fits l v d \<and> (\<forall>c \<in> set k. c < 65536)"
    and "distinct (map fst kvs)" and "set (map fst kvs) \<inter> set seen = {}" and "length seen + length kvs \<le> maxDirectKeys l"
    and "a + sum_list (map (json_nodes \<circ> snd) kvs) \<le> maxNodes l"
    and "b + length kvs + sum_list (map (json_keys \<circ> snd) kvs) \<le> maxTotalKeys l"
  shows "reads (at (join_units (map (member_text dec) kvs) @ 125 # t) a b) (parseMembers True l fuel d seen acc)
    (\<lambda>x p. x = Some (JObj (rev acc @ map (map_prod id sort_json) kvs))
       \<and> at t (a + sum_list (map (json_nodes \<circ> snd) kvs)) (b + length kvs + sum_list (map (json_keys \<circ> snd) kvs)) p)"
  using assms
proof (induction kvs arbitrary: fuel acc seen a b)
  case (Cons kv kvs)
  obtain k v where kv: "kv = (k, v)" by force
  show ?case
  proof (cases fuel)
    case (Suc n)
    have v: "reads_back dec l v" "plain_json v" "fits l v d" and k: "\<forall>c \<in> set k. c < 65536" using Cons.prems kv by auto
    obtain c where c: "canonicalJson dec v \<noteq> []" "unit_at (canonicalJson dec v) = Some c" "\<not> json_space c"
      using canonical_unit [OF v(2)] by blast
    show ?thesis
    proof (cases "kvs = []")
      case True
      with kv c k v Cons.prems show ?thesis
        unfolding Suc parseMembers.simps
        by (auto intro!: at_peek at_string at_pass at_count(2) reads_backD [OF v] at_skip at_mark at_advance at_ret
            simp: stops_def json_space_def string_unit)
    next
      case False
      have more: "reads (at (join_units (map (member_text dec) kvs) @ 125 # t) (a + json_nodes v) (Suc b + json_keys v))
          (parseMembers True l n d (k # seen) ((k, sort_json v) # acc))
          (\<lambda>x p. x = Some (JObj (rev acc @ map (map_prod id sort_json) (kv # kvs)))
             \<and> at t (a + sum_list (map (json_nodes \<circ> snd) (kv # kvs)))
                  (b + length (kv # kvs) + sum_list (map (json_keys \<circ> snd) (kv # kvs))) p)"
        using Cons.IH [OF False, of "k # seen" "a + json_nodes v" "Suc b + json_keys v" n "(k, sort_json v) # acc"] Cons.prems kv
        by (simp add: ac_simps o_def id_def)
      from c k v Cons.prems False kv show ?thesis
        unfolding Suc parseMembers.simps
        by (auto intro!: at_peek at_string at_pass at_count(2) reads_backD [OF v] at_skip at_mark at_advance triple_weaken [OF more]
            simp: o_def ac_simps stops_def json_space_def join_units_Cons member_unit string_unit)
    qed
  qed (simp add: parseMembers.simps reads_stuck)
qed simp

lemma list_all_fits:
  "list_all (\<lambda>f. f d) (map (fits l) vs) \<longleftrightarrow> (\<forall>v \<in> set vs. fits l v d)"
  "list_all (\<lambda>(k, f). f d) (map (map_prod id (fits l)) kvs) \<longleftrightarrow> (\<forall>(k, v) \<in> set kvs. fits l v d)"
  "list_all (\<lambda>(k, p). P k \<and> p) (map (map_prod id plain_json) kvs) \<longleftrightarrow> (\<forall>(k, v) \<in> set kvs. P k \<and> plain_json v)"
  by (auto simp: list_all_iff)

lemma read_array:
  assumes "\<And>v. v \<in> set vs \<Longrightarrow> reads_back dec l v"
  shows "reads_back dec l (JArr vs)"
proof -
  have "reads (at (canonicalJson dec (JArr vs) @ t) a b) (parseValue True l fuel d r)
          (\<lambda>x p. x = Some (sort_json (JArr vs)) \<and> at t (a + json_nodes (JArr vs)) (b + json_keys (JArr vs)) p)"
    if h: "plain_json (JArr vs)" "fits l (JArr vs) d" "stops t" "a + json_nodes (JArr vs) \<le> maxNodes l" "b + json_keys (JArr vs) \<le> maxTotalKeys l"
    for fuel d r t a b
  proof (cases fuel)
    case (Suc n)
    show ?thesis
    proof (cases "vs = []")
      case True
      with h show ?thesis unfolding Suc parseValue.simps
        by (auto intro!: at_count(1) at_peek at_pass at_advance at_skip at_ret simp: json_space_def)
    next
      case False
      have v: "\<forall>v \<in> set vs. reads_back dec l v \<and> plain_json v \<and> fits l v (Suc d)"
        using h assms by (auto simp: list_all_iff)
      obtain c where c: "unit_at (join_units (map (canonicalJson dec) vs) @ 93 # t) = Some c" "\<not> json_space c" "c \<noteq> 93"
        using canonical_unit [of "hd vs" dec] v False by (cases vs) (auto simp: join_units_Cons)
      note more = read_elements [OF False v, of "Suc a" b t n "[]"]
      from c h show ?thesis unfolding Suc parseValue.simps
        by (auto intro!: at_count(1) at_peek at_pass at_advance at_skip triple_weaken [OF more])
    qed
  qed (simp add: parseValue.simps reads_stuck)
  then show ?thesis unfolding reads_back_def by blast
qed

text \<open>The text of an object with its members in any order.\<close>

definition object_text :: "(int \<Rightarrow> int \<Rightarrow> jtext) \<Rightarrow> (jtext \<times> jtext jvalue) list \<Rightarrow> jtext" where
  "object_text dec kvs = 123 # join_units (map (member_text dec) kvs) @ [125]"

lemma read_object_text:
  assumes "\<And>k v. (k, v) \<in> set kvs \<Longrightarrow> reads_back dec l v"
    and h: "plain_json (JObj kvs)" "fits l (JObj kvs) d" "a + json_nodes (JObj kvs) \<le> maxNodes l" "b + json_keys (JObj kvs) \<le> maxTotalKeys l"
  shows "reads (at (object_text dec kvs @ t) a b) (parseValue True l fuel d r)
          (\<lambda>x p. x = Some (JObj (map (map_prod id sort_json) kvs)) \<and> at t (a + json_nodes (JObj kvs)) (b + json_keys (JObj kvs)) p)"
proof (cases fuel)
  case (Suc n)
  show ?thesis
  proof (cases "kvs = []")
    case True
    with h show ?thesis unfolding Suc parseValue.simps object_text_def
      by (auto intro!: at_count(1) at_peek at_pass at_mark(1) at_advance at_skip at_ret simp: json_space_def)
  next
    case False
    have v: "\<forall>(k, v) \<in> set kvs. reads_back dec l v \<and> plain_json v \<and> fits l v (Suc d) \<and> (\<forall>c \<in> set k. c < 65536)"
      using h(1,2) assms(1) by (auto simp: list_all_iff)
    have k: "distinct (map fst kvs)" using h(2) by simp
    have more: "reads (at (join_units (map (member_text dec) kvs) @ 125 # t) (Suc a) b) (parseMembers True l n (Suc d) [] [])
        (\<lambda>x p. x = Some (JObj (map (map_prod id sort_json) kvs)) \<and> at t (a + json_nodes (JObj kvs)) (b + json_keys (JObj kvs)) p)"
      by (rule triple_weaken [OF read_members [OF False v k]]) (use h in \<open>auto simp: o_def id_def add.assoc\<close>)
    from False h show ?thesis unfolding Suc parseValue.simps object_text_def
      by (auto intro!: at_count(1) at_peek at_pass at_mark(1) at_advance at_skip triple_weaken [OF more] simp: member_unit json_space_def)
  qed
qed (simp add: parseValue.simps reads_stuck)

lemma sorted_object:
  "canonicalJson dec (JObj kvs) = object_text dec (sort_key fst kvs)"
  "sort_json (JObj kvs) = JObj (map (map_prod id sort_json) (sort_key fst kvs))"
  "json_nodes (JObj (sort_key fst kvs)) = json_nodes (JObj kvs)" "json_keys (JObj (sort_key fst kvs)) = json_keys (JObj kvs)"
  "plain_json (JObj (sort_key fst kvs)) = plain_json (JObj kvs)" "fits l (JObj (sort_key fst kvs)) d = fits l (JObj kvs) d"
  by (simp_all add: object_text_def sort_map sort_map [unfolded id_def] comp_def split_def sum_sorted distinct_map distinct_sort inj_on_def
      list_all_iff cong: conj_cong)

lemma read_object:
  assumes "\<And>k v. (k, v) \<in> set kvs \<Longrightarrow> reads_back dec l v"
  shows "reads_back dec l (JObj kvs)"
proof -
  have v: "\<And>k v. (k, v) \<in> set (sort_key fst kvs) \<Longrightarrow> reads_back dec l v" using assms by simp
  show ?thesis
    unfolding reads_back_def sorted_object(1, 2) sorted_object(3) [of kvs, symmetric] sorted_object(4) [of kvs, symmetric]
      sorted_object(5) [of kvs, symmetric] sorted_object(6) [of l kvs, symmetric]
    by (intro allI impI read_object_text v)
qed

lemma reads_scalar:
  assumes "\<And>n d r t a b. plain_json v \<Longrightarrow> fits l v d \<Longrightarrow> stops t \<Longrightarrow> a + json_nodes v \<le> maxNodes l \<Longrightarrow>
     reads (at (canonicalJson dec v @ t) a b) (parseValue True l (Suc n) d r)
       (\<lambda>x p. x = Some (sort_json v) \<and> at t (a + json_nodes v) (b + json_keys v) p)"
  shows "reads_back dec l v"
  unfolding reads_back_def
proof (intro allI impI)
  fix fuel d r t a b
  assume "plain_json v" "fits l v d" "stops t" "a + json_nodes v \<le> maxNodes l"
  then show "reads (at (canonicalJson dec v @ t) a b) (parseValue True l fuel d r)
       (\<lambda>x p. x = Some (sort_json v) \<and> at t (a + json_nodes v) (b + json_keys v) p)"
    by (cases fuel) (simp_all add: parseValue.simps(1) reads_stuck assms)
qed

lemma int_unit: "unit_at (stringify_int n @ t) = Some c \<Longrightarrow> c = 45 \<or> digit_unit c"
  using decimal_head [of "nat n"] decimal_head [of "nat (- n)"] by (auto simp: stringify_int_def split: if_splits)

lemma read_int: "reads_back dec l (JInt n)"
proof (rule reads_scalar, goal_cases)
  case (1 fuel d r t a b)
  obtain c where "unit_at (stringify_int n @ t) = Some c" "c = 45 \<or> digit_unit c"
    using canonical_unit [of "JInt n" dec] int_unit [of n t] by auto
  with 1 show ?case unfolding parseValue.simps
    by (auto intro!: at_count(1) at_peek at_int at_ret simp: digit_unit_def)
qed

lemma canonical_reads_back: "reads_back dec l v"
proof (induction v)
  case JNull
  show ?case
    by (rule reads_scalar) (auto simp: parseValue.simps intro!: at_count(1) at_peek at_literal [of _ _ _ _ _ _ "[110, 117, 108, 108]", simplified] at_ret)
next
  case (JBool b)
  show ?case
    by (rule reads_scalar) (auto simp: parseValue.simps intro!: at_count(1) at_peek at_literal [of _ _ _ _ _ _ "[116, 114, 117, 101]", simplified]
        at_literal [of _ _ _ _ _ _ "[102, 97, 108, 115, 101]", simplified] at_ret)
next
  case (JStr s)
  show ?case
    by (rule reads_scalar) (auto simp: parseValue.simps string_unit intro!: at_count(1) at_peek at_string at_ret)
next
  case (JArr vs)
  then show ?case by (rule read_array)
next
  case (JObj kvs)
  then show ?case by (intro read_object) force
next
  case (JInt n)
  show ?case by (rule read_int)
qed (simp add: reads_back_def)

section \<open>Documents\<close>

lemma document_reads_text:
  assumes "t \<noteq> []" and "unit_at t = Some c" and "\<not> json_space c"
    and "\<And>fuel. reads (at (t @ []) 0 0) (parseValue True l fuel 0 True) (\<lambda>x p. x = Some v \<and> at [] m k p)"
  shows "\<exists>p. parseDocument True l (parse_bound t) (start t) = (Inr (Some v), p)"
proof -
  let ?tail = "\<lambda>value. thenE skipWhitespace (bindE (getsE rest) (\<lambda>cs. thenE (failIf (cs \<noteq> []) TrailingJson) (retE value)))"
  have tail: "reads (at [] m k) (?tail x) (\<lambda>x' p. x' = x)" for x :: "jtext jvalue option"
    by (rule at_skip) (auto simp: unit_at_def triple_def at_def em_defs)
  have rest: "reads (at (t @ []) 0 0) (bindE (parseValue True l (parse_bound t) 0 True) ?tail) (\<lambda>x p. x = Some v)"
    by (rule reads_bind [OF assms(4)]) (rule tail)
  have "reads (at (t @ []) 0 0) (parseDocument True l (parse_bound t)) (\<lambda>x p. x = Some v)"
    unfolding parseDocument_def
    by (rule at_skip) (use assms(1-3) rest in \<open>auto simp: triple_def at_def em_defs\<close>)
  moreover have "at (t @ []) 0 0 (start t)" by (simp add: at_def start_def)
  ultimately show ?thesis
    using document_total [of True l t]
    by (cases "parseDocument True l (parse_bound t) (start t)";
        cases "fst (parseDocument True l (parse_bound t) (start t))") (auto dest: tripleD_ok tripleD_err)
qed

lemma document_reads:
  assumes "plain_json v" "fits l v 0" "json_nodes v \<le> maxNodes l" "json_keys v \<le> maxTotalKeys l"
  shows "\<exists>p. parseDocument True l (parse_bound (canonicalJson dec v)) (start (canonicalJson dec v)) = (Inr (Some (sort_json v)), p)"
proof -
  obtain c where c: "canonicalJson dec v \<noteq> []" "unit_at (canonicalJson dec v) = Some c" "\<not> json_space c"
    using canonical_unit [OF assms(1)] by blast
  have "stops []" by (simp add: stops_def)
  with canonical_reads_back [of dec l v] assms
  have "reads (at (canonicalJson dec v @ []) 0 0) (parseValue True l fuel 0 True)
      (\<lambda>x p. x = Some (sort_json v) \<and> at [] (0 + json_nodes v) (0 + json_keys v) p)" for fuel
    unfolding reads_back_def by (metis add_0)
  then show ?thesis by (rule document_reads_text [OF c])
qed

text \<open>An object read back as it was written, members in their order: what \<open>JSON.stringify\<close> makes of one without nested objects.\<close>

lemma object_reads:
  assumes "plain_json (JObj kvs)" "fits l (JObj kvs) 0" "json_nodes (JObj kvs) \<le> maxNodes l" "json_keys (JObj kvs) \<le> maxTotalKeys l"
  shows "parseRelayV2JsonObject (object_text dec kvs) l = Inr (map (map_prod id sort_json) kvs)"
proof -
  have "reads (at (object_text dec kvs @ []) 0 0) (parseValue True l fuel 0 True)
      (\<lambda>x p. x = Some (JObj (map (map_prod id sort_json) kvs)) \<and> at [] (0 + json_nodes (JObj kvs)) (0 + json_keys (JObj kvs)) p)" for fuel
    by (rule read_object_text) (use canonical_reads_back assms in simp_all)
  note read = document_reads_text [OF _ _ _ this]
  obtain p where run: "parseDocument True l (parse_bound (object_text dec kvs)) (start (object_text dec kvs))
      = (Inr (Some (JObj (map (map_prod id sort_json) kvs))), p)"
    using read [of 123] by (auto simp: object_text_def json_space_def simp del: append_Cons)
  then have "rootIsObject p" using document_accepts [OF run] by simp
  with run show ?thesis by (simp add: parseRelayV2JsonObject_def)
qed

lemma sort_sorted: "sorted (map f xs) \<Longrightarrow> sort_key f xs = xs"
  by (induction xs) (auto simp: insort_is_Cons)

lemma canonical_sort: "canonicalJson dec (sort_json v) = canonicalJson dec v"
proof (induction v)
  case (JArr vs)
  then show ?case by (simp cong: map_cong)
next
  case (JObj kvs)
  have "map (map_prod id (canonicalJson dec \<circ> sort_json)) kvs = map (map_prod id (canonicalJson dec)) kvs"
    using JObj by (force intro: map_cong)
  then have "map (map_prod id (canonicalJson dec)) (sort_key fst (map (map_prod id sort_json) kvs))
      = sort_key fst (map (map_prod id (canonicalJson dec)) kvs)"
    unfolding sort_map [symmetric] map_map map_prod_compose [symmetric] by (metis comp_id)
  then show ?case by (simp add: sort_sorted)
qed simp_all

text \<open>
  C25. Canonical text is read back: for an object whose strings are UTF-16, whose numbers are safe
  integers and which respects the limits, parsing \<open>canonicalJson\<close> of it returns its members, with
  those of every nested object, in the order of their keys.
\<close>

theorem canonical_text_is_read_back:
  assumes "plain_json (JObj kvs)" and "fits l (JObj kvs) 0"
    and "json_nodes (JObj kvs) \<le> maxNodes l" and "json_keys (JObj kvs) \<le> maxTotalKeys l"
  shows "parseRelayV2JsonObject (canonicalJson dec (JObj kvs)) l = Inr (sort_key fst (map (map_prod id sort_json) kvs))"
proof -
  obtain p where run: "parseDocument True l (parse_bound (canonicalJson dec (JObj kvs))) (start (canonicalJson dec (JObj kvs)))
      = (Inr (Some (sort_json (JObj kvs))), p)"
    using document_reads [OF assms] by blast
  then have "rootIsObject p" using document_accepts [OF run] by simp
  with run show ?thesis by (simp add: parseRelayV2JsonObject_def)
qed

text \<open>
  Two values have the same canonical text exactly when they differ only in the order of the
  members of their objects, so a fingerprint taken of the text is one of the value.
\<close>

theorem canonical_text_determines_value:
  assumes "plain_json v" "fits l v 0" "json_nodes v \<le> maxNodes l" "json_keys v \<le> maxTotalKeys l"
    and "plain_json w" "fits l w 0" "json_nodes w \<le> maxNodes l" "json_keys w \<le> maxTotalKeys l"
  shows "canonicalJson dec v = canonicalJson dec w \<longleftrightarrow> sort_json v = sort_json w"
proof
  assume "canonicalJson dec v = canonicalJson dec w"
  with document_reads [OF assms(1-4), of dec] document_reads [OF assms(5-8), of dec] show "sort_json v = sort_json w" by auto
next
  assume "sort_json v = sort_json w"
  then show "canonicalJson dec v = canonicalJson dec w" by (metis canonical_sort)
qed

section \<open>Examples\<close>

abbreviation sample_object :: "jtext jvalue" where
  "sample_object \<equiv> JObj [([98], JInt (- 12)), ([97], JArr [JBool True, JObj [], JStr [34, 55296]])]"

abbreviation sample_limits :: json_limits where
  "sample_limits \<equiv> \<lparr>maxDepth = 3, maxDirectKeys = 2, maxTotalKeys = 2, maxNodes = 6\<rparr>"

theorem canonical_text_is_read_back_witness:
  "parseRelayV2JsonObject (canonicalJson (\<lambda>_ _. []) sample_object) sample_limits
   = Inr [([97], JArr [JBool True, JObj [], JStr [34, 55296]]), ([98], JInt (- 12))]"
  using canonical_text_is_read_back [of "[([98], JInt (- 12)), ([97], JArr [JBool True, JObj [], JStr [34, 55296]])]" sample_limits "\<lambda>_ _. []"]
  by (simp add: MAX_SAFE_INTEGER_def)

theorem canonical_text_determines_value_witness:
  "canonicalJson (\<lambda>_ _. []) sample_object
     = canonicalJson (\<lambda>_ _. []) (JObj [([97], JArr [JBool True, JObj [], JStr [34, 55296]]), ([98], JInt (- 12))])
   \<and> canonicalJson (\<lambda>_ _. []) sample_object \<noteq> canonicalJson (\<lambda>_ _. []) (JObj [([98], JInt 12)])"
  using canonical_text_determines_value [of sample_object sample_limits "JObj [([97], JArr [JBool True, JObj [], JStr [34, 55296]]), ([98], JInt (- 12))]" "\<lambda>_ _. []"]
    canonical_text_determines_value [of sample_object sample_limits "JObj [([98], JInt 12)]" "\<lambda>_ _. []"]
  by (simp add: MAX_SAFE_INTEGER_def)

end
