(* ===== verification/RV2_Continuity.thy ===== *)
theory RV2_Continuity
  imports TC_Protocol
begin

text \<open>
  The continuity anchor of Relay v2, \<open>src/relay/v2/continuityAnchor.ts\<close>. A caller keeps a state
  of its own on disk; an external authority keeps the checkpoint of the last state that was
  committed. The anchor orders the two writes (first the state, then the checkpoint) and refuses a
  state that is older than the checkpoint or that diverges from it.

  A checkpoint is a record; its protocol version is the constant 1. The authority and the caller's
  store are parameters: a call of one of them is a \<open>seam\<close>, which ends as a promise can end (it
  throws at once, it rejects, it is fulfilled with a value that has not been validated, or the
  deadline passes first) and changes the environment \<open>'b\<close>, in which whatever is outside the class
  happens. A call that runs into its deadline stays counted in \<open>unsettledSeamCalls\<close>; the event
  \<open>settle_late\<close> is its late end.
\<close>

section \<open>Checkpoints and snapshots\<close>

definition MAX_UINT64 :: nat where
  "MAX_UINT64 = 18446744073709551615"

definition MAX_IDENTIFIER_LENGTH :: nat where
  "MAX_IDENTIFIER_LENGTH = 128"

definition MAX_CAS_TOKEN_BYTES :: nat where
  "MAX_CAS_TOKEN_BYTES = 512"

datatype anchor_error_code =
    INVALID_CHECKPOINT
  | INVALID_AUTHORITY_RESPONSE
  | ANCHOR_UNAVAILABLE
  | STATE_COMMIT_UNCERTAIN
  | ANCHOR_COMMIT_UNCERTAIN
  | LOCAL_STATE_CONFLICT
  | CAS_CONFLICT
  | ROLLBACK_DETECTED
  | RECONCILIATION_REQUIRED
  | BUSY

record checkpoint =
  cp_anchorId :: string
  cp_sequence :: string
  cp_commitId :: string
  cp_parentCommitId :: "string option"
  cp_stateDigest :: string

datatype snapshot =
    Uninitialized (sn_anchorId: string) (sn_casToken: string)
  | is_Committed: Committed (sn_anchorId: string) (sn_casToken: string) (sn_checkpoint: checkpoint)

datatype cas_outcome = Swapped | Conflict

datatype local_cas_result =
    LocalSwapped checkpoint
  | LocalAlreadySame checkpoint
  | LocalConflict checkpoint
  | LocalUncertain

section \<open>Validation of foreign values\<close>

text \<open>
  \<open>hasExactKeys\<close> compares two sorted lists of names. The names of an object are distinct, and so
  are the expected ones, so that the lists agree when they have the same length and every expected
  name occurs.
\<close>

definition hasExactKeys :: "json_record \<Rightarrow> string list \<Rightarrow> bool" where
  "hasExactKeys kvs expected \<longleftrightarrow>
     length kvs = length expected \<and> list_all (\<lambda>k. k \<in> set (map fst kvs)) expected"

text \<open>The regular expression \<open>^[A-Za-z0-9][A-Za-z0-9._:@-]{0,127}$\<close>.\<close>

definition alphanumeric :: "char \<Rightarrow> bool" where
  "alphanumeric c \<longleftrightarrow>
     (let n = (of_char c :: nat) in 48 \<le> n \<and> n \<le> 57 \<or> 65 \<le> n \<and> n \<le> 90 \<or> 97 \<le> n \<and> n \<le> 122)"

definition identifier_char :: "char \<Rightarrow> bool" where
  "identifier_char c \<longleftrightarrow> alphanumeric c \<or> c \<in> set ''._:@-''"

fun matches_identifier :: "string \<Rightarrow> bool" where
  "matches_identifier [] = False"
| "matches_identifier (c # cs) = (alphanumeric c \<and> list_all identifier_char cs \<and> length cs \<le> 127)"

fun isIdentifier :: "json option \<Rightarrow> bool" where
  "isIdentifier (Some (JStr s)) = (length s \<le> MAX_IDENTIFIER_LENGTH \<and> matches_identifier s)"
| "isIdentifier v = False"

fun isCanonicalUint64 :: "json option \<Rightarrow> bool" where
  "isCanonicalUint64 (Some (JStr s)) = (length s \<le> 20 \<and> isDecimal s \<and> decimal_value s \<le> MAX_UINT64)"
| "isCanonicalUint64 v = False"

fun isCasToken :: "json option \<Rightarrow> bool" where
  "isCasToken (Some (JStr s)) =
     (s \<noteq> [] \<and> length s \<le> MAX_CAS_TOKEN_BYTES \<and> utf8_length s \<le> MAX_CAS_TOKEN_BYTES
      \<and> list_all (\<lambda>c. 33 \<le> (of_char c :: nat) \<and> (of_char c :: nat) \<le> 126) s)"
| "isCasToken v = False"

text \<open>The regular expression \<open>^[0-9a-f]{64}$\<close>.\<close>

definition matches_sha256_hex :: "string \<Rightarrow> bool" where
  "matches_sha256_hex s \<longleftrightarrow> length s = 64 \<and> list_all (\<lambda>c. is_digit c \<or> c \<in> set ''abcdef'') s"

fun isSha256Hex :: "json option \<Rightarrow> bool" where
  "isSha256Hex (Some (JStr s)) = matches_sha256_hex s"
| "isSha256Hex v = False"

text \<open>The string a check has found.\<close>

fun string_of :: "json option \<Rightarrow> string" where
  "string_of (Some (JStr s)) = s"
| "string_of v = []"

datatype checkpoint_source = FromCaller | FromAuthority

fun checkpointError :: "checkpoint_source \<Rightarrow> anchor_error_code" where
  "checkpointError FromCaller = INVALID_CHECKPOINT"
| "checkpointError FromAuthority = INVALID_AUTHORITY_RESPONSE"

definition checkpoint_keys :: "string list" where
  "checkpoint_keys =
     [''protocolVersion'', ''anchorId'', ''sequence'', ''commitId'', ''parentCommitId'', ''stateDigest'']"

definition parseCheckpoint ::
  "json option \<Rightarrow> string \<Rightarrow> checkpoint_source \<Rightarrow> anchor_error_code + checkpoint" where
  "parseCheckpoint v expectedAnchorId source =
     (case isRecord v of
        None \<Rightarrow> Inl (checkpointError source)
      | Some kvs \<Rightarrow>
          (let get = map_of kvs;
               parent = get ''parentCommitId'';
               sequence = decimal_value (string_of (get ''sequence''))
           in if \<not> hasExactKeys kvs checkpoint_keys
              then Inl (checkpointError source)
              else if get ''protocolVersion'' \<noteq> Some (JInt 1)
                \<or> get ''anchorId'' \<noteq> Some (JStr expectedAnchorId)
                \<or> \<not> isIdentifier (get ''anchorId'')
                \<or> \<not> isCanonicalUint64 (get ''sequence'')
                \<or> \<not> isIdentifier (get ''commitId'')
                \<or> (parent \<noteq> Some JNull \<and> \<not> isIdentifier parent)
                \<or> \<not> isSha256Hex (get ''stateDigest'')
              then Inl (checkpointError source)
              else if sequence = 0 \<and> parent \<noteq> Some JNull
                \<or> 0 < sequence \<and> parent = Some JNull
                \<or> get ''commitId'' = parent
              then Inl (checkpointError source)
              else Inr \<lparr>cp_anchorId = string_of (get ''anchorId''),
                        cp_sequence = string_of (get ''sequence''),
                        cp_commitId = string_of (get ''commitId''),
                        cp_parentCommitId = (if parent = Some JNull then None else Some (string_of parent)),
                        cp_stateDigest = string_of (get ''stateDigest'')\<rparr>))"

definition parseSnapshot :: "json option \<Rightarrow> string \<Rightarrow> anchor_error_code + snapshot" where
  "parseSnapshot v expectedAnchorId =
     (case isRecord v of
        None \<Rightarrow> Inl INVALID_AUTHORITY_RESPONSE
      | Some kvs \<Rightarrow>
          (let get = map_of kvs;
               commonValid = (get ''protocolVersion'' = Some (JInt 1)
                 \<and> get ''anchorId'' = Some (JStr expectedAnchorId)
                 \<and> isIdentifier (get ''anchorId'')
                 \<and> isCasToken (get ''casToken''))
           in if get ''status'' = Some (JStr ''uninitialized'') then
                if \<not> commonValid \<or> \<not> hasExactKeys kvs [''protocolVersion'', ''status'', ''anchorId'', ''casToken'']
                then Inl INVALID_AUTHORITY_RESPONSE
                else Inr (Uninitialized (string_of (get ''anchorId'')) (string_of (get ''casToken'')))
              else if get ''status'' = Some (JStr ''committed'') then
                if \<not> commonValid
                  \<or> \<not> hasExactKeys kvs [''protocolVersion'', ''status'', ''anchorId'', ''casToken'', ''checkpoint'']
                then Inl INVALID_AUTHORITY_RESPONSE
                else
                  (case parseCheckpoint (get ''checkpoint'') expectedAnchorId FromAuthority of
                     Inl e \<Rightarrow> Inl e
                   | Inr c \<Rightarrow> Inr (Committed (string_of (get ''anchorId'')) (string_of (get ''casToken'')) c))
              else Inl INVALID_AUTHORITY_RESPONSE))"

definition parseCasResult :: "json option \<Rightarrow> string \<Rightarrow> anchor_error_code + cas_outcome \<times> snapshot" where
  "parseCasResult v expectedAnchorId =
     (case isRecord v of
        None \<Rightarrow> Inl INVALID_AUTHORITY_RESPONSE
      | Some kvs \<Rightarrow>
          (let get = map_of kvs; outcome = get ''outcome'' in
           if \<not> hasExactKeys kvs [''protocolVersion'', ''outcome'', ''current'']
             \<or> get ''protocolVersion'' \<noteq> Some (JInt 1)
             \<or> (outcome \<noteq> Some (JStr ''swapped'') \<and> outcome \<noteq> Some (JStr ''conflict''))
           then Inl INVALID_AUTHORITY_RESPONSE
           else
             (case parseSnapshot (get ''current'') expectedAnchorId of
                Inl e \<Rightarrow> Inl e
              | Inr s \<Rightarrow> Inr (if outcome = Some (JStr ''swapped'') then Swapped else Conflict, s))))"

definition parseLocalCasResult :: "json option \<Rightarrow> string \<Rightarrow> anchor_error_code + local_cas_result" where
  "parseLocalCasResult v expectedAnchorId =
     (case isRecord v of
        None \<Rightarrow> Inl STATE_COMMIT_UNCERTAIN
      | Some kvs \<Rightarrow>
          (let get = map_of kvs; outcome = get ''outcome'' in
           if outcome = Some (JStr ''uncertain'') then
             if hasExactKeys kvs [''outcome''] then Inr LocalUncertain else Inl STATE_COMMIT_UNCERTAIN
           else if (outcome \<noteq> Some (JStr ''swapped'') \<and> outcome \<noteq> Some (JStr ''already_same'')
               \<and> outcome \<noteq> Some (JStr ''conflict''))
             \<or> \<not> hasExactKeys kvs [''outcome'', ''current'']
           then Inl STATE_COMMIT_UNCERTAIN
           else
             (case parseCheckpoint (get ''current'') expectedAnchorId FromCaller of
                Inl e \<Rightarrow> Inl STATE_COMMIT_UNCERTAIN
              | Inr c \<Rightarrow>
                  Inr (if outcome = Some (JStr ''swapped'') then LocalSwapped c
                       else if outcome = Some (JStr ''already_same'') then LocalAlreadySame c
                       else LocalConflict c))))"

definition sameCheckpoint :: "checkpoint \<Rightarrow> checkpoint \<Rightarrow> bool" where
  "sameCheckpoint left right \<longleftrightarrow>
     cp_anchorId left = cp_anchorId right \<and> cp_sequence left = cp_sequence right
     \<and> cp_commitId left = cp_commitId right \<and> cp_parentCommitId left = cp_parentCommitId right
     \<and> cp_stateDigest left = cp_stateDigest right"

definition isImmediateSuccessor :: "checkpoint \<Rightarrow> checkpoint \<Rightarrow> bool" where
  "isImmediateSuccessor nxt current \<longleftrightarrow>
     decimal_value (cp_sequence current) < MAX_UINT64
     \<and> decimal_value (cp_sequence nxt) = decimal_value (cp_sequence current) + 1
     \<and> cp_parentCommitId nxt = Some (cp_commitId current)"

lemma sameCheckpoint_eq [simp]: "sameCheckpoint a b \<longleftrightarrow> a = (b :: checkpoint)"
  by (cases a; cases b) (auto simp: sameCheckpoint_def)

section \<open>The anchor\<close>

datatype settlement = Fulfilled "json option" | RejectedCall | ThrewCall | TimedOut

type_synonym 'b seam = "'b \<Rightarrow> settlement \<times> 'b"

text \<open>
  The injected authority: \<open>read\<close> is called with the anchor's id, \<open>compareAndSwap\<close> also with the
  expected snapshot and the next checkpoint.
\<close>

record 'b cas_authority =
  au_read :: "string \<Rightarrow> 'b seam"
  au_compareAndSwap :: "string \<Rightarrow> snapshot \<Rightarrow> checkpoint \<Rightarrow> 'b seam"

type_synonym 'b publisher = "checkpoint \<Rightarrow> checkpoint \<Rightarrow> 'b seam"

record 'b anchor =
  an_anchorId :: string
  an_maxPendingOperations :: nat
  an_pendingOperations :: nat
  an_unsettledSeamCalls :: nat
  an_reconciliationRequired :: bool
  an_env :: 'b

type_synonym ('b, 'a) an = "('b anchor, anchor_error_code, 'a) em"

definition RELAY_V2_CONTINUITY_DEFAULT_OPERATION_TIMEOUT_MS :: int where
  "RELAY_V2_CONTINUITY_DEFAULT_OPERATION_TIMEOUT_MS = 5000"

definition RELAY_V2_CONTINUITY_MAX_OPERATION_TIMEOUT_MS :: int where
  "RELAY_V2_CONTINUITY_MAX_OPERATION_TIMEOUT_MS = 30000"

definition RELAY_V2_CONTINUITY_DEFAULT_MAX_PENDING_OPERATIONS :: int where
  "RELAY_V2_CONTINUITY_DEFAULT_MAX_PENDING_OPERATIONS = 64"

definition RELAY_V2_CONTINUITY_MAX_PENDING_OPERATIONS :: int where
  "RELAY_V2_CONTINUITY_MAX_PENDING_OPERATIONS = 1024"

text \<open>
  The constructor, on its three options that are not functions; \<open>None\<close> is the \<open>TypeError\<close>. The
  deadline itself is left to the seams, which say whether a call ends before it.
\<close>

definition newContinuityAnchor :: "string \<Rightarrow> int option \<Rightarrow> int option \<Rightarrow> 'b \<Rightarrow> 'b anchor option" where
  "newContinuityAnchor anchorId operationTimeoutMs maxPendingOperations env =
     (let timeout = with_default RELAY_V2_CONTINUITY_DEFAULT_OPERATION_TIMEOUT_MS operationTimeoutMs;
          maxPending = with_default RELAY_V2_CONTINUITY_DEFAULT_MAX_PENDING_OPERATIONS maxPendingOperations
      in if \<not> isIdentifier (Some (JStr anchorId)) then None
         else if timeout \<le> 0 \<or> RELAY_V2_CONTINUITY_MAX_OPERATION_TIMEOUT_MS < timeout then None
         else if maxPending \<le> 0 \<or> RELAY_V2_CONTINUITY_MAX_PENDING_OPERATIONS < maxPending then None
         else Some \<lparr>an_anchorId = anchorId, an_maxPendingOperations = nat maxPending,
                    an_pendingOperations = 0, an_unsettledSeamCalls = 0,
                    an_reconciliationRequired = False, an_env = env\<rparr>)"

abbreviation requireReconciliation :: "bool \<Rightarrow> ('b, unit) an" where
  "requireReconciliation b \<equiv> whenE b (modifyE (\<lambda>s. s\<lparr>an_reconciliationRequired := True\<rparr>))"

definition failRequiringReconciliation :: "anchor_error_code \<Rightarrow> ('b, 'a) an" where
  "failRequiringReconciliation code = thenE (requireReconciliation True) (throwE code)"

text \<open>One call of a collaborator: the count of unsettled calls goes up, and down again unless the deadline passes first.\<close>

definition enter_seam :: "'b anchor \<Rightarrow> 'b anchor" where
  "enter_seam s = s\<lparr>an_unsettledSeamCalls := an_unsettledSeamCalls s + 1\<rparr>"

definition leave_seam :: "'b anchor \<Rightarrow> 'b anchor" where
  "leave_seam s = s\<lparr>an_unsettledSeamCalls := an_unsettledSeamCalls s - 1\<rparr>"

definition invokeE :: "'b seam \<Rightarrow> ('b, settlement) an" where
  "invokeE seam = (\<lambda>s. case seam (an_env s) of (r, e) \<Rightarrow> (Inr r, s\<lparr>an_env := e\<rparr>))"

definition callSeam ::
  "'b seam \<Rightarrow> anchor_error_code \<Rightarrow> anchor_error_code \<Rightarrow> bool \<Rightarrow> ('b, json option) an" where
  "callSeam seam failureCode capacityCode require =
     bindE (getsE (\<lambda>s. an_maxPendingOperations s \<le> an_unsettledSeamCalls s)) (\<lambda>full.
       if full then thenE (requireReconciliation require) (throwE capacityCode)
       else
         thenE (modifyE enter_seam)
         (bindE (invokeE seam) (\<lambda>settlement.
            case settlement of
              ThrewCall \<Rightarrow>
                thenE (modifyE leave_seam) (thenE (requireReconciliation require) (throwE failureCode))
            | Fulfilled v \<Rightarrow> thenE (modifyE leave_seam) (retE v)
            | RejectedCall \<Rightarrow>
                thenE (modifyE leave_seam) (thenE (requireReconciliation require) (throwE failureCode))
            | TimedOut \<Rightarrow> thenE (requireReconciliation require) (throwE failureCode))))"

definition readAnchor :: "'b cas_authority \<Rightarrow> ('b, snapshot) an" where
  "readAnchor A =
     bindE (getsE an_anchorId) (\<lambda>i.
     bindE (callSeam (au_read A i) ANCHOR_UNAVAILABLE BUSY False) (\<lambda>raw.
       liftE (parseSnapshot raw i)))"

definition publishLocalState :: "'b publisher \<Rightarrow> checkpoint \<Rightarrow> checkpoint \<Rightarrow> ('b, unit) an" where
  "publishLocalState publishState expected nxt =
     bindE (getsE an_anchorId) (\<lambda>i.
     bindE (callSeam (publishState expected nxt) STATE_COMMIT_UNCERTAIN BUSY True) (\<lambda>raw.
       case parseLocalCasResult raw i of
         Inl e \<Rightarrow> failRequiringReconciliation STATE_COMMIT_UNCERTAIN
       | Inr LocalUncertain \<Rightarrow> failRequiringReconciliation STATE_COMMIT_UNCERTAIN
       | Inr (LocalSwapped current) \<Rightarrow>
           if \<not> sameCheckpoint current nxt then failRequiringReconciliation STATE_COMMIT_UNCERTAIN else retE ()
       | Inr (LocalAlreadySame current) \<Rightarrow>
           if \<not> sameCheckpoint current nxt then failRequiringReconciliation STATE_COMMIT_UNCERTAIN else retE ()
       | Inr (LocalConflict current) \<Rightarrow>
           if sameCheckpoint current expected \<or> sameCheckpoint current nxt
           then failRequiringReconciliation STATE_COMMIT_UNCERTAIN
           else failRequiringReconciliation LOCAL_STATE_CONFLICT))"

definition promote :: "'b cas_authority \<Rightarrow> snapshot \<Rightarrow> checkpoint \<Rightarrow> ('b, cas_outcome \<times> snapshot) an" where
  "promote A expected nxt =
     bindE (getsE an_anchorId) (\<lambda>i.
     bindE (callSeam (au_compareAndSwap A i expected nxt) ANCHOR_COMMIT_UNCERTAIN ANCHOR_COMMIT_UNCERTAIN True) (\<lambda>raw.
       case parseCasResult raw i of
         Inl e \<Rightarrow> failRequiringReconciliation ANCHOR_COMMIT_UNCERTAIN
       | Inr (outcome, current) \<Rightarrow>
           if sn_casToken current = sn_casToken expected
           then failRequiringReconciliation ANCHOR_COMMIT_UNCERTAIN
           else if is_Committed current \<and> sameCheckpoint (sn_checkpoint current) nxt
           then retE (outcome, current)
           else if outcome = Swapped then failRequiringReconciliation ANCHOR_COMMIT_UNCERTAIN
           else failRequiringReconciliation CAS_CONFLICT))"

datatype disposition_kind = Matched | CommittedNext | Initialized | RecoveredStateBeforeAnchor | ConvergedAfterCasConflict

definition promoted_as :: "disposition_kind \<Rightarrow> cas_outcome \<Rightarrow> disposition_kind" where
  "promoted_as d outcome = (if outcome = Swapped then d else ConvergedAfterCasConflict)"

definition reconcileInternal :: "'b cas_authority \<Rightarrow> checkpoint \<Rightarrow> ('b, disposition_kind \<times> snapshot) an" where
  "reconcileInternal A local =
     bindE (readAnchor A) (\<lambda>observed.
       case observed of
         Uninitialized i token \<Rightarrow>
           if cp_sequence local \<noteq> ''0'' \<or> cp_parentCommitId local \<noteq> None then throwE ROLLBACK_DETECTED
           else
             bindE (promote A observed local) (\<lambda>(outcome, anchor).
               retE (promoted_as Initialized outcome, anchor))
       | Committed i token checkpoint \<Rightarrow>
           if sameCheckpoint checkpoint local then retE (Matched, observed)
           else if isImmediateSuccessor local checkpoint then
             bindE (promote A observed local) (\<lambda>(outcome, anchor).
               retE (promoted_as RecoveredStateBeforeAnchor outcome, anchor))
           else throwE ROLLBACK_DETECTED)"

section \<open>Operations\<close>

text \<open>
  \<open>serialize\<close> admits an operation when fewer than \<open>maxPendingOperations\<close> are pending, runs it when
  the operations admitted before it have ended, and counts it until it has ended itself.
\<close>

definition admit :: "('b, unit) an" where
  "admit =
     bindE (getsE (\<lambda>s. an_maxPendingOperations s \<le> an_pendingOperations s)) (\<lambda>full.
       if full then throwE BUSY
       else modifyE (\<lambda>s. s\<lparr>an_pendingOperations := an_pendingOperations s + 1\<rparr>))"

definition release_turn :: "'b anchor \<Rightarrow> 'b anchor" where
  "release_turn s = s\<lparr>an_pendingOperations := an_pendingOperations s - 1\<rparr>"

definition run_turn :: "('b, 'a) an \<Rightarrow> ('b, 'a) an" where
  "run_turn operation = finallyE operation release_turn"

definition serialize :: "('b, 'a) an \<Rightarrow> ('b, 'a) an" where
  "serialize operation = thenE admit (run_turn operation)"

definition reconcile_turn :: "'b cas_authority \<Rightarrow> checkpoint \<Rightarrow> ('b, disposition_kind \<times> snapshot) an" where
  "reconcile_turn A local =
     bindE (reconcileInternal A local) (\<lambda>reconciled.
     thenE (modifyE (\<lambda>s. s\<lparr>an_reconciliationRequired := False\<rparr>)) (retE reconciled))"

definition advance_turn ::
  "'b cas_authority \<Rightarrow> 'b publisher \<Rightarrow> checkpoint \<Rightarrow> checkpoint \<Rightarrow> ('b, disposition_kind \<times> snapshot) an" where
  "advance_turn A publishState current nxt =
     bindE (getsE an_reconciliationRequired) (\<lambda>required.
       if required then throwE RECONCILIATION_REQUIRED
       else
         bindE (reconcileInternal A current) (\<lambda>(d, anchor).
           if \<not> sameCheckpoint (sn_checkpoint anchor) current then throwE ROLLBACK_DETECTED
           else
             thenE (publishLocalState publishState current nxt)
             (bindE (promote A anchor nxt) (\<lambda>(outcome, promoted).
               retE (promoted_as CommittedNext outcome, promoted)))))"

definition checked_pair :: "string \<Rightarrow> json option \<Rightarrow> json option \<Rightarrow> anchor_error_code + checkpoint \<times> checkpoint" where
  "checked_pair i rawCurrent rawNext =
     (case parseCheckpoint rawCurrent i FromCaller of
        Inl e \<Rightarrow> Inl e
      | Inr current \<Rightarrow>
          (case parseCheckpoint rawNext i FromCaller of
             Inl e \<Rightarrow> Inl e
           | Inr nxt \<Rightarrow> if isImmediateSuccessor nxt current then Inr (current, nxt) else Inl INVALID_CHECKPOINT))"

definition reconcile :: "'b cas_authority \<Rightarrow> json option \<Rightarrow> ('b, disposition_kind \<times> snapshot) an" where
  "reconcile A localCheckpoint =
     bindE (getsE an_anchorId) (\<lambda>i.
     bindE (liftE (parseCheckpoint localCheckpoint i FromCaller)) (\<lambda>local.
       serialize (reconcile_turn A local)))"

definition advanceAnchor ::
  "'b cas_authority \<Rightarrow> 'b publisher \<Rightarrow> json option \<Rightarrow> json option \<Rightarrow> ('b, disposition_kind \<times> snapshot) an" where
  "advanceAnchor A publishState rawCurrent rawNext =
     bindE (getsE an_anchorId) (\<lambda>i.
     bindE (liftE (checked_pair i rawCurrent rawNext)) (\<lambda>(current, nxt).
       serialize (advance_turn A publishState current nxt)))"

definition settle_late :: "('b \<Rightarrow> 'b) \<Rightarrow> 'b anchor \<Rightarrow> 'b anchor" where
  "settle_late f s = (leave_seam s)\<lparr>an_env := f (an_env s)\<rparr>"

section \<open>Interleaved operations\<close>

text \<open>
  The operations of one anchor interleave at their admission: a call is refused or admitted at once
  and runs, as a whole, when the turns admitted before it have ended. The events of the queue are the
  calls, the next turn, the late end of a call that ran into its deadline, what happens elsewhere,
  and a restart of the process, which forgets the anchor and its queue.
\<close>

datatype 'b turn = ReconcileTurn checkpoint | AdvanceTurn "'b publisher" checkpoint checkpoint

type_synonym answer = "anchor_error_code + disposition_kind \<times> snapshot"

text \<open>The checkpoint a call asks the anchor to accept: the caller's own, or the next one.\<close>

fun turn_target :: "'b turn \<Rightarrow> checkpoint" where
  "turn_target (ReconcileTurn c) = c"
| "turn_target (AdvanceTurn p c n) = n"

text \<open>
  \<open>aq_answers\<close> is a ghost field: every answer, with the checkpoint its caller asked for (none when
  the call was refused because it did not present one).
\<close>

record 'b anchor_queue =
  aq_anchor :: "'b anchor"
  aq_turns :: "'b turn list"
  aq_answers :: "(checkpoint option \<times> answer) list"

datatype 'b anchor_event =
    CallReconcile "json option"
  | CallAdvance "'b publisher" "json option" "json option"
  | NextTurn
  | LateSettlement "'b \<Rightarrow> 'b"
  | Elsewhere "'b \<Rightarrow> 'b"
  | Restart

fun turn_body :: "'b cas_authority \<Rightarrow> 'b turn \<Rightarrow> ('b, disposition_kind \<times> snapshot) an" where
  "turn_body A (ReconcileTurn local) = reconcile_turn A local"
| "turn_body A (AdvanceTurn publishState current nxt) = advance_turn A publishState current nxt"

definition answer_call :: "checkpoint option \<Rightarrow> answer \<Rightarrow> 'b anchor_queue \<Rightarrow> 'b anchor_queue" where
  "answer_call asked r q = q\<lparr>aq_answers := aq_answers q @ [(asked, r)]\<rparr>"

definition enter_queue :: "anchor_error_code + 'b turn \<Rightarrow> 'b anchor_queue \<Rightarrow> 'b anchor_queue" where
  "enter_queue call q =
     (case call of
        Inl e \<Rightarrow> answer_call None (Inl e) q
      | Inr t \<Rightarrow>
          (case admit (aq_anchor q) of
             (Inl e, s) \<Rightarrow> answer_call (Some (turn_target t)) (Inl e) q
           | (Inr _, s) \<Rightarrow> q\<lparr>aq_anchor := s, aq_turns := aq_turns q @ [t]\<rparr>))"

definition restarted_anchor :: "'b anchor \<Rightarrow> 'b anchor" where
  "restarted_anchor s =
     s\<lparr>an_pendingOperations := 0, an_unsettledSeamCalls := 0, an_reconciliationRequired := False\<rparr>"

fun queue_event :: "'b cas_authority \<Rightarrow> 'b anchor_event \<Rightarrow> 'b anchor_queue \<Rightarrow> 'b anchor_queue" where
  "queue_event A (CallReconcile raw) q =
     enter_queue (map_sum id ReconcileTurn (parseCheckpoint raw (an_anchorId (aq_anchor q)) FromCaller)) q"
| "queue_event A (CallAdvance publishState rawCurrent rawNext) q =
     enter_queue (map_sum id (\<lambda>(c, n). AdvanceTurn publishState c n)
       (checked_pair (an_anchorId (aq_anchor q)) rawCurrent rawNext)) q"
| "queue_event A NextTurn q =
     (case aq_turns q of
        [] \<Rightarrow> q
      | t # ts \<Rightarrow>
          (case run_turn (turn_body A t) (aq_anchor q) of
             (r, s) \<Rightarrow> answer_call (Some (turn_target t)) r (q\<lparr>aq_anchor := s, aq_turns := ts\<rparr>)))"
| "queue_event A (LateSettlement f) q =
     (if an_unsettledSeamCalls (aq_anchor q) = 0 then q else q\<lparr>aq_anchor := settle_late f (aq_anchor q)\<rparr>)"
| "queue_event A (Elsewhere f) q = q\<lparr>aq_anchor := (aq_anchor q)\<lparr>an_env := f (an_env (aq_anchor q))\<rparr>\<rparr>"
| "queue_event A Restart q = q\<lparr>aq_anchor := restarted_anchor (aq_anchor q), aq_turns := []\<rparr>"

definition queue_run :: "'b cas_authority \<Rightarrow> 'b anchor_event list \<Rightarrow> 'b anchor_queue \<Rightarrow> 'b anchor_queue" where
  "queue_run A evs q = fold (queue_event A) evs q"

definition new_queue :: "'b anchor \<Rightarrow> 'b anchor_queue" where
  "new_queue s = \<lparr>aq_anchor = s, aq_turns = [], aq_answers = []\<rparr>"

end
