(* ===== verification/RV2_ContinuityFacts.thy ===== *)
theory RV2_ContinuityFacts
  imports RV2_Continuity
begin

text \<open>
  What the continuity anchor guarantees over any authority that keeps the promises of the interface
  \<open>RelayV2MonotonicCasAuthority\<close>. The promises are the locale \<open>monotonic_cas_authority\<close>: the
  checkpoint of the authority only moves from nothing to a genesis checkpoint and from a checkpoint
  to its immediate successor, whoever moves it, and a read or a compare-and-swap answers with a
  checkpoint the authority held during the call. \<open>RV2_SqliteOwner\<close> provides them.
\<close>

section \<open>The order of checkpoints\<close>

inductive anchor_step :: "checkpoint option \<Rightarrow> checkpoint option \<Rightarrow> bool" where
  genesis: "cp_sequence c = ''0'' \<Longrightarrow> cp_parentCommitId c = None \<Longrightarrow> anchor_step None (Some c)"
| successor: "isImmediateSuccessor c' c \<Longrightarrow> anchor_step (Some c) (Some c')"

inductive_cases anchor_step_someE: "anchor_step (Some c) x"
inductive_simps anchor_step_none [simp]: "anchor_step x None"

abbreviation reaches :: "checkpoint option \<Rightarrow> checkpoint option \<Rightarrow> bool" where
  "reaches \<equiv> anchor_step\<^sup>*\<^sup>*"

definition precedes :: "checkpoint \<Rightarrow> checkpoint \<Rightarrow> bool" where
  "precedes a b \<longleftrightarrow>
     decimal_value (cp_sequence a) < decimal_value (cp_sequence b) \<or> a = b"

lemma precedes_refl [simp]: "precedes a a"
  by (simp add: precedes_def)

lemma precedes_trans: "precedes a b \<Longrightarrow> precedes b c \<Longrightarrow> precedes a c"
  by (auto simp: precedes_def)

lemma successor_precedes: "isImmediateSuccessor b a \<Longrightarrow> precedes a b"
  by (simp add: precedes_def isImmediateSuccessor_def)

lemma reaches_precedes: "reaches (Some a) x \<Longrightarrow> \<exists>b. x = Some b \<and> precedes a b"
  by (induction rule: rtranclp_induct)
    (auto elim!: anchor_step_someE intro: precedes_trans successor_precedes)

lemma reaches_some: "reaches (Some a) (Some b) \<Longrightarrow> precedes a b"
  by (drule reaches_precedes) simp

lemma reaches_via: "reaches (Some a) x \<Longrightarrow> reaches x (Some b) \<Longrightarrow> precedes a b"
  by (blast intro: reaches_some rtranclp_trans)

lemma reaches_none [simp]: "reaches (Some a) None \<longleftrightarrow> False"
  by (auto dest: reaches_precedes)

fun snapshot_state :: "snapshot \<Rightarrow> checkpoint option" where
  "snapshot_state (Uninitialized i t) = None"
| "snapshot_state (Committed i t c) = Some c"

lemma committed_state: "is_Committed s \<Longrightarrow> snapshot_state s = Some (sn_checkpoint s)"
  by (cases s) simp_all

lemma call_env:
  "callSeam seam f c b s = (r, s') \<Longrightarrow> an_env s' = an_env s \<or> (\<exists>q. seam (an_env s) = (q, an_env s'))"
  by (auto simp: callSeam_def em_defs invokeE_def enter_seam_def leave_seam_def
      split: prod.splits settlement.splits if_splits)

lemma call_value: "callSeam seam f c b s = (Inr v, s') \<Longrightarrow> seam (an_env s) = (Fulfilled v, an_env s')"
  by (auto simp: callSeam_def em_defs invokeE_def enter_seam_def leave_seam_def
      split: prod.splits settlement.splits if_splits)

section \<open>The contract of the authority\<close>

text \<open>What a collaborator may do to the authority's checkpoint.\<close>

definition lawful_seam :: "('b \<Rightarrow> bool) \<Rightarrow> ('b \<Rightarrow> checkpoint option) \<Rightarrow> 'b seam \<Rightarrow> bool" where
  "lawful_seam good anchored seam \<longleftrightarrow>
     (\<forall>e r e'. good e \<longrightarrow> seam e = (r, e') \<longrightarrow> good e' \<and> reaches (anchored e) (anchored e'))"

definition lawful_step :: "('b \<Rightarrow> bool) \<Rightarrow> ('b \<Rightarrow> checkpoint option) \<Rightarrow> ('b \<Rightarrow> 'b) \<Rightarrow> bool" where
  "lawful_step good anchored f \<longleftrightarrow> (\<forall>e. good e \<longrightarrow> good (f e) \<and> reaches (anchored e) (anchored (f e)))"

fun lawful_event :: "('b \<Rightarrow> bool) \<Rightarrow> ('b \<Rightarrow> checkpoint option) \<Rightarrow> 'b anchor_event \<Rightarrow> bool" where
  "lawful_event good anchored (CallAdvance p c n) \<longleftrightarrow> (\<forall>c n. lawful_seam good anchored (p c n))"
| "lawful_event good anchored (LateSettlement f) \<longleftrightarrow> lawful_step good anchored f"
| "lawful_event good anchored (Elsewhere f) \<longleftrightarrow> lawful_step good anchored f"
| "lawful_event good anchored ev \<longleftrightarrow> True"

text \<open>The checkpoints that callers asked for and that were accepted, in the order of the answers.\<close>

fun accepted :: "(checkpoint option \<times> answer) list \<Rightarrow> checkpoint list" where
  "accepted [] = []"
| "accepted ((Some c, Inr a) # rs) = c # accepted rs"
| "accepted (r # rs) = accepted rs"

lemma accepted_append [simp]: "accepted (rs @ rs') = accepted rs @ accepted rs'"
  by (induction rs rule: accepted.induct) simp_all

lemma accepted_error [simp]: "accepted [(c, Inl e)] = []"
  by (cases c) simp_all

lemma accepted_one: "sorted_wrt precedes (accepted [r])"
  by (cases "[r]" rule: accepted.cases) simp_all

text \<open>An answer that accepts returns the snapshot of the checkpoint that was asked for.\<close>

fun answered_own :: "checkpoint option \<times> answer \<Rightarrow> bool" where
  "answered_own (asked, Inr (d, n)) \<longleftrightarrow> asked \<noteq> None \<and> snapshot_state n = asked"
| "answered_own (asked, Inl e) \<longleftrightarrow> True"

lemma map_sum_InrE: "map_sum id f v = Inr t \<Longrightarrow> (\<And>x. t = f x \<Longrightarrow> thesis) \<Longrightarrow> thesis"
  by (cases v) auto

lemma run_turn_eq: "run_turn m s = (fst (m s), release_turn (snd (m s)))"
  by (cases "m s") (simp add: run_turn_def finallyE_def em_defs)

lemma serialize_eq:
  "serialize m s =
     (if an_maxPendingOperations s \<le> an_pendingOperations s then (Inl BUSY, s)
      else run_turn m (s\<lparr>an_pendingOperations := an_pendingOperations s + 1\<rparr>))"
  by (simp add: serialize_def admit_def em_defs)

lemma serialize_value:
  assumes "serialize m s = (Inr v, s')"
  obtains s1 where "m (s\<lparr>an_pendingOperations := an_pendingOperations s + 1\<rparr>) = (Inr v, s1)" "s' = release_turn s1"
  using assms by (cases "m (s\<lparr>an_pendingOperations := an_pendingOperations s + 1\<rparr>)")
    (auto simp: serialize_eq run_turn_eq split: if_splits)

lemma reconcile_value:
  assumes "reconcile A raw s = (Inr v, s')"
  obtains c where "parseCheckpoint raw (an_anchorId s) FromCaller = Inr c"
    "serialize (turn_body A (ReconcileTurn c)) s = (Inr v, s')"
  using assms by (auto simp: reconcile_def em_defs split: sum.splits)

lemma advance_value:
  assumes "advanceAnchor A p before raw s = (Inr v, s')"
  obtains b c where "parseCheckpoint before (an_anchorId s) FromCaller = Inr b"
    "parseCheckpoint raw (an_anchorId s) FromCaller = Inr c"
    "serialize (turn_body A (AdvanceTurn p b c)) s = (Inr v, s')"
  using assms by (auto simp: advanceAnchor_def checked_pair_def em_defs split: sum.splits if_splits)

lemma lawful_seamD:
  assumes "lawful_seam good anchored seam" and "seam e = (r, e')" and "good e"
  shows "good e'" and "reaches (anchored e) (anchored e')"
  using assms by (auto simp: lawful_seam_def)

locale monotonic_cas_authority =
  fixes A :: "'b cas_authority"
    and good :: "'b \<Rightarrow> bool"
    and anchored :: "'b \<Rightarrow> checkpoint option"
  assumes read_lawful: "lawful_seam good anchored (au_read A i)"
    and cas_lawful: "lawful_seam good anchored (au_compareAndSwap A i expected nxt)"
    and read_answer: "good e \<Longrightarrow> au_read A i e = (Fulfilled v, e') \<Longrightarrow> parseSnapshot v i = Inr s \<Longrightarrow>
      reaches (anchored e) (snapshot_state s) \<and> reaches (snapshot_state s) (anchored e')"
    and cas_answer: "good e \<Longrightarrow> au_compareAndSwap A i expected nxt e = (Fulfilled v, e') \<Longrightarrow>
      parseCasResult v i = Inr (out, s) \<Longrightarrow>
      reaches (anchored e) (snapshot_state s) \<and> reaches (snapshot_state s) (anchored e')"
begin

text \<open>The authority is in order and its checkpoint is the one \<open>a\<close> has led to.\<close>

definition onward :: "checkpoint option \<Rightarrow> 'b anchor \<Rightarrow> bool" where
  "onward a s \<longleftrightarrow> good (an_env s) \<and> reaches a (anchored (an_env s))"

text \<open>Since \<open>a\<close>, the authority has held the checkpoint of the snapshot.\<close>

definition seen :: "checkpoint option \<Rightarrow> snapshot \<Rightarrow> 'b anchor \<Rightarrow> bool" where
  "seen a n s \<longleftrightarrow> onward a s \<and> reaches a (snapshot_state n) \<and> reaches (snapshot_state n) (anchored (an_env s))"

lemma keeps_local:
  assumes "\<And>s. an_env (f s) = an_env s"
  shows "keeps (onward a) (modifyE f)" and "keeps (seen a n) (modifyE f)"
  by (rule keeps_modify, simp add: onward_def seen_def assms)+

lemma call_keeps:
  assumes "lawful_seam good anchored seam"
  shows "keeps (onward a) (callSeam seam f c b)" and "keeps (seen a n) (callSeam seam f c b)"
  by (rule movesI, drule call_env, auto simp: onward_def seen_def
      dest: lawful_seamD [OF assms] intro: rtranclp_trans)+

lemma call_answer:
  "ok (onward a) (callSeam seam f c b)
     (\<lambda>v s. \<exists>e. good e \<and> reaches a (anchored e) \<and> seam e = (Fulfilled v, an_env s))"
  by (rule okI) (auto simp: onward_def dest: call_value)

lemma fail_keeps:
  "keeps (onward a) (failRequiringReconciliation c)" "keeps (seen a n) (failRequiringReconciliation c)"
  by (simp_all add: moves_def failRequiringReconciliation_def em_defs onward_def seen_def)

lemma read_keeps: "keeps (onward a) (readAnchor A)"
  unfolding readAnchor_def by (intro keeps_rules call_keeps read_lawful)

lemma read_sees: "ok (onward a) (readAnchor A) (seen a)"
proof -
  have "ok (\<lambda>s. \<exists>e. good e \<and> reaches a (anchored e) \<and> au_read A i e = (Fulfilled raw, an_env s))
     (liftE (parseSnapshot raw i)) (seen a)" for i raw
    by (rule okI) (auto simp: liftE_def seen_def onward_def
        dest: read_answer lawful_seamD [OF read_lawful] intro: rtranclp_trans)
  then show ?thesis
    unfolding readAnchor_def by (intro ok_bind_keeps keeps_rules triple_bind [OF call_answer])
qed

text \<open>A returned snapshot is the one of a checkpoint that the authority has held since \<open>a\<close>.\<close>

definition accepts :: "checkpoint option \<Rightarrow> checkpoint \<Rightarrow> 'x \<times> snapshot \<Rightarrow> 'b anchor \<Rightarrow> bool" where
  "accepts a c r s \<longleftrightarrow> seen a (snd r) s \<and> snapshot_state (snd r) = Some c"

lemma promote_keeps: "keeps (onward a) (promote A x c)"
  unfolding promote_def
  by (intro keeps_rules call_keeps cas_lawful fail_keeps)

lemma promote_accepts: "ok (onward a) (promote A x c) (accepts a c)"
proof -
  have "ok (\<lambda>s. \<exists>e. good e \<and> reaches a (anchored e) \<and> au_compareAndSwap A i x c e = (Fulfilled raw, an_env s))
     (case parseCasResult raw i of Inl e \<Rightarrow> failRequiringReconciliation ANCHOR_COMMIT_UNCERTAIN
      | Inr (outcome, current) \<Rightarrow>
          if sn_casToken current = sn_casToken x then failRequiringReconciliation ANCHOR_COMMIT_UNCERTAIN
          else if is_Committed current \<and> sameCheckpoint (sn_checkpoint current) c then retE (outcome, current)
          else if outcome = Swapped then failRequiringReconciliation ANCHOR_COMMIT_UNCERTAIN
          else failRequiringReconciliation CAS_CONFLICT) (accepts a c)" for i raw
    by (rule okI) (auto simp: em_defs failRequiringReconciliation_def seen_def onward_def accepts_def committed_state
        split: sum.splits prod.splits if_splits
        dest: cas_answer lawful_seamD [OF cas_lawful] intro: rtranclp_trans)
  then show ?thesis
    unfolding promote_def by (intro ok_bind_keeps keeps_rules triple_bind [OF call_answer])
qed

lemma reconcile_keeps: "keeps (onward a) (reconcileInternal A c)"
  unfolding reconcileInternal_def
  by (intro keeps_rules read_keeps) (auto split: snapshot.split intro!: keeps_rules promote_keeps)

lemma after_promotion:
  "ok (onward a) (bindE (promote A x c) (\<lambda>(out, n). retE (f out, n))) (accepts a c)"
  by (rule triple_bind [OF promote_accepts]) (auto intro!: okI simp: retE_def accepts_def)

lemma reconcile_accepts: "ok (onward a) (reconcileInternal A c) (accepts a c)"
proof -
  have "ok (seen a n) (case n of
         Uninitialized i token \<Rightarrow>
           if cp_sequence c \<noteq> ''0'' \<or> cp_parentCommitId c \<noteq> None then throwE ROLLBACK_DETECTED
           else bindE (promote A n c) (\<lambda>(out, n). retE (promoted_as Initialized out, n))
       | Committed i token d \<Rightarrow>
           if sameCheckpoint d c then retE (Matched, n)
           else if isImmediateSuccessor c d then
             bindE (promote A n c) (\<lambda>(out, n). retE (promoted_as RecoveredStateBeforeAnchor out, n))
           else throwE ROLLBACK_DETECTED) (accepts a c)" for n
    by (cases n) (auto intro!: ok_throw triple_pre [OF after_promotion] ok_ret simp: seen_def accepts_def)
  then show ?thesis
    unfolding reconcileInternal_def by (intro triple_bind [OF read_sees])
qed

lemma publish_keeps:
  assumes "\<And>c n. lawful_seam good anchored (p c n)"
  shows "keeps (onward a) (publishLocalState p c n)"
  unfolding publishLocalState_def
  by (intro keeps_rules call_keeps assms)
    (auto split: local_cas_result.split sum.split intro!: keeps_rules fail_keeps)

fun lawful_turn :: "'b turn \<Rightarrow> bool" where
  "lawful_turn (ReconcileTurn c) \<longleftrightarrow> True"
| "lawful_turn (AdvanceTurn p c n) \<longleftrightarrow> (\<forall>c n. lawful_seam good anchored (p c n))"

lemma set_flag_keeps: "keeps (onward a) (modifyE (\<lambda>s. s\<lparr>an_reconciliationRequired := b\<rparr>))"
  by (rule keeps_local) simp

lemma turn_keeps: "lawful_turn t \<Longrightarrow> keeps (onward a) (turn_body A t)"
  by (cases t)
    (auto simp: reconcile_turn_def advance_turn_def
      intro!: keeps_rules reconcile_keeps publish_keeps promote_keeps set_flag_keeps)

lemma turn_accepts:
  assumes "lawful_turn t"
  shows "ok (onward a) (turn_body A t) (accepts a (turn_target t))"
proof (cases t)
  case (ReconcileTurn c)
  have "ok (accepts a c r) (thenE (modifyE (\<lambda>s. s\<lparr>an_reconciliationRequired := False\<rparr>)) (retE r)) (accepts a c)" for r
    by (rule okI) (auto simp: em_defs accepts_def seen_def onward_def)
  with ReconcileTurn show ?thesis
    by (auto simp: reconcile_turn_def intro!: triple_bind [OF reconcile_accepts])
next
  case (AdvanceTurn p c n)
  with assms have "keeps (onward a) (publishLocalState p c n)"
    by (intro publish_keeps) simp
  then have "ok (onward a) (thenE (publishLocalState p c n)
      (bindE (promote A x n) (\<lambda>(out, m). retE (promoted_as CommittedNext out, m)))) (accepts a n)" for x
    by (rule ok_then_keeps [OF _ after_promotion])
  with AdvanceTurn show ?thesis
    by (auto simp: advance_turn_def intro!: ok_bind_keeps keeps_rules ok_if ok_throw reconcile_keeps)
qed

lemma onward_refl: "good (an_env s) \<Longrightarrow> onward (anchored (an_env s)) s"
  by (simp add: onward_def)

definition queue_inv :: "'b anchor_queue \<Rightarrow> bool" where
  "queue_inv q \<longleftrightarrow> good (an_env (aq_anchor q)) \<and> list_all lawful_turn (aq_turns q)
     \<and> sorted_wrt precedes (accepted (aq_answers q)) \<and> list_all answered_own (aq_answers q)
     \<and> (\<forall>c \<in> set (accepted (aq_answers q)). reaches (Some c) (anchored (an_env (aq_anchor q))))"

lemma queue_inv_enter:
  assumes "queue_inv q" and "\<And>t. call = Inr t \<Longrightarrow> lawful_turn t"
  shows "queue_inv (enter_queue call q)"
  using assms by (auto simp: queue_inv_def enter_queue_def answer_call_def admit_def em_defs
      split: sum.split prod.split)

lemma queue_inv_env:
  assumes "queue_inv q" and "good e" and "reaches (anchored (an_env (aq_anchor q))) (anchored e)" and "an_env s = e"
  shows "queue_inv (q\<lparr>aq_anchor := s\<rparr>)"
  using assms by (auto simp: queue_inv_def intro: rtranclp_trans)

lemma queue_inv_turn:
  assumes inv: "queue_inv q" and q: "aq_turns q = t # ts" and run: "turn_body A t (aq_anchor q) = (r, s)"
  shows "queue_inv (answer_call (Some (turn_target t)) r (q\<lparr>aq_anchor := release_turn s, aq_turns := ts\<rparr>))"
proof -
  let ?a = "anchored (an_env (aq_anchor q))" and ?b = "anchored (an_env s)"
  from inv q have t: "lawful_turn t" and l: "onward ?a (aq_anchor q)"
    by (simp_all add: queue_inv_def onward_refl)
  have s: "onward ?a s" by (rule keepsD [OF turn_keeps [OF t] run l])
  have "answered_own (Some (turn_target t), r)
    \<and> (\<forall>c \<in> set (accepted [(Some (turn_target t), r)]). reaches ?a (Some c) \<and> reaches (Some c) ?b)"
  proof (cases r)
    case (Inr v)
    obtain d n where v: "v = (d, n)" by (cases v)
    from okD [OF turn_accepts [OF t] l] run Inr v
    have "seen ?a n s" "snapshot_state n = Some (turn_target t)" by (auto simp: accepts_def)
    with Inr v show ?thesis by (simp add: seen_def)
  qed simp
  with inv q s show ?thesis
    by (auto simp: queue_inv_def answer_call_def release_turn_def onward_def sorted_wrt_append accepted_one
        intro: rtranclp_trans reaches_via)
qed

lemma queue_inv_event: "lawful_event good anchored ev \<Longrightarrow> queue_inv q \<Longrightarrow> queue_inv (queue_event A ev q)"
proof (cases ev)
  case NextTurn
  assume "queue_inv q"
  then show ?thesis
    using NextTurn by (cases "aq_turns q") (auto simp: run_turn_eq intro!: queue_inv_turn)
next
  case (CallAdvance p c n)
  assume "lawful_event good anchored ev" and "queue_inv q"
  with CallAdvance show ?thesis
    by (auto intro!: queue_inv_enter elim!: map_sum_InrE)
next
  case (CallReconcile c)
  assume "queue_inv q"
  with CallReconcile show ?thesis
    by (auto intro!: queue_inv_enter elim!: map_sum_InrE)
qed (auto simp: lawful_step_def settle_late_def leave_seam_def queue_inv_def restarted_anchor_def
    intro: rtranclp_trans)

lemma queue_inv_run:
  "list_all (lawful_event good anchored) evs \<Longrightarrow> queue_inv q \<Longrightarrow> queue_inv (queue_run A evs q)"
  unfolding queue_run_def by (induction evs arbitrary: q) (simp_all add: queue_inv_event)

lemma queue_inv_new: "good (an_env s) \<Longrightarrow> queue_inv (new_queue s)"
  by (simp add: queue_inv_def new_queue_def)

lemma serialized_turn:
  assumes "good (an_env s)" and "lawful_turn t" and "serialize (turn_body A t) s = (Inr (d, n), s')"
  shows "snapshot_state n = Some (turn_target t)" and "reaches (anchored (an_env s)) (Some (turn_target t))"
    and "reaches (Some (turn_target t)) (anchored (an_env s'))"
proof -
  let ?s = "s\<lparr>an_pendingOperations := an_pendingOperations s + 1\<rparr>"
  obtain s1 where run: "turn_body A t ?s = (Inr (d, n), s1)" and s': "s' = release_turn s1"
    by (rule serialize_value [OF assms(3)])
  have "onward (anchored (an_env s)) ?s" using assms(1) by (simp add: onward_def)
  from okD [OF turn_accepts [OF assms(2)] this run]
  show "snapshot_state n = Some (turn_target t)" "reaches (anchored (an_env s)) (Some (turn_target t))"
    "reaches (Some (turn_target t)) (anchored (an_env s'))"
    by (auto simp: accepts_def seen_def s' release_turn_def)
qed

end

section \<open>Accepted checkpoints\<close>

text \<open>
  C32. What a successful operation proves. Over an authority that keeps its contract, \<open>reconcile\<close>
  returns only the snapshot of the caller's own checkpoint, and during the call the authority has
  held exactly this checkpoint; \<open>advance\<close> returns only the snapshot of the next checkpoint, and the
  authority has then held exactly that one. Nothing the authority held before the call is later
  than the accepted checkpoint, and nothing it holds afterwards is earlier.
\<close>

theorem accepted_checkpoint_is_anchored:
  assumes "monotonic_cas_authority A good anchored" and "good (an_env s)"
    and "\<And>c n. lawful_seam good anchored (publishState c n)"
    and "reconcile A raw s = (Inr (d, n), s') \<or> advanceAnchor A publishState before raw s = (Inr (d, n), s')"
  shows "\<exists>c. parseCheckpoint raw (an_anchorId s) FromCaller = Inr c
     \<and> snapshot_state n = Some c
     \<and> reaches (anchored (an_env s)) (Some c) \<and> reaches (Some c) (anchored (an_env s'))"
proof -
  from assms(4) obtain t c where "parseCheckpoint raw (an_anchorId s) FromCaller = Inr c"
    and run: "serialize (turn_body A t) s = (Inr (d, n), s')"
    and t: "t = ReconcileTurn c \<or> (\<exists>b. t = AdvanceTurn publishState b c)"
    by (elim disjE reconcile_value advance_value) blast+
  moreover from t assms(1, 3) have "monotonic_cas_authority.lawful_turn good anchored t"
    by (auto simp: monotonic_cas_authority.lawful_turn.simps)
  note monotonic_cas_authority.serialized_turn [OF assms(1, 2) this run]
  moreover from t have "turn_target t = c" by auto
  ultimately show ?thesis by auto
qed

text \<open>
  C33. No fork and no rollback among the callers. Suppose that the authority keeps the contract
  \<open>monotonic_cas_authority\<close> (its checkpoint moves only to immediate successors, its answers name
  checkpoints it held), and that what happens outside the anchor (publications of the caller, late
  settlements, other processes) respects it too. Then in whatever sequence of calls, turns, late
  settlements, restarts and steps elsewhere, every call that was accepted was answered with the
  snapshot of the very checkpoint its caller asked for; the checkpoints that callers presented and
  had accepted are in the order of their sequence numbers, two of them with the same sequence number
  are the same checkpoint (the same commit with the same state digest); and the authority holds each
  of them or a later one of the same history. So no caller with an older or a divergent state is ever accepted
  after another.
\<close>

theorem accepted_checkpoints_never_fork:
  assumes "monotonic_cas_authority A good anchored" and "good (an_env s)"
    and "list_all (lawful_event good anchored) evs"
  shows "list_all answered_own (aq_answers (queue_run A evs (new_queue s)))
     \<and> sorted_wrt precedes (accepted (aq_answers (queue_run A evs (new_queue s))))
     \<and> (\<forall>c \<in> set (accepted (aq_answers (queue_run A evs (new_queue s)))).
          reaches (Some c) (anchored (an_env (aq_anchor (queue_run A evs (new_queue s))))))"
  using monotonic_cas_authority.queue_inv_run [OF assms(1, 3)] monotonic_cas_authority.queue_inv_new [OF assms(1, 2)]
  by (simp add: monotonic_cas_authority.queue_inv_def [OF assms(1)])

section \<open>Admission\<close>

text \<open>What a turn does to the counters: it settles all its calls but those that ran into their deadline.\<close>

definition tally_step :: "'b anchor \<Rightarrow> 'b anchor \<Rightarrow> bool" where
  "tally_step s s' \<longleftrightarrow>
     an_pendingOperations s' = an_pendingOperations s \<and> an_maxPendingOperations s' = an_maxPendingOperations s
     \<and> an_anchorId s' = an_anchorId s
     \<and> (an_unsettledSeamCalls s \<le> an_maxPendingOperations s \<longrightarrow> an_unsettledSeamCalls s' \<le> an_maxPendingOperations s)"

lemma tally_preorder: "preorder_rel tally_step"
  by (rule preorder_relI) (auto simp: tally_step_def)

lemma tally_call: "moves tally_step (callSeam seam f c b)"
  by (auto simp: moves_def tally_step_def callSeam_def em_defs invokeE_def enter_seam_def leave_seam_def
      split: prod.split settlement.split)

lemma tally_flag: "moves tally_step (modifyE (\<lambda>s. s\<lparr>an_reconciliationRequired := b\<rparr>))"
  by (rule moves_modify) (simp add: tally_step_def)

lemma tally_fail: "moves tally_step (failRequiringReconciliation c)"
  unfolding failRequiringReconciliation_def by (intro moves_rules tally_preorder tally_flag)

lemmas tally_rules = moves_rules tally_preorder tally_call tally_flag tally_fail

lemma tally_parts:
  "moves tally_step (readAnchor A)" "moves tally_step (promote A x c)" "moves tally_step (publishLocalState p c n)"
  unfolding readAnchor_def promote_def publishLocalState_def
  by (intro tally_rules; simp split: local_cas_result.split; intro allI impI conjI tally_rules)+

lemma tally_reconcile: "moves tally_step (reconcileInternal A c)"
  unfolding reconcileInternal_def
  by (intro tally_rules tally_parts) (auto split: snapshot.split intro!: tally_rules tally_parts)

lemma tally_turn: "moves tally_step (turn_body A t)"
  by (cases t) (auto simp: reconcile_turn_def advance_turn_def
      intro!: tally_rules tally_parts tally_reconcile)

definition queue_bounded :: "nat \<Rightarrow> 'b anchor_queue \<Rightarrow> bool" where
  "queue_bounded m q \<longleftrightarrow>
     an_maxPendingOperations (aq_anchor q) = m
     \<and> an_pendingOperations (aq_anchor q) = length (aq_turns q) \<and> length (aq_turns q) \<le> m
     \<and> an_unsettledSeamCalls (aq_anchor q) \<le> m"

lemma bounded_enter: "queue_bounded m q \<Longrightarrow> queue_bounded m (enter_queue call q)"
  by (auto simp: queue_bounded_def enter_queue_def answer_call_def admit_def em_defs split: sum.split)

lemma bounded_event: "queue_bounded m q \<Longrightarrow> queue_bounded m (queue_event A ev q)"
proof (cases ev)
  case NextTurn
  assume q: "queue_bounded m q"
  have "tally_step (aq_anchor q) (snd (turn_body A t (aq_anchor q)))" for t
    using tally_turn [of A t] by (simp add: moves_def)
  with q NextTurn show ?thesis
    by (cases "aq_turns q")
      (auto simp: run_turn_eq queue_bounded_def answer_call_def release_turn_def tally_step_def)
qed (simp_all add: bounded_enter, auto simp: queue_bounded_def settle_late_def leave_seam_def restarted_anchor_def)

interpretation bounded: machine "queue_event A" "queue_bounded m" "\<lambda>_ _. True" for A m
  by unfold_locales (simp_all add: bounded_event)

text \<open>
  C34. Bounded admission. Whatever the authority does and however calls, turns, late settlements and
  restarts interleave, at most \<open>maxPendingOperations\<close> operations are pending, the pending count is
  exactly the number of operations that wait for their turn, and at most \<open>maxPendingOperations\<close>
  calls of a collaborator are unsettled; the limit itself is at most 1024.
\<close>

theorem admission_is_bounded:
  assumes "newContinuityAnchor anchorId operationTimeoutMs maxPendingOperations e = Some s"
  shows "an_pendingOperations (aq_anchor (queue_run A evs (new_queue s))) = length (aq_turns (queue_run A evs (new_queue s)))
     \<and> length (aq_turns (queue_run A evs (new_queue s))) \<le> an_maxPendingOperations s
     \<and> an_unsettledSeamCalls (aq_anchor (queue_run A evs (new_queue s))) \<le> an_maxPendingOperations s
     \<and> 0 < an_maxPendingOperations s \<and> an_maxPendingOperations s \<le> 1024"
proof -
  from assms have s: "an_pendingOperations s = 0" "an_unsettledSeamCalls s = 0"
    and m: "0 < an_maxPendingOperations s" "an_maxPendingOperations s \<le> 1024"
    by (auto simp: newContinuityAnchor_def Let_def RELAY_V2_CONTINUITY_MAX_PENDING_OPERATIONS_def split: if_splits)
  have "queue_bounded (an_maxPendingOperations s) (queue_run A evs (new_queue s))"
    unfolding queue_run_def
    by (rule bounded.run_inv) (simp add: queue_bounded_def new_queue_def s)
  with m show ?thesis by (simp add: queue_bounded_def)
qed

section \<open>Uncertain commits\<close>

lemma flag_call: "callSeam seam f c True s = (Inl e, s') \<Longrightarrow> an_reconciliationRequired s'"
  by (auto simp: callSeam_def em_defs invokeE_def enter_seam_def leave_seam_def
      split: prod.splits settlement.splits if_splits)

lemma flag_fail: "failRequiringReconciliation c s = (r, s') \<Longrightarrow> an_reconciliationRequired s' \<and> r = Inl c"
  by (auto simp: failRequiringReconciliation_def em_defs)

text \<open>A failure of the local write or of the promotion leaves the flag set.\<close>

lemma publish_flag: "publishLocalState p c n s = (Inl e, s') \<Longrightarrow> an_reconciliationRequired s'"
  by (auto simp: publishLocalState_def bindE_def getsE_def retE_def
      split: sum.splits prod.splits if_splits local_cas_result.splits dest: flag_call flag_fail)

lemma promote_flag: "promote A x c s = (Inl e, s') \<Longrightarrow> an_reconciliationRequired s'"
  by (auto simp: promote_def bindE_def getsE_def retE_def
      split: sum.splits prod.splits if_splits dest: flag_call flag_fail)

lemma advance_flag:
  assumes "advance_turn A p c n s = (Inl e, s')" and "\<not> an_reconciliationRequired s'"
  shows "advance_turn A p' c n s = (Inl e, s')"
  using assms
  by (auto simp: advance_turn_def bindE_def thenE_def getsE_def retE_def throwE_def
      split: sum.splits prod.splits if_splits dest: publish_flag promote_flag)

lemma flagged_turn: "an_reconciliationRequired s \<Longrightarrow> advance_turn A p c n s = (Inl RECONCILIATION_REQUIRED, s)"
  by (simp add: advance_turn_def em_defs)

text \<open>While the flag is set, no read and no promotion clears it.\<close>

lemma flag_kept:
  "keeps an_reconciliationRequired (callSeam seam f c b)" "keeps an_reconciliationRequired (failRequiringReconciliation e)"
  by (auto simp: moves_def callSeam_def em_defs invokeE_def enter_seam_def leave_seam_def failRequiringReconciliation_def
      split: prod.splits settlement.splits)

lemma flag_reconcile: "keeps an_reconciliationRequired (reconcileInternal A c)"
  unfolding reconcileInternal_def readAnchor_def promote_def
  by (intro keeps_rules flag_kept) (auto split: snapshot.split intro!: keeps_rules flag_kept)

lemma serialize_error:
  assumes "serialize m s = (Inl e, s')" and "\<not> an_maxPendingOperations s \<le> an_pendingOperations s"
  obtains s1 where "m (s\<lparr>an_pendingOperations := an_pendingOperations s + 1\<rparr>) = (Inl e, s1)" "s' = release_turn s1"
  using assms by (cases "m (s\<lparr>an_pendingOperations := an_pendingOperations s + 1\<rparr>)")
    (auto simp: serialize_eq run_turn_eq split: if_splits)

lemma flag_turn: "reconcile_turn A c s = (Inl e, s') \<Longrightarrow> an_reconciliationRequired s \<Longrightarrow> an_reconciliationRequired s'"
  unfolding reconcile_turn_def
  by (cases "reconcileInternal A c s") (auto simp: em_defs split: sum.splits dest: keepsD [OF flag_reconcile])

lemma flag_serialize:
  assumes "serialize (reconcile_turn A c) s = (Inl e, s')" and "an_reconciliationRequired s"
  shows "an_reconciliationRequired s'"
proof (cases "an_maxPendingOperations s \<le> an_pendingOperations s")
  case True
  with assms show ?thesis by (simp add: serialize_eq)
next
  case False
  with assms show ?thesis
    by (auto simp: release_turn_def elim!: serialize_error dest!: flag_turn)
qed

lemma failed_reconcile_keeps_flag:
  "reconcile A raw s = (Inl e, s') \<Longrightarrow> an_reconciliationRequired s \<Longrightarrow> an_reconciliationRequired s'"
  by (auto simp: reconcile_def em_defs split: sum.splits dest: flag_serialize)

lemma advance_serialized:
  assumes "serialize (advance_turn A p c n) s = (Inl e, s')" and "\<not> an_reconciliationRequired s'"
  shows "serialize (advance_turn A p' c n) s = (Inl e, s')"
proof (cases "an_maxPendingOperations s \<le> an_pendingOperations s")
  case True
  with assms show ?thesis by (simp add: serialize_eq)
next
  case False
  obtain s1 where "advance_turn A p c n (s\<lparr>an_pendingOperations := an_pendingOperations s + 1\<rparr>) = (Inl e, s1)"
    and s': "s' = release_turn s1"
    by (rule serialize_error [OF assms(1) False])
  with assms(2) have "advance_turn A p' c n (s\<lparr>an_pendingOperations := an_pendingOperations s + 1\<rparr>) = (Inl e, s1)"
    by (auto simp: release_turn_def intro: advance_flag)
  with False s' show ?thesis by (simp add: serialize_eq run_turn_eq)
qed

text \<open>
  C35. No write on top of an uncertain one. When \<open>advance\<close> fails, then either the caller's state has
  not been touched (the failure is the same whatever \<open>publishState\<close> does), or the anchor requires
  reconciliation. From then on every \<open>advance\<close> fails without any effect on the caller's state or the
  authority, and a \<open>reconcile\<close> that fails leaves the requirement in place.
\<close>

theorem uncertain_commit_requires_reconciliation:
  assumes "advanceAnchor A publishState rawCurrent rawNext s = (Inl e, s1)"
  shows "(\<forall>publish. advanceAnchor A publish rawCurrent rawNext s = (Inl e, s1))
     \<or> an_reconciliationRequired s1
       \<and> (\<forall>publish c n. \<exists>e2 s2. advanceAnchor A publish c n s1 = (Inl e2, s2)
             \<and> an_env s2 = an_env s1 \<and> an_reconciliationRequired s2)
       \<and> (\<forall>raw e2 s2. reconcile A raw s1 = (Inl e2, s2) \<longrightarrow> an_reconciliationRequired s2)"
proof (cases "an_reconciliationRequired s1")
  case True
  then have "\<exists>e2 s2. advanceAnchor A publish c n s1 = (Inl e2, s2)
             \<and> an_env s2 = an_env s1 \<and> an_reconciliationRequired s2" for publish c n
    by (auto simp: advanceAnchor_def serialize_eq run_turn_eq release_turn_def flagged_turn em_defs
        split: sum.split)
  with True show ?thesis by (blast intro: failed_reconcile_keeps_flag)
next
  case False
  with assms have "advanceAnchor A publish rawCurrent rawNext s = (Inl e, s1)" for publish
    by (auto simp: advanceAnchor_def bindE_def getsE_def liftE_def split: sum.splits intro: advance_serialized)
  then show ?thesis by blast
qed

end
