(* ===== verification/RV2_SqliteOwner.thy ===== *)
theory RV2_SqliteOwner
  imports RV2_ContinuityFacts
begin

text \<open>
  The single-node authority of \<open>src/relay/v2/brokerSingleNodeSelfHostedActivation.ts\<close>: the class
  \<open>RelayV2BrokerSingleNodeSqliteOwner\<close>, which keeps the anchor's checkpoint and the credential
  state in one row of an SQLite table, and \<open>coLocatedContinuityAuthority\<close>, which hands the
  checkpoint to the continuity anchor.

  The row is four fields of the owner. The column \<open>continuity_json\<close> is represented by the value its
  text denotes (\<open>None\<close> for a text that \<open>JSON.parse\<close> rejects). The database engine is the parameter
  \<open>database\<close>: it says which swaps other connections slip in before a transaction starts, whether
  the transaction fails (having been made durable or not), and whether a queued operation starts
  before the caller's deadline. A thrown error is \<open>None\<close>.
\<close>

section \<open>The row\<close>

record 'd sqlite_owner =
  so_anchorId :: string
  so_continuity_generation :: string
  so_continuity_json :: "json option"
  so_credential_generation :: string
  so_credential_state :: "string option"
  so_closing :: bool
  so_poisoned :: bool
  so_database :: 'd

datatype transaction_outcome = TransactionCommits | TransactionFails bool

record 'd database =
  db_interference :: "'d \<Rightarrow> checkpoint list \<times> 'd"
  db_transaction :: "'d \<Rightarrow> transaction_outcome \<times> 'd"
  db_overdue :: "'d \<Rightarrow> bool \<times> 'd"

definition canonicalUint64 :: "string \<Rightarrow> bool" where
  "canonicalUint64 s \<longleftrightarrow> isDecimal s \<and> decimal_value s \<le> MAX_UINT64"

definition incrementUint64 :: "string \<Rightarrow> string option" where
  "incrementUint64 s =
     (let n = decimal_value s + 1 in if MAX_UINT64 < n then None else Some (decimal_string n))"

definition is_identifier_text :: "json option \<Rightarrow> bool" where
  "is_identifier_text v \<longleftrightarrow> (case v of Some (JStr s) \<Rightarrow> matches_identifier s | _ \<Rightarrow> False)"

definition is_uint64_text :: "json option \<Rightarrow> bool" where
  "is_uint64_text v \<longleftrightarrow> (case v of Some (JStr s) \<Rightarrow> canonicalUint64 s | _ \<Rightarrow> False)"

definition owner_parseCheckpoint :: "json option \<Rightarrow> string \<Rightarrow> checkpoint option" where
  "owner_parseCheckpoint v anchorId =
     (case isRecord v of
        None \<Rightarrow> None
      | Some kvs \<Rightarrow>
          (let get = map_of kvs;
               parent = get ''parentCommitId'';
               sequence = decimal_value (string_of (get ''sequence''))
           in if \<not> hasExactKeys kvs checkpoint_keys then None
              else if get ''protocolVersion'' \<noteq> Some (JInt 1)
                \<or> get ''anchorId'' \<noteq> Some (JStr anchorId)
                \<or> \<not> is_uint64_text (get ''sequence'')
                \<or> \<not> is_identifier_text (get ''commitId'')
                \<or> (parent \<noteq> Some JNull \<and> \<not> is_identifier_text parent)
                \<or> \<not> isSha256Hex (get ''stateDigest'')
              then None
              else if sequence = 0 \<and> parent \<noteq> Some JNull
                \<or> 0 < sequence \<and> parent = Some JNull
                \<or> get ''commitId'' = parent
              then None
              else Some \<lparr>cp_anchorId = anchorId,
                         cp_sequence = string_of (get ''sequence''),
                         cp_commitId = string_of (get ''commitId''),
                         cp_parentCommitId = (if parent = Some JNull then None else Some (string_of parent)),
                         cp_stateDigest = string_of (get ''stateDigest'')\<rparr>))"

definition token_text :: "json option \<Rightarrow> bool" where
  "token_text v \<longleftrightarrow> (case v of Some (JStr s) \<Rightarrow> s \<noteq> [] | _ \<Rightarrow> False)"

definition parseContinuitySnapshot :: "json option \<Rightarrow> string \<Rightarrow> snapshot option" where
  "parseContinuitySnapshot v anchorId =
     (case isRecord v of
        None \<Rightarrow> None
      | Some kvs \<Rightarrow>
          (let get = map_of kvs in
           if get ''status'' = Some (JStr ''uninitialized'') then
             if \<not> hasExactKeys kvs [''protocolVersion'', ''status'', ''anchorId'', ''casToken'']
               \<or> get ''protocolVersion'' \<noteq> Some (JInt 1) \<or> get ''anchorId'' \<noteq> Some (JStr anchorId)
               \<or> \<not> token_text (get ''casToken'')
             then None
             else Some (Uninitialized anchorId (string_of (get ''casToken'')))
           else if get ''status'' \<noteq> Some (JStr ''committed'')
             \<or> \<not> hasExactKeys kvs [''protocolVersion'', ''status'', ''anchorId'', ''casToken'', ''checkpoint'']
             \<or> get ''protocolVersion'' \<noteq> Some (JInt 1) \<or> get ''anchorId'' \<noteq> Some (JStr anchorId)
             \<or> \<not> token_text (get ''casToken'')
           then None
           else map_option (Committed anchorId (string_of (get ''casToken'')))
                  (owner_parseCheckpoint (get ''checkpoint'') anchorId)))"

text \<open>The comparison token of a generation: \<open>single-node-cas-<generation>-<deployment>\<close>.\<close>

definition cas_token :: "string \<Rightarrow> string \<Rightarrow> string" where
  "cas_token generation anchorId =
     ''single-node-cas-'' @ generation @ ''-'' @ drop (length ''single-node-anchor-'') anchorId"

definition readContinuityRow :: "'d sqlite_owner \<Rightarrow> (string \<times> snapshot) option" where
  "readContinuityRow u =
     (if \<not> canonicalUint64 (so_continuity_generation u) then None
      else
        (case parseContinuitySnapshot (so_continuity_json u) (so_anchorId u) of
           None \<Rightarrow> None
         | Some snapshot \<Rightarrow>
             if (\<not> is_Committed snapshot \<and> so_continuity_generation u \<noteq> ''0'')
               \<or> (is_Committed snapshot
                  \<and> decimal_value (so_continuity_generation u)
                    \<noteq> decimal_value (cp_sequence (sn_checkpoint snapshot)) + 1)
               \<or> sn_casToken snapshot \<noteq> cas_token (so_continuity_generation u) (so_anchorId u)
             then None
             else Some (so_continuity_generation u, snapshot)))"

section \<open>The values that leave the owner\<close>

definition checkpoint_json :: "checkpoint \<Rightarrow> json" where
  "checkpoint_json c =
     JObj [(''protocolVersion'', JInt 1), (''anchorId'', JStr (cp_anchorId c)), (''sequence'', JStr (cp_sequence c)),
           (''commitId'', JStr (cp_commitId c)),
           (''parentCommitId'', case cp_parentCommitId c of None \<Rightarrow> JNull | Some p \<Rightarrow> JStr p),
           (''stateDigest'', JStr (cp_stateDigest c))]"

fun snapshot_json :: "snapshot \<Rightarrow> json" where
  "snapshot_json (Uninitialized i token) =
     JObj [(''protocolVersion'', JInt 1), (''status'', JStr ''uninitialized''), (''anchorId'', JStr i),
           (''casToken'', JStr token)]"
| "snapshot_json (Committed i token c) =
     JObj [(''protocolVersion'', JInt 1), (''status'', JStr ''committed''), (''anchorId'', JStr i),
           (''casToken'', JStr token), (''checkpoint'', checkpoint_json c)]"

fun outcome_name :: "cas_outcome \<Rightarrow> string" where
  "outcome_name Swapped = ''swapped''"
| "outcome_name Conflict = ''conflict''"

definition cas_result_json :: "cas_outcome \<times> snapshot \<Rightarrow> json" where
  "cas_result_json r =
     JObj [(''protocolVersion'', JInt 1), (''outcome'', JStr (outcome_name (fst r))),
           (''current'', snapshot_json (snd r))]"

section \<open>Compare and swap\<close>

definition valid_successor :: "snapshot \<Rightarrow> checkpoint \<Rightarrow> bool" where
  "valid_successor current nxt =
     (case current of
        Uninitialized i t \<Rightarrow> cp_sequence nxt = ''0'' \<and> cp_parentCommitId nxt = None
      | Committed i t c \<Rightarrow>
          decimal_value (cp_sequence nxt) = decimal_value (cp_sequence c) + 1
          \<and> cp_parentCommitId nxt = Some (cp_commitId c))"

definition write_row :: "string \<Rightarrow> checkpoint \<Rightarrow> 'd sqlite_owner \<Rightarrow> 'd sqlite_owner" where
  "write_row generation nxt u =
     u\<lparr>so_continuity_generation := generation,
       so_continuity_json :=
         Some (snapshot_json (Committed (so_anchorId u) (cas_token generation (so_anchorId u)) nxt))\<rparr>"

text \<open>A swap by another connection, which runs the same code.\<close>

definition other_swap :: "checkpoint \<Rightarrow> 'd sqlite_owner \<Rightarrow> 'd sqlite_owner" where
  "other_swap nxt u =
     (case readContinuityRow u of
        None \<Rightarrow> u
      | Some (g, current) \<Rightarrow>
          (case owner_parseCheckpoint (Some (checkpoint_json nxt)) (so_anchorId u) of
             None \<Rightarrow> u
           | Some c \<Rightarrow>
               if \<not> valid_successor current c then u
               else (case incrementUint64 g of None \<Rightarrow> u | Some g' \<Rightarrow> write_row g' c u)))"

definition swap_transaction ::
  "'d database \<Rightarrow> string \<Rightarrow> string \<Rightarrow> checkpoint \<Rightarrow> 'd sqlite_owner \<Rightarrow> (cas_outcome \<times> snapshot) option \<times> 'd sqlite_owner" where
  "swap_transaction D g g' nxt u =
     (let (others, d1) = db_interference D (so_database u);
          u1 = fold other_swap others u;
          (outcome, d2) = db_transaction D d1;
          u2 = u1\<lparr>so_database := d2\<rparr>;
          matches = (so_continuity_generation u2 = g)
      in case outcome of
           TransactionFails durable \<Rightarrow>
             (None, (if durable \<and> matches then write_row g' nxt u2 else u2)\<lparr>so_poisoned := True\<rparr>)
         | TransactionCommits \<Rightarrow>
             if \<not> matches then
               (case readContinuityRow u2 of
                  None \<Rightarrow> (None, u2\<lparr>so_poisoned := True\<rparr>)
                | Some (_, current) \<Rightarrow> (Some (Conflict, current), u2))
             else (Some (Swapped, Committed (so_anchorId u2) (cas_token g' (so_anchorId u2)) nxt), write_row g' nxt u2))"

definition compareAndSwapContinuity ::
  "'d database \<Rightarrow> json option \<Rightarrow> json option \<Rightarrow> 'd sqlite_owner \<Rightarrow> (cas_outcome \<times> snapshot) option \<times> 'd sqlite_owner" where
  "compareAndSwapContinuity D expectedValue nextValue u =
     (case readContinuityRow u of
        None \<Rightarrow> (None, u)
      | Some (g, current) \<Rightarrow>
          (case parseContinuitySnapshot expectedValue (so_anchorId u) of
             None \<Rightarrow> (None, u)
           | Some expected \<Rightarrow>
               (case owner_parseCheckpoint nextValue (so_anchorId u) of
                  None \<Rightarrow> (None, u)
                | Some nxt \<Rightarrow>
                    if expected \<noteq> current then (Some (Conflict, current), u)
                    else if \<not> valid_successor current nxt then (None, u)
                    else
                      (case incrementUint64 g of
                         None \<Rightarrow> (None, u)
                       | Some g' \<Rightarrow> swap_transaction D g g' nxt u))))"

text \<open>
  \<open>performContinuityOperation\<close> behind the request checks: an operation of another anchor throws; one
  that starts after the deadline finds its request aborted, and has no effect; a closed or poisoned
  owner rejects.
\<close>

definition performContinuityOperation ::
  "'d database \<Rightarrow> ('d sqlite_owner \<Rightarrow> json option \<times> 'd sqlite_owner) \<Rightarrow> string \<Rightarrow> 'd sqlite_owner seam" where
  "performContinuityOperation D operation anchorId u =
     (if anchorId \<noteq> so_anchorId u then (ThrewCall, u)
      else
        (let (overdue, d1) = db_overdue D (so_database u); u1 = u\<lparr>so_database := d1\<rparr> in
         if overdue then (TimedOut, u1)
         else if so_closing u1 \<or> so_poisoned u1 then (RejectedCall, u1)
         else
           (case operation u1 of
              (None, u2) \<Rightarrow> (RejectedCall, u2)
            | (Some v, u2) \<Rightarrow> (Fulfilled (Some v), u2))))"

definition coLocatedContinuityAuthority :: "'d database \<Rightarrow> 'd sqlite_owner cas_authority" where
  "coLocatedContinuityAuthority D =
     \<lparr>au_read = performContinuityOperation D (\<lambda>u. (map_option (\<lambda>r. snapshot_json (snd r)) (readContinuityRow u), u)),
      au_compareAndSwap = (\<lambda>i expected nxt.
        performContinuityOperation D (\<lambda>u.
          (case compareAndSwapContinuity D (Some (snapshot_json expected)) (Some (checkpoint_json nxt)) u of
             (r, u') \<Rightarrow> (map_option cas_result_json r, u'))) i)\<rparr>"

section \<open>Round trips of the row\<close>

text \<open>The checkpoints of an anchor that the owner's parser lets through.\<close>

definition storable :: "string \<Rightarrow> checkpoint \<Rightarrow> bool" where
  "storable i c \<longleftrightarrow>
     cp_anchorId c = i \<and> canonicalUint64 (cp_sequence c) \<and> matches_identifier (cp_commitId c)
     \<and> (case cp_parentCommitId c of None \<Rightarrow> True | Some p \<Rightarrow> matches_identifier p \<and> p \<noteq> cp_commitId c)
     \<and> matches_sha256_hex (cp_stateDigest c)
     \<and> (decimal_value (cp_sequence c) = 0 \<longleftrightarrow> cp_parentCommitId c = None)"

lemma is_text_simps [simp]:
  "is_identifier_text (Some (JStr s)) = matches_identifier s" "is_uint64_text (Some (JStr s)) = canonicalUint64 s"
  "token_text (Some (JStr s)) = (s \<noteq> [])"
  by (simp_all add: is_identifier_text_def is_uint64_text_def token_text_def)

lemma is_textE:
  "is_identifier_text v \<Longrightarrow> (\<And>s. v = Some (JStr s) \<Longrightarrow> matches_identifier s \<Longrightarrow> P) \<Longrightarrow> P"
  "is_uint64_text v \<Longrightarrow> (\<And>s. v = Some (JStr s) \<Longrightarrow> canonicalUint64 s \<Longrightarrow> P) \<Longrightarrow> P"
  "token_text v \<Longrightarrow> (\<And>s. v = Some (JStr s) \<Longrightarrow> s \<noteq> [] \<Longrightarrow> P) \<Longrightarrow> P"
  by (auto simp: is_identifier_text_def is_uint64_text_def token_text_def split: option.splits jvalue.splits)

lemma isSha256HexE: "isSha256Hex v \<Longrightarrow> (\<And>s. v = Some (JStr s) \<Longrightarrow> matches_sha256_hex s \<Longrightarrow> P) \<Longrightarrow> P"
  by (cases v rule: isSha256Hex.cases) auto

lemma owner_parse_storable: "owner_parseCheckpoint v i = Some c \<Longrightarrow> storable i c"
  by (auto simp: owner_parseCheckpoint_def storable_def Let_def split: option.splits if_splits
      elim!: is_textE isSha256HexE)

lemma owner_parse_json [simp]:
  "owner_parseCheckpoint (Some (checkpoint_json c)) i = (if storable i c then Some c else None)"
  by (cases c) (auto simp: owner_parseCheckpoint_def storable_def checkpoint_json_def checkpoint_keys_def hasExactKeys_def
      Let_def split: option.splits)

lemma snapshot_parse_json [simp]:
  "parseContinuitySnapshot (Some (snapshot_json (Uninitialized j t))) i =
     (if j = i \<and> t \<noteq> [] then Some (Uninitialized i t) else None)"
  "parseContinuitySnapshot (Some (snapshot_json (Committed j t c))) i =
     (if j = i \<and> t \<noteq> [] \<and> storable i c then Some (Committed i t c) else None)"
  by (auto simp: parseContinuitySnapshot_def hasExactKeys_def Let_def)

declare snapshot_json.simps [simp del]

lemma owner_snapshot_storable:
  "parseContinuitySnapshot v i = Some s \<Longrightarrow>
   sn_anchorId s = i \<and> sn_casToken s \<noteq> [] \<and> (is_Committed s \<longrightarrow> storable i (sn_checkpoint s))"
  by (auto simp: parseContinuitySnapshot_def Let_def split: option.splits if_splits
      elim!: is_textE dest: owner_parse_storable)

lemma row_snapshot:
  assumes "readContinuityRow u = Some (g, s)"
  shows "g = so_continuity_generation u" "sn_anchorId s = so_anchorId u" "sn_casToken s = cas_token g (so_anchorId u)"
    "canonicalUint64 g" "is_Committed s \<Longrightarrow> storable (so_anchorId u) (sn_checkpoint s)"
    "is_Committed s \<Longrightarrow> decimal_value g = decimal_value (cp_sequence (sn_checkpoint s)) + 1"
    "\<not> is_Committed s \<Longrightarrow> g = ''0''"
  using assms by (auto simp: readContinuityRow_def split: option.splits if_splits dest: owner_snapshot_storable)

lemma token_not_empty [simp]: "cas_token g i \<noteq> []" "[] \<noteq> cas_token g i"
  by (simp_all add: cas_token_def)

lemma read_written:
  assumes "storable (so_anchorId u) c" and "incrementUint64 g = Some g'" and "decimal_value g = decimal_value (cp_sequence c)"
  shows "readContinuityRow (write_row g' c u) = Some (g', Committed (so_anchorId u) (cas_token g' (so_anchorId u)) c)"
  using assms
  by (auto simp: readContinuityRow_def write_row_def incrementUint64_def canonicalUint64_def Let_def split: if_splits)

text \<open>The fields outside the row.\<close>

lemma write_row_frame [simp]:
  "so_anchorId (write_row g c u) = so_anchorId u" "so_database (write_row g c u) = so_database u"
  "so_continuity_generation (write_row g c u) = g"
  by (simp_all add: write_row_def)

lemma read_frame [simp]:
  "readContinuityRow (u\<lparr>so_database := d\<rparr>) = readContinuityRow u"
  "readContinuityRow (u\<lparr>so_poisoned := b\<rparr>) = readContinuityRow u"
  by (simp_all add: readContinuityRow_def cong: option.case_cong if_cong)

section \<open>The owner keeps the contract\<close>

definition owner_good :: "'d sqlite_owner \<Rightarrow> bool" where
  "owner_good u \<longleftrightarrow> readContinuityRow u \<noteq> None"

definition owner_anchored :: "'d sqlite_owner \<Rightarrow> checkpoint option" where
  "owner_anchored u = (case readContinuityRow u of None \<Rightarrow> None | Some (g, s) \<Rightarrow> snapshot_state s)"

lemma owner_frame [simp]:
  "owner_good (u\<lparr>so_database := d\<rparr>) = owner_good u" "owner_good (u\<lparr>so_poisoned := b\<rparr>) = owner_good u"
  "owner_anchored (u\<lparr>so_database := d\<rparr>) = owner_anchored u" "owner_anchored (u\<lparr>so_poisoned := b\<rparr>) = owner_anchored u"
  by (simp_all add: owner_good_def owner_anchored_def)

text \<open>One write of a valid successor.\<close>

lemma write_step:
  assumes u: "readContinuityRow u = Some (g, s)" and c: "storable (so_anchorId u) c" "valid_successor s c"
    and g': "incrementUint64 g = Some g'"
  shows "readContinuityRow (write_row g' c u) = Some (g', Committed (so_anchorId u) (cas_token g' (so_anchorId u)) c)"
    and "anchor_step (owner_anchored u) (Some c)" and "decimal_value g < decimal_value g'"
proof -
  note row = row_snapshot [OF u]
  have "decimal_value g = decimal_value (cp_sequence c)"
    using row c(2) by (cases s) (auto simp: valid_successor_def decimal_value_def digit_value_def)
  then show "readContinuityRow (write_row g' c u) = Some (g', Committed (so_anchorId u) (cas_token g' (so_anchorId u)) c)"
    by (rule read_written [OF c(1) g'])
  from g' have bound: "decimal_value g < MAX_UINT64" and "g' = decimal_string (decimal_value g + 1)"
    by (auto simp: incrementUint64_def Let_def split: if_splits)
  then show "decimal_value g < decimal_value g'" by simp
  show "anchor_step (owner_anchored u) (Some c)"
    using u c(2) row bound
    by (cases s) (auto simp: owner_anchored_def valid_successor_def isImmediateSuccessor_def intro!: anchor_step.intros)
qed

lemma other_swap_step:
  "other_swap c u = u
   \<or> owner_good (other_swap c u) \<and> anchor_step (owner_anchored u) (owner_anchored (other_swap c u))
     \<and> so_anchorId (other_swap c u) = so_anchorId u
     \<and> decimal_value (so_continuity_generation u) < decimal_value (so_continuity_generation (other_swap c u))"
proof (cases "readContinuityRow u")
  case (Some row)
  obtain g s where row: "readContinuityRow u = Some (g, s)" using Some by (cases row) simp
  show ?thesis
    using write_step [OF row, of c] row_snapshot(1) [OF row]
    by (auto simp: other_swap_def row owner_good_def owner_anchored_def [of "write_row g' c u" for g'] split: option.splits)
qed (simp add: other_swap_def)

lemma other_swaps_step:
  "fold other_swap cs u = u
   \<or> owner_good (fold other_swap cs u) \<and> reaches (owner_anchored u) (owner_anchored (fold other_swap cs u))
     \<and> so_anchorId (fold other_swap cs u) = so_anchorId u
     \<and> decimal_value (so_continuity_generation u) < decimal_value (so_continuity_generation (fold other_swap cs u))"
proof (induction cs arbitrary: u)
  case (Cons c cs)
  show ?case
    using other_swap_step [of c u] Cons.IH [of "other_swap c u"]
    by (auto intro: converse_rtranclp_into_rtranclp)
qed simp

text \<open>
  What a compare-and-swap answers with and leaves behind: a swap installs the next checkpoint, a
  conflict reports the row, a failure leaves the row or the next checkpoint.
\<close>

lemma swap_transaction_step:
  assumes u: "readContinuityRow u = Some (g, s)" and c: "storable (so_anchorId u) c" "valid_successor s c"
    and g': "incrementUint64 g = Some g'" and run: "swap_transaction D g g' c u = (r, u')"
  shows "owner_good u' \<and> reaches (owner_anchored u) (owner_anchored u')
     \<and> (\<forall>out s'. r = Some (out, s') \<longrightarrow> snapshot_state s' = owner_anchored u')"
proof -
  obtain cs d1 where cs: "db_interference D (so_database u) = (cs, d1)" by fastforce
  obtain out d2 where out: "db_transaction D d1 = (out, d2)" by fastforce
  let ?u1 = "fold other_swap cs u"
  have good1: "owner_good ?u1" and reach1: "reaches (owner_anchored u) (owner_anchored ?u1)"
    using other_swaps_step [of cs u] u by (auto simp: owner_good_def)
  have same: "?u1 = u" if "so_continuity_generation ?u1 = g"
    using other_swaps_step [of cs u] row_snapshot(1) [OF u] that by auto
  let ?w = "write_row g' c (u\<lparr>so_database := d2\<rparr>)"
  note written = write_step [of "u\<lparr>so_database := d2\<rparr>" g s c g', simplified, OF u c g']
  have w: "owner_good ?w" "owner_anchored ?w = Some c" "reaches (owner_anchored u) (Some c)"
    using written by (auto simp: owner_good_def owner_anchored_def)
  show ?thesis
  proof (cases "so_continuity_generation ?u1 = g")
    case True
    from run have "r = None \<and> (u' = ?w\<lparr>so_poisoned := True\<rparr> \<or> u' = u\<lparr>so_database := d2, so_poisoned := True\<rparr>)
        \<or> r = Some (Swapped, Committed (so_anchorId u) (cas_token g' (so_anchorId u)) c) \<and> u' = ?w"
      unfolding swap_transaction_def by (simp add: cs out same [OF True] row_snapshot(1) [OF u] Let_def
          split: transaction_outcome.splits if_splits)
    with w good1 same [OF True] show ?thesis by auto
  next
    case False
    from run have "\<exists>b. u' = ?u1\<lparr>so_database := d2\<rparr>\<lparr>so_poisoned := b\<rparr>
        \<and> (\<forall>out s'. r = Some (out, s') \<longrightarrow> (\<exists>h. readContinuityRow u' = Some (h, s')))"
      unfolding swap_transaction_def
      by (cases out) (auto simp: cs out False Let_def split: option.splits intro: exI [of _ True] exI [of _ "so_poisoned ?u1"])
    then obtain b where "u' = ?u1\<lparr>so_database := d2\<rparr>\<lparr>so_poisoned := b\<rparr>"
      and "\<And>out s'. r = Some (out, s') \<Longrightarrow> \<exists>h. readContinuityRow u' = Some (h, s')" by blast
    with good1 reach1 show ?thesis by (fastforce simp: owner_anchored_def)
  qed
qed

lemma cas_continuity_step:
  assumes "owner_good u" and "compareAndSwapContinuity D v n u = (r, u')"
  shows "owner_good u' \<and> reaches (owner_anchored u) (owner_anchored u')
     \<and> (\<forall>out s. r = Some (out, s) \<longrightarrow> snapshot_state s = owner_anchored u')"
proof -
  obtain g s where row: "readContinuityRow u = Some (g, s)" using assms(1) by (auto simp: owner_good_def)
  then have "snapshot_state s = owner_anchored u" by (simp add: owner_anchored_def)
  with assms row show ?thesis
    by (auto simp: compareAndSwapContinuity_def split: option.splits if_splits
        dest: swap_transaction_step [OF row owner_parse_storable])
qed

text \<open>What the anchor reads off a value of the owner is the snapshot the value stands for.\<close>

lemma parse_checkpoint_json: "parseCheckpoint (Some (checkpoint_json c)) i src = Inr c' \<Longrightarrow> c' = c"
  by (cases c) (auto simp: parseCheckpoint_def checkpoint_json_def checkpoint_keys_def hasExactKeys_def Let_def
      split: option.splits if_splits)

lemma parse_snapshot_json: "parseSnapshot (Some (snapshot_json s)) i = Inr s' \<Longrightarrow> s' = s"
  by (cases s) (auto simp: parseSnapshot_def snapshot_json.simps hasExactKeys_def Let_def
      split: sum.splits if_splits dest: parse_checkpoint_json)

lemma parse_cas_json: "parseCasResult (Some (cas_result_json r)) i = Inr r' \<Longrightarrow> r' = r"
  by (cases r; cases "fst r") (auto simp: parseCasResult_def cas_result_json_def hasExactKeys_def Let_def
      split: sum.splits if_splits dest: parse_snapshot_json)

lemma perform_step:
  assumes op: "\<And>u r u'. owner_good u \<Longrightarrow> operation u = (r, u') \<Longrightarrow>
      owner_good u' \<and> reaches (owner_anchored u) (owner_anchored u') \<and> (\<forall>v. r = Some v \<longrightarrow> Q v u')"
    and "owner_good u" and "performContinuityOperation D operation i u = (r, u')"
  shows "owner_good u' \<and> reaches (owner_anchored u) (owner_anchored u') \<and> (\<forall>v. r = Fulfilled v \<longrightarrow> (\<exists>j. v = Some j \<and> Q j u'))"
proof -
  obtain b d where d: "db_overdue D (so_database u) = (b, d)" by fastforce
  let ?u = "u\<lparr>so_database := d\<rparr>"
  obtain q w where w: "operation ?u = (q, w)" by fastforce
  from op [OF _ w] assms(2) have "owner_good w" "reaches (owner_anchored u) (owner_anchored w)" "\<forall>v. q = Some v \<longrightarrow> Q v w"
    by auto
  with assms(2, 3) show ?thesis
    by (auto simp: performContinuityOperation_def d w Let_def split: if_splits option.splits)
qed

lemma owner_read:
  assumes "owner_good u" and "au_read (coLocatedContinuityAuthority D) i u = (r, u')"
  shows "owner_good u' \<and> reaches (owner_anchored u) (owner_anchored u')
     \<and> (\<forall>v. r = Fulfilled v \<longrightarrow> (\<exists>j. v = Some j \<and> (\<exists>s. j = snapshot_json s \<and> snapshot_state s = owner_anchored u')))"
  by (rule perform_step [OF _ assms(1)]) (use assms(2) in \<open>auto simp: coLocatedContinuityAuthority_def owner_anchored_def\<close>)

lemma owner_cas:
  assumes "owner_good u" and "au_compareAndSwap (coLocatedContinuityAuthority D) i x c u = (r, u')"
  shows "owner_good u' \<and> reaches (owner_anchored u) (owner_anchored u')
     \<and> (\<forall>v. r = Fulfilled v \<longrightarrow>
         (\<exists>j. v = Some j \<and> (\<exists>q. j = cas_result_json q \<and> snapshot_state (snd q) = owner_anchored u')))"
proof (rule perform_step [OF _ assms(1)])
  show "performContinuityOperation D (\<lambda>u. case compareAndSwapContinuity D (Some (snapshot_json x)) (Some (checkpoint_json c)) u of
      (r, u') \<Rightarrow> (map_option cas_result_json r, u')) i u = (r, u')"
    using assms(2) by (simp add: coLocatedContinuityAuthority_def)
qed (fastforce split: prod.splits dest: cas_continuity_step)

lemma owner_contract:
  "monotonic_cas_authority (coLocatedContinuityAuthority D) owner_good owner_anchored"
  by unfold_locales (fastforce simp: lawful_seam_def dest: owner_read owner_cas parse_snapshot_json parse_cas_json)+

interpretation sqlite: monotonic_cas_authority "coLocatedContinuityAuthority D" owner_good owner_anchored for D
  by (rule owner_contract)

text \<open>
  C36. The single-node owner refines the interface of the continuity anchor. Whatever swaps other
  connections that run the same code make between a read and a transaction, whether a transaction fails and
  whether it was made durable all the same, and whether a call starts before its deadline: the
  checkpoint in the row moves only from nothing to a genesis checkpoint and from a checkpoint to its
  immediate successor, the row stays readable, and every answer of \<open>read\<close> and
  \<open>compareAndSwap\<close> names a checkpoint that the row held during the call.
\<close>

theorem sqlite_owner_refines_authority:
  "monotonic_cas_authority (coLocatedContinuityAuthority D) owner_good owner_anchored"
  by (rule owner_contract)

section \<open>What the anchor accepts\<close>

lemma isDecimal_digits: "isDecimal s \<Longrightarrow> list_all is_digit s"
  by (cases s) (auto simp: is_digit_def split: if_splits)

lemma decimal_lower: "list_all is_digit s \<Longrightarrow> digit_value c \<noteq> 0 \<Longrightarrow> 10 ^ length s \<le> decimal_value (c # s)"
proof (induction s rule: rev_induct)
  case (snoc d s)
  then show ?case using decimal_value_append [of "c # s" d] by simp
qed (simp add: decimal_value_def)

lemma decimal_length: "canonicalUint64 s \<Longrightarrow> length s \<le> 20"
proof (cases s)
  case (Cons c cs)
  assume u: "canonicalUint64 s"
  show ?thesis
  proof (cases "c = CHR ''0''")
    case False
    with u Cons have "is_digit c" "list_all is_digit cs" by (auto simp: canonicalUint64_def)
    moreover from this False have "digit_value c \<noteq> 0" using digit_value_zero by blast
    ultimately have "10 ^ length cs \<le> decimal_value s" using decimal_lower Cons by blast
    also have "\<dots> < 10 ^ 20" using u by (simp add: canonicalUint64_def MAX_UINT64_def)
    finally have "length cs < 20" by (rule power_less_imp_less_exp [rotated]) simp
    then show ?thesis using Cons by simp
  qed (use u Cons in \<open>simp add: canonicalUint64_def\<close>)
qed simp

lemma identifier_length: "matches_identifier s \<Longrightarrow> length s \<le> MAX_IDENTIFIER_LENGTH"
  by (cases s) (simp_all add: MAX_IDENTIFIER_LENGTH_def)

lemma storable_parses: "storable i c \<Longrightarrow> matches_identifier i \<Longrightarrow> parseCheckpoint (Some (checkpoint_json c)) i src = Inr c"
  using decimal_length [of "cp_sequence c"]
  by (cases c) (auto simp: parseCheckpoint_def storable_def checkpoint_json_def checkpoint_keys_def hasExactKeys_def
      Let_def canonicalUint64_def identifier_length split: option.splits)

definition printable :: "char \<Rightarrow> bool" where
  "printable c \<longleftrightarrow> 33 \<le> (of_char c :: nat) \<and> (of_char c :: nat) \<le> 126"

lemma printable_chars: "is_digit c \<Longrightarrow> printable c" "identifier_char c \<Longrightarrow> printable c"
  by (auto simp: is_digit_def printable_def identifier_char_def alphanumeric_def Let_def)

lemma printable_length: "list_all printable s \<Longrightarrow> utf8_length s = length s"
  by (induction s) (auto simp: utf8_length_def printable_def)

lemma identifier_printable: "matches_identifier s \<Longrightarrow> list_all printable s"
  by (cases s) (auto simp: list_all_iff printable_chars identifier_char_def)

lemma token_is_valid:
  assumes "canonicalUint64 g" and "matches_identifier i"
  shows "isCasToken (Some (JStr (cas_token g i)))"
proof -
  have "list_all printable (drop n i)" for n
    using identifier_printable [OF assms(2)] by (auto simp: list_all_iff dest: in_set_dropD)
  moreover have "list_all printable g"
    using isDecimal_digits assms(1) by (auto simp: list_all_iff canonicalUint64_def printable_chars)
  ultimately have p: "list_all printable (cas_token g i)"
    by (simp add: cas_token_def printable_def)
  have "length (cas_token g i) \<le> MAX_CAS_TOKEN_BYTES"
    using decimal_length [OF assms(1)] identifier_length [OF assms(2)]
    by (simp add: cas_token_def MAX_CAS_TOKEN_BYTES_def MAX_IDENTIFIER_LENGTH_def)
  with p show ?thesis by (auto simp: printable_length list_all_iff printable_def)
qed

lemma row_parses:
  assumes "readContinuityRow u = Some (g, s)" and "matches_identifier (so_anchorId u)"
  shows "parseSnapshot (Some (snapshot_json s)) (so_anchorId u) = Inr s"
proof -
  note row = row_snapshot [OF assms(1)]
  have "isCasToken (Some (JStr (sn_casToken s)))" unfolding row(3) by (rule token_is_valid [OF row(4) assms(2)])
  with row assms(2) show ?thesis
    by (cases s) (auto simp: parseSnapshot_def snapshot_json.simps hasExactKeys_def Let_def identifier_length storable_parses)
qed

section \<open>Recovery after a crash\<close>

text \<open>A database that answers before the deadline, commits, and has no other connection.\<close>

definition responsive :: "'d database \<Rightarrow> bool" where
  "responsive D \<longleftrightarrow>
     (\<forall>d. \<not> fst (db_overdue D d) \<and> fst (db_transaction D d) = TransactionCommits \<and> fst (db_interference D d) = [])"

definition serving :: "'d sqlite_owner \<Rightarrow> bool" where
  "serving u \<longleftrightarrow> owner_good u \<and> \<not> so_closing u \<and> \<not> so_poisoned u \<and> matches_identifier (so_anchorId u)"

lemma call_fulfilled:
  assumes "an_unsettledSeamCalls s < an_maxPendingOperations s" and "seam (an_env s) = (Fulfilled v, e)"
  shows "callSeam seam f c b s = (Inr v, s\<lparr>an_env := e\<rparr>)"
  using assms by (simp add: callSeam_def em_defs invokeE_def enter_seam_def leave_seam_def)

lemma responsive_calls:
  assumes "responsive D"
  obtains d1 d2 d3 where "db_overdue D d = (False, d1)" "db_interference D d = ([], d2)"
    "db_transaction D d = (TransactionCommits, d3)"
  using assms by (metis (full_types) responsive_def prod.collapse)

lemma read_serving:
  assumes "responsive D" and "serving u" and "readContinuityRow u = Some (g, n)"
  obtains d where "au_read (coLocatedContinuityAuthority D) (so_anchorId u) u
     = (Fulfilled (Some (snapshot_json n)), u\<lparr>so_database := d\<rparr>)"
proof -
  obtain d where "db_overdue D (so_database u) = (False, d)" by (rule responsive_calls [OF assms(1)])
  with assms that show thesis
    by (auto simp: coLocatedContinuityAuthority_def performContinuityOperation_def serving_def Let_def)
qed

lemma readAnchor_serving:
  assumes "responsive D" and "serving (an_env s)" and "readContinuityRow (an_env s) = Some (g, n)"
    and "an_anchorId s = so_anchorId (an_env s)" and "an_unsettledSeamCalls s < an_maxPendingOperations s"
  obtains d where "readAnchor (coLocatedContinuityAuthority D) s = (Inr n, s\<lparr>an_env := an_env s\<lparr>so_database := d\<rparr>\<rparr>)"
proof -
  obtain d where "au_read (coLocatedContinuityAuthority D) (so_anchorId (an_env s)) (an_env s)
      = (Fulfilled (Some (snapshot_json n)), an_env s\<lparr>so_database := d\<rparr>)"
    by (rule read_serving [OF assms(1-3)])
  with assms(2, 4) row_parses [OF assms(3)] that show thesis
    by (simp add: readAnchor_def bindE_def getsE_def liftE_def serving_def call_fulfilled [OF assms(5)])
qed

lemma row_reparses:
  assumes "readContinuityRow u = Some (g, n)"
  shows "parseContinuitySnapshot (Some (snapshot_json n)) (so_anchorId u) = Some n"
  using row_snapshot [OF assms] by (cases n) auto

lemma successor_generation:
  assumes "readContinuityRow u = Some (g, n)" and "valid_successor n c"
  shows "decimal_value g = decimal_value (cp_sequence c)"
  using row_snapshot [OF assms(1)] assms(2) by (cases n) (auto simp: valid_successor_def decimal_value_def digit_value_def)

lemma token_inject: "cas_token g i = cas_token g' i \<Longrightarrow> g = g'"
  by (simp add: cas_token_def)

lemma cas_result_parses:
  "parseSnapshot (Some (snapshot_json n)) i = Inr n \<Longrightarrow> parseCasResult (Some (cas_result_json (out, n))) i = Inr (out, n)"
  by (cases out) (simp_all add: parseCasResult_def cas_result_json_def hasExactKeys_def)

lemma cas_serving:
  assumes D: "responsive D" and u: "serving u" and row: "readContinuityRow u = Some (g, n)"
    and c: "storable (so_anchorId u) c" "valid_successor n c" "decimal_value (cp_sequence c) < MAX_UINT64"
  obtains u' n' where "au_compareAndSwap (coLocatedContinuityAuthority D) (so_anchorId u) n c u
      = (Fulfilled (Some (cas_result_json (Swapped, n'))), u')"
    and "parseCasResult (Some (cas_result_json (Swapped, n'))) (so_anchorId u) = Inr (Swapped, n')"
    and "snapshot_state n' = Some c" and "sn_casToken n' \<noteq> sn_casToken n" and "owner_anchored u' = Some c"
proof -
  let ?i = "so_anchorId u"
  have gen: "so_continuity_generation u = g" using row_snapshot(1) [OF row] by simp
  obtain d1 where d1: "db_overdue D (so_database u) = (False, d1)" by (rule responsive_calls [OF D])
  obtain d2 where d2: "db_interference D d1 = ([], d2)" by (rule responsive_calls [OF D])
  obtain d3 where d3: "db_transaction D d2 = (TransactionCommits, d3)" by (rule responsive_calls [OF D])
  obtain g' where g': "incrementUint64 g = Some g'"
    using successor_generation [OF row c(2)] c(3) by (simp add: incrementUint64_def)
  let ?n = "Committed ?i (cas_token g' ?i) c" and ?u = "write_row g' c (u\<lparr>so_database := d3\<rparr>)"
  note w = write_step [of "u\<lparr>so_database := d3\<rparr>" g n c g', simplified, OF row c(1, 2) g']
  have "matches_identifier (so_anchorId ?u)" using u by (simp add: serving_def)
  from row_parses [OF w(1) this] have p: "parseSnapshot (Some (snapshot_json ?n)) ?i = Inr ?n" by simp
  show thesis
  proof (rule that)
    show "au_compareAndSwap (coLocatedContinuityAuthority D) ?i n c u
      = (Fulfilled (Some (cas_result_json (Swapped, ?n))), ?u)"
      using u row c row_reparses [OF row]
      by (simp add: coLocatedContinuityAuthority_def performContinuityOperation_def compareAndSwapContinuity_def
          swap_transaction_def serving_def d1 d2 d3 g' gen)
    show "parseCasResult (Some (cas_result_json (Swapped, ?n))) ?i = Inr (Swapped, ?n)"
      by (rule cas_result_parses [OF p])
    show "sn_casToken ?n \<noteq> sn_casToken n"
      using row_snapshot(3) [OF row] w(3) by (auto dest: token_inject)
    show "owner_anchored ?u = Some c" using w(1) by (simp add: owner_anchored_def)
  qed simp
qed

lemma promote_serving:
  assumes "responsive D" and "serving (an_env s)" and "readContinuityRow (an_env s) = Some (g, n)"
    and "storable (an_anchorId s) c" "valid_successor n c" "decimal_value (cp_sequence c) < MAX_UINT64"
    and "an_anchorId s = so_anchorId (an_env s)" and "an_unsettledSeamCalls s < an_maxPendingOperations s"
  obtains n' u' where "promote (coLocatedContinuityAuthority D) n c s = (Inr (Swapped, n'), s\<lparr>an_env := u'\<rparr>)"
    and "snapshot_state n' = Some c" and "owner_anchored u' = Some c"
proof -
  from assms(4, 7) have st: "storable (so_anchorId (an_env s)) c" by simp
  obtain u' n' where r: "au_compareAndSwap (coLocatedContinuityAuthority D) (so_anchorId (an_env s)) n c (an_env s)
      = (Fulfilled (Some (cas_result_json (Swapped, n'))), u')"
    "parseCasResult (Some (cas_result_json (Swapped, n'))) (so_anchorId (an_env s)) = Inr (Swapped, n')"
    "snapshot_state n' = Some c" "sn_casToken n' \<noteq> sn_casToken n" "owner_anchored u' = Some c"
    by (rule cas_serving [OF assms(1-3) st assms(5, 6)])
  moreover from r(3) have "is_Committed n' \<and> sn_checkpoint n' = c" by (cases n') simp_all
  ultimately show thesis
    using that assms(7) by (simp add: promote_def bindE_def getsE_def retE_def call_fulfilled [OF assms(8)])
qed

text \<open>Where a crash between the two writes of a commit can leave the caller: at the checkpoint of the row, or one step ahead.\<close>

lemma reconcileInternal_serving:
  assumes "responsive D" and "serving (an_env s)" and "storable (an_anchorId s) c"
    and "owner_anchored (an_env s) = Some c \<or> anchor_step (owner_anchored (an_env s)) (Some c)"
    and "decimal_value (cp_sequence c) < MAX_UINT64"
    and "an_anchorId s = so_anchorId (an_env s)" and "an_unsettledSeamCalls s < an_maxPendingOperations s"
  obtains d n u' where "reconcileInternal (coLocatedContinuityAuthority D) c s = (Inr (d, n), s\<lparr>an_env := u'\<rparr>)"
    and "snapshot_state n = Some c" and "owner_anchored u' = Some c"
proof -
  obtain g n where row: "readContinuityRow (an_env s) = Some (g, n)"
    using assms(2) by (auto simp: serving_def owner_good_def)
  then have n: "snapshot_state n = owner_anchored (an_env s)" by (simp add: owner_anchored_def)
  obtain d where read: "readAnchor (coLocatedContinuityAuthority D) s = (Inr n, s\<lparr>an_env := an_env s\<lparr>so_database := d\<rparr>\<rparr>)"
    by (rule readAnchor_serving [OF assms(1, 2) row assms(6, 7)])
  let ?s = "s\<lparr>an_env := an_env s\<lparr>so_database := d\<rparr>\<rparr>"
  show thesis
  proof (cases "owner_anchored (an_env s) = Some c")
    case True
    with n obtain i t where "n = Committed i t c" by (cases n) auto
    with read n True show thesis
      by (intro that [of Matched n "an_env s\<lparr>so_database := d\<rparr>"])
        (auto simp: reconcileInternal_def bindE_def retE_def)
  next
    case False
    with assms(4) have step: "anchor_step (snapshot_state n) (Some c)" by (simp add: n)
    then have succ: "valid_successor n c"
      by (cases n) (auto simp: valid_successor_def isImmediateSuccessor_def elim: anchor_step.cases)
    obtain n' u' where p: "promote (coLocatedContinuityAuthority D) n c ?s = (Inr (Swapped, n'), ?s\<lparr>an_env := u'\<rparr>)"
      and *: "snapshot_state n' = Some c" "owner_anchored u' = Some c"
      by (rule promote_serving [OF assms(1) _ _ _ succ assms(5), of ?s g])
        (use assms row in \<open>simp_all add: serving_def\<close>)
    have "\<exists>d. reconcileInternal (coLocatedContinuityAuthority D) c s = (Inr (d, n'), s\<lparr>an_env := u'\<rparr>)"
      using step False n p
      by (cases n) (auto simp: reconcileInternal_def bindE_def retE_def read elim!: anchor_step.cases)
    with * that show thesis by blast
  qed
qed

lemma checkedE:
  "isIdentifier v \<Longrightarrow> (\<And>s. v = Some (JStr s) \<Longrightarrow> matches_identifier s \<Longrightarrow> P) \<Longrightarrow> P"
  "isCanonicalUint64 v \<Longrightarrow> (\<And>s. v = Some (JStr s) \<Longrightarrow> canonicalUint64 s \<Longrightarrow> P) \<Longrightarrow> P"
  by (cases v rule: isIdentifier.cases; simp; fail)
    (cases v rule: isCanonicalUint64.cases; simp add: canonicalUint64_def; fail)

lemma parsed_storable: "parseCheckpoint v i src = Inr c \<Longrightarrow> storable i c \<and> matches_identifier i"
  by (auto simp: parseCheckpoint_def storable_def Let_def split: option.splits if_splits
      elim!: checkedE isSha256HexE)

lemma turn_of_reconcile:
  assumes "parseCheckpoint raw (an_anchorId s) FromCaller = Inr c" and "an_pendingOperations s < an_maxPendingOperations s"
    and "reconcileInternal A c (s\<lparr>an_pendingOperations := an_pendingOperations s + 1\<rparr>) = (r, t)"
  shows "reconcile A raw s =
     (case r of
        Inl e \<Rightarrow> (Inl e, t\<lparr>an_pendingOperations := an_pendingOperations t - 1\<rparr>)
      | Inr v \<Rightarrow> (Inr v, t\<lparr>an_reconciliationRequired := False, an_pendingOperations := an_pendingOperations t - 1\<rparr>))"
  using assms
  by (auto simp: reconcile_def serialize_eq run_turn_eq reconcile_turn_def release_turn_def em_defs split: sum.splits)

text \<open>
  C37. The crash window closes. When the caller's checkpoint is the one of the row or its immediate
  successor (or a genesis checkpoint, when the row has none), as it is after a crash at any point of
  a commit, and the database responds, then \<open>reconcile\<close> returns, with the caller's checkpoint; the
  row then holds exactly this checkpoint and no reconciliation is required any more. The last
  sequence number is excluded: its generation would exceed 64 bits.
\<close>

theorem crash_window_is_reconciled:
  assumes "responsive D" and "serving (an_env s)"
    and "parseCheckpoint raw (an_anchorId s) FromCaller = Inr c"
    and "owner_anchored (an_env s) = Some c \<or> anchor_step (owner_anchored (an_env s)) (Some c)"
    and "decimal_value (cp_sequence c) < MAX_UINT64"
    and "an_anchorId s = so_anchorId (an_env s)"
    and "an_unsettledSeamCalls s < an_maxPendingOperations s" and "an_pendingOperations s < an_maxPendingOperations s"
  shows "\<exists>d n s'. reconcile (coLocatedContinuityAuthority D) raw s = (Inr (d, n), s')
     \<and> snapshot_state n = Some c \<and> owner_anchored (an_env s') = Some c
     \<and> \<not> an_reconciliationRequired s' \<and> an_pendingOperations s' = an_pendingOperations s"
proof -
  let ?s = "s\<lparr>an_pendingOperations := an_pendingOperations s + 1\<rparr>"
  from parsed_storable [OF assms(3)] have st: "storable (an_anchorId ?s) c" by simp
  obtain d n u' where r: "reconcileInternal (coLocatedContinuityAuthority D) c ?s = (Inr (d, n), ?s\<lparr>an_env := u'\<rparr>)"
    and "snapshot_state n = Some c" "owner_anchored u' = Some c"
    by (rule reconcileInternal_serving [OF assms(1) _ st]) (use assms in simp_all)
  with turn_of_reconcile [OF assms(3, 8) r] show ?thesis by auto
qed

inductive_simps anchor_step_targets: "anchor_step None (Some c)" "anchor_step (Some d) (Some c)"

lemma reconcileInternal_refuses:
  assumes "responsive D" and "serving (an_env s)"
    and "\<not> (owner_anchored (an_env s) = Some c \<or> anchor_step (owner_anchored (an_env s)) (Some c))"
    and "an_anchorId s = so_anchorId (an_env s)" and "an_unsettledSeamCalls s < an_maxPendingOperations s"
  obtains d where "reconcileInternal (coLocatedContinuityAuthority D) c s
      = (Inl ROLLBACK_DETECTED, s\<lparr>an_env := an_env s\<lparr>so_database := d\<rparr>\<rparr>)"
proof -
  obtain g n where row: "readContinuityRow (an_env s) = Some (g, n)"
    using assms(2) by (auto simp: serving_def owner_good_def)
  then have "owner_anchored (an_env s) = snapshot_state n" by (simp add: owner_anchored_def)
  moreover obtain d where "readAnchor (coLocatedContinuityAuthority D) s = (Inr n, s\<lparr>an_env := an_env s\<lparr>so_database := d\<rparr>\<rparr>)"
    by (rule readAnchor_serving [OF assms(1, 2) row assms(4, 5)])
  ultimately have "reconcileInternal (coLocatedContinuityAuthority D) c s
      = (Inl ROLLBACK_DETECTED, s\<lparr>an_env := an_env s\<lparr>so_database := d\<rparr>\<rparr>)"
    using assms(3) by (cases n) (auto simp: reconcileInternal_def bindE_def throwE_def anchor_step_targets)
  then show thesis by (rule that)
qed

text \<open>
  C38. A rollback is detected. Suppose that the database responds, that the owner is serving under
  the anchor's own id, and that the anchor has capacity left (otherwise the answer is
  \<open>ANCHOR_UNAVAILABLE\<close> or \<open>BUSY\<close>). When the caller presents a well-formed checkpoint that is neither
  the one of the row nor its immediate successor (an older one, one of another history, one that
  skips a commit), \<open>reconcile\<close> answers \<open>ROLLBACK_DETECTED\<close> and changes neither the row nor anything
  else of the anchor but the environment of the database.
\<close>

theorem rollback_is_detected:
  assumes "responsive D" and "serving (an_env s)"
    and "parseCheckpoint raw (an_anchorId s) FromCaller = Inr c"
    and "\<not> (owner_anchored (an_env s) = Some c \<or> anchor_step (owner_anchored (an_env s)) (Some c))"
    and "an_anchorId s = so_anchorId (an_env s)"
    and "an_unsettledSeamCalls s < an_maxPendingOperations s" and "an_pendingOperations s < an_maxPendingOperations s"
  shows "\<exists>d. reconcile (coLocatedContinuityAuthority D) raw s
     = (Inl ROLLBACK_DETECTED, s\<lparr>an_env := an_env s\<lparr>so_database := d\<rparr>\<rparr>)"
proof -
  let ?s = "s\<lparr>an_pendingOperations := an_pendingOperations s + 1\<rparr>"
  obtain d where r: "reconcileInternal (coLocatedContinuityAuthority D) c ?s
      = (Inl ROLLBACK_DETECTED, ?s\<lparr>an_env := an_env ?s\<lparr>so_database := d\<rparr>\<rparr>)"
    by (rule reconcileInternal_refuses [OF assms(1), of ?s]) (use assms in simp_all)
  with turn_of_reconcile [OF assms(3, 7) r] show ?thesis by auto
qed

end
