(* ===== verification/RV2_ContinuityWitnesses.thy ===== *)
theory RV2_ContinuityWitnesses
  imports RV2_SqliteOwner
begin

text \<open>
  A concrete deployment: a single-node owner over a database that always responds, its first
  two checkpoints, and the runs at which the properties of the continuity anchor apply.
\<close>

definition demo_database :: "unit database" where
  "demo_database = \<lparr>db_interference = (\<lambda>d. ([], d)), db_transaction = (\<lambda>d. (TransactionCommits, d)),
     db_overdue = (\<lambda>d. (False, d))\<rparr>"

abbreviation demo_authority :: "unit sqlite_owner cas_authority" where
  "demo_authority \<equiv> coLocatedContinuityAuthority demo_database"

definition demo_id :: string where
  "demo_id = ''single-node-anchor-7f''"

definition demo_checkpoint :: "string \<Rightarrow> string \<Rightarrow> string option \<Rightarrow> checkpoint" where
  "demo_checkpoint n c p = \<lparr>cp_anchorId = demo_id, cp_sequence = n, cp_commitId = c, cp_parentCommitId = p,
     cp_stateDigest = replicate 64 CHR ''0''\<rparr>"

abbreviation "first_checkpoint \<equiv> demo_checkpoint ''0'' ''c-0'' None"
abbreviation "second_checkpoint \<equiv> demo_checkpoint ''1'' ''c-1'' (Some ''c-0'')"

definition demo_owner :: "string \<Rightarrow> snapshot \<Rightarrow> unit sqlite_owner" where
  "demo_owner g n = \<lparr>so_anchorId = demo_id, so_continuity_generation = g,
     so_continuity_json = Some (snapshot_json n), so_credential_generation = ''0'', so_credential_state = None,
     so_closing = False, so_poisoned = False, so_database = ()\<rparr>"

definition demo_anchor :: "unit sqlite_owner \<Rightarrow> unit sqlite_owner anchor" where
  "demo_anchor u = \<lparr>an_anchorId = demo_id, an_maxPendingOperations = 2, an_pendingOperations = 0,
     an_unsettledSeamCalls = 0, an_reconciliationRequired = False, an_env = u\<rparr>"

abbreviation "fresh_owner \<equiv> demo_owner ''0'' (Uninitialized demo_id (cas_token ''0'' demo_id))"
abbreviation "second_owner \<equiv> demo_owner ''2'' (Committed demo_id (cas_token ''2'' demo_id) second_checkpoint)"

definition demo_publish :: "string \<Rightarrow> 'b publisher" where
  "demo_publish outcome c n e =
     (Fulfilled (Some (if outcome = ''uncertain'' then JObj [(''outcome'', JStr ''uncertain'')]
        else JObj [(''outcome'', JStr outcome), (''current'', checkpoint_json n)])), e)"

lemma demo_publish_lawful: "lawful_seam good anchored (demo_publish x c n)"
  by (simp add: lawful_seam_def demo_publish_def)

lemmas demo_defs = demo_database_def demo_id_def demo_checkpoint_def demo_owner_def demo_anchor_def demo_publish_def

lemma demo_decimals [simp]:
  "is_digit CHR ''1''" "is_digit CHR ''2''" "isDecimal ''0''" "isDecimal ''1''" "isDecimal ''2''"
  "decimal_value ''0'' = 0" "decimal_value ''1'' = 1" "decimal_value ''2'' = 2"
  by (simp_all add: is_digit_def decimal_value_def digit_value_def)

lemma demo_generations [simp]: "incrementUint64 ''0'' = Some ''1''" "incrementUint64 ''1'' = Some ''2''"
  using decimal_string_value [of "''1''"] decimal_string_value [of "''2''"]
  by (simp_all add: incrementUint64_def MAX_UINT64_def numeral_2_eq_2)

lemma demo_storable [simp]:
  "storable demo_id first_checkpoint" "storable demo_id second_checkpoint"
  "matches_identifier demo_id"
  by (simp_all add: storable_def demo_checkpoint_def demo_id_def canonicalUint64_def MAX_UINT64_def alphanumeric_def
      identifier_char_def matches_sha256_hex_def is_digit_def list_all_iff)

lemma demo_rows [simp]:
  "readContinuityRow fresh_owner = Some (''0'', Uninitialized demo_id (cas_token ''0'' demo_id))"
  "readContinuityRow second_owner = Some (''2'', Committed demo_id (cas_token ''2'' demo_id) second_checkpoint)"
  by (simp_all add: readContinuityRow_def demo_owner_def canonicalUint64_def MAX_UINT64_def)
    (simp add: demo_checkpoint_def)

lemma demo_serving: "serving fresh_owner" "serving second_owner" "responsive demo_database"
  by (simp_all add: serving_def owner_good_def responsive_def demo_database_def) (simp_all add: demo_owner_def)

lemma demo_first: "parseCheckpoint (Some (checkpoint_json first_checkpoint)) demo_id src = Inr first_checkpoint"
  "parseCheckpoint (Some (checkpoint_json second_checkpoint)) demo_id src = Inr second_checkpoint"
  by (simp_all add: storable_parses)

definition demo_commits :: "unit sqlite_owner anchor_event list" where
  "demo_commits =
     [CallReconcile (Some (checkpoint_json first_checkpoint)),
      CallAdvance (demo_publish ''swapped'') (Some (checkpoint_json first_checkpoint)) (Some (checkpoint_json second_checkpoint)),
      NextTurn, NextTurn]"

lemma demo_read:
  "readContinuityRow (demo_owner g n) = Some (g, n) \<Longrightarrow>
   au_read demo_authority demo_id (demo_owner g n) = (Fulfilled (Some (snapshot_json n)), demo_owner g n)"
  by (simp add: coLocatedContinuityAuthority_def performContinuityOperation_def demo_database_def)
    (simp add: demo_owner_def)

lemma demo_cas:
  assumes "readContinuityRow (demo_owner g n) = Some (g, n)" and "storable demo_id c" and "valid_successor n c"
    and "incrementUint64 g = Some h"
  shows "au_compareAndSwap demo_authority demo_id n c (demo_owner g n)
     = (Fulfilled (Some (cas_result_json (Swapped, Committed demo_id (cas_token h demo_id) c))),
        demo_owner h (Committed demo_id (cas_token h demo_id) c))"
proof -
  have "so_anchorId (demo_owner g n) = demo_id" "so_continuity_generation (demo_owner g n) = g"
    "\<not> so_closing (demo_owner g n)" "\<not> so_poisoned (demo_owner g n)"
    "write_row h c (demo_owner g n\<lparr>so_database := ()\<rparr>) = demo_owner h (Committed demo_id (cas_token h demo_id) c)"
    by (simp_all add: demo_owner_def write_row_def)
  with assms row_reparses [OF assms(1)] show ?thesis
    by (simp add: coLocatedContinuityAuthority_def performContinuityOperation_def demo_database_def
        compareAndSwapContinuity_def swap_transaction_def)
qed

lemma demo_parses:
  "readContinuityRow (demo_owner g n) = Some (g, n) \<Longrightarrow> parseSnapshot (Some (snapshot_json n)) demo_id = Inr n"
  using row_parses [of "demo_owner g n" g n] by (simp add: demo_owner_def)

lemma demo_promote:
  assumes "readContinuityRow (demo_owner g n) = Some (g, n)" and "storable demo_id c" and "valid_successor n c"
    and "incrementUint64 g = Some h" and "an_env s = demo_owner g n" and "an_anchorId s = demo_id"
    and "an_unsettledSeamCalls s < an_maxPendingOperations s"
  shows "promote demo_authority n c s = (Inr (Swapped, Committed demo_id (cas_token h demo_id) c),
     s\<lparr>an_env := demo_owner h (Committed demo_id (cas_token h demo_id) c)\<rparr>)"
proof -
  let ?n = "Committed demo_id (cas_token h demo_id) c"
  have frame: "so_anchorId (demo_owner g n) = demo_id" "write_row h c (demo_owner g n) = demo_owner h ?n"
    by (simp_all add: demo_owner_def write_row_def)
  note w = write_step [OF assms(1) _ assms(3, 4), unfolded frame, OF assms(2)]
  have "parseCasResult (Some (cas_result_json (Swapped, ?n))) demo_id = Inr (Swapped, ?n)"
    by (rule cas_result_parses [OF demo_parses [OF w(1)]])
  moreover have "cas_token h demo_id \<noteq> sn_casToken n"
    using row_snapshot(3) [OF assms(1)] w(3) by (auto simp: frame dest: token_inject)
  ultimately show ?thesis
    using demo_cas [OF assms(1-4)] assms(5-7)
    by (simp add: promote_def bindE_def getsE_def retE_def call_fulfilled [OF assms(7)])
qed

lemma demo_readAnchor:
  assumes "readContinuityRow (demo_owner g n) = Some (g, n)" and "an_env s = demo_owner g n" and "an_anchorId s = demo_id"
    and "an_unsettledSeamCalls s < an_maxPendingOperations s"
  shows "readAnchor demo_authority s = (Inr n, s)"
proof -
  have "s\<lparr>an_env := demo_owner g n\<rparr> = s" using assms(2) by (cases s) simp
  with assms demo_read [OF assms(1)] demo_parses [OF assms(1)] show ?thesis
    by (simp add: readAnchor_def bindE_def getsE_def liftE_def call_fulfilled [OF assms(4)])
qed

abbreviation "first_owner \<equiv> demo_owner ''1'' (Committed demo_id (cas_token ''1'' demo_id) first_checkpoint)"

lemma demo_first_row [simp]:
  "readContinuityRow first_owner = Some (''1'', Committed demo_id (cas_token ''1'' demo_id) first_checkpoint)"
  by (simp add: readContinuityRow_def demo_owner_def canonicalUint64_def MAX_UINT64_def)
    (simp add: demo_checkpoint_def)

lemma demo_successors:
  "valid_successor (Uninitialized i t) first_checkpoint" "valid_successor (Committed i t first_checkpoint) second_checkpoint"
  "isImmediateSuccessor second_checkpoint first_checkpoint" "anchor_step None (Some first_checkpoint)"
  "first_checkpoint \<noteq> second_checkpoint" "second_checkpoint \<noteq> first_checkpoint"
  by (simp_all add: valid_successor_def isImmediateSuccessor_def demo_checkpoint_def MAX_UINT64_def anchor_step_targets)

lemma demo_first_turn:
  assumes "an_env s = fresh_owner" and "an_anchorId s = demo_id" and "an_unsettledSeamCalls s < an_maxPendingOperations s"
  shows "reconcileInternal demo_authority first_checkpoint s
     = (Inr (Initialized, Committed demo_id (cas_token ''1'' demo_id) first_checkpoint), s\<lparr>an_env := first_owner\<rparr>)"
  using demo_readAnchor [OF demo_rows(1) assms]
    demo_promote [OF demo_rows(1) demo_storable(1) demo_successors(1) demo_generations(1) assms]
  by (simp add: reconcileInternal_def bindE_def retE_def promoted_as_def) (simp add: demo_checkpoint_def)

lemma demo_matched:
  assumes "an_env s = first_owner" and "an_anchorId s = demo_id" and "an_unsettledSeamCalls s < an_maxPendingOperations s"
  shows "reconcileInternal demo_authority first_checkpoint s
     = (Inr (Matched, Committed demo_id (cas_token ''1'' demo_id) first_checkpoint), s)"
  using demo_readAnchor [OF demo_first_row assms] by (simp add: reconcileInternal_def bindE_def retE_def)

lemma demo_second_turn:
  assumes "an_env s = first_owner" and "an_anchorId s = demo_id" and "an_unsettledSeamCalls s < an_maxPendingOperations s"
    and "\<not> an_reconciliationRequired s"
  shows "advance_turn demo_authority (demo_publish ''swapped'') first_checkpoint second_checkpoint s
     = (Inr (CommittedNext, Committed demo_id (cas_token ''2'' demo_id) second_checkpoint), s\<lparr>an_env := second_owner\<rparr>)"
proof -
  note r = demo_matched [OF assms(1-3)]
  have "demo_publish ''swapped'' first_checkpoint second_checkpoint (an_env s) =
      (Fulfilled (Some (JObj [(''outcome'', JStr ''swapped''), (''current'', checkpoint_json second_checkpoint)])), first_owner)"
    using assms(1) by (simp add: demo_publish_def)
  moreover have "s\<lparr>an_env := first_owner\<rparr> = s" using assms(1) by (cases s) simp
  ultimately have p: "publishLocalState (demo_publish ''swapped'') first_checkpoint second_checkpoint s = (Inr (), s)"
    using assms(2) demo_first(2) [of FromCaller]
    by (simp add: publishLocalState_def bindE_def getsE_def retE_def call_fulfilled [OF assms(3)]
        parseLocalCasResult_def hasExactKeys_def)
  show ?thesis
    using demo_promote [OF demo_first_row demo_storable(2) demo_successors(2) demo_generations(2) assms(1-3)] r p assms(4)
    by (simp add: advance_turn_def bindE_def thenE_def getsE_def retE_def promoted_as_def)
qed

lemma demo_commits_accepted:
  "accepted (aq_answers (queue_run demo_authority demo_commits (new_queue (demo_anchor fresh_owner))))
   = [first_checkpoint, second_checkpoint]"
  by (simp add: queue_run_def demo_commits_def new_queue_def demo_anchor_def enter_queue_def admit_def em_defs
      demo_first checked_pair_def demo_successors answer_call_def run_turn_eq reconcile_turn_def demo_first_turn
      demo_second_turn release_turn_def)

section \<open>Witnesses\<close>

lemma demo_checkpoint_simps [simp]:
  "cp_sequence (demo_checkpoint n c p) = n" "cp_commitId (demo_checkpoint n c p) = c"
  "cp_parentCommitId (demo_checkpoint n c p) = p"
  by (simp_all add: demo_checkpoint_def)

lemma demo_anchor_simps [simp]:
  "an_anchorId (demo_anchor u) = demo_id" "an_env (demo_anchor u) = u" "an_unsettledSeamCalls (demo_anchor u) = 0"
  "an_pendingOperations (demo_anchor u) = 0" "an_maxPendingOperations (demo_anchor u) = 2"
  "\<not> an_reconciliationRequired (demo_anchor u)"
  by (simp_all add: demo_anchor_def)

lemma demo_good: "owner_good fresh_owner" "owner_good second_owner"
  by (simp_all add: owner_good_def)

lemma demo_anchored: "owner_anchored fresh_owner = None" "owner_anchored second_owner = Some second_checkpoint"
  by (simp_all add: owner_anchored_def)

lemma demo_owner_id: "so_anchorId (demo_owner g n) = demo_id"
  by (simp add: demo_owner_def)

lemma demo_reconcile:
  "\<exists>d n s. reconcile demo_authority (Some (checkpoint_json first_checkpoint)) (demo_anchor fresh_owner) = (Inr (d, n), s)"
  using turn_of_reconcile [where A = demo_authority and s = "demo_anchor fresh_owner" and raw = "Some (checkpoint_json first_checkpoint)"]
    demo_first(1) [of FromCaller]
    demo_first_turn [of "(demo_anchor fresh_owner)\<lparr>an_pendingOperations := an_pendingOperations (demo_anchor fresh_owner) + 1\<rparr>"]
  by simp

theorem accepted_checkpoint_is_anchored_witness:
  "\<exists>d n s c. reconcile demo_authority (Some (checkpoint_json first_checkpoint)) (demo_anchor fresh_owner) = (Inr (d, n), s)
     \<and> snapshot_state n = Some c \<and> reaches None (Some c) \<and> reaches (Some c) (owner_anchored (an_env s))"
proof -
  obtain d n s where r: "reconcile demo_authority (Some (checkpoint_json first_checkpoint)) (demo_anchor fresh_owner) = (Inr (d, n), s)"
    using demo_reconcile by blast
  with accepted_checkpoint_is_anchored [OF owner_contract, of "demo_anchor fresh_owner" "demo_publish ''swapped''"
      demo_database "Some (checkpoint_json first_checkpoint)" d n s]
  show ?thesis by (auto simp: demo_good demo_anchored demo_publish_lawful)
qed

theorem accepted_checkpoints_never_fork_witness:
  "accepted (aq_answers (queue_run demo_authority demo_commits (new_queue (demo_anchor fresh_owner))))
     = [first_checkpoint, second_checkpoint]
   \<and> sorted_wrt precedes [first_checkpoint, second_checkpoint]"
  using accepted_checkpoints_never_fork [OF owner_contract, of "demo_anchor fresh_owner" demo_commits demo_database]
  by (simp only: demo_commits_accepted demo_anchor_simps demo_good)
    (simp add: demo_commits_def demo_publish_lawful)

theorem admission_is_bounded_witness:
  "\<exists>s. newContinuityAnchor demo_id None (Some 2) fresh_owner = Some s
     \<and> length (aq_turns (queue_run demo_authority demo_commits (new_queue s))) \<le> 2
     \<and> an_unsettledSeamCalls (aq_anchor (queue_run demo_authority demo_commits (new_queue s))) \<le> 2"
proof -
  have "newContinuityAnchor demo_id None (Some 2) fresh_owner = Some (demo_anchor fresh_owner)"
    using identifier_length [OF demo_storable(3)]
    by (simp add: newContinuityAnchor_def demo_anchor_def with_default_def
        RELAY_V2_CONTINUITY_DEFAULT_OPERATION_TIMEOUT_MS_def RELAY_V2_CONTINUITY_MAX_OPERATION_TIMEOUT_MS_def
        RELAY_V2_CONTINUITY_MAX_PENDING_OPERATIONS_def)
  with admission_is_bounded [OF this, of demo_authority demo_commits] show ?thesis by (intro exI) auto
qed

lemma demo_uncertain:
  "\<exists>s. advanceAnchor demo_authority (demo_publish ''uncertain'') (Some (checkpoint_json first_checkpoint))
       (Some (checkpoint_json second_checkpoint)) (demo_anchor first_owner) = (Inl STATE_COMMIT_UNCERTAIN, s)
     \<and> an_reconciliationRequired s"
proof -
  let ?s = "(demo_anchor first_owner)\<lparr>an_pendingOperations := Suc 0\<rparr>"
  have call: "callSeam (demo_publish ''uncertain'' first_checkpoint second_checkpoint) STATE_COMMIT_UNCERTAIN BUSY True ?s
      = (Inr (Some (JObj [(''outcome'', JStr ''uncertain'')])), ?s\<lparr>an_env := first_owner\<rparr>)"
    by (rule call_fulfilled) (simp_all add: demo_publish_def)
  show ?thesis
    using demo_matched [of ?s]
    by (simp add: advanceAnchor_def checked_pair_def demo_first demo_successors serialize_eq run_turn_eq advance_turn_def
        publishLocalState_def bindE_def thenE_def getsE_def liftE_def call parseLocalCasResult_def
        hasExactKeys_def failRequiringReconciliation_def whenE_def modifyE_def throwE_def release_turn_def)
qed

theorem uncertain_commit_requires_reconciliation_witness:
  "\<exists>s. advanceAnchor demo_authority (demo_publish ''uncertain'') (Some (checkpoint_json first_checkpoint))
       (Some (checkpoint_json second_checkpoint)) (demo_anchor first_owner) = (Inl STATE_COMMIT_UNCERTAIN, s)
     \<and> ((\<forall>publish. advanceAnchor demo_authority publish (Some (checkpoint_json first_checkpoint))
             (Some (checkpoint_json second_checkpoint)) (demo_anchor first_owner) = (Inl STATE_COMMIT_UNCERTAIN, s))
        \<or> an_reconciliationRequired s
          \<and> (\<forall>publish c n. \<exists>e2 s2. advanceAnchor demo_authority publish c n s = (Inl e2, s2) \<and> an_env s2 = an_env s))"
proof -
  obtain s where "advanceAnchor demo_authority (demo_publish ''uncertain'') (Some (checkpoint_json first_checkpoint))
       (Some (checkpoint_json second_checkpoint)) (demo_anchor first_owner) = (Inl STATE_COMMIT_UNCERTAIN, s)"
    using demo_uncertain by blast
  with uncertain_commit_requires_reconciliation [OF this] show ?thesis by (intro exI [of _ s]) blast
qed

theorem crash_window_is_reconciled_witness:
  "\<exists>d n s. reconcile demo_authority (Some (checkpoint_json first_checkpoint)) (demo_anchor fresh_owner) = (Inr (d, n), s)
     \<and> owner_anchored (an_env s) = Some first_checkpoint"
  using crash_window_is_reconciled [of demo_database "demo_anchor fresh_owner" "Some (checkpoint_json first_checkpoint)" first_checkpoint]
  by (auto simp: demo_serving demo_first demo_anchored demo_successors demo_owner_id MAX_UINT64_def)

theorem rollback_is_detected_witness:
  "\<exists>d. reconcile demo_authority (Some (checkpoint_json first_checkpoint)) (demo_anchor second_owner)
     = (Inl ROLLBACK_DETECTED, (demo_anchor second_owner)\<lparr>an_env := second_owner\<lparr>so_database := d\<rparr>\<rparr>)"
  using rollback_is_detected [of demo_database "demo_anchor second_owner" "Some (checkpoint_json first_checkpoint)" first_checkpoint]
  by (auto simp: demo_serving demo_first demo_anchored demo_successors demo_owner_id anchor_step_targets isImmediateSuccessor_def)

end
