(* ===== verification/RV2_CloseCoordinator.thy ===== *)
theory RV2_CloseCoordinator
  imports TC_Protocol
begin

text \<open>
  The transport close coordinator of the Relay v2 broker,
  \<open>src/relay/v2/brokerTransportCloseCoordinator.ts\<close>. When an authorization is withdrawn, the broker
  signals the sockets that used it; the coordinator asks each of them to close and destroys the ones
  that have not gone after a deadline.

  Objects have an identity: a socket entry is the number under which it was created, a managed lease
  likewise. What the coordinator hands to its environment is part of the state: the armed timers of
  the deadline scheduler, the queue of microtasks, and the close calls that may still fail, by a
  throw or by a rejected promise. The calls of the sockets are a trace. The parameter \<open>cancels\<close> says
  which cancellations take effect: a scheduler may throw, and the coordinator ignores it. A socket has
  the kind and the functions its type gives it, so that a registration is refused for its id only;
  the incarnation, a random UUID in the code, is an argument of the registration. A close call that
  fails, at once or later, is an event of its own.
\<close>

section \<open>Data\<close>

datatype socket_kind = ClientSocket | HostSocket

datatype close_reason =
    AccessExpired
  | GrantRevoked
  | KidRemoved
  | CredentialAuthorityUnavailable
  | HostAuthorizationFenced

datatype socket_state = OpenSocket | ClosingSocket | DestroyedSocket | UnregisteredSocket

record socket_entry =
  se_kind :: socket_kind
  se_connectionId :: string
  se_incarnation :: string
  se_state :: socket_state
  se_closeRequested :: bool
  se_forceDestroyRequested :: bool
  se_deadlineInstalled :: bool
  se_deadlineHandle :: "nat option"

record managed_lease =
  ml_entry :: nat
  ml_claimed :: bool
  ml_terminal :: bool

record close_signal =
  cs_kind :: socket_kind
  cs_connectionId :: string
  cs_incarnation :: string
  cs_reason :: close_reason

datatype socket_call = CloseCall nat int close_reason | DestroyCall nat

record coordinator =
  co_entries :: "socket_entry list"
  co_clients :: "string \<rightharpoonup> nat"
  co_hosts :: "string \<rightharpoonup> nat"
  co_leases :: "managed_lease list"
  co_timers :: "(nat \<times> nat) list"
  co_nextHandle :: nat
  co_microtasks :: "(nat \<times> close_reason) list"
  co_closeCalls :: "nat list"
  co_trace :: "socket_call list"

definition new_coordinator :: coordinator where
  "new_coordinator = \<lparr>co_entries = [], co_clients = Map.empty, co_hosts = Map.empty, co_leases = [], co_timers = [],
     co_nextHandle = 0, co_microtasks = [], co_closeCalls = [], co_trace = []\<rparr>"

section \<open>Signals\<close>

text \<open>
  \<open>isRelayV2AuthIdentifier\<close> of \<open>token.ts\<close>; the code units of the development's strings are below 256,
  so that none of them is a surrogate.
\<close>

fun isRelayV2AuthIdentifier :: "json option \<Rightarrow> bool" where
  "isRelayV2AuthIdentifier (Some (JStr s)) =
     (s \<noteq> [] \<and> utf8_length s \<le> 128 \<and> trim s = s
      \<and> list_all (\<lambda>c. c \<noteq> CHR 0x00 \<and> c \<noteq> CHR 0x0D \<and> c \<noteq> CHR 0x0A) s)"
| "isRelayV2AuthIdentifier v = False"

fun close_reason_name :: "close_reason \<Rightarrow> string" where
  "close_reason_name AccessExpired = ''access_expired''"
| "close_reason_name GrantRevoked = ''grant_revoked''"
| "close_reason_name KidRemoved = ''kid_removed''"
| "close_reason_name CredentialAuthorityUnavailable = ''credential_authority_unavailable''"
| "close_reason_name HostAuthorizationFenced = ''host_authorization_fenced''"

definition isCloseReason :: "json option \<Rightarrow> close_reason option" where
  "isCloseReason v =
     find (\<lambda>r. v = Some (JStr (close_reason_name r)))
       [AccessExpired, GrantRevoked, KidRemoved, CredentialAuthorityUnavailable, HostAuthorizationFenced]"

fun socket_kind_name :: "socket_kind \<Rightarrow> string" where
  "socket_kind_name ClientSocket = ''client''"
| "socket_kind_name HostSocket = ''host''"

definition socket_kind_of :: "json option \<Rightarrow> socket_kind option" where
  "socket_kind_of v = find (\<lambda>k. v = Some (JStr (socket_kind_name k))) [ClientSocket, HostSocket]"

fun id_key :: "socket_kind \<Rightarrow> string" where
  "id_key ClientSocket = ''connectionId''"
| "id_key HostSocket = ''transportId''"

fun string_value :: "json option \<Rightarrow> string" where
  "string_value (Some (JStr s)) = s"
| "string_value v = []"

definition parseCloseSignal :: "json option \<Rightarrow> close_signal option" where
  "parseCloseSignal signal =
     (case isRecord signal of
        None \<Rightarrow> None
      | Some kvs \<Rightarrow>
          (case (socket_kind_of (map_of kvs ''connectionKind''), isCloseReason (map_of kvs ''reason'')) of
             (Some kind, Some reason) \<Rightarrow>
               if \<not> isRelayV2AuthIdentifier (map_of kvs ''connectionIncarnation'')
                 \<or> \<not> isRelayV2AuthIdentifier (map_of kvs (id_key kind))
               then None
               else Some \<lparr>cs_kind = kind, cs_connectionId = string_value (map_of kvs (id_key kind)),
                          cs_incarnation = string_value (map_of kvs ''connectionIncarnation''), cs_reason = reason\<rparr>
           | _ \<Rightarrow> None))"

fun closeCodeFor :: "close_reason \<Rightarrow> int" where
  "closeCodeFor AccessExpired = 4401"
| "closeCodeFor GrantRevoked = 4403"
| "closeCodeFor KidRemoved = 4403"
| "closeCodeFor CredentialAuthorityUnavailable = 1013"
| "closeCodeFor HostAuthorizationFenced = 1013"

section \<open>Entries and registries\<close>

abbreviation entry :: "coordinator \<Rightarrow> nat \<Rightarrow> socket_entry" where
  "entry c k \<equiv> co_entries c ! k"

definition upd_entry :: "nat \<Rightarrow> (socket_entry \<Rightarrow> socket_entry) \<Rightarrow> coordinator \<Rightarrow> coordinator" where
  "upd_entry k f c = c\<lparr>co_entries := (co_entries c)[k := f (entry c k)]\<rparr>"

definition registryFor :: "socket_kind \<Rightarrow> coordinator \<Rightarrow> string \<rightharpoonup> nat" where
  "registryFor kind c = (case kind of ClientSocket \<Rightarrow> co_clients c | HostSocket \<Rightarrow> co_hosts c)"

definition upd_registry :: "socket_kind \<Rightarrow> string \<Rightarrow> nat option \<Rightarrow> coordinator \<Rightarrow> coordinator" where
  "upd_registry kind i v c =
     (case kind of
        ClientSocket \<Rightarrow> c\<lparr>co_clients := (co_clients c)(i := v)\<rparr>
      | HostSocket \<Rightarrow> c\<lparr>co_hosts := (co_hosts c)(i := v)\<rparr>)"

text \<open>\<open>if (registry.get(entry.connectionId) === entry) registry.delete(entry.connectionId)\<close>\<close>

definition drop_registration :: "nat \<Rightarrow> coordinator \<Rightarrow> coordinator" where
  "drop_registration k c =
     (let kind = se_kind (entry c k); i = se_connectionId (entry c k) in
      if registryFor kind c i = Some k then upd_registry kind i None c else c)"

datatype coordinator_error = InvalidRegistration | DuplicateRegistration | InvalidLease | StaleLease

definition fresh_entry :: "socket_kind \<Rightarrow> string \<Rightarrow> string \<Rightarrow> socket_entry" where
  "fresh_entry kind i incarnation =
     \<lparr>se_kind = kind, se_connectionId = i, se_incarnation = incarnation, se_state = OpenSocket, se_closeRequested = False,
      se_forceDestroyRequested = False, se_deadlineInstalled = False, se_deadlineHandle = None\<rparr>"

definition registerEntry ::
  "socket_kind \<Rightarrow> string \<Rightarrow> string \<Rightarrow> coordinator \<Rightarrow> coordinator_error + nat \<times> coordinator" where
  "registerEntry kind i incarnation c =
     (if \<not> isRelayV2AuthIdentifier (Some (JStr i)) then Inl InvalidRegistration
      else if registryFor kind c i \<noteq> None then Inl DuplicateRegistration
      else
        (let k = length (co_entries c) in
         Inr (k, upd_registry kind i (Some k) (c\<lparr>co_entries := co_entries c @ [fresh_entry kind i incarnation]\<rparr>))))"

text \<open>A managed registration also issues a lease: its number, the entry and the changed coordinator.\<close>

definition registerManagedClientSocket ::
  "string \<Rightarrow> string \<Rightarrow> coordinator \<Rightarrow> coordinator_error + nat \<times> nat \<times> coordinator" where
  "registerManagedClientSocket i incarnation c =
     (case registerEntry ClientSocket i incarnation c of
        Inl e \<Rightarrow> Inl e
      | Inr (k, c') \<Rightarrow>
          Inr (length (co_leases c'), k,
            c'\<lparr>co_leases := co_leases c' @ [\<lparr>ml_entry = k, ml_claimed = False, ml_terminal = False\<rparr>]\<rparr>))"

section \<open>Closing and destroying\<close>

definition cancel_timer :: "(nat \<Rightarrow> bool) \<Rightarrow> nat option \<Rightarrow> coordinator \<Rightarrow> coordinator" where
  "cancel_timer cancels handle c =
     (case handle of
        None \<Rightarrow> c
      | Some h \<Rightarrow> if cancels h then c\<lparr>co_timers := filter (\<lambda>(h', k). h' \<noteq> h) (co_timers c)\<rparr> else c)"

definition disarm :: "socket_entry \<Rightarrow> socket_entry" where
  "disarm e = e\<lparr>se_deadlineInstalled := False, se_deadlineHandle := None\<rparr>"

definition cancelDeadline :: "(nat \<Rightarrow> bool) \<Rightarrow> nat \<Rightarrow> coordinator \<Rightarrow> coordinator" where
  "cancelDeadline cancels k c =
     (if \<not> se_deadlineInstalled (entry c k) then c
      else cancel_timer cancels (se_deadlineHandle (entry c k)) (upd_entry k disarm c))"

definition forceDestroy :: "(nat \<Rightarrow> bool) \<Rightarrow> nat \<Rightarrow> coordinator \<Rightarrow> coordinator" where
  "forceDestroy cancels k c =
     (if se_state (entry c k) = UnregisteredSocket \<or> se_forceDestroyRequested (entry c k) then c
      else
        (let c1 = upd_entry k (\<lambda>e. e\<lparr>se_forceDestroyRequested := True, se_state := DestroyedSocket\<rparr>) c;
             c2 = cancelDeadline cancels k c1
         in c2\<lparr>co_trace := co_trace c2 @ [DestroyCall k]\<rparr>))"

definition requestClose :: "nat \<Rightarrow> close_reason \<Rightarrow> coordinator \<Rightarrow> coordinator" where
  "requestClose k reason c =
     (if se_state (entry c k) \<noteq> ClosingSocket \<or> se_closeRequested (entry c k) then c
      else
        (let c1 = upd_entry k (\<lambda>e. e\<lparr>se_closeRequested := True\<rparr>) c
         in c1\<lparr>co_closeCalls := co_closeCalls c1 @ [k],
               co_trace := co_trace c1 @ [CloseCall k (closeCodeFor reason) reason]\<rparr>))"

text \<open>
  What the scheduler and the microtask queue do when a close is signalled: \<open>schedule\<close> throws, or it
  runs its callback before it returns, or it arms a timer, after which the microtask is queued or
  refused.
\<close>

datatype schedule_outcome = ScheduleThrows | FiresAtOnce | TimerArmed bool

definition begin_close :: "(nat \<Rightarrow> bool) \<Rightarrow> schedule_outcome \<Rightarrow> nat \<Rightarrow> close_reason \<Rightarrow> coordinator \<Rightarrow> coordinator" where
  "begin_close cancels outcome k reason c =
     (let c1 = upd_entry k (\<lambda>e. e\<lparr>se_state := ClosingSocket, se_deadlineInstalled := True\<rparr>) c in
      case outcome of
        ScheduleThrows \<Rightarrow> forceDestroy cancels k (upd_entry k disarm c1)
      | FiresAtOnce \<Rightarrow> forceDestroy cancels k (upd_entry k disarm c1)
      | TimerArmed queued \<Rightarrow>
          (let h = co_nextHandle c1;
               c2 = c1\<lparr>co_timers := co_timers c1 @ [(h, k)], co_nextHandle := h + 1\<rparr>;
               c3 = upd_entry k (\<lambda>e. e\<lparr>se_deadlineHandle := Some h\<rparr>) c2
           in if queued then c3\<lparr>co_microtasks := co_microtasks c3 @ [(k, reason)]\<rparr>
              else forceDestroy cancels k c3))"

definition handleLiveAuthorizationClose ::
  "(nat \<Rightarrow> bool) \<Rightarrow> schedule_outcome \<Rightarrow> json option \<Rightarrow> coordinator \<Rightarrow> bool \<times> coordinator" where
  "handleLiveAuthorizationClose cancels outcome signal c =
     (case parseCloseSignal signal of
        None \<Rightarrow> (False, c)
      | Some s \<Rightarrow>
          (case registryFor (cs_kind s) c (cs_connectionId s) of
             None \<Rightarrow> (False, c)
           | Some k \<Rightarrow>
               if se_incarnation (entry c k) \<noteq> cs_incarnation s \<or> se_state (entry c k) = UnregisteredSocket
               then (False, c)
               else if se_state (entry c k) = ClosingSocket \<or> se_state (entry c k) = DestroyedSocket
               then (True, c)
               else (True, begin_close cancels outcome k (cs_reason s) c)))"

text \<open>A timer fires; a microtask runs; a close call throws or its promise is rejected.\<close>

definition deadline_fires :: "(nat \<Rightarrow> bool) \<Rightarrow> nat \<Rightarrow> coordinator \<Rightarrow> coordinator" where
  "deadline_fires cancels h c =
     (case map_of (co_timers c) h of
        None \<Rightarrow> c
      | Some k \<Rightarrow>
          forceDestroy cancels k
            (upd_entry k disarm (c\<lparr>co_timers := filter (\<lambda>(h', k'). h' \<noteq> h) (co_timers c)\<rparr>)))"

definition run_microtask :: "coordinator \<Rightarrow> coordinator" where
  "run_microtask c =
     (case co_microtasks c of
        [] \<Rightarrow> c
      | (k, reason) # rest \<Rightarrow> requestClose k reason (c\<lparr>co_microtasks := rest\<rparr>))"

definition close_call_fails :: "(nat \<Rightarrow> bool) \<Rightarrow> nat \<Rightarrow> coordinator \<Rightarrow> coordinator" where
  "close_call_fails cancels k c =
     (if k \<in> set (co_closeCalls c)
      then forceDestroy cancels k (c\<lparr>co_closeCalls := remove1 k (co_closeCalls c)\<rparr>) else c)"

section \<open>Registrations and leases\<close>

definition end_registration :: "(nat \<Rightarrow> bool) \<Rightarrow> nat \<Rightarrow> coordinator \<Rightarrow> coordinator" where
  "end_registration cancels k c =
     cancelDeadline cancels k
       (drop_registration k (upd_entry k (\<lambda>e. e\<lparr>se_state := UnregisteredSocket\<rparr>) c))"

definition unregister :: "(nat \<Rightarrow> bool) \<Rightarrow> nat \<Rightarrow> coordinator \<Rightarrow> coordinator" where
  "unregister cancels k c =
     (if se_state (entry c k) = UnregisteredSocket then c else end_registration cancels k c)"

definition upd_lease :: "nat \<Rightarrow> (managed_lease \<Rightarrow> managed_lease) \<Rightarrow> coordinator \<Rightarrow> coordinator" where
  "upd_lease l f c = c\<lparr>co_leases := (co_leases c)[l := f (co_leases c ! l)]\<rparr>"

definition consumeRelayV2BrokerClientTransportCloseLease ::
  "nat \<Rightarrow> string \<Rightarrow> coordinator \<Rightarrow> coordinator_error + string \<times> coordinator" where
  "consumeRelayV2BrokerClientTransportCloseLease l i c =
     (if \<not> isRelayV2AuthIdentifier (Some (JStr i)) then Inl InvalidLease
      else if length (co_leases c) \<le> l then Inl StaleLease
      else
        (let state = co_leases c ! l; e = entry c (ml_entry state) in
         if ml_claimed state \<or> ml_terminal state \<or> se_kind e \<noteq> ClientSocket \<or> se_connectionId e \<noteq> i
           \<or> se_state e = UnregisteredSocket
         then Inl StaleLease
         else Inr (se_incarnation e, upd_lease l (\<lambda>s. s\<lparr>ml_claimed := True\<rparr>) c)))"

definition forceDestroyManagedSocket :: "(nat \<Rightarrow> bool) \<Rightarrow> nat \<Rightarrow> coordinator \<Rightarrow> bool \<times> coordinator" where
  "forceDestroyManagedSocket cancels l c =
     (if length (co_leases c) \<le> l \<or> ml_terminal (co_leases c ! l) then (False, c)
      else (True, forceDestroy cancels (ml_entry (co_leases c ! l)) c))"

definition terminalAndUnregisterManagedSocket :: "(nat \<Rightarrow> bool) \<Rightarrow> nat \<Rightarrow> coordinator \<Rightarrow> bool \<times> coordinator" where
  "terminalAndUnregisterManagedSocket cancels l c =
     (if length (co_leases c) \<le> l \<or> \<not> ml_claimed (co_leases c ! l) then (False, c)
      else if ml_terminal (co_leases c ! l) then (True, c)
      else (True, end_registration cancels (ml_entry (co_leases c ! l)) (upd_lease l (\<lambda>s. s\<lparr>ml_terminal := True\<rparr>) c)))"

section \<open>Runs\<close>

text \<open>
  The steps of a coordinator: every operation, and every event it waits for, in any order. Only a
  registration that is not managed hands out \<open>unregister\<close>.
\<close>

inductive coordinator_step :: "(nat \<Rightarrow> bool) \<Rightarrow> coordinator \<Rightarrow> coordinator \<Rightarrow> bool" for cancels where
  register: "registerEntry kind i incarnation c = Inr (k, c') \<Longrightarrow> coordinator_step cancels c c'"
| register_managed: "registerManagedClientSocket i incarnation c = Inr (l, k, c') \<Longrightarrow> coordinator_step cancels c c'"
| unregistered: "k < length (co_entries c) \<Longrightarrow> k \<notin> ml_entry ` set (co_leases c) \<Longrightarrow>
    coordinator_step cancels c (unregister cancels k c)"
| signalled: "handleLiveAuthorizationClose cancels outcome signal c = (b, c') \<Longrightarrow> coordinator_step cancels c c'"
| deadline: "coordinator_step cancels c (deadline_fires cancels h c)"
| microtask: "coordinator_step cancels c (run_microtask c)"
| close_failed: "coordinator_step cancels c (close_call_fails cancels k c)"
| consumed: "consumeRelayV2BrokerClientTransportCloseLease l i c = Inr (s, c') \<Longrightarrow> coordinator_step cancels c c'"
| destroyed_managed: "forceDestroyManagedSocket cancels l c = (b, c') \<Longrightarrow> coordinator_step cancels c c'"
| terminated_managed: "terminalAndUnregisterManagedSocket cancels l c = (b, c') \<Longrightarrow> coordinator_step cancels c c'"

abbreviation coordinator_run :: "(nat \<Rightarrow> bool) \<Rightarrow> coordinator \<Rightarrow> coordinator \<Rightarrow> bool" where
  "coordinator_run cancels \<equiv> (coordinator_step cancels)\<^sup>*\<^sup>*"

end
