(* ===== verification/RV2_CloseFacts.thy ===== *)
theory RV2_CloseFacts
  imports RV2_CloseCoordinator
begin

text \<open>
  The invariant of the transport close coordinator: no socket is closed or destroyed twice, none is
  closed after it was destroyed, and a socket that was told to close stays under an armed deadline
  until it is destroyed or has ended; and the steps that concern one socket only.
\<close>

section \<open>The invariant\<close>

fun call_target :: "socket_call \<Rightarrow> nat" where
  "call_target (CloseCall k code reason) = k"
| "call_target (DestroyCall k) = k"

definition calls_of :: "nat \<Rightarrow> coordinator \<Rightarrow> socket_call list" where
  "calls_of k c = filter (\<lambda>x. call_target x = k) (co_trace c)"

text \<open>The calls one socket has received: at most one close, then at most one destroy.\<close>

definition expected_calls :: "nat \<Rightarrow> socket_entry \<Rightarrow> socket_call list \<Rightarrow> bool" where
  "expected_calls k e xs \<longleftrightarrow>
     (\<exists>r. xs = (if se_closeRequested e then [CloseCall k (closeCodeFor r) r] else [])
               @ (if se_forceDestroyRequested e then [DestroyCall k] else []))"

definition registered :: "coordinator \<Rightarrow> nat \<Rightarrow> bool" where
  "registered c k \<longleftrightarrow> registryFor (se_kind (entry c k)) c (se_connectionId (entry c k)) = Some k"

text \<open>The timer an entry refers to is armed for it.\<close>

definition armed :: "coordinator \<Rightarrow> nat \<Rightarrow> bool" where
  "armed c k \<longleftrightarrow> (\<exists>h. se_deadlineHandle (entry c k) = Some h \<and> (h, k) \<in> set (co_timers c))"

definition entry_ok :: "coordinator \<Rightarrow> nat \<Rightarrow> bool" where
  "entry_ok c k \<longleftrightarrow>
     (registered c k \<longleftrightarrow> se_state (entry c k) \<noteq> UnregisteredSocket)
     \<and> expected_calls k (entry c k) (calls_of k c)
     \<and> (se_deadlineInstalled (entry c k) \<longleftrightarrow> se_state (entry c k) = ClosingSocket)
     \<and> (if se_deadlineInstalled (entry c k) then armed c k else se_deadlineHandle (entry c k) = None)
     \<and> (case se_state (entry c k) of
          OpenSocket \<Rightarrow> \<not> se_closeRequested (entry c k) \<and> \<not> se_forceDestroyRequested (entry c k)
        | ClosingSocket \<Rightarrow> \<not> se_forceDestroyRequested (entry c k)
            \<and> (se_closeRequested (entry c k) \<or> k \<in> fst ` set (co_microtasks c))
        | DestroyedSocket \<Rightarrow> se_forceDestroyRequested (entry c k)
        | UnregisteredSocket \<Rightarrow> True)"

definition timers_ok :: "coordinator \<Rightarrow> bool" where
  "timers_ok c \<longleftrightarrow> distinct (map fst (co_timers c))
     \<and> (\<forall>(h, k) \<in> set (co_timers c). h < co_nextHandle c \<and> k < length (co_entries c))"

definition mentioned :: "coordinator \<Rightarrow> nat set" where
  "mentioned c = fst ` set (co_microtasks c) \<union> set (co_closeCalls c) \<union> ml_entry ` set (co_leases c)
     \<union> call_target ` set (co_trace c)"

definition registry_ok :: "coordinator \<Rightarrow> bool" where
  "registry_ok c \<longleftrightarrow> (\<forall>kind i k. registryFor kind c i = Some k \<longrightarrow>
     k < length (co_entries c) \<and> se_kind (entry c k) = kind \<and> se_connectionId (entry c k) = i)"

definition global_ok :: "coordinator \<Rightarrow> bool" where
  "global_ok c \<longleftrightarrow> registry_ok c \<and> timers_ok c \<and> (\<forall>k \<in> mentioned c. k < length (co_entries c))"

definition coordinator_ok :: "coordinator \<Rightarrow> bool" where
  "coordinator_ok c \<longleftrightarrow> global_ok c \<and> (\<forall>k < length (co_entries c). entry_ok c k)"

section \<open>The effect of the helpers on each part of the state\<close>

lemma upd_entry_simps [simp]:
  "co_entries (upd_entry k f c) = (co_entries c)[k := f (entry c k)]" "co_clients (upd_entry k f c) = co_clients c"
  "co_hosts (upd_entry k f c) = co_hosts c" "co_leases (upd_entry k f c) = co_leases c"
  "co_timers (upd_entry k f c) = co_timers c" "co_nextHandle (upd_entry k f c) = co_nextHandle c"
  "co_microtasks (upd_entry k f c) = co_microtasks c" "co_closeCalls (upd_entry k f c) = co_closeCalls c"
  "co_trace (upd_entry k f c) = co_trace c" "registryFor kind (upd_entry k f c) = registryFor kind c"
  by (simp_all add: upd_entry_def registryFor_def split: socket_kind.split)

lemma cancel_timer_simps [simp]:
  "co_entries (cancel_timer cancels v c) = co_entries c" "co_leases (cancel_timer cancels v c) = co_leases c"
  "co_nextHandle (cancel_timer cancels v c) = co_nextHandle c" "co_microtasks (cancel_timer cancels v c) = co_microtasks c"
  "co_closeCalls (cancel_timer cancels v c) = co_closeCalls c" "co_trace (cancel_timer cancels v c) = co_trace c"
  "registryFor kind (cancel_timer cancels v c) = registryFor kind c"
  by (simp_all add: cancel_timer_def registryFor_def split: option.split socket_kind.split)

lemma registry_frame [simp]:
  "registryFor kind (c\<lparr>co_trace := t\<rparr>) = registryFor kind c" "registryFor kind (c\<lparr>co_timers := ts\<rparr>) = registryFor kind c"
  "registryFor kind (c\<lparr>co_microtasks := ms\<rparr>) = registryFor kind c" "registryFor kind (c\<lparr>co_closeCalls := cs\<rparr>) = registryFor kind c"
  "registryFor kind (c\<lparr>co_leases := ls\<rparr>) = registryFor kind c" "registryFor kind (c\<lparr>co_entries := es\<rparr>) = registryFor kind c"
  "registryFor kind (c\<lparr>co_nextHandle := n\<rparr>) = registryFor kind c"
  by (simp_all add: registryFor_def split: socket_kind.split)

lemma upd_registry_simps [simp]:
  "co_entries (upd_registry kind i v c) = co_entries c" "co_leases (upd_registry kind i v c) = co_leases c"
  "co_timers (upd_registry kind i v c) = co_timers c" "co_nextHandle (upd_registry kind i v c) = co_nextHandle c"
  "co_microtasks (upd_registry kind i v c) = co_microtasks c" "co_closeCalls (upd_registry kind i v c) = co_closeCalls c"
  "co_trace (upd_registry kind i v c) = co_trace c"
  "registryFor kind' (upd_registry kind i v c) =
     (if kind' = kind then (registryFor kind c)(i := v) else registryFor kind' c)"
  by (cases kind; cases kind'; simp add: upd_registry_def registryFor_def)+

lemma disarm_simps [simp]:
  "se_kind (disarm e) = se_kind e" "se_connectionId (disarm e) = se_connectionId e" "se_state (disarm e) = se_state e"
  "se_incarnation (disarm e) = se_incarnation e" "se_closeRequested (disarm e) = se_closeRequested e"
  "se_forceDestroyRequested (disarm e) = se_forceDestroyRequested e" "\<not> se_deadlineInstalled (disarm e)"
  "se_deadlineHandle (disarm e) = None"
  by (simp_all add: disarm_def)

section \<open>Steps that concern one entry\<close>

text \<open>A step that touches at most entry \<open>k\<close>.\<close>

definition touched :: "nat \<Rightarrow> coordinator \<Rightarrow> coordinator \<Rightarrow> bool" where
  "touched k c c' \<longleftrightarrow>
     length (co_entries c') = length (co_entries c)
     \<and> (\<forall>j. j \<noteq> k \<longrightarrow> entry c' j = entry c j)
     \<and> se_kind (entry c' k) = se_kind (entry c k) \<and> se_connectionId (entry c' k) = se_connectionId (entry c k)
     \<and> registryFor ClientSocket c' = registryFor ClientSocket c \<and> registryFor HostSocket c' = registryFor HostSocket c
     \<and> (\<forall>j. j \<noteq> k \<longrightarrow> calls_of j c' = calls_of j c)
     \<and> (\<forall>h j. j \<noteq> k \<longrightarrow> (h, j) \<in> set (co_timers c) \<longrightarrow> (h, j) \<in> set (co_timers c'))
     \<and> (k < length (co_entries c) \<longrightarrow> timers_ok c \<longrightarrow> timers_ok c')
     \<and> (\<forall>j. j \<noteq> k \<longrightarrow> j \<in> fst ` set (co_microtasks c) \<longrightarrow> j \<in> fst ` set (co_microtasks c'))
     \<and> mentioned c' \<subseteq> insert k (mentioned c)"

lemma touched_registry: "touched k c c' \<Longrightarrow> registryFor kind c' = registryFor kind c"
  by (cases kind) (simp_all add: touched_def)

lemma touched_refl [simp]: "touched k c c"
  by (auto simp: touched_def)

lemma touched_trans: "touched k a b \<Longrightarrow> touched k b c \<Longrightarrow> touched k a c"
  by (auto simp: touched_def)

lemma touched_other:
  assumes "touched k c c'" and "j \<noteq> k" and "entry_ok c j"
  shows "entry_ok c' j"
proof -
  from assms(1, 2) have eq: "entry c' j = entry c j" "calls_of j c' = calls_of j c"
    "\<And>h. (h, j) \<in> set (co_timers c) \<Longrightarrow> (h, j) \<in> set (co_timers c')"
    "j \<in> fst ` set (co_microtasks c) \<Longrightarrow> j \<in> fst ` set (co_microtasks c')"
    by (simp_all add: touched_def)
  have "registered c' j = registered c j" by (simp add: registered_def eq touched_registry [OF assms(1)])
  moreover have "armed c j \<Longrightarrow> armed c' j" using eq by (auto simp: armed_def)
  ultimately show ?thesis
    using assms(3) eq(4) unfolding entry_ok_def eq(1, 2) by (auto split: socket_state.splits if_splits)
qed

lemma touched_global:
  assumes "touched k c c'" and "k < length (co_entries c)" and "global_ok c"
  shows "global_ok c'"
proof -
  have id: "se_kind (entry c' j) = se_kind (entry c j)" "se_connectionId (entry c' j) = se_connectionId (entry c j)" for j
    using assms(1) by (cases "j = k"; simp add: touched_def)+
  have len: "length (co_entries c') = length (co_entries c)" and "mentioned c' \<subseteq> insert k (mentioned c)"
    and t: "timers_ok c \<Longrightarrow> timers_ok c'"
    using assms(1, 2) by (simp_all add: touched_def)
  with assms(2, 3) have m: "\<forall>j \<in> mentioned c'. j < length (co_entries c')" by (auto simp: global_ok_def)
  have "registry_ok c'"
    using assms(3) by (simp add: global_ok_def registry_ok_def touched_registry [OF assms(1)] id len)
  with assms(3) t m show ?thesis by (simp add: global_ok_def)
qed

lemma touched_ok:
  assumes "touched k c c'" and "k < length (co_entries c)" and "global_ok c"
    and "\<And>j. j < length (co_entries c) \<Longrightarrow> j \<noteq> k \<Longrightarrow> entry_ok c j" and "entry_ok c' k"
  shows "coordinator_ok c'"
  unfolding coordinator_ok_def
proof (intro conjI allI impI)
  show "global_ok c'" by (rule touched_global [OF assms(1-3)])
  fix j assume "j < length (co_entries c')"
  then have "j < length (co_entries c)" using assms(1) by (simp add: touched_def)
  then show "entry_ok c' j" using assms(4, 5) touched_other [OF assms(1)] by (cases "j = k") auto
qed

lemma touched_upd_entry:
  "(\<And>e. se_kind (f e) = se_kind e) \<Longrightarrow> (\<And>e. se_connectionId (f e) = se_connectionId e) \<Longrightarrow> touched k c (upd_entry k f c)"
  by (cases "k < length (co_entries c)")
    (auto simp: touched_def calls_of_def mentioned_def timers_ok_def list_update_beyond)

lemma touched_trace: "call_target x = k \<Longrightarrow> touched k c (c\<lparr>co_trace := co_trace c @ [x]\<rparr>)"
  by (auto simp: touched_def calls_of_def mentioned_def timers_ok_def)

lemma touched_drop_timer:
  assumes "\<And>j. (h, j) \<in> set (co_timers c) \<Longrightarrow> j = k"
  shows "touched k c (c\<lparr>co_timers := filter (\<lambda>(h', j). h' \<noteq> h) (co_timers c)\<rparr>)"
  using assms by (auto simp: touched_def calls_of_def mentioned_def timers_ok_def distinct_map_filter)

lemma touched_cancel:
  assumes "\<And>h j. v = Some h \<Longrightarrow> (h, j) \<in> set (co_timers c) \<Longrightarrow> j = k"
  shows "touched k c (cancel_timer cancels v c)"
  using assms touched_drop_timer by (auto simp: cancel_timer_def split: option.split)

lemma touched_arm:
  "touched k c (c\<lparr>co_timers := co_timers c @ [(co_nextHandle c, k)], co_nextHandle := co_nextHandle c + 1\<rparr>)"
  by (auto simp: touched_def calls_of_def mentioned_def timers_ok_def)

lemma touched_microtask: "touched k c (c\<lparr>co_microtasks := co_microtasks c @ [(k, r)]\<rparr>)"
  by (auto simp: touched_def calls_of_def mentioned_def timers_ok_def)

end
