(* ===== verification/RV2_CloseRuns.thy ===== *)
theory RV2_CloseRuns
  imports RV2_CloseFacts
begin

text \<open>
  The transport close coordinator at work: every operation and every event it waits for keeps the
  invariant of \<open>RV2_CloseFacts\<close>, a socket only moves forward (open, closing, destroyed, ended), and
  the two properties of its runs.
\<close>

section \<open>Destroying a socket\<close>

text \<open>The state in which \<open>forceDestroy\<close> finds the entry it destroys; every other entry is in order.\<close>

definition destroyable :: "coordinator \<Rightarrow> nat \<Rightarrow> bool" where
  "destroyable c k \<longleftrightarrow> global_ok c \<and> k < length (co_entries c)
     \<and> (\<forall>j < length (co_entries c). j \<noteq> k \<longrightarrow> entry_ok c j)
     \<and> registered c k \<and> se_state (entry c k) \<noteq> UnregisteredSocket \<and> \<not> se_forceDestroyRequested (entry c k)
     \<and> expected_calls k (entry c k) (calls_of k c)
     \<and> (if se_deadlineInstalled (entry c k) then armed c k else se_deadlineHandle (entry c k) = None)"

lemma timer_owner:
  assumes "timers_ok c" and "(h, k) \<in> set (co_timers c)" and "(h, j) \<in> set (co_timers c)"
  shows "j = k"
  using assms by (auto simp: timers_ok_def dest: eq_key_imp_eq_value)

definition destroyed_entry :: "socket_entry \<Rightarrow> socket_entry" where
  "destroyed_entry e = disarm (e\<lparr>se_forceDestroyRequested := True, se_state := DestroyedSocket\<rparr>)"

lemma destroyed_entry_simps [simp]:
  "se_kind (destroyed_entry e) = se_kind e" "se_connectionId (destroyed_entry e) = se_connectionId e"
  "se_state (destroyed_entry e) = DestroyedSocket" "se_closeRequested (destroyed_entry e) = se_closeRequested e"
  "se_forceDestroyRequested (destroyed_entry e)" "\<not> se_deadlineInstalled (destroyed_entry e)"
  "se_deadlineHandle (destroyed_entry e) = None"
  by (simp_all add: destroyed_entry_def)

lemma disarmed: "\<not> se_deadlineInstalled e \<Longrightarrow> se_deadlineHandle e = None \<Longrightarrow> disarm e = e"
  by (simp add: disarm_def)

lemma forceDestroy_eq:
  assumes "destroyable c k"
  obtains v where "forceDestroy cancels k c =
      (cancel_timer cancels v (upd_entry k destroyed_entry c))\<lparr>co_trace := co_trace c @ [DestroyCall k]\<rparr>"
    and "\<And>h j. v = Some h \<Longrightarrow> (h, j) \<in> set (co_timers c) \<Longrightarrow> j = k"
proof -
  let ?e = "entry c k" and ?c1 = "upd_entry k (\<lambda>e. e\<lparr>se_forceDestroyRequested := True, se_state := DestroyedSocket\<rparr>) c"
  from assms have k: "k < length (co_entries c)" and t: "timers_ok c"
    and act: "\<not> (se_state ?e = UnregisteredSocket \<or> se_forceDestroyRequested ?e)"
    and arm: "if se_deadlineInstalled ?e then armed c k else se_deadlineHandle ?e = None"
    by (simp_all add: destroyable_def global_ok_def)
  show thesis
  proof (cases "se_deadlineInstalled ?e")
    case True
    have "upd_entry k disarm ?c1 = upd_entry k destroyed_entry c"
      using k by (simp add: upd_entry_def destroyed_entry_def)
    with True k act have "forceDestroy cancels k c =
      (cancel_timer cancels (se_deadlineHandle ?e) (upd_entry k destroyed_entry c))\<lparr>co_trace := co_trace c @ [DestroyCall k]\<rparr>"
      by (simp add: forceDestroy_def cancelDeadline_def Let_def)
    moreover from True arm have "armed c k" by simp
    then have "\<And>h j. se_deadlineHandle ?e = Some h \<Longrightarrow> (h, j) \<in> set (co_timers c) \<Longrightarrow> j = k"
      using timer_owner [OF t] by (auto simp: armed_def)
    ultimately show thesis by (rule that)
  next
    case False
    with arm have "?c1 = upd_entry k destroyed_entry c" by (simp add: upd_entry_def destroyed_entry_def disarmed)
    with False k act have "forceDestroy cancels k c =
      (cancel_timer cancels None (upd_entry k destroyed_entry c))\<lparr>co_trace := co_trace c @ [DestroyCall k]\<rparr>"
      by (simp add: forceDestroy_def cancelDeadline_def cancel_timer_def Let_def)
    then show thesis by (rule that) simp
  qed
qed

lemma forceDestroy_destroys:
  assumes "destroyable c k"
  shows "coordinator_ok (forceDestroy cancels k c)" and "se_state (entry (forceDestroy cancels k c) k) = DestroyedSocket"
    and "DestroyCall k \<in> set (co_trace (forceDestroy cancels k c))"
proof -
  obtain v where eq: "forceDestroy cancels k c =
      (cancel_timer cancels v (upd_entry k destroyed_entry c))\<lparr>co_trace := co_trace c @ [DestroyCall k]\<rparr>" (is "_ = ?c'")
    and v: "\<And>h j. v = Some h \<Longrightarrow> (h, j) \<in> set (co_timers c) \<Longrightarrow> j = k"
    by (rule forceDestroy_eq [OF assms]) blast
  have k: "k < length (co_entries c)" using assms by (simp add: destroyable_def)
  then have e: "entry ?c' k = destroyed_entry (entry c k)" by simp
  have "touched k c (upd_entry k destroyed_entry c)"
    by (rule touched_upd_entry) (simp_all add: destroyed_entry_def)
  moreover have "touched k (upd_entry k destroyed_entry c) (cancel_timer cancels v (upd_entry k destroyed_entry c))"
    by (rule touched_cancel) (simp add: v)
  ultimately have t: "touched k c ?c'"
    using touched_trace [of "DestroyCall k" k] by (fastforce intro: touched_trans)
  have "expected_calls k (destroyed_entry (entry c k)) (calls_of k ?c')"
    using assms by (auto simp: destroyable_def expected_calls_def calls_of_def destroyed_entry_def)
  moreover have "registered ?c' k"
    using assms by (simp add: destroyable_def registered_def e destroyed_entry_def)
  ultimately have "entry_ok ?c' k" unfolding entry_ok_def e by (simp add: destroyed_entry_def)
  with t k assms show "coordinator_ok (forceDestroy cancels k c)"
    unfolding eq by (intro touched_ok [OF t]) (simp_all add: destroyable_def)
  show "se_state (entry (forceDestroy cancels k c) k) = DestroyedSocket"
    unfolding eq e by (simp add: destroyed_entry_def)
  show "DestroyCall k \<in> set (co_trace (forceDestroy cancels k c))" by (simp add: eq)
qed

section \<open>The operations keep the invariant\<close>

lemma ok_entry: "coordinator_ok c \<Longrightarrow> k < length (co_entries c) \<Longrightarrow> entry_ok c k"
  and ok_global: "coordinator_ok c \<Longrightarrow> global_ok c"
  by (simp_all add: coordinator_ok_def)

lemma ok_destroyable:
  assumes "coordinator_ok c" and "k < length (co_entries c)" and "se_state (entry c k) = OpenSocket \<or> se_state (entry c k) = ClosingSocket"
  shows "destroyable c k"
  using assms ok_entry [OF assms(1, 2)]
  by (auto simp: destroyable_def coordinator_ok_def entry_ok_def split: socket_state.splits)

lemma touched_destroyable:
  assumes "coordinator_ok c" and "touched k c c'" and "k < length (co_entries c)" and "registered c k"
    and "se_state (entry c' k) \<noteq> UnregisteredSocket" and "\<not> se_forceDestroyRequested (entry c' k)"
    and "expected_calls k (entry c' k) (calls_of k c')"
    and "if se_deadlineInstalled (entry c' k) then armed c' k else se_deadlineHandle (entry c' k) = None"
  shows "destroyable c' k"
proof -
  have "registered c' k"
    using assms(2, 4) by (simp add: registered_def touched_registry [OF assms(2)]) (simp add: touched_def)
  moreover have "length (co_entries c') = length (co_entries c)" using assms(2) by (simp add: touched_def)
  moreover have "global_ok c'" by (rule touched_global [OF assms(2, 3) ok_global [OF assms(1)]])
  moreover have "\<And>j. j < length (co_entries c) \<Longrightarrow> j \<noteq> k \<Longrightarrow> entry_ok c' j"
    using touched_other [OF assms(2)] ok_entry [OF assms(1)] by blast
  ultimately show ?thesis using assms(3, 5-8) by (simp add: destroyable_def)
qed

lemma forceDestroy_ok:
  assumes "coordinator_ok c" and "k < length (co_entries c)"
  shows "coordinator_ok (forceDestroy cancels k c)"
proof (cases "se_state (entry c k) = UnregisteredSocket \<or> se_forceDestroyRequested (entry c k)")
  case True
  with assms show ?thesis by (simp add: forceDestroy_def)
next
  case False
  with ok_entry [OF assms] have "se_state (entry c k) = OpenSocket \<or> se_state (entry c k) = ClosingSocket"
    by (cases "se_state (entry c k)") (simp_all add: entry_ok_def)
  from forceDestroy_destroys(1) [OF ok_destroyable [OF assms this]] show ?thesis .
qed

definition closing_entry :: "socket_entry \<Rightarrow> socket_entry" where
  "closing_entry e = e\<lparr>se_state := ClosingSocket, se_deadlineInstalled := True\<rparr>"

lemma closing_entry_simps [simp]:
  "se_kind (closing_entry e) = se_kind e" "se_connectionId (closing_entry e) = se_connectionId e"
  "se_state (closing_entry e) = ClosingSocket" "se_closeRequested (closing_entry e) = se_closeRequested e"
  "se_forceDestroyRequested (closing_entry e) = se_forceDestroyRequested e" "se_deadlineInstalled (closing_entry e)"
  "se_deadlineHandle (closing_entry e) = se_deadlineHandle e"
  by (simp_all add: closing_entry_def)

lemma open_facts:
  assumes "coordinator_ok c" and "k < length (co_entries c)" and "se_state (entry c k) = OpenSocket"
  shows "registered c k" "\<not> se_closeRequested (entry c k)" "\<not> se_forceDestroyRequested (entry c k)" "calls_of k c = []"
  using ok_entry [OF assms(1, 2)] assms(3) by (auto simp: entry_ok_def expected_calls_def)

lemma begin_close_ok:
  assumes ok: "coordinator_ok c" and k: "k < length (co_entries c)" and opn: "se_state (entry c k) = OpenSocket"
  shows "coordinator_ok (begin_close cancels outcome k reason c)"
proof -
  note facts = open_facts [OF assms]
  let ?c1 = "upd_entry k closing_entry c"
  let ?c2 = "?c1\<lparr>co_timers := co_timers ?c1 @ [(co_nextHandle ?c1, k)], co_nextHandle := co_nextHandle ?c1 + 1\<rparr>"
  let ?c3 = "upd_entry k (\<lambda>e. e\<lparr>se_deadlineHandle := Some (co_nextHandle ?c1)\<rparr>) ?c2"
  let ?c4 = "?c3\<lparr>co_microtasks := co_microtasks ?c3 @ [(k, reason)]\<rparr>"
  have t1: "touched k c ?c1" by (rule touched_upd_entry) simp_all
  have t2: "touched k c ?c2" by (rule touched_trans [OF t1 touched_arm])
  have t3: "touched k c ?c3" by (rule touched_trans [OF t2 touched_upd_entry]) simp_all
  have t4: "touched k c ?c4" by (rule touched_trans [OF t3 touched_microtask])
  have "touched k c (upd_entry k disarm ?c1)" by (rule touched_trans [OF t1 touched_upd_entry]) simp_all
  then have d1: "destroyable (upd_entry k disarm ?c1) k"
    by (rule touched_destroyable [OF ok _ k facts(1)]) (use k facts in \<open>simp_all add: expected_calls_def calls_of_def\<close>)
  have armed: "armed ?c3 k" "armed ?c4 k" using k by (simp_all add: armed_def)
  have d3: "destroyable ?c3 k"
    by (rule touched_destroyable [OF ok t3 k facts(1)])
      (use k facts armed in \<open>simp_all add: expected_calls_def calls_of_def\<close>)
  have "registered ?c4 k" using facts(1) k by (simp add: registered_def)
  then have "entry_ok ?c4 k"
    unfolding entry_ok_def using k facts armed by (simp add: expected_calls_def calls_of_def)
  then have c4: "coordinator_ok ?c4"
    using k ok_entry [OF ok] ok_global [OF ok] by (intro touched_ok [OF t4]) simp_all
  have "begin_close cancels outcome k reason c =
      (case outcome of TimerArmed True \<Rightarrow> ?c4 | TimerArmed False \<Rightarrow> forceDestroy cancels k ?c3
       | _ \<Rightarrow> forceDestroy cancels k (upd_entry k disarm ?c1))"
    by (simp add: begin_close_def Let_def closing_entry_def [abs_def] split: schedule_outcome.split bool.split)
  with c4 forceDestroy_destroys(1) [OF d1] forceDestroy_destroys(1) [OF d3] show ?thesis
    by (simp split: schedule_outcome.split bool.split)
qed

lemma signal_ok:
  assumes "coordinator_ok c"
  shows "coordinator_ok (snd (handleLiveAuthorizationClose cancels outcome signal c))"
proof -
  have "k < length (co_entries c)" if "registryFor kind c i = Some k" for kind i k
    using ok_global [OF assms] that by (auto simp: global_ok_def registry_ok_def)
  moreover have "se_state (entry c k) = OpenSocket"
    if "se_state (entry c k) \<noteq> UnregisteredSocket" "se_state (entry c k) \<noteq> ClosingSocket" "se_state (entry c k) \<noteq> DestroyedSocket" for k
    using that by (cases "se_state (entry c k)") simp_all
  ultimately show ?thesis
    using assms by (auto simp: handleLiveAuthorizationClose_def split: option.split intro!: begin_close_ok)
qed

lemma touched_pop: "co_microtasks c = (k, r) # rest \<Longrightarrow> touched k c (c\<lparr>co_microtasks := rest\<rparr>)"
  by (auto simp: touched_def calls_of_def mentioned_def timers_ok_def)

lemma requestClose_touched: "touched k c (requestClose k r c)"
proof -
  let ?c1 = "upd_entry k (\<lambda>e. e\<lparr>se_closeRequested := True\<rparr>) c"
  have "touched k c ?c1" by (rule touched_upd_entry) simp_all
  moreover have "touched k ?c1 (?c1\<lparr>co_closeCalls := co_closeCalls ?c1 @ [k], co_trace := co_trace ?c1 @ [CloseCall k (closeCodeFor r) r]\<rparr>)"
    by (auto simp: touched_def calls_of_def mentioned_def timers_ok_def)
  ultimately show ?thesis by (auto simp: requestClose_def Let_def intro: touched_trans)
qed

lemma microtask_ok:
  assumes "coordinator_ok c"
  shows "coordinator_ok (run_microtask c)"
proof (cases "co_microtasks c")
  case (Cons m rest)
  obtain k r where m: "m = (k, r)" by (cases m)
  let ?c = "c\<lparr>co_microtasks := rest\<rparr>"
  from Cons m have k: "k < length (co_entries c)"
    using ok_global [OF assms] by (auto simp: global_ok_def mentioned_def)
  have t: "touched k c (requestClose k r ?c)"
    by (rule touched_trans [OF touched_pop requestClose_touched]) (simp add: Cons m)
  have "entry_ok (requestClose k r ?c) k"
    using ok_entry [OF assms k] k
    by (auto simp: entry_ok_def requestClose_def Let_def registered_def armed_def expected_calls_def calls_of_def
        split: socket_state.splits if_splits)
  with t k have "coordinator_ok (requestClose k r ?c)"
    using ok_entry [OF assms] ok_global [OF assms] by (intro touched_ok [OF t]) simp_all
  with Cons m show ?thesis by (simp add: run_microtask_def)
qed (simp add: run_microtask_def assms)

lemma deadline_ok:
  assumes ok: "coordinator_ok c"
  shows "coordinator_ok (deadline_fires cancels h c)"
proof (cases "map_of (co_timers c) h")
  case (Some k)
  let ?c1 = "c\<lparr>co_timers := filter (\<lambda>(h', k'). h' \<noteq> h) (co_timers c)\<rparr>" and ?e = "entry c k"
  let ?c2 = "upd_entry k disarm ?c1"
  have t: "timers_ok c" using ok_global [OF ok] by (simp add: global_ok_def)
  have h: "(h, k) \<in> set (co_timers c)" using Some by (rule map_of_SomeD)
  then have k: "k < length (co_entries c)" using t by (auto simp: timers_ok_def)
  have "touched k c ?c1" by (rule touched_drop_timer) (rule timer_owner [OF t h])
  then have t2: "touched k c ?c2" by (rule touched_trans [OF _ touched_upd_entry]) simp_all
  note e = ok_entry [OF ok k]
  have "coordinator_ok (forceDestroy cancels k ?c2)"
  proof (cases "se_state ?e = OpenSocket \<or> se_state ?e = ClosingSocket")
    case True
    with e have "registered c k" "\<not> se_forceDestroyRequested ?e" "expected_calls k ?e (calls_of k c)"
      by (auto simp: entry_ok_def)
    then have "destroyable ?c2 k"
      by (intro touched_destroyable [OF ok t2 k]) (use k True in \<open>auto simp: expected_calls_def calls_of_def\<close>)
    then show ?thesis by (rule forceDestroy_destroys)
  next
    case False
    with e have same: "disarm ?e = ?e" by (intro disarmed) (auto simp: entry_ok_def split: if_splits)
    have "entry_ok ?c2 k"
      using e False k unfolding entry_ok_def
      by (auto simp: same registered_def armed_def calls_of_def split: socket_state.splits)
    then have "coordinator_ok ?c2"
      using k ok_entry [OF ok] ok_global [OF ok] by (intro touched_ok [OF t2]) simp_all
    then show ?thesis by (rule forceDestroy_ok) (simp add: k)
  qed
  with Some show ?thesis by (simp add: deadline_fires_def)
qed (simp add: deadline_fires_def ok)

lemma entry_ok_cong:
  assumes "entry c' j = entry c j" and "registered c' j = registered c j" and "calls_of j c' = calls_of j c"
    and "co_timers c' = co_timers c" and "co_microtasks c' = co_microtasks c"
  shows "entry_ok c' j = entry_ok c j"
  by (simp only: entry_ok_def armed_def assms)

lemma frame_ok:
  assumes "coordinator_ok c" and "co_entries c' = co_entries c" and "co_timers c' = co_timers c"
    and "co_nextHandle c' = co_nextHandle c" and "co_microtasks c' = co_microtasks c" and "co_trace c' = co_trace c"
    and "\<And>kind. registryFor kind c' = registryFor kind c"
    and "\<And>k. k \<in> set (co_closeCalls c') \<union> ml_entry ` set (co_leases c') \<Longrightarrow> k < length (co_entries c)"
  shows "coordinator_ok c'"
proof -
  have "entry_ok c' k = entry_ok c k" for k
    by (rule entry_ok_cong) (simp_all only: registered_def calls_of_def assms(2-7))
  moreover have "registry_ok c' = registry_ok c" "timers_ok c' = timers_ok c"
    by (simp_all only: registry_ok_def timers_ok_def assms(2-7))
  moreover have "\<forall>k \<in> mentioned c'. k < length (co_entries c)"
    using ok_global [OF assms(1)] assms(8) by (auto simp: global_ok_def mentioned_def assms(5, 6))
  ultimately show ?thesis using assms(1) by (simp add: coordinator_ok_def global_ok_def assms(2))
qed

lemma close_calls_bound: "coordinator_ok c \<Longrightarrow> k \<in> set (co_closeCalls c) \<Longrightarrow> k < length (co_entries c)"
  and lease_bound: "coordinator_ok c \<Longrightarrow> s \<in> set (co_leases c) \<Longrightarrow> ml_entry s < length (co_entries c)"
  by (auto simp: coordinator_ok_def global_ok_def mentioned_def)

lemma close_failed_ok: "coordinator_ok c \<Longrightarrow> coordinator_ok (close_call_fails cancels k c)"
  unfolding close_call_fails_def
  by (auto intro!: forceDestroy_ok frame_ok [of c] dest!: set_remove1_subset [THEN subsetD]
      dest: close_calls_bound lease_bound)

section \<open>Registrations\<close>

lemma registerEntry_ok:
  assumes ok: "coordinator_ok c" and run: "registerEntry kind i incarnation c = Inr (k, c')"
  shows "coordinator_ok c'"
proof -
  from run have k: "k = length (co_entries c)" and free: "registryFor kind c i = None"
    and c': "c' = upd_registry kind i (Some k) (c\<lparr>co_entries := co_entries c @ [fresh_entry kind i incarnation]\<rparr>)"
    by (auto simp: registerEntry_def Let_def split: if_splits)
  have old: "entry c' j = entry c j" if "j < length (co_entries c)" for j using that by (simp add: c' nth_append)
  have new: "entry c' k = fresh_entry kind i incarnation" by (simp add: c' k)
  have reg: "registryFor kind' c' i' = (if kind' = kind \<and> i' = i then Some k else registryFor kind' c i')" for kind' i'
    by (simp add: c')
  have g: "registry_ok c" "timers_ok c" "\<forall>j \<in> mentioned c. j < length (co_entries c)"
    using ok_global [OF ok] by (simp_all add: global_ok_def)
  have "registry_ok c'"
    unfolding registry_ok_def
  proof (intro allI impI)
    fix kind' i' j assume j: "registryFor kind' c' i' = Some j"
    show "j < length (co_entries c') \<and> se_kind (entry c' j) = kind' \<and> se_connectionId (entry c' j) = i'"
    proof (cases "kind' = kind \<and> i' = i")
      case True
      with j new show ?thesis by (auto simp: reg k c' fresh_entry_def)
    next
      case False
      with j g(1) have "j < length (co_entries c)" "se_kind (entry c j) = kind'" "se_connectionId (entry c j) = i'"
        by (auto simp: reg registry_ok_def)
      with old show ?thesis by (simp add: c')
    qed
  qed
  moreover have "timers_ok c'" "mentioned c' = mentioned c" using g(2) by (auto simp: timers_ok_def mentioned_def c')
  ultimately have "global_ok c'" using g(3) by (auto simp: global_ok_def c')
  moreover have "entry_ok c' j" if j: "j < length (co_entries c)" for j
  proof -
    have "registered c' j = registered c j" using free j by (auto simp: registered_def old reg k)
    then have "entry_ok c' j = entry_ok c j" by (rule entry_ok_cong [OF old [OF j]]) (simp_all add: c' calls_of_def)
    with ok_entry [OF ok j] show ?thesis by simp
  qed
  moreover have "call_target x \<noteq> k" if "x \<in> set (co_trace c)" for x
    using g(3) that by (fastforce simp: mentioned_def k)
  then have "calls_of k c = []" by (simp add: calls_of_def filter_empty_conv)
  then have "entry_ok c' k"
    unfolding entry_ok_def registered_def new by (simp add: fresh_entry_def reg expected_calls_def calls_of_def) (simp add: c')
  ultimately show ?thesis by (auto simp: coordinator_ok_def c' k less_Suc_eq)
qed

lemma drop_ok:
  assumes ok: "coordinator_ok c" and t: "touched k c d" and k: "k < length (co_entries c)" and reg: "registered c k"
    and "se_state (entry d k) = UnregisteredSocket" and "\<not> se_deadlineInstalled (entry d k)"
    and "se_deadlineHandle (entry d k) = None" and "expected_calls k (entry d k) (calls_of k d)"
  shows "coordinator_ok (upd_registry (se_kind (entry c k)) (se_connectionId (entry c k)) None d)" (is "coordinator_ok ?d")
proof -
  have len: "length (co_entries d) = length (co_entries c)" using t by (simp add: touched_def)
  have "global_ok d" by (rule touched_global [OF t k ok_global [OF ok]])
  then have "global_ok ?d"
    by (auto simp: global_ok_def registry_ok_def timers_ok_def mentioned_def split: if_splits)
  moreover have "entry_ok ?d j" if j: "j < length (co_entries c)" "j \<noteq> k" for j
  proof -
    from reg j(2) have "registered ?d j = registered d j"
      by (auto simp: registered_def touched_registry [OF t])
    then have "entry_ok ?d j = entry_ok d j" by (intro entry_ok_cong) (simp_all add: calls_of_def)
    with touched_other [OF t j(2) ok_entry [OF ok j(1)]] show ?thesis by simp
  qed
  moreover have "\<not> registered ?d k"
    using t by (simp add: registered_def touched_def)
  then have "entry_ok ?d k" using assms(5-8) by (simp add: entry_ok_def calls_of_def)
  ultimately show ?thesis by (auto simp: coordinator_ok_def len)
qed

definition ended_entry :: "socket_entry \<Rightarrow> socket_entry" where
  "ended_entry e = disarm (e\<lparr>se_state := UnregisteredSocket\<rparr>)"

lemma ended_entry_simps [simp]:
  "se_kind (ended_entry e) = se_kind e" "se_connectionId (ended_entry e) = se_connectionId e"
  "se_state (ended_entry e) = UnregisteredSocket" "se_closeRequested (ended_entry e) = se_closeRequested e"
  "se_forceDestroyRequested (ended_entry e) = se_forceDestroyRequested e" "\<not> se_deadlineInstalled (ended_entry e)"
  "se_deadlineHandle (ended_entry e) = None"
  by (simp_all add: ended_entry_def)

lemma cancel_registry:
  "cancel_timer cancels v (upd_registry kind i x c) = upd_registry kind i x (cancel_timer cancels v c)"
  "upd_entry k f (upd_registry kind i x c) = upd_registry kind i x (upd_entry k f c)"
  by (cases kind; cases v; simp add: cancel_timer_def upd_registry_def upd_entry_def)+

lemma end_registration_ok:
  assumes ok: "coordinator_ok c" and k: "k < length (co_entries c)"
  shows "coordinator_ok (end_registration cancels k c)"
proof (cases "se_state (entry c k) = UnregisteredSocket")
  case True
  then have "entry c k\<lparr>se_state := UnregisteredSocket\<rparr> = entry c k" by (cases "entry c k") simp
  then have "upd_entry k (\<lambda>e. e\<lparr>se_state := UnregisteredSocket\<rparr>) c = c" by (simp add: upd_entry_def)
  moreover from True ok_entry [OF assms] have "\<not> registered c k" "\<not> se_deadlineInstalled (entry c k)"
    by (simp_all add: entry_ok_def)
  ultimately show ?thesis using ok
    by (simp add: end_registration_def drop_registration_def cancelDeadline_def registered_def Let_def)
next
  case False
  let ?e = "entry c k" and ?c1 = "upd_entry k (\<lambda>e. e\<lparr>se_state := UnregisteredSocket\<rparr>) c"
  let ?v = "if se_deadlineInstalled ?e then se_deadlineHandle ?e else None"
  let ?d = "cancel_timer cancels ?v (upd_entry k ended_entry c)"
  note e = ok_entry [OF assms]
  from e False have reg: "registered c k" by (simp add: entry_ok_def)
  have t: "timers_ok c" using ok_global [OF ok] by (simp add: global_ok_def)
  have own: "\<And>h j. ?v = Some h \<Longrightarrow> (h, j) \<in> set (co_timers c) \<Longrightarrow> j = k"
    using e timer_owner [OF t] by (auto simp: entry_ok_def armed_def split: if_splits)
  have "upd_entry k disarm ?c1 = upd_entry k ended_entry c"
    and "\<not> se_deadlineInstalled ?e \<Longrightarrow> ?c1 = upd_entry k ended_entry c"
    using k e by (auto simp: upd_entry_def ended_entry_def disarmed entry_ok_def split: if_splits)
  then have "end_registration cancels k c = upd_registry (se_kind ?e) (se_connectionId ?e) None ?d"
    using k reg by (auto simp: end_registration_def drop_registration_def cancelDeadline_def registered_def Let_def
        cancel_registry cancel_timer_def [where handle = None])
  moreover have "touched k c (upd_entry k ended_entry c)" by (rule touched_upd_entry) simp_all
  then have "touched k c ?d" by (rule touched_trans [OF _ touched_cancel]) (simp add: own)
  then have "coordinator_ok (upd_registry (se_kind ?e) (se_connectionId ?e) None ?d)"
    by (rule drop_ok [OF ok _ k reg]) (use k e in \<open>simp_all add: entry_ok_def expected_calls_def calls_of_def\<close>)
  ultimately show ?thesis by simp
qed

lemma leases_ok:
  "coordinator_ok c \<Longrightarrow> (\<And>s. s \<in> set ls \<Longrightarrow> ml_entry s < length (co_entries c)) \<Longrightarrow> coordinator_ok (c\<lparr>co_leases := ls\<rparr>)"
  by (rule frame_ok [of c]) (auto dest: close_calls_bound)

lemma upd_lease_ok:
  assumes "coordinator_ok c" and "\<And>s. ml_entry (f s) = ml_entry s"
  shows "coordinator_ok (upd_lease l f c)"
proof (cases "l < length (co_leases c)")
  case True
  then have "co_leases c ! l \<in> set (co_leases c)" by simp
  with assms show ?thesis
    unfolding upd_lease_def by (auto intro!: leases_ok dest!: set_update_subset_insert [THEN subsetD] dest: lease_bound)
qed (simp add: upd_lease_def assms(1) list_update_beyond)

lemma step_ok: "coordinator_step cancels c c' \<Longrightarrow> coordinator_ok c \<Longrightarrow> coordinator_ok c'"
proof (induction rule: coordinator_step.induct)
  case (register_managed i incarnation c l k c')
  from register_managed(1) obtain c1 where r: "registerEntry ClientSocket i incarnation c = Inr (k, c1)"
    and c': "c' = c1\<lparr>co_leases := co_leases c1 @ [\<lparr>ml_entry = k, ml_claimed = False, ml_terminal = False\<rparr>]\<rparr>"
    by (auto simp: registerManagedClientSocket_def split: sum.splits)
  have c1: "coordinator_ok c1" by (rule registerEntry_ok [OF register_managed(2) r])
  from r have "k < length (co_entries c1)" by (auto simp: registerEntry_def Let_def split: if_splits)
  with c1 c' show ?case by (auto intro!: leases_ok dest: lease_bound)
next
  case (signalled outcome signal c b c')
  then show ?case using signal_ok [of c cancels outcome signal] by simp
next
  case (register kind i incarnation c k c')
  then show ?case by (blast intro: registerEntry_ok)
next
  case (unregistered k c)
  then show ?case by (simp add: unregister_def end_registration_ok)
next
  case (consumed l i c s c')
  then show ?case
    by (auto simp: consumeRelayV2BrokerClientTransportCloseLease_def Let_def upd_lease_ok split: if_splits)
next
  case (destroyed_managed l c b c')
  then show ?case
    by (auto simp: forceDestroyManagedSocket_def not_le split: if_splits intro!: forceDestroy_ok lease_bound)
next
  case (terminated_managed l c b c')
  have "coordinator_ok (end_registration cancels (ml_entry (co_leases c ! l)) (upd_lease l (\<lambda>s. s\<lparr>ml_terminal := True\<rparr>) c))"
    if "l < length (co_leases c)"
    using terminated_managed(2) that
    by (intro end_registration_ok upd_lease_ok) (simp_all add: upd_lease_def lease_bound)
  with terminated_managed show ?case
    by (auto simp: terminalAndUnregisterManagedSocket_def not_le split: if_splits)
qed (simp_all add: deadline_ok microtask_ok close_failed_ok)

section \<open>Progress of a socket\<close>

fun stage :: "socket_state \<Rightarrow> nat" where
  "stage OpenSocket = 0"
| "stage ClosingSocket = 1"
| "stage DestroyedSocket = 2"
| "stage UnregisteredSocket = 3"

text \<open>A socket only moves forward, and one that has ended receives no more calls.\<close>

definition progress :: "nat \<Rightarrow> coordinator \<Rightarrow> coordinator \<Rightarrow> bool" where
  "progress k c c' \<longleftrightarrow>
     k < length (co_entries c') \<and> stage (se_state (entry c k)) \<le> stage (se_state (entry c' k))
     \<and> (se_state (entry c k) = UnregisteredSocket \<longrightarrow> calls_of k c' = calls_of k c)"

lemma progress_trans: "progress k a b \<Longrightarrow> progress k b c \<Longrightarrow> progress k a c"
  unfolding progress_def by (cases "se_state (entry a k)"; cases "se_state (entry b k)") auto

lemma progress_frame:
  "k < length (co_entries c) \<Longrightarrow> co_entries c' = co_entries c \<Longrightarrow> co_trace c' = co_trace c \<Longrightarrow> progress k c c'"
  by (simp add: progress_def calls_of_def)

lemma progress_upd:
  assumes "k < length (co_entries c)" and "stage (se_state (entry c j)) \<le> stage (se_state (f (entry c j)))"
  shows "progress k c (upd_entry j f c)"
  using assms by (cases "j = k") (simp_all add: progress_def calls_of_def)

lemma stage_bound: "stage s \<le> 3" "s \<noteq> UnregisteredSocket \<Longrightarrow> stage s \<le> 2"
  by (cases s; simp)+

lemma progress_cancel: "k < length (co_entries c) \<Longrightarrow> progress k c (cancelDeadline cancels j c)"
  by (cases "j = k") (auto simp: cancelDeadline_def progress_def calls_of_def)

lemma progress_destroy:
  assumes "k < length (co_entries c)"
  shows "progress k c (forceDestroy cancels j c)"
proof (cases "se_state (entry c j) = UnregisteredSocket \<or> se_forceDestroyRequested (entry c j)")
  case True
  with assms show ?thesis by (simp add: forceDestroy_def progress_def)
next
  case False
  let ?c1 = "upd_entry j (\<lambda>e. e\<lparr>se_forceDestroyRequested := True, se_state := DestroyedSocket\<rparr>) c"
  have "progress k c ?c1" using assms False by (intro progress_upd) (simp_all add: stage_bound)
  moreover have "progress k ?c1 (cancelDeadline cancels j ?c1)" by (rule progress_cancel) (simp add: assms)
  ultimately have "progress k c (cancelDeadline cancels j ?c1)" by (rule progress_trans)
  with False show ?thesis by (auto simp: forceDestroy_def Let_def progress_def calls_of_def)
qed

lemma progress_request: "k < length (co_entries c) \<Longrightarrow> progress k c (requestClose j r c)"
  by (cases "j = k") (auto simp: requestClose_def Let_def progress_def calls_of_def)

lemma progress_begin:
  assumes "k < length (co_entries c)" and "se_state (entry c j) = OpenSocket"
  shows "progress k c (begin_close cancels outcome j r c)"
proof -
  let ?c1 = "upd_entry j (\<lambda>e. e\<lparr>se_state := ClosingSocket, se_deadlineInstalled := True\<rparr>) c"
  have 1: "progress k c ?c1" using assms by (intro progress_upd) simp_all
  have 2: "progress k c (forceDestroy cancels j (upd_entry j disarm ?c1))"
    using assms(1) by (intro progress_trans [OF 1] progress_trans [OF progress_upd progress_destroy]) simp_all
  have 3: "progress k ?c1 (upd_entry j (\<lambda>e. e\<lparr>se_deadlineHandle := Some h\<rparr>) (?c1\<lparr>co_timers := ts, co_nextHandle := n\<rparr>))"
    for h ts n using assms(1) by (cases "j = k") (auto simp: progress_def calls_of_def)
  note 4 = progress_trans [OF 1 3]
  show ?thesis
    unfolding begin_close_def Let_def
    by (auto split: schedule_outcome.split intro!: 2 progress_trans [OF 4 progress_destroy] progress_trans [OF 4 progress_frame]
        simp: assms(1))
qed

lemma progress_end: "k < length (co_entries c) \<Longrightarrow> progress k c (end_registration cancels j c)"
  unfolding end_registration_def
  by (rule progress_trans [OF progress_upd progress_trans [OF progress_frame progress_cancel]])
    (simp_all add: drop_registration_def Let_def stage_bound)

lemma progress_register:
  "registerEntry kind i incarnation c = Inr (j, c') \<Longrightarrow> k < length (co_entries c) \<Longrightarrow> progress k c c'"
  by (auto simp: registerEntry_def Let_def progress_def calls_of_def nth_append split: if_splits)

lemma progress_signal:
  assumes "k < length (co_entries c)"
  shows "progress k c (snd (handleLiveAuthorizationClose cancels outcome signal c))"
proof -
  have "se_state (entry c j) = OpenSocket"
    if "se_state (entry c j) \<noteq> UnregisteredSocket" "se_state (entry c j) \<noteq> ClosingSocket" "se_state (entry c j) \<noteq> DestroyedSocket" for j
    using that by (cases "se_state (entry c j)") simp_all
  with assms show ?thesis
    by (auto simp: handleLiveAuthorizationClose_def progress_frame split: option.split intro!: progress_begin)
qed

lemma step_progress:
  assumes "coordinator_step cancels c c'" and "k < length (co_entries c)"
  shows "progress k c c'"
  using assms
proof (cases rule: coordinator_step.cases)
  case (register_managed i incarnation l j)
  then obtain c1 where "registerEntry ClientSocket i incarnation c = Inr (j, c1)" and "co_entries c' = co_entries c1"
    and "co_trace c' = co_trace c1"
    by (auto simp: registerManagedClientSocket_def split: sum.splits)
  with assms(2) show ?thesis using progress_register [of ClientSocket i incarnation c j c1 k] by (simp add: progress_def calls_of_def)
next
  case (signalled outcome signal b)
  then show ?thesis using progress_signal [OF assms(2), of cancels outcome signal] by simp
next
  case (deadline h)
  with assms(2) show ?thesis
    by (auto simp: deadline_fires_def progress_frame split: option.split
        intro!: progress_trans [OF progress_frame progress_trans [OF progress_upd progress_destroy]])
next
  case microtask
  with assms(2) show ?thesis
    by (auto simp: run_microtask_def progress_frame split: list.split intro!: progress_trans [OF progress_frame progress_request])
next
  case (close_failed j)
  with assms(2) show ?thesis
    by (auto simp: close_call_fails_def progress_frame intro!: progress_trans [OF progress_frame progress_destroy])
next
  case (consumed l i s)
  with assms(2) show ?thesis
    by (auto simp: consumeRelayV2BrokerClientTransportCloseLease_def Let_def upd_lease_def intro!: progress_frame split: if_splits)
next
  case (destroyed_managed l b)
  with assms(2) show ?thesis
    by (auto simp: forceDestroyManagedSocket_def progress_frame progress_destroy split: if_splits)
next
  case (terminated_managed l b)
  with assms(2) show ?thesis
    by (auto simp: terminalAndUnregisterManagedSocket_def progress_frame upd_lease_def split: if_splits
        intro!: progress_trans [OF progress_frame progress_end])
qed (auto simp: unregister_def progress_frame progress_end progress_register)

lemma run_ok: "coordinator_run cancels c c' \<Longrightarrow> coordinator_ok c \<Longrightarrow> coordinator_ok c'"
  by (induction rule: rtranclp_induct) (auto intro: step_ok)

lemma run_progress: "coordinator_run cancels c c' \<Longrightarrow> k < length (co_entries c) \<Longrightarrow> progress k c c'"
proof (induction rule: rtranclp_induct)
  case base
  then show ?case by (simp add: progress_frame)
next
  case (step y z)
  then have "progress k c y" by simp
  moreover from this have "progress k y z" by (intro step_progress [OF step(2)]) (simp add: progress_def)
  ultimately show ?case by (rule progress_trans)
qed

lemma new_ok: "coordinator_ok new_coordinator"
  by (auto simp: coordinator_ok_def global_ok_def registry_ok_def timers_ok_def mentioned_def new_coordinator_def
      registryFor_def split: socket_kind.split)

section \<open>Properties\<close>

text \<open>
  C39. Every socket is closed at most once and destroyed at most once, in this order, with the close
  code of the reason, whatever the order of registrations, signals, timers, microtasks, failing
  close calls and leases, and even when the scheduler refuses to cancel; and a socket that has
  ended receives no call any more.
\<close>

theorem sockets_are_closed_once:
  assumes "coordinator_run cancels new_coordinator c" and "k < length (co_entries c)"
  shows "(\<exists>r. calls_of k c \<in> {[], [CloseCall k (closeCodeFor r) r], [DestroyCall k], [CloseCall k (closeCodeFor r) r, DestroyCall k]})
     \<and> (\<forall>c'. coordinator_run cancels c c' \<longrightarrow> se_state (entry c k) = UnregisteredSocket \<longrightarrow>
           se_state (entry c' k) = UnregisteredSocket \<and> calls_of k c' = calls_of k c)"
proof (intro conjI allI impI)
  have "entry_ok c k" by (rule ok_entry [OF run_ok [OF assms(1) new_ok] assms(2)])
  then obtain r where "calls_of k c = (if se_closeRequested (entry c k) then [CloseCall k (closeCodeFor r) r] else [])
      @ (if se_forceDestroyRequested (entry c k) then [DestroyCall k] else [])"
    by (auto simp only: entry_ok_def expected_calls_def)
  then show "\<exists>r. calls_of k c \<in> {[], [CloseCall k (closeCodeFor r) r], [DestroyCall k], [CloseCall k (closeCodeFor r) r, DestroyCall k]}"
    by (intro exI [of _ r]) simp
next
  fix c' assume "coordinator_run cancels c c'" and u: "se_state (entry c k) = UnregisteredSocket"
  then have "progress k c c'" using assms(2) by (simp add: run_progress)
  with u show "se_state (entry c' k) = UnregisteredSocket" "calls_of k c' = calls_of k c"
    by (cases "se_state (entry c' k)"; simp add: progress_def)+
qed

lemma armed_deadline:
  assumes "coordinator_ok c" and "k < length (co_entries c)" and "se_state (entry c k) = ClosingSocket"
  shows "\<exists>h. (h, k) \<in> set (co_timers c) \<and> DestroyCall k \<in> set (co_trace (deadline_fires cancels h c))
     \<and> se_state (entry (deadline_fires cancels h c) k) = DestroyedSocket"
proof -
  note e = ok_entry [OF assms(1, 2)]
  from e assms(3) obtain h where h: "(h, k) \<in> set (co_timers c)" by (auto simp: entry_ok_def armed_def)
  have t: "timers_ok c" using ok_global [OF assms(1)] by (simp add: global_ok_def)
  with h have m: "map_of (co_timers c) h = Some k" by (simp add: timers_ok_def)
  let ?c1 = "c\<lparr>co_timers := filter (\<lambda>(h', k'). h' \<noteq> h) (co_timers c)\<rparr>"
  have "touched k c ?c1" by (rule touched_drop_timer) (rule timer_owner [OF t h])
  then have "touched k c (upd_entry k disarm ?c1)" by (rule touched_trans [OF _ touched_upd_entry]) simp_all
  then have "destroyable (upd_entry k disarm ?c1) k"
    by (rule touched_destroyable [OF assms(1) _ assms(2)])
      (use e assms in \<open>auto simp: entry_ok_def expected_calls_def calls_of_def\<close>)
  from forceDestroy_destroys(2, 3) [OF this] h m show ?thesis by (auto simp: deadline_fires_def)
qed

lemma destroy_stage: "k < length (co_entries c) \<Longrightarrow> se_state (entry c k) \<noteq> OpenSocket \<Longrightarrow>
  se_state (entry (forceDestroy cancels k c) k) \<noteq> OpenSocket"
  using progress_destroy [of k c cancels k] by (cases "se_state (entry c k)") (auto simp: progress_def)

lemma begin_close_stage:
  assumes "k < length (co_entries c)"
  shows "se_state (entry (begin_close cancels outcome k r c) k) \<noteq> OpenSocket"
  using assms by (cases outcome) (simp_all add: begin_close_def Let_def destroy_stage)

text \<open>
  C40. A fenced socket goes away. When a close signal names a registered socket by its kind, id and
  incarnation, the coordinator takes it, and in every later state the socket has ended, or its
  destruction has been requested, or a timer is armed for it that destroys it when it fires. A
  signal for another incarnation of the same id is refused and changes nothing.
\<close>

theorem fenced_socket_goes_away:
  assumes "coordinator_run cancels new_coordinator c" and "parseCloseSignal signal = Some s"
    and "registryFor (cs_kind s) c (cs_connectionId s) = Some k"
    and "handleLiveAuthorizationClose cancels outcome signal c = (taken, c1)" and "coordinator_run cancels c1 c2"
  shows "if se_incarnation (entry c k) \<noteq> cs_incarnation s then \<not> taken \<and> c1 = c
     else taken
       \<and> (se_state (entry c2 k) = UnregisteredSocket
          \<or> se_state (entry c2 k) = DestroyedSocket \<and> DestroyCall k \<in> set (co_trace c2)
          \<or> (\<exists>h. (h, k) \<in> set (co_timers c2) \<and> DestroyCall k \<in> set (co_trace (deadline_fires cancels h c2))
               \<and> se_state (entry (deadline_fires cancels h c2) k) = DestroyedSocket))"
proof (cases "se_incarnation (entry c k) = cs_incarnation s")
  case True
  have ok: "coordinator_ok c" by (rule run_ok [OF assms(1) new_ok])
  then have k: "k < length (co_entries c)" and id: "se_kind (entry c k) = cs_kind s" "se_connectionId (entry c k) = cs_connectionId s"
    using ok_global [OF ok] assms(3) by (auto simp: global_ok_def registry_ok_def)
  then have live: "se_state (entry c k) \<noteq> UnregisteredSocket"
    using ok_entry [OF ok k] assms(3) by (simp add: entry_ok_def registered_def)
  have ok1: "coordinator_ok c1" using signal_ok [OF ok, of cancels outcome signal] assms(4) by simp
  have p1: "progress k c c1" using progress_signal [OF k, of cancels outcome signal] assms(4) by simp
  then have k1: "k < length (co_entries c1)" by (simp add: progress_def)
  have "progress k c1 c2" by (rule run_progress [OF assms(5) k1])
  moreover have "taken" and "se_state (entry c1 k) \<noteq> OpenSocket"
    using True live assms(2-4) k
    by (auto simp: handleLiveAuthorizationClose_def split: if_splits simp: begin_close_stage [OF k])
  ultimately have "taken" and k2: "k < length (co_entries c2)" and n2: "se_state (entry c2 k) \<noteq> OpenSocket"
    by (cases "se_state (entry c1 k)"; auto simp: progress_def)+
  have ok2: "coordinator_ok c2" by (rule run_ok [OF assms(5) ok1])
  have "DestroyCall k \<in> set (co_trace c2)" if "se_state (entry c2 k) = DestroyedSocket"
  proof -
    from ok_entry [OF ok2 k2] that have "DestroyCall k \<in> set (calls_of k c2)"
      by (auto simp: entry_ok_def expected_calls_def)
    then show ?thesis by (simp add: calls_of_def)
  qed
  with \<open>taken\<close> True n2 armed_deadline [OF ok2 k2] show ?thesis
    by (cases "se_state (entry c2 k)") simp_all
next
  case False
  with assms(2-4) show ?thesis by (simp add: handleLiveAuthorizationClose_def)
qed

end
