(* ===== verification/RV2_CloseWitnesses.thy ===== *)
theory RV2_CloseWitnesses
  imports RV2_CloseRuns
begin

text \<open>
  A concrete run of the transport close coordinator: a client socket is registered, its grant is
  revoked, the close is requested and fails to end the socket, and the deadline destroys it.
\<close>

definition demo_signal :: "json option" where
  "demo_signal = Some (JObj [(''connectionKind'', JStr ''client''), (''connectionId'', JStr ''phone''),
     (''connectionIncarnation'', JStr ''inc-1''), (''reason'', JStr ''grant_revoked'')])"

definition demo_socket :: "socket_state \<Rightarrow> bool \<Rightarrow> nat option \<Rightarrow> socket_entry" where
  "demo_socket state asked h =
     \<lparr>se_kind = ClientSocket, se_connectionId = ''phone'', se_incarnation = ''inc-1'', se_state = state,
      se_closeRequested = asked, se_forceDestroyRequested = (state = DestroyedSocket),
      se_deadlineInstalled = (h \<noteq> None), se_deadlineHandle = h\<rparr>"

definition demo_coordinator ::
  "socket_entry \<Rightarrow> nat list \<Rightarrow> (nat \<times> close_reason) list \<Rightarrow> nat list \<Rightarrow> socket_call list \<Rightarrow> coordinator" where
  "demo_coordinator e hs tasks pending trace =
     \<lparr>co_entries = [e], co_clients = [''phone'' \<mapsto> 0], co_hosts = Map.empty, co_leases = [], co_timers = map (\<lambda>h. (h, 0)) hs,
      co_nextHandle = (if se_state e = OpenSocket then 0 else 1), co_microtasks = tasks, co_closeCalls = pending,
      co_trace = trace\<rparr>"

abbreviation "open_coordinator \<equiv> demo_coordinator (demo_socket OpenSocket False None) [] [] [] []"
abbreviation "signalled_coordinator \<equiv>
  demo_coordinator (demo_socket ClosingSocket False (Some 0)) [0] [(0, GrantRevoked)] [] []"
abbreviation "asked_coordinator \<equiv>
  demo_coordinator (demo_socket ClosingSocket True (Some 0)) [0] [] [0] [CloseCall 0 4403 GrantRevoked]"
abbreviation "destroyed_coordinator \<equiv>
  demo_coordinator (demo_socket DestroyedSocket True None) [] [] [0] [CloseCall 0 4403 GrantRevoked, DestroyCall 0]"

lemmas demo_close_defs = demo_coordinator_def demo_socket_def registryFor_def upd_entry_def Let_def

lemma demo_registered: "registerEntry ClientSocket ''phone'' ''inc-1'' new_coordinator = Inr (0, open_coordinator)"
  by (simp add: registerEntry_def upd_registry_def fresh_entry_def new_coordinator_def demo_close_defs trim_def utf8_length_def js_space_def)

lemma demo_parsed: "parseCloseSignal demo_signal =
  Some \<lparr>cs_kind = ClientSocket, cs_connectionId = ''phone'', cs_incarnation = ''inc-1'', cs_reason = GrantRevoked\<rparr>"
  by (simp add: parseCloseSignal_def isCloseReason_def socket_kind_of_def demo_signal_def trim_def utf8_length_def js_space_def)

lemma demo_signalled:
  "handleLiveAuthorizationClose cancels (TimerArmed True) demo_signal open_coordinator = (True, signalled_coordinator)"
  by (simp add: handleLiveAuthorizationClose_def demo_parsed begin_close_def demo_close_defs)

lemma demo_asked: "run_microtask signalled_coordinator = asked_coordinator"
  by (simp add: run_microtask_def requestClose_def demo_close_defs)

lemma demo_destroyed: "deadline_fires cancels 0 asked_coordinator = destroyed_coordinator"
  by (simp add: deadline_fires_def forceDestroy_def cancelDeadline_def disarm_def demo_close_defs)

lemma demo_open_run: "coordinator_run cancels new_coordinator open_coordinator"
  by (rule r_into_rtranclp) (rule coordinator_step.register [OF demo_registered])

lemma demo_close_run: "coordinator_run cancels signalled_coordinator destroyed_coordinator"
  using coordinator_step.microtask [of cancels signalled_coordinator] coordinator_step.deadline [of cancels asked_coordinator 0]
  by (simp add: demo_asked demo_destroyed)

lemma demo_full_run: "coordinator_run cancels new_coordinator destroyed_coordinator"
  using demo_open_run coordinator_step.signalled [OF demo_signalled, of cancels] demo_close_run by (meson rtranclp.rtrancl_into_rtrancl rtranclp_trans)

theorem sockets_are_closed_once_witness:
  "coordinator_run (\<lambda>h. True) new_coordinator destroyed_coordinator
   \<and> calls_of 0 destroyed_coordinator = [CloseCall 0 (closeCodeFor GrantRevoked) GrantRevoked, DestroyCall 0]
   \<and> (\<exists>r. calls_of 0 destroyed_coordinator
        \<in> {[], [CloseCall 0 (closeCodeFor r) r], [DestroyCall 0], [CloseCall 0 (closeCodeFor r) r, DestroyCall 0]})"
proof (intro conjI)
  show "coordinator_run (\<lambda>h. True) new_coordinator destroyed_coordinator" by (rule demo_full_run)
  show "calls_of 0 destroyed_coordinator = [CloseCall 0 (closeCodeFor GrantRevoked) GrantRevoked, DestroyCall 0]"
    by (simp add: calls_of_def demo_coordinator_def)
  have "0 < length (co_entries destroyed_coordinator)" by (simp add: demo_coordinator_def)
  from conjunct1 [OF sockets_are_closed_once [OF demo_full_run [of "\<lambda>h. True"] this]]
  show "\<exists>r. calls_of 0 destroyed_coordinator
        \<in> {[], [CloseCall 0 (closeCodeFor r) r], [DestroyCall 0], [CloseCall 0 (closeCodeFor r) r, DestroyCall 0]}" .
qed

theorem fenced_socket_goes_away_witness:
  "coordinator_run (\<lambda>h. False) new_coordinator open_coordinator
   \<and> coordinator_run (\<lambda>h. False) signalled_coordinator destroyed_coordinator
   \<and> se_state (entry destroyed_coordinator 0) = DestroyedSocket \<and> DestroyCall 0 \<in> set (co_trace destroyed_coordinator)"
proof (intro conjI)
  show a: "coordinator_run (\<lambda>h. False) new_coordinator open_coordinator" by (rule demo_open_run)
  show b: "coordinator_run (\<lambda>h. False) signalled_coordinator destroyed_coordinator" by (rule demo_close_run)
  have "registryFor ClientSocket open_coordinator ''phone'' = Some 0" by (simp add: demo_close_defs)
  with fenced_socket_goes_away [OF a demo_parsed _ demo_signalled b, of 0]
  show "se_state (entry destroyed_coordinator 0) = DestroyedSocket" "DestroyCall 0 \<in> set (co_trace destroyed_coordinator)"
    by (simp_all add: demo_coordinator_def demo_socket_def)
qed

end
