(* ===== verification/RV2_ExpiryOwner.thy ===== *)
theory RV2_ExpiryOwner
  imports RV2_CloseCoordinator
begin

text \<open>
  The owner of the authorization deadlines of the Relay v2 broker,
  \<open>src/relay/v2/brokerAuthorizationExpiryDeadlineOwner.ts\<close>. For every connection it keeps a timer at the
  expiry of its credential, asks the broker core again when the timer fires (a cut), and a second
  timer that warns the peer a minute before. Whatever goes wrong seals the owner: every
  entry is retired, and the broker is told once to fail closed.

  Entries, deadlines, cuts, warning attempts and drains are objects; the state keeps each of them under
  the number of its creation. Promises are explicit: a cut, an attempt, a drain and the seal have a
  stage, and what a promise runs when it settles is an event of the step relation at the end. The
  ports of the caller are parameters (\<open>expiry_ports\<close>): which calls of the scheduler, of a
  cancellation receipt, of the recheck and of the warning port throw. The answers of a port
  are data values, and a port does not call the owner back before it returns, apart from a scheduler
  that fires at once.
\<close>

section \<open>Data\<close>

datatype entry_state = CurrentEntry | RetiredEntry

datatype admitted = CutPromise nat | SealPromise

record deadline_cell =
  dc_entry :: nat
  dc_warning :: bool
  dc_at :: int
  dc_cancel :: bool
  dc_armed :: bool
  dc_firedBeforeArmed :: bool

record expiry_entry =
  xe_kind :: socket_kind
  xe_connectionId :: string
  xe_incarnation :: string
  xe_state :: entry_state
  xe_deadline :: "nat option"
  xe_admittedCut :: "admitted option"
  xe_pendingFire :: bool
  xe_consecutiveEarlyFires :: nat
  xe_warningPort :: bool
  xe_warningDeadline :: "nat option"
  xe_warningJti :: "string option"
  xe_warningExpiresAtMs :: "int option"
  xe_warningFired :: bool
  xe_warningConsecutiveEarlyFires :: nat
  xe_warningAttemptGeneration :: nat
  xe_pendingRefresh :: bool

datatype cut_stage = CutWaiting | CutApplied | CutAwaitsSeal | CutSettled bool

record cut =
  ct_entry :: nat
  ct_fromDeadline :: bool
  ct_stage :: cut_stage

datatype attempt_stage = EmitPending | RecheckPending | AttemptOver

record warning_attempt =
  wa_entry :: nat
  wa_jti :: string
  wa_expiresAtMs :: int
  wa_generation :: nat
  wa_stage :: attempt_stage

datatype seal_state = NotSealed | SealPending | SealFulfilled | SealRejected

datatype drain_stage = AwaitsCut "admitted option" | AwaitsSeal | Drained | DrainFailed

record drain =
  dr_entry :: nat
  dr_deletes :: bool
  dr_stage :: drain_stage

datatype close_state = NotClosing | Closing "nat list" | CloseDrained

datatype expiry_call = RecheckCall nat | EmitCall nat string int | FailClosedCall

datatype port_answer = Fulfilled "json option" | Rejected

text \<open>
  Two fields are ghosts: \<open>ow_calls\<close> is the trace of the calls of the ports, and \<open>ow_answers\<close> lists how the
  rechecks of the cuts were answered, each with its entry, the latest last.
\<close>

record expiry_owner =
  ow_entries :: "expiry_entry list"
  ow_live :: "nat list"
  ow_clients :: "string \<rightharpoonup> nat"
  ow_hosts :: "string \<rightharpoonup> nat"
  ow_accepting :: bool
  ow_closed :: bool
  ow_seal :: seal_state
  ow_closeDrain :: close_state
  ow_deadlines :: "deadline_cell list"
  ow_cuts :: "cut list"
  ow_attempts :: "warning_attempt list"
  ow_drains :: "drain list"
  ow_calls :: "expiry_call list"
  ow_answers :: "(nat \<times> port_answer) list"

datatype schedule_result = ScheduleRefused | Scheduled bool

text \<open>
  A deadline is asked for by its number, a call by its position in the trace. \<open>Scheduled True\<close> fires
  before it returns; a receipt that is not a function is \<open>ScheduleRefused\<close>, as a throw is.
\<close>

record expiry_ports =
  ep_schedule :: "nat \<Rightarrow> schedule_result"
  ep_cancelThrows :: "nat \<Rightarrow> bool"
  ep_recheckThrows :: "nat \<Rightarrow> bool"
  ep_emitThrows :: "nat \<Rightarrow> bool"
  ep_failClosedThrows :: bool

definition new_expiry_owner :: expiry_owner where
  "new_expiry_owner = \<lparr>ow_entries = [], ow_live = [], ow_clients = Map.empty, ow_hosts = Map.empty, ow_accepting = True,
     ow_closed = False, ow_seal = NotSealed, ow_closeDrain = NotClosing, ow_deadlines = [], ow_cuts = [], ow_attempts = [],
     ow_drains = [], ow_calls = [], ow_answers = []\<rparr>"

definition MAX_CONSECUTIVE_EARLY_FIRES :: nat where
  "MAX_CONSECUTIVE_EARLY_FIRES = 2"

definition AUTH_EXPIRING_WARNING_LEAD_MS :: int where
  "AUTH_EXPIRING_WARNING_LEAD_MS = 60000"

section \<open>Answers of the ports\<close>

datatype warning_outcome = Emitted | Deferred | NotDue | StaleWarning | ExpiredWarning | ClosedWarning | FailClosedWarning

fun warning_outcome_name :: "warning_outcome \<Rightarrow> string" where
  "warning_outcome_name Emitted = ''emitted''"
| "warning_outcome_name Deferred = ''deferred''"
| "warning_outcome_name NotDue = ''not_due''"
| "warning_outcome_name StaleWarning = ''stale''"
| "warning_outcome_name ExpiredWarning = ''expired''"
| "warning_outcome_name ClosedWarning = ''closed''"
| "warning_outcome_name FailClosedWarning = ''fail_closed''"

definition parseWarningCutOutcome :: "json option \<Rightarrow> warning_outcome option" where
  "parseWarningCutOutcome v =
     named warning_outcome_name
       [Emitted, Deferred, NotDue, StaleWarning, ExpiredWarning, ClosedWarning, FailClosedWarning] v"

datatype cut_result = ActiveCut string int | ExpiredCut | StaleCut | FailClosedCut

definition parseCutResult :: "json option \<Rightarrow> cut_result option" where
  "parseCutResult v =
     (case isRecord v of
        None \<Rightarrow> None
      | Some kvs \<Rightarrow>
          (let outcome = map_of kvs ''outcome'' in
           if outcome = Some (JStr ''active'') then
             (let expires = map_of kvs ''expiresAtMs''; jti = map_of kvs ''jti'' in
              if length kvs \<noteq> 3 \<or> \<not> is_safe_integer expires \<or> int_of expires < 0 \<or> \<not> isRelayV2AuthIdentifier jti then None
              else Some (ActiveCut (string_value jti) (int_of expires)))
           else if length kvs \<noteq> 1 then None
           else if outcome = Some (JStr ''expired'') then Some ExpiredCut
           else if outcome = Some (JStr ''stale'') then Some StaleCut
           else if outcome = Some (JStr ''fail_closed'') then Some FailClosedCut
           else None))"

section \<open>Entries and deadlines\<close>

abbreviation xentry :: "expiry_owner \<Rightarrow> nat \<Rightarrow> expiry_entry" where
  "xentry c k \<equiv> ow_entries c ! k"

abbreviation cell :: "expiry_owner \<Rightarrow> nat \<Rightarrow> deadline_cell" where
  "cell c d \<equiv> ow_deadlines c ! d"

definition upd_xentry :: "nat \<Rightarrow> (expiry_entry \<Rightarrow> expiry_entry) \<Rightarrow> expiry_owner \<Rightarrow> expiry_owner" where
  "upd_xentry k f c = c\<lparr>ow_entries := (ow_entries c)[k := f (xentry c k)]\<rparr>"

definition upd_cell :: "nat \<Rightarrow> (deadline_cell \<Rightarrow> deadline_cell) \<Rightarrow> expiry_owner \<Rightarrow> expiry_owner" where
  "upd_cell d f c = c\<lparr>ow_deadlines := (ow_deadlines c)[d := f (cell c d)]\<rparr>"

definition record_call :: "expiry_call \<Rightarrow> expiry_owner \<Rightarrow> expiry_owner" where
  "record_call x c = c\<lparr>ow_calls := ow_calls c @ [x]\<rparr>"

definition expiryRegistry :: "socket_kind \<Rightarrow> expiry_owner \<Rightarrow> string \<rightharpoonup> nat" where
  "expiryRegistry kind c = (case kind of ClientSocket \<Rightarrow> ow_clients c | HostSocket \<Rightarrow> ow_hosts c)"

definition upd_expiryRegistry :: "socket_kind \<Rightarrow> string \<Rightarrow> nat option \<Rightarrow> expiry_owner \<Rightarrow> expiry_owner" where
  "upd_expiryRegistry kind i v c =
     (case kind of
        ClientSocket \<Rightarrow> c\<lparr>ow_clients := (ow_clients c)(i := v)\<rparr>
      | HostSocket \<Rightarrow> c\<lparr>ow_hosts := (ow_hosts c)(i := v)\<rparr>)"

definition isCurrent :: "expiry_owner \<Rightarrow> nat \<Rightarrow> bool" where
  "isCurrent c k \<longleftrightarrow>
     ow_accepting c \<and> \<not> ow_closed c \<and> xe_state (xentry c k) = CurrentEntry
     \<and> expiryRegistry (xe_kind (xentry c k)) c (xe_connectionId (xentry c k)) = Some k"

section \<open>Cancelling, retiring and sealing\<close>

text \<open>
  The receipt of a deadline is taken out and called; the result says whether it threw.
\<close>

definition cancelled_cell :: "deadline_cell \<Rightarrow> deadline_cell" where
  "cancelled_cell x = x\<lparr>dc_armed := False, dc_cancel := False\<rparr>"

definition call_receipt :: "expiry_ports \<Rightarrow> nat \<Rightarrow> expiry_owner \<Rightarrow> bool \<times> expiry_owner" where
  "call_receipt P d c =
     (dc_cancel (cell c d) \<and> ep_cancelThrows P d, upd_cell d cancelled_cell c)"

text \<open>
  \<open>cancel\<close> and \<open>retire\<close>, with what a throwing receipt leads to: \<open>requestSeal\<close>, which does nothing
  while it is itself retiring the entries, since \<open>sealDrain\<close> is set before it begins.
\<close>

definition cancel_deadline :: "(expiry_owner \<Rightarrow> expiry_owner) \<Rightarrow> expiry_ports \<Rightarrow> nat \<Rightarrow> expiry_owner \<Rightarrow> expiry_owner" where
  "cancel_deadline seal P d c = (case call_receipt P d c of (threw, c') \<Rightarrow> if threw then seal c' else c')"

definition pending_deadlines :: "expiry_entry \<Rightarrow> nat list" where
  "pending_deadlines e =
     (case xe_deadline e of None \<Rightarrow> [] | Some d \<Rightarrow> [d]) @ (case xe_warningDeadline e of None \<Rightarrow> [] | Some d \<Rightarrow> [d])"

definition without_deadlines :: "expiry_entry \<Rightarrow> expiry_entry" where
  "without_deadlines e = e\<lparr>xe_deadline := None, xe_warningDeadline := None, xe_warningJti := None, xe_warningExpiresAtMs := None\<rparr>"

definition cancel_with :: "(expiry_owner \<Rightarrow> expiry_owner) \<Rightarrow> expiry_ports \<Rightarrow> nat \<Rightarrow> expiry_owner \<Rightarrow> expiry_owner" where
  "cancel_with seal P k c =
     fold (cancel_deadline seal P) (pending_deadlines (xentry c k)) (upd_xentry k without_deadlines c)"

definition retired :: "expiry_entry \<Rightarrow> expiry_entry" where
  "retired e = e\<lparr>xe_state := RetiredEntry, xe_pendingFire := False, xe_pendingRefresh := False,
     xe_warningAttemptGeneration := xe_warningAttemptGeneration e + 1\<rparr>"

definition deregister :: "nat \<Rightarrow> expiry_owner \<Rightarrow> expiry_owner" where
  "deregister k c =
     (let kind = xe_kind (xentry c k); i = xe_connectionId (xentry c k) in
      if expiryRegistry kind c i = Some k then upd_expiryRegistry kind i None c else c)"

definition retire_with :: "(expiry_owner \<Rightarrow> expiry_owner) \<Rightarrow> expiry_ports \<Rightarrow> nat \<Rightarrow> expiry_owner \<Rightarrow> expiry_owner" where
  "retire_with seal P k c =
     (if xe_state (xentry c k) = RetiredEntry then c
      else cancel_with seal P k (deregister k (upd_xentry k retired c)))"

definition already_sealed :: "expiry_owner \<Rightarrow> expiry_owner" where
  "already_sealed c = c"

definition requestSeal :: "expiry_ports \<Rightarrow> expiry_owner \<Rightarrow> expiry_owner" where
  "requestSeal P c =
     (if ow_seal c \<noteq> NotSealed then c
      else
        (let c1 = c\<lparr>ow_seal := SealPending, ow_accepting := False\<rparr>;
             c2 = record_call FailClosedCall (fold (retire_with already_sealed P) (ow_live c1) c1)
         in if ep_failClosedThrows P then c2\<lparr>ow_seal := SealRejected\<rparr> else c2))"

definition cancel :: "expiry_ports \<Rightarrow> nat \<Rightarrow> expiry_owner \<Rightarrow> expiry_owner" where
  "cancel P k c = cancel_with (requestSeal P) P k c"

definition retire :: "expiry_ports \<Rightarrow> nat \<Rightarrow> expiry_owner \<Rightarrow> expiry_owner" where
  "retire P k c = retire_with (requestSeal P) P k c"

section \<open>Cuts\<close>

definition admitCut :: "expiry_ports \<Rightarrow> nat \<Rightarrow> bool \<Rightarrow> expiry_owner \<Rightarrow> expiry_owner" where
  "admitCut P k fromDeadline c =
     (if \<not> isCurrent c k \<or> xe_admittedCut (xentry c k) \<noteq> None
      then if fromDeadline \<and> isCurrent c k then upd_xentry k (\<lambda>e. e\<lparr>xe_pendingFire := True\<rparr>) c else c
      else
        (let c1 = record_call (RecheckCall k) c in
         if ep_recheckThrows P (length (ow_calls c))
         then upd_xentry k (\<lambda>e. e\<lparr>xe_admittedCut := Some SealPromise\<rparr>) (requestSeal P c1)
         else
           upd_xentry k (\<lambda>e. e\<lparr>xe_admittedCut := Some (CutPromise (length (ow_cuts c1)))\<rparr>)
             (c1\<lparr>ow_cuts := ow_cuts c1 @ [\<lparr>ct_entry = k, ct_fromDeadline = fromDeadline, ct_stage = CutWaiting\<rparr>]\<rparr>)))"

definition deadlineFired :: "expiry_ports \<Rightarrow> nat \<Rightarrow> nat \<Rightarrow> expiry_owner \<Rightarrow> expiry_owner" where
  "deadlineFired P k d c =
     (if \<not> isCurrent c k \<or> xe_deadline (xentry c k) \<noteq> Some d then c
      else
        (case call_receipt P d (upd_xentry k (\<lambda>e. e\<lparr>xe_deadline := None\<rparr>) c) of (threw, c1) \<Rightarrow>
           if threw then requestSeal P c1
           else if xe_admittedCut (xentry c1 k) \<noteq> None then upd_xentry k (\<lambda>e. e\<lparr>xe_pendingFire := True\<rparr>) c1
           else admitCut P k True c1))"

definition refreshEntry :: "expiry_ports \<Rightarrow> nat \<Rightarrow> expiry_owner \<Rightarrow> expiry_owner" where
  "refreshEntry P k c =
     (if \<not> isCurrent c k then c
      else
        (let c1 = upd_xentry k (\<lambda>e. e\<lparr>xe_warningAttemptGeneration := xe_warningAttemptGeneration e + 1\<rparr>) c; e1 = xentry c1 k in
         if xe_admittedCut e1 \<noteq> None then upd_xentry k (\<lambda>e. e\<lparr>xe_pendingRefresh := True\<rparr>) c1
         else
           admitCut P k False
             (upd_xentry k (\<lambda>e. e\<lparr>xe_warningJti := xe_warningJti e1, xe_warningExpiresAtMs := xe_warningExpiresAtMs e1,
                 xe_warningFired := xe_warningFired e1, xe_consecutiveEarlyFires := 0\<rparr>)
               (cancel P k c1))))"

section \<open>Warnings\<close>

definition emit_warning :: "expiry_ports \<Rightarrow> nat \<Rightarrow> string \<Rightarrow> int \<Rightarrow> expiry_owner \<Rightarrow> expiry_owner" where
  "emit_warning P k jti expiresAtMs c =
     (let g = xe_warningAttemptGeneration (xentry c k) + 1;
          c1 = upd_xentry k (\<lambda>e. e\<lparr>xe_warningFired := True, xe_warningAttemptGeneration := g\<rparr>) c;
          c2 = record_call (EmitCall k jti expiresAtMs) c1
      in if \<not> xe_warningPort (xentry c1 k) then c1
         else if ep_emitThrows P (length (ow_calls c1)) then requestSeal P c2
         else c2\<lparr>ow_attempts := ow_attempts c2 @
                [\<lparr>wa_entry = k, wa_jti = jti, wa_expiresAtMs = expiresAtMs, wa_generation = g, wa_stage = EmitPending\<rparr>]\<rparr>)"

definition warningDeadlineFired :: "expiry_ports \<Rightarrow> nat \<Rightarrow> nat \<Rightarrow> expiry_owner \<Rightarrow> expiry_owner" where
  "warningDeadlineFired P k d c =
     (if \<not> isCurrent c k \<or> xe_warningDeadline (xentry c k) \<noteq> Some d then c
      else
        (case call_receipt P d (upd_xentry k (\<lambda>e. e\<lparr>xe_warningDeadline := None\<rparr>) c) of (threw, c1) \<Rightarrow>
           if threw then requestSeal P c1
           else
             (case (xe_warningFired (xentry c1 k), xe_warningJti (xentry c1 k), xe_warningExpiresAtMs (xentry c1 k)) of
                (False, Some jti, Some expiresAtMs) \<Rightarrow> emit_warning P k jti expiresAtMs c1
              | _ \<Rightarrow> c1)))"

definition new_cell :: "nat \<Rightarrow> bool \<Rightarrow> int \<Rightarrow> deadline_cell" where
  "new_cell k warning at =
     \<lparr>dc_entry = k, dc_warning = warning, dc_at = at, dc_cancel = False, dc_armed = False, dc_firedBeforeArmed = False\<rparr>"

text \<open>
  A new deadline; the result says whether the scheduler accepted it, and then whether it fired at
  once.
\<close>

definition schedule_cell :: "expiry_ports \<Rightarrow> nat \<Rightarrow> bool \<Rightarrow> int \<Rightarrow> expiry_owner \<Rightarrow> bool option \<times> expiry_owner" where
  "schedule_cell P k warning at c =
     (let d = length (ow_deadlines c);
          c1 = upd_xentry k (\<lambda>e. if warning then e\<lparr>xe_warningDeadline := Some d\<rparr> else e\<lparr>xe_deadline := Some d\<rparr>)
                 (c\<lparr>ow_deadlines := ow_deadlines c @ [new_cell k warning at]\<rparr>)
      in case ep_schedule P d of
           ScheduleRefused \<Rightarrow> (None, c1)
         | Scheduled early \<Rightarrow>
             (Some early, upd_cell d (\<lambda>x. x\<lparr>dc_firedBeforeArmed := early, dc_cancel := True, dc_armed := True\<rparr>) c1))"

text \<open>\<open>arm\<close> and \<open>armWarning\<close> also say whether they returned the promise of the seal.\<close>

definition adopt_credential :: "string \<Rightarrow> int \<Rightarrow> expiry_entry \<Rightarrow> expiry_entry" where
  "adopt_credential jti expiresAtMs e =
     (if xe_warningJti e \<noteq> Some jti \<or> xe_warningExpiresAtMs e \<noteq> Some expiresAtMs
      then e\<lparr>xe_warningJti := Some jti, xe_warningExpiresAtMs := Some expiresAtMs, xe_warningFired := False,
             xe_warningConsecutiveEarlyFires := 0\<rparr>
      else e)"

definition armWarning :: "expiry_ports \<Rightarrow> nat \<Rightarrow> string \<Rightarrow> int \<Rightarrow> expiry_owner \<Rightarrow> bool \<times> expiry_owner" where
  "armWarning P k jti expiresAtMs c =
     (if \<not> isCurrent c k \<or> \<not> xe_warningPort (xentry c k) then (False, c)
      else
        (let c1 = upd_xentry k (adopt_credential jti expiresAtMs) c in
         if xe_warningFired (xentry c1 k) then (False, c1)
         else if xe_warningDeadline (xentry c1 k) \<noteq> None then (True, requestSeal P c1)
         else
           (case schedule_cell P k True (expiresAtMs - AUTH_EXPIRING_WARNING_LEAD_MS) c1 of
              (None, c2) \<Rightarrow>
                (True, requestSeal P (upd_xentry k
                   (\<lambda>e. e\<lparr>xe_warningDeadline := None, xe_warningJti := None, xe_warningExpiresAtMs := None\<rparr>) c2))
            | (Some early, c2) \<Rightarrow>
                (False, if early then warningDeadlineFired P k (length (ow_deadlines c1)) c2 else c2))))"

definition arm :: "expiry_ports \<Rightarrow> nat \<Rightarrow> string \<Rightarrow> int \<Rightarrow> expiry_owner \<Rightarrow> bool \<times> expiry_owner" where
  "arm P k jti expiresAtMs c =
     (if \<not> isCurrent c k then (False, c)
      else if xe_deadline (xentry c k) \<noteq> None then (True, requestSeal P c)
      else
        (case schedule_cell P k False expiresAtMs c of
           (None, c1) \<Rightarrow> (True, requestSeal P (upd_xentry k (\<lambda>e. e\<lparr>xe_deadline := None\<rparr>) c1))
         | (Some early, c1) \<Rightarrow>
             armWarning P k jti expiresAtMs
               (if early then deadlineFired P k (length (ow_deadlines c)) c1 else c1)))"

definition applyCutResult :: "expiry_ports \<Rightarrow> nat \<Rightarrow> json option \<Rightarrow> bool \<Rightarrow> expiry_owner \<Rightarrow> bool \<times> expiry_owner" where
  "applyCutResult P k v fromDeadline c =
     (if \<not> isCurrent c k then (False, c)
      else
        (case parseCutResult v of
           None \<Rightarrow> (True, requestSeal P c)
         | Some FailClosedCut \<Rightarrow> (True, requestSeal P c)
         | Some ExpiredCut \<Rightarrow> (False, retire P k c)
         | Some StaleCut \<Rightarrow> (False, retire P k c)
         | Some (ActiveCut jti expiresAtMs) \<Rightarrow>
             (let n = (if fromDeadline then xe_consecutiveEarlyFires (xentry c k) + 1 else 0);
                  c1 = upd_xentry k (\<lambda>e. e\<lparr>xe_consecutiveEarlyFires := n\<rparr>) c
              in if fromDeadline \<and> n \<ge> MAX_CONSECUTIVE_EARLY_FIRES then (True, requestSeal P c1)
                 else arm P k jti expiresAtMs c1)))"

section \<open>Registrations\<close>

definition fresh_xentry :: "socket_kind \<Rightarrow> string \<Rightarrow> string \<Rightarrow> bool \<Rightarrow> expiry_entry" where
  "fresh_xentry kind i incarnation port =
     \<lparr>xe_kind = kind, xe_connectionId = i, xe_incarnation = incarnation, xe_state = CurrentEntry, xe_deadline = None,
      xe_admittedCut = None, xe_pendingFire = False, xe_consecutiveEarlyFires = 0, xe_warningPort = port,
      xe_warningDeadline = None, xe_warningJti = None, xe_warningExpiresAtMs = None, xe_warningFired = False,
      xe_warningConsecutiveEarlyFires = 0, xe_warningAttemptGeneration = 0, xe_pendingRefresh = False\<rparr>"

text \<open>
  The number of the new entry, or \<open>None\<close> for the error that the owner is unavailable; a failed
  registration may have retired the previous entry of the connection.
\<close>

definition register ::
  "expiry_ports \<Rightarrow> socket_kind \<Rightarrow> string \<Rightarrow> string \<Rightarrow> bool \<Rightarrow> expiry_owner \<Rightarrow> nat option \<times> expiry_owner" where
  "register P kind i incarnation port c =
     (if \<not> ow_accepting c \<or> ow_closed c \<or> \<not> isRelayV2AuthIdentifier (Some (JStr i))
        \<or> \<not> isRelayV2AuthIdentifier (Some (JStr incarnation))
      then (None, c)
      else
        (let c1 = (case expiryRegistry kind c i of None \<Rightarrow> c | Some previous \<Rightarrow> retire P previous c) in
         if \<not> ow_accepting c1 then (None, c1)
         else
           (let k = length (ow_entries c1) in
            (Some k,
             admitCut P k False
               ((upd_expiryRegistry kind i (Some k) (c1\<lparr>ow_entries := ow_entries c1 @ [fresh_xentry kind i incarnation port]\<rparr>))
                  \<lparr>ow_live := ow_live c1 @ [k]\<rparr>)))))"

text \<open>
  \<open>unregister\<close> retires the entry and begins a drain, which waits for the admitted cut, then for a
  seal, and deletes the entry at its end; \<open>close\<close> drains every entry.
\<close>

definition begin_drain :: "bool \<Rightarrow> nat \<Rightarrow> expiry_owner \<Rightarrow> expiry_owner" where
  "begin_drain deletes k c =
     c\<lparr>ow_drains := ow_drains c @ [\<lparr>dr_entry = k, dr_deletes = deletes, dr_stage = AwaitsCut (xe_admittedCut (xentry c k))\<rparr>]\<rparr>"

definition unregister_expiry :: "expiry_ports \<Rightarrow> nat \<Rightarrow> expiry_owner \<Rightarrow> expiry_owner" where
  "unregister_expiry P k c = begin_drain True k (retire P k c)"

definition close :: "expiry_ports \<Rightarrow> expiry_owner \<Rightarrow> expiry_owner" where
  "close P c =
     (if ow_closeDrain c \<noteq> NotClosing then c
      else
        (let ks = ow_live c;
             c1 = fold (retire P) ks (c\<lparr>ow_accepting := False, ow_closed := True\<rparr>);
             c2 = fold (begin_drain False) ks (c1\<lparr>ow_clients := Map.empty, ow_hosts := Map.empty\<rparr>)
         in c2\<lparr>ow_closeDrain := Closing [length (ow_drains c1)..<length (ow_drains c2)]\<rparr>))"

section \<open>Events\<close>

text \<open>The scheduler runs the callback of a deadline.\<close>

definition timer_callback :: "expiry_ports \<Rightarrow> nat \<Rightarrow> expiry_owner \<Rightarrow> expiry_owner" where
  "timer_callback P d c =
     (if \<not> dc_armed (cell c d) then upd_cell d (\<lambda>x. x\<lparr>dc_firedBeforeArmed := True\<rparr>) c
      else if dc_warning (cell c d) then warningDeadlineFired P (dc_entry (cell c d)) d c
      else deadlineFired P (dc_entry (cell c d)) d c)"

text \<open>The recheck of a cut settles, and later the \<open>finally\<close> of its promise runs.\<close>

definition upd_cut :: "nat \<Rightarrow> cut_stage \<Rightarrow> expiry_owner \<Rightarrow> expiry_owner" where
  "upd_cut n s c = c\<lparr>ow_cuts := (ow_cuts c)[n := (ow_cuts c ! n)\<lparr>ct_stage := s\<rparr>]\<rparr>"

definition record_answer :: "nat \<Rightarrow> port_answer \<Rightarrow> expiry_owner \<Rightarrow> expiry_owner" where
  "record_answer n r c = c\<lparr>ow_answers := ow_answers c @ [(ct_entry (ow_cuts c ! n), r)]\<rparr>"

definition cut_answered :: "expiry_ports \<Rightarrow> nat \<Rightarrow> port_answer \<Rightarrow> expiry_owner \<Rightarrow> expiry_owner" where
  "cut_answered P n r c =
     (if length (ow_cuts c) \<le> n \<or> ct_stage (ow_cuts c ! n) \<noteq> CutWaiting then c
      else
        (let c0 = record_answer n r c in
         case (case r of
                 Rejected \<Rightarrow> (True, requestSeal P c0)
               | Fulfilled v \<Rightarrow> applyCutResult P (ct_entry (ow_cuts c ! n)) v (ct_fromDeadline (ow_cuts c ! n)) c0) of
           (awaits, c1) \<Rightarrow> upd_cut n (if awaits then CutAwaitsSeal else CutApplied) c1))"

definition forget_entry :: "nat \<Rightarrow> expiry_owner \<Rightarrow> expiry_owner" where
  "forget_entry k c = c\<lparr>ow_live := removeAll k (ow_live c)\<rparr>"

text \<open>The two questions the end of a cut asks: did the deadline fire meanwhile, was a refresh requested.\<close>

definition after_fire :: "expiry_ports \<Rightarrow> nat \<Rightarrow> expiry_owner \<Rightarrow> expiry_owner" where
  "after_fire P k c =
     (if isCurrent c k \<and> xe_pendingFire (xentry c k)
      then admitCut P k True (upd_xentry k (\<lambda>e. e\<lparr>xe_pendingFire := False\<rparr>) c) else c)"

definition after_refresh :: "expiry_ports \<Rightarrow> nat \<Rightarrow> expiry_owner \<Rightarrow> expiry_owner" where
  "after_refresh P k c =
     (if isCurrent c k \<and> xe_pendingRefresh (xentry c k)
      then refreshEntry P k (upd_xentry k (\<lambda>e. e\<lparr>xe_pendingRefresh := False\<rparr>) c) else c)"

definition finally_cut :: "expiry_ports \<Rightarrow> nat \<Rightarrow> nat \<Rightarrow> expiry_owner \<Rightarrow> expiry_owner" where
  "finally_cut P n k c =
     (let c1 = (if xe_admittedCut (xentry c k) = Some (CutPromise n) then upd_xentry k (\<lambda>e. e\<lparr>xe_admittedCut := None\<rparr>) c else c);
          c3 = after_refresh P k (after_fire P k c1)
      in if xe_state (xentry c3 k) = RetiredEntry \<and> xe_deadline (xentry c3 k) = None \<and> xe_admittedCut (xentry c3 k) = None
         then forget_entry k c3 else c3)"

definition cut_finishes :: "expiry_ports \<Rightarrow> nat \<Rightarrow> expiry_owner \<Rightarrow> expiry_owner" where
  "cut_finishes P n c =
     (if length (ow_cuts c) \<le> n then c
      else
        (case (ct_stage (ow_cuts c ! n), ow_seal c) of
           (CutApplied, s) \<Rightarrow> finally_cut P n (ct_entry (ow_cuts c ! n)) (upd_cut n (CutSettled True) c)
         | (CutAwaitsSeal, SealFulfilled) \<Rightarrow> finally_cut P n (ct_entry (ow_cuts c ! n)) (upd_cut n (CutSettled True) c)
         | (CutAwaitsSeal, SealRejected) \<Rightarrow> finally_cut P n (ct_entry (ow_cuts c ! n)) (upd_cut n (CutSettled False) c)
         | (s, t) \<Rightarrow> c))"

text \<open>A warning attempt settles: first the emission, then, for a stale one, the recheck.\<close>

definition attempt_superseded :: "expiry_owner \<Rightarrow> warning_attempt \<Rightarrow> bool" where
  "attempt_superseded c a \<longleftrightarrow>
     (let e = xentry c (wa_entry a) in
      \<not> isCurrent c (wa_entry a) \<or> xe_warningJti e \<noteq> Some (wa_jti a) \<or> xe_warningExpiresAtMs e \<noteq> Some (wa_expiresAtMs a)
      \<or> xe_warningAttemptGeneration e \<noteq> wa_generation a)"

definition upd_attempt :: "nat \<Rightarrow> attempt_stage \<Rightarrow> expiry_owner \<Rightarrow> expiry_owner" where
  "upd_attempt i s c = c\<lparr>ow_attempts := (ow_attempts c)[i := (ow_attempts c ! i)\<lparr>wa_stage := s\<rparr>]\<rparr>"

definition resolveStaleWarning :: "expiry_ports \<Rightarrow> nat \<Rightarrow> expiry_owner \<Rightarrow> expiry_owner" where
  "resolveStaleWarning P i c =
     (let c1 = record_call (RecheckCall (wa_entry (ow_attempts c ! i))) c in
      if ep_recheckThrows P (length (ow_calls c)) then requestSeal P c1
      else upd_attempt i RecheckPending c1)"

definition emission_not_due :: "expiry_ports \<Rightarrow> warning_attempt \<Rightarrow> expiry_owner \<Rightarrow> expiry_owner" where
  "emission_not_due P a c =
     (let k = wa_entry a;
          c1 = upd_xentry k (\<lambda>e. e\<lparr>xe_warningFired := False,
                 xe_warningConsecutiveEarlyFires := xe_warningConsecutiveEarlyFires e + 1\<rparr>) c
      in if xe_warningConsecutiveEarlyFires (xentry c1 k) \<ge> MAX_CONSECUTIVE_EARLY_FIRES then requestSeal P c1
         else snd (armWarning P k (wa_jti a) (wa_expiresAtMs a) c1))"

definition emission_answered :: "expiry_ports \<Rightarrow> nat \<Rightarrow> port_answer \<Rightarrow> expiry_owner \<Rightarrow> expiry_owner" where
  "emission_answered P i r c =
     (let a = ow_attempts c ! i; c1 = upd_attempt i AttemptOver c in
      if attempt_superseded c a then c1
      else
        (case r of
           Rejected \<Rightarrow> requestSeal P c1
         | Fulfilled v \<Rightarrow>
             (case parseWarningCutOutcome v of
                None \<Rightarrow> requestSeal P c1
              | Some FailClosedWarning \<Rightarrow> requestSeal P c1
              | Some Emitted \<Rightarrow> c1
              | Some Deferred \<Rightarrow> c1
              | Some ClosedWarning \<Rightarrow> retire P (wa_entry a) c1
              | Some ExpiredWarning \<Rightarrow> retire P (wa_entry a) c1
              | Some NotDue \<Rightarrow> emission_not_due P a c1
              | Some StaleWarning \<Rightarrow> resolveStaleWarning P i c1)))"

definition stale_recheck_answered :: "expiry_ports \<Rightarrow> nat \<Rightarrow> port_answer \<Rightarrow> expiry_owner \<Rightarrow> expiry_owner" where
  "stale_recheck_answered P i r c =
     (let a = ow_attempts c ! i; c1 = upd_attempt i AttemptOver c in
      if attempt_superseded c a then c1
      else
        (case r of
           Rejected \<Rightarrow> requestSeal P c1
         | Fulfilled v \<Rightarrow>
             (case parseCutResult v of
                None \<Rightarrow> requestSeal P c1
              | Some FailClosedCut \<Rightarrow> requestSeal P c1
              | Some (ActiveCut jti expiresAtMs) \<Rightarrow> refreshEntry P (wa_entry a) c1
              | Some ExpiredCut \<Rightarrow> retire P (wa_entry a) c1
              | Some StaleCut \<Rightarrow> retire P (wa_entry a) c1)))"

definition attempt_answered :: "expiry_ports \<Rightarrow> nat \<Rightarrow> port_answer \<Rightarrow> expiry_owner \<Rightarrow> expiry_owner" where
  "attempt_answered P i r c =
     (if length (ow_attempts c) \<le> i then c
      else
        (case wa_stage (ow_attempts c ! i) of
           EmitPending \<Rightarrow> emission_answered P i r c
         | RecheckPending \<Rightarrow> stale_recheck_answered P i r c
         | AttemptOver \<Rightarrow> c))"

text \<open>\<open>failClosed\<close> settles; a drain goes on; the drain of \<open>close\<close> ends.\<close>

definition seal_settles :: "bool \<Rightarrow> expiry_owner \<Rightarrow> expiry_owner" where
  "seal_settles good c =
     (if ow_seal c = SealPending then c\<lparr>ow_seal := if good then SealFulfilled else SealRejected\<rparr> else c)"

definition upd_drain :: "nat \<Rightarrow> drain_stage \<Rightarrow> expiry_owner \<Rightarrow> expiry_owner" where
  "upd_drain i s c = c\<lparr>ow_drains := (ow_drains c)[i := (ow_drains c ! i)\<lparr>dr_stage := s\<rparr>]\<rparr>"

definition drain_ends :: "nat \<Rightarrow> expiry_owner \<Rightarrow> expiry_owner" where
  "drain_ends i c =
     (let c1 = upd_drain i Drained c in
      if dr_deletes (ow_drains c ! i) then forget_entry (dr_entry (ow_drains c ! i)) c1 else c1)"

definition after_cut :: "nat \<Rightarrow> expiry_owner \<Rightarrow> expiry_owner" where
  "after_cut i c = (if ow_seal c \<noteq> NotSealed then upd_drain i AwaitsSeal c else drain_ends i c)"

definition drain_continues :: "nat \<Rightarrow> expiry_owner \<Rightarrow> expiry_owner" where
  "drain_continues i c =
     (if length (ow_drains c) \<le> i then c
      else
        (case dr_stage (ow_drains c ! i) of
           AwaitsCut None \<Rightarrow> after_cut i c
         | AwaitsCut (Some (CutPromise n)) \<Rightarrow>
             (case ct_stage (ow_cuts c ! n) of
                CutSettled good \<Rightarrow> if good then after_cut i c else upd_drain i DrainFailed c
              | s \<Rightarrow> c)
         | AwaitsCut (Some SealPromise) \<Rightarrow>
             (case ow_seal c of SealFulfilled \<Rightarrow> after_cut i c | SealRejected \<Rightarrow> upd_drain i DrainFailed c | s \<Rightarrow> c)
         | AwaitsSeal \<Rightarrow>
             (case ow_seal c of SealFulfilled \<Rightarrow> drain_ends i c | SealRejected \<Rightarrow> upd_drain i DrainFailed c | s \<Rightarrow> c)
         | s \<Rightarrow> c))"

definition close_finishes :: "expiry_owner \<Rightarrow> expiry_owner" where
  "close_finishes c =
     (case ow_closeDrain c of
        Closing ds \<Rightarrow>
          if list_all (\<lambda>i. dr_stage (ow_drains c ! i) = Drained) ds \<and> ow_seal c \<in> {NotSealed, SealFulfilled}
          then c\<lparr>ow_closeDrain := CloseDrained, ow_live := []\<rparr> else c
      | s \<Rightarrow> c)"

section \<open>Runs\<close>

inductive expiry_step :: "expiry_ports \<Rightarrow> expiry_owner \<Rightarrow> expiry_owner \<Rightarrow> bool" for P where
  registers: "register P kind i incarnation port c = (k, c') \<Longrightarrow> expiry_step P c c'"
| unregisters: "k < length (ow_entries c) \<Longrightarrow> expiry_step P c (unregister_expiry P k c)"
| refreshes: "k < length (ow_entries c) \<Longrightarrow> expiry_step P c (refreshEntry P k c)"
| closes: "expiry_step P c (close P c)"
| fires: "d < length (ow_deadlines c) \<Longrightarrow> expiry_step P c (timer_callback P d c)"
| answered: "expiry_step P c (cut_answered P n r c)"
| finishes: "expiry_step P c (cut_finishes P n c)"
| warned: "expiry_step P c (attempt_answered P i r c)"
| sealed: "expiry_step P c (seal_settles good c)"
| drains: "expiry_step P c (drain_continues i c)"
| close_drained: "expiry_step P c (close_finishes c)"

abbreviation expiry_run :: "expiry_ports \<Rightarrow> expiry_owner \<Rightarrow> expiry_owner \<Rightarrow> bool" where
  "expiry_run P \<equiv> (expiry_step P)\<^sup>*\<^sup>*"

end
