(* ===== verification/RV2_ExpiryFacts.thy ===== *)
theory RV2_ExpiryFacts
  imports RV2_ExpiryOwner
begin

text \<open>
  The invariant of the authorization deadline owner, and the operations everything else is built from:
  cancelling deadlines, retiring an entry, sealing the owner. The locale \<open>sealing\<close> holds what
  cancelling and retiring need to know of the seal, since the code cancels deadlines both before and while
  it seals.
\<close>

section \<open>The invariant\<close>

fun slot :: "bool \<Rightarrow> expiry_entry \<Rightarrow> nat option" where
  "slot True e = xe_warningDeadline e"
| "slot False e = xe_deadline e"

abbreviation current :: "expiry_owner \<Rightarrow> nat \<Rightarrow> bool" where
  "current c k \<equiv> xe_state (xentry c k) = CurrentEntry"

abbreviation unsettled :: "cut \<Rightarrow> bool" where
  "unsettled x \<equiv> \<not> (\<exists>b. ct_stage x = CutSettled b)"

text \<open>
  An entry and the deadlines it refers to know each other; the deadlines in \<open>D\<close> have been taken
  from their entry and not been cancelled yet.
\<close>

definition slots_ok :: "nat set \<Rightarrow> expiry_owner \<Rightarrow> bool" where
  "slots_ok D c \<longleftrightarrow> (\<forall>k < length (ow_entries c). \<forall>w d. slot w (xentry c k) = Some d \<longrightarrow>
     d < length (ow_deadlines c) \<and> dc_entry (cell c d) = k \<and> dc_warning (cell c d) = w \<and> dc_armed (cell c d) \<and> d \<notin> D)"

definition cells_ok :: "nat set \<Rightarrow> expiry_owner \<Rightarrow> bool" where
  "cells_ok D c \<longleftrightarrow> (\<forall>d < length (ow_deadlines c). dc_cancel (cell c d) = dc_armed (cell c d)
     \<and> (dc_armed (cell c d) \<longrightarrow> d \<in> D \<or> dc_entry (cell c d) < length (ow_entries c)
          \<and> slot (dc_warning (cell c d)) (xentry c (dc_entry (cell c d))) = Some d))"

definition cuts_ok :: "expiry_owner \<Rightarrow> bool" where
  "cuts_ok c \<longleftrightarrow>
     (\<forall>n < length (ow_cuts c). ct_entry (ow_cuts c ! n) < length (ow_entries c)
        \<and> (unsettled (ow_cuts c ! n) \<longrightarrow> xe_admittedCut (xentry c (ct_entry (ow_cuts c ! n))) = Some (CutPromise n)))
     \<and> (\<forall>k < length (ow_entries c). \<forall>n. xe_admittedCut (xentry c k) = Some (CutPromise n) \<longrightarrow>
          n < length (ow_cuts c) \<and> ct_entry (ow_cuts c ! n) = k \<and> unsettled (ow_cuts c ! n))"

definition placed :: "expiry_owner \<Rightarrow> nat \<Rightarrow> expiry_entry \<Rightarrow> bool" where
  "placed c k e \<longleftrightarrow>
     (if xe_state e = CurrentEntry
      then k \<in> set (ow_live c) \<and> expiryRegistry (xe_kind e) c (xe_connectionId e) = Some k
      else \<forall>w. slot w e = None)"

definition entries_ok :: "expiry_owner \<Rightarrow> bool" where
  "entries_ok c \<longleftrightarrow>
     (\<forall>k < length (ow_entries c). placed c k (xentry c k))
     \<and> (\<forall>kind i k. expiryRegistry kind c i = Some k \<longrightarrow> k < length (ow_entries c))
     \<and> (\<forall>k \<in> set (ow_live c). k < length (ow_entries c))
     \<and> (\<forall>a \<in> set (ow_attempts c). wa_entry a < length (ow_entries c))"

definition base :: "nat set \<Rightarrow> expiry_owner \<Rightarrow> bool" where
  "base D c \<longleftrightarrow> slots_ok D c \<and> cells_ok D c \<and> cuts_ok c \<and> entries_ok c"

text \<open>A dead owner has no current entry and accepts none.\<close>

definition dead :: "expiry_owner \<Rightarrow> bool" where
  "dead c \<longleftrightarrow> \<not> ow_accepting c \<and> (\<forall>k < length (ow_entries c). \<not> current c k)"

definition seal_ok :: "expiry_owner \<Rightarrow> bool" where
  "seal_ok c \<longleftrightarrow>
     count_list (ow_calls c) FailClosedCall = (if ow_seal c = NotSealed then 0 else 1)
     \<and> (ow_seal c \<noteq> NotSealed \<longrightarrow> dead c)"

text \<open>
  A current connection is covered: its expiry deadline is armed, or a recheck is in flight, or a cut
  is about to finish that knows of the fired deadline.
\<close>

definition covered :: "expiry_owner \<Rightarrow> nat \<Rightarrow> bool" where
  "covered c k \<longleftrightarrow>
     (let e = xentry c k in
      case xe_admittedCut e of
        None \<Rightarrow> xe_deadline e \<noteq> None \<and> \<not> xe_pendingFire e
      | Some SealPromise \<Rightarrow> False
      | Some (CutPromise n) \<Rightarrow>
          (case ct_stage (ow_cuts c ! n) of
             CutWaiting \<Rightarrow> xe_deadline e = None \<and> \<not> xe_pendingFire e
           | CutApplied \<Rightarrow> (xe_deadline e = None) = xe_pendingFire e
           | s \<Rightarrow> False))"

definition drains_ok :: "expiry_owner \<Rightarrow> bool" where
  "drains_ok c \<longleftrightarrow> (\<forall>x \<in> set (ow_drains c). dr_entry x < length (ow_entries c) \<and> \<not> current c (dr_entry x))"

definition owner_ok :: "expiry_owner \<Rightarrow> bool" where
  "owner_ok c \<longleftrightarrow> base {} c \<and> seal_ok c \<and> drains_ok c
     \<and> (\<forall>k < length (ow_entries c). current c k \<longrightarrow> ow_accepting c \<and> \<not> ow_closed c \<and> covered c k)
     \<and> (ow_closed c \<longrightarrow> \<not> ow_accepting c) \<and> (ow_closeDrain c \<noteq> NotClosing \<longrightarrow> ow_closed c)"

section \<open>The effect of the helpers on each part of the state\<close>

lemma upd_xentry_simps [simp]:
  "ow_entries (upd_xentry k f c) = (ow_entries c)[k := f (xentry c k)]" "ow_live (upd_xentry k f c) = ow_live c"
  "ow_accepting (upd_xentry k f c) = ow_accepting c" "ow_closed (upd_xentry k f c) = ow_closed c"
  "ow_seal (upd_xentry k f c) = ow_seal c" "ow_deadlines (upd_xentry k f c) = ow_deadlines c"
  "ow_cuts (upd_xentry k f c) = ow_cuts c" "ow_attempts (upd_xentry k f c) = ow_attempts c"
  "ow_calls (upd_xentry k f c) = ow_calls c" "ow_drains (upd_xentry k f c) = ow_drains c"
  "expiryRegistry kind (upd_xentry k f c) = expiryRegistry kind c"
  "ow_closeDrain (upd_xentry k f c) = ow_closeDrain c"
  by (simp_all add: upd_xentry_def expiryRegistry_def split: socket_kind.split)

lemma upd_cell_simps [simp]:
  "ow_deadlines (upd_cell d f c) = (ow_deadlines c)[d := f (cell c d)]" "ow_live (upd_cell d f c) = ow_live c"
  "ow_accepting (upd_cell d f c) = ow_accepting c" "ow_closed (upd_cell d f c) = ow_closed c"
  "ow_seal (upd_cell d f c) = ow_seal c" "ow_entries (upd_cell d f c) = ow_entries c"
  "ow_cuts (upd_cell d f c) = ow_cuts c" "ow_attempts (upd_cell d f c) = ow_attempts c"
  "ow_calls (upd_cell d f c) = ow_calls c" "ow_drains (upd_cell d f c) = ow_drains c"
  "expiryRegistry kind (upd_cell d f c) = expiryRegistry kind c" "ow_closeDrain (upd_cell d f c) = ow_closeDrain c"
  by (simp_all add: upd_cell_def expiryRegistry_def split: socket_kind.split)

lemma record_call_simps [simp]:
  "ow_deadlines (record_call x c) = ow_deadlines c" "ow_live (record_call x c) = ow_live c"
  "ow_accepting (record_call x c) = ow_accepting c" "ow_closed (record_call x c) = ow_closed c"
  "ow_seal (record_call x c) = ow_seal c" "ow_entries (record_call x c) = ow_entries c"
  "ow_cuts (record_call x c) = ow_cuts c" "ow_attempts (record_call x c) = ow_attempts c"
  "ow_calls (record_call x c) = ow_calls c @ [x]" "ow_drains (record_call x c) = ow_drains c"
  "expiryRegistry kind (record_call x c) = expiryRegistry kind c" "ow_closeDrain (record_call x c) = ow_closeDrain c"
  by (simp_all add: record_call_def expiryRegistry_def split: socket_kind.split)

lemma expiryRegistry_frame [simp]:
  "expiryRegistry kind (c\<lparr>ow_cuts := x1\<rparr>) = expiryRegistry kind c" "expiryRegistry kind (c\<lparr>ow_attempts := x2\<rparr>) = expiryRegistry kind c"
  "expiryRegistry kind (c\<lparr>ow_drains := x3\<rparr>) = expiryRegistry kind c" "expiryRegistry kind (c\<lparr>ow_seal := x4\<rparr>) = expiryRegistry kind c"
  "expiryRegistry kind (c\<lparr>ow_live := x5\<rparr>) = expiryRegistry kind c" "expiryRegistry kind (c\<lparr>ow_entries := x6\<rparr>) = expiryRegistry kind c"
  "expiryRegistry kind (c\<lparr>ow_deadlines := x7\<rparr>) = expiryRegistry kind c" "expiryRegistry kind (c\<lparr>ow_accepting := x8\<rparr>) = expiryRegistry kind c"
  "expiryRegistry kind (c\<lparr>ow_closed := x9\<rparr>) = expiryRegistry kind c" "expiryRegistry kind (c\<lparr>ow_closeDrain := x10\<rparr>) = expiryRegistry kind c"
  by (simp_all add: expiryRegistry_def split: socket_kind.split)

lemma deregister_simps [simp]:
  "ow_deadlines (deregister k c) = ow_deadlines c" "ow_live (deregister k c) = ow_live c"
  "ow_accepting (deregister k c) = ow_accepting c" "ow_closed (deregister k c) = ow_closed c"
  "ow_seal (deregister k c) = ow_seal c" "ow_entries (deregister k c) = ow_entries c"
  "ow_cuts (deregister k c) = ow_cuts c" "ow_attempts (deregister k c) = ow_attempts c"
  "ow_calls (deregister k c) = ow_calls c" "ow_drains (deregister k c) = ow_drains c"
  "ow_closeDrain (deregister k c) = ow_closeDrain c"
  by (simp_all add: deregister_def upd_expiryRegistry_def Let_def split: socket_kind.split)

lemma deregister_registry [simp]:
  "expiryRegistry kind (deregister k c) i = Some j \<longleftrightarrow>
     expiryRegistry kind c i = Some j \<and> \<not> (j = k \<and> kind = xe_kind (xentry c k) \<and> i = xe_connectionId (xentry c k))"
  by (cases kind; cases "xe_kind (xentry c k)")
    (auto simp: deregister_def upd_expiryRegistry_def expiryRegistry_def Let_def)

lemma cancelled_cell_simps [simp]:
  "dc_entry (cancelled_cell x) = dc_entry x" "dc_warning (cancelled_cell x) = dc_warning x"
  "\<not> dc_armed (cancelled_cell x)" "\<not> dc_cancel (cancelled_cell x)"
  by (simp_all add: cancelled_cell_def)
section \<open>Operations that concern one entry\<close>

definition business :: "expiry_owner \<Rightarrow> expiry_call list" where
  "business c = filter (\<lambda>x. x \<noteq> FailClosedCall) (ow_calls c)"

definition framed :: "nat \<Rightarrow> expiry_owner \<Rightarrow> expiry_owner \<Rightarrow> bool" where
  "framed k c c' \<longleftrightarrow>
     ow_accepting c' = ow_accepting c \<and> (current c' k \<longrightarrow> current c k) \<and> (\<forall>j. j \<noteq> k \<longrightarrow> xentry c' j = xentry c j)
     \<and> length (ow_cuts c) \<le> length (ow_cuts c')
     \<and> (\<forall>n < length (ow_cuts c). ct_entry (ow_cuts c ! n) \<noteq> k \<longrightarrow> ow_cuts c' ! n = ow_cuts c ! n)"

text \<open>An operation on entry \<open>k\<close> leaves the others alone, unless it ends in a dead owner.\<close>

definition effect_on :: "nat \<Rightarrow> expiry_owner \<Rightarrow> expiry_owner \<Rightarrow> bool" where
  "effect_on k c c' \<longleftrightarrow>
     length (ow_entries c') = length (ow_entries c) \<and> ow_closed c' = ow_closed c \<and> ow_closeDrain c' = ow_closeDrain c \<and> ow_drains c' = ow_drains c
     \<and> (\<not> ow_accepting c \<longrightarrow> business c' = business c) \<and> (dead c' \<or> framed k c c')"

lemma framed_trans: "framed k a b \<Longrightarrow> framed k b c \<Longrightarrow> framed k a c"
  by (auto simp: framed_def)

lemma framed_dead: "framed k c c' \<Longrightarrow> length (ow_entries c') = length (ow_entries c) \<Longrightarrow> dead c \<Longrightarrow> dead c'"
  unfolding framed_def dead_def by (metis (no_types, lifting))

lemma effect_refl [simp]: "effect_on k c c"
  by (simp add: effect_on_def framed_def)

lemma effect_dead: "effect_on k c c' \<Longrightarrow> dead c \<Longrightarrow> dead c'"
  by (auto simp: effect_on_def dest: framed_dead)

lemma effect_trans:
  assumes "effect_on k a b" and "effect_on k b c"
  shows "effect_on k a c"
proof -
  from assms(1) have "\<not> ow_accepting a \<longrightarrow> \<not> ow_accepting b"
    by (auto simp: effect_on_def framed_def dead_def)
  moreover have "dead c \<or> framed k a c"
    using assms effect_dead [OF assms(2)] by (auto simp: effect_on_def intro: framed_trans)
  ultimately show ?thesis using assms by (auto simp: effect_on_def)
qed

lemma effect_length: "effect_on k c c' \<Longrightarrow> length (ow_entries c') = length (ow_entries c)"
  by (simp add: effect_on_def)

text \<open>The parts of the state that the invariant reads.\<close>

lemma base_cong:
  assumes "ow_entries c' = ow_entries c" and "ow_deadlines c' = ow_deadlines c" and "ow_cuts c' = ow_cuts c"
    and "ow_live c' = ow_live c" and "ow_attempts c' = ow_attempts c" and "\<And>kind. expiryRegistry kind c' = expiryRegistry kind c"
  shows "base D c' = base D c"
  by (simp add: base_def slots_ok_def cells_ok_def cuts_ok_def entries_ok_def placed_def assms)

lemma dead_cong: "ow_entries c' = ow_entries c \<Longrightarrow> ow_accepting c' = ow_accepting c \<Longrightarrow> dead c' = dead c"
  by (simp add: dead_def)

definition same_but :: "nat \<Rightarrow> (expiry_entry \<Rightarrow> expiry_entry) \<Rightarrow> expiry_owner \<Rightarrow> bool" where
  "same_but k f c \<longleftrightarrow>
     (let e = xentry c k in
      xe_kind (f e) = xe_kind e \<and> xe_connectionId (f e) = xe_connectionId e \<and> xe_admittedCut (f e) = xe_admittedCut e
      \<and> xe_state (f e) = xe_state e \<and> (\<forall>w. slot w (f e) = slot w e \<or> slot w (f e) = None))"

definition lost :: "nat \<Rightarrow> (expiry_entry \<Rightarrow> expiry_entry) \<Rightarrow> expiry_owner \<Rightarrow> nat set" where
  "lost k f c = {d. \<exists>w. slot w (xentry c k) = Some d \<and> slot w (f (xentry c k)) = None}"

lemma placed_simps [simp]: "placed (upd_xentry k f c) = placed c" "placed (upd_cell d g c) = placed c"
  by (simp_all add: placed_def fun_eq_iff)

lemma slotsD:
  assumes "slots_ok D c" and "k < length (ow_entries c)" and "slot w (xentry c k) = Some d"
  shows "d < length (ow_deadlines c)" and "dc_entry (cell c d) = k" and "dc_warning (cell c d) = w"
    and "dc_armed (cell c d)" and "d \<notin> D"
  using assms by (simp_all add: slots_ok_def)

lemma base_slots:
  assumes "slots_ok D c" and "cells_ok D c" and "k < length (ow_entries c)"
    and "\<And>w. slot w (f (xentry c k)) = slot w (xentry c k) \<or> slot w (f (xentry c k)) = None"
  shows "slots_ok (D \<union> lost k f c) (upd_xentry k f c)" and "cells_ok (D \<union> lost k f c) (upd_xentry k f c)"
proof -
  show "slots_ok (D \<union> lost k f c) (upd_xentry k f c)"
    unfolding slots_ok_def
  proof (intro allI impI)
    fix j w d assume j: "j < length (ow_entries (upd_xentry k f c))" and s: "slot w (xentry (upd_xentry k f c) j) = Some d"
    then have old: "slot w (xentry c j) = Some d" using assms(4) [of w] by (cases "j = k") auto
    have "d \<notin> lost k f c"
    proof
      assume "d \<in> lost k f c"
      then obtain w' where w': "slot w' (xentry c k) = Some d" "slot w' (f (xentry c k)) = None" by (auto simp: lost_def)
      from j have j: "j < length (ow_entries c)" by simp
      have "j = k" using slotsD(2) [OF assms(1) j old] slotsD(2) [OF assms(1, 3) w'(1)] by simp
      moreover have "w = w'" using slotsD(3) [OF assms(1) j old] slotsD(3) [OF assms(1, 3) w'(1)] by simp
      ultimately show False using w' s j by simp
    qed
    with old j assms(1) show "d < length (ow_deadlines (upd_xentry k f c)) \<and> dc_entry (cell (upd_xentry k f c) d) = j
      \<and> dc_warning (cell (upd_xentry k f c) d) = w \<and> dc_armed (cell (upd_xentry k f c) d) \<and> d \<notin> D \<union> lost k f c"
      by (auto simp: slots_ok_def)
  qed
  show "cells_ok (D \<union> lost k f c) (upd_xentry k f c)"
    unfolding cells_ok_def
  proof (intro allI impI conjI)
    fix d assume d: "d < length (ow_deadlines (upd_xentry k f c))"
    then show "dc_cancel (cell (upd_xentry k f c) d) = dc_armed (cell (upd_xentry k f c) d)"
      using assms(2) by (simp add: cells_ok_def)
    assume "dc_armed (cell (upd_xentry k f c) d)"
    with d assms(2) have "d \<in> D \<or> dc_entry (cell c d) < length (ow_entries c)
        \<and> slot (dc_warning (cell c d)) (xentry c (dc_entry (cell c d))) = Some d" (is "_ \<or> ?r \<and> ?s")
      by (simp add: cells_ok_def)
    moreover have "?r \<Longrightarrow> ?s \<Longrightarrow> slot (dc_warning (cell c d)) (xentry (upd_xentry k f c) (dc_entry (cell c d))) = Some d
        \<or> d \<in> lost k f c"
      using assms(4) [of "dc_warning (cell c d)"]
      by (cases "dc_entry (cell c d) = k") (auto simp: lost_def)
    ultimately show "d \<in> D \<union> lost k f c \<or> dc_entry (cell (upd_xentry k f c) d) < length (ow_entries (upd_xentry k f c))
        \<and> slot (dc_warning (cell (upd_xentry k f c) d)) (xentry (upd_xentry k f c) (dc_entry (cell (upd_xentry k f c) d))) = Some d"
      by auto
  qed
qed

lemma base_cuts:
  assumes "cuts_ok c" and "xe_admittedCut (f (xentry c k)) = xe_admittedCut (xentry c k)"
  shows "cuts_ok (upd_xentry k f c)"
proof -
  have "xe_admittedCut (xentry (upd_xentry k f c) j) = xe_admittedCut (xentry c j)" if "j < length (ow_entries c)" for j
    using that assms(2) by (cases "j = k") simp_all
  with assms(1) show ?thesis by (simp add: cuts_ok_def)
qed

lemma base_upd:
  assumes "base D c" and "k < length (ow_entries c)" and "same_but k f c"
  shows "base (D \<union> lost k f c) (upd_xentry k f c)"
proof -
  note f = assms(3) [unfolded same_but_def Let_def]
  have "entries_ok (upd_xentry k f c)"
    unfolding entries_ok_def
  proof (intro conjI allI impI)
    fix j assume j: "j < length (ow_entries (upd_xentry k f c))"
    from assms(1) have all: "\<And>i. i < length (ow_entries c) \<Longrightarrow> placed c i (xentry c i)" by (simp add: base_def entries_ok_def)
    have "placed c k (f (xentry c k))" using all [OF assms(2)] f by (auto simp: placed_def split: if_splits)
    with j all show "placed (upd_xentry k f c) j (xentry (upd_xentry k f c) j)" by (cases "j = k") simp_all
  qed (use assms(1) in \<open>auto simp: base_def entries_ok_def\<close>)
  moreover from assms f have "slots_ok (D \<union> lost k f c) (upd_xentry k f c)" "cells_ok (D \<union> lost k f c) (upd_xentry k f c)"
    by (auto intro!: base_slots simp: base_def)
  ultimately show ?thesis using assms(1) f by (simp add: base_def base_cuts)
qed

lemma effect_upd:
  assumes "xe_state (f (xentry c k)) = xe_state (xentry c k)"
  shows "effect_on k c (upd_xentry k f c)"
proof (cases "k < length (ow_entries c)")
  case True
  with assms show ?thesis by (simp add: effect_on_def framed_def business_def)
qed (simp add: effect_on_def framed_def business_def list_update_beyond)
section \<open>Cancelling and retiring\<close>

lemma base_cancelled:
  assumes "base (insert d D) c"
  shows "base D (upd_cell d cancelled_cell c)"
proof -
  note b = assms [unfolded base_def]
  have "slots_ok D (upd_cell d cancelled_cell c)"
    unfolding slots_ok_def
  proof (intro allI impI)
    fix k w d' assume k: "k < length (ow_entries (upd_cell d cancelled_cell c))"
      and s: "slot w (xentry (upd_cell d cancelled_cell c) k) = Some d'"
    then have "k < length (ow_entries c)" "slot w (xentry c k) = Some d'" by simp_all
    note f = slotsD [OF conjunct1 [OF b] this]
    then have "d' \<noteq> d" by auto
    with f show "d' < length (ow_deadlines (upd_cell d cancelled_cell c)) \<and> dc_entry (cell (upd_cell d cancelled_cell c) d') = k
      \<and> dc_warning (cell (upd_cell d cancelled_cell c) d') = w \<and> dc_armed (cell (upd_cell d cancelled_cell c) d') \<and> d' \<notin> D"
      by simp
  qed
  moreover have "cells_ok D (upd_cell d cancelled_cell c)"
    unfolding cells_ok_def
  proof (intro allI impI conjI)
    fix d' assume d': "d' < length (ow_deadlines (upd_cell d cancelled_cell c))"
    with b show "dc_cancel (cell (upd_cell d cancelled_cell c) d') = dc_armed (cell (upd_cell d cancelled_cell c) d')"
      by (cases "d' = d") (simp_all add: cells_ok_def)
    assume a: "dc_armed (cell (upd_cell d cancelled_cell c) d')"
    with d' have "d' \<noteq> d" by auto
    with a d' b show "d' \<in> D \<or> dc_entry (cell (upd_cell d cancelled_cell c) d') < length (ow_entries (upd_cell d cancelled_cell c))
        \<and> slot (dc_warning (cell (upd_cell d cancelled_cell c) d'))
            (xentry (upd_cell d cancelled_cell c) (dc_entry (cell (upd_cell d cancelled_cell c) d'))) = Some d'"
      by (auto simp: cells_ok_def)
  qed
  moreover have "entries_ok (upd_cell d cancelled_cell c)" using b by (simp add: entries_ok_def)
  ultimately show ?thesis using b by (simp add: base_def cuts_ok_def)
qed

text \<open>What a step keeps that neither calls the broker nor revives an entry.\<close>

definition quiet :: "expiry_owner \<Rightarrow> expiry_owner \<Rightarrow> bool" where
  "quiet c c' \<longleftrightarrow> ow_seal c' = ow_seal c \<and> ow_calls c' = ow_calls c \<and> ow_accepting c' = ow_accepting c
     \<and> ow_closed c' = ow_closed c \<and> ow_closeDrain c' = ow_closeDrain c \<and> ow_drains c' = ow_drains c \<and> ow_live c' = ow_live c \<and> length (ow_entries c') = length (ow_entries c)
     \<and> (\<forall>k < length (ow_entries c). current c' k \<longrightarrow> current c k)"

lemma quiet_refl [simp]: "quiet c c"
  by (simp add: quiet_def)

lemma quiet_trans: "quiet a b \<Longrightarrow> quiet b c \<Longrightarrow> quiet a c"
  by (auto simp: quiet_def)

lemma quiet_cell [simp]: "quiet c (upd_cell d f c)"
  by (simp add: quiet_def)

lemma quiet_dead: "quiet c c' \<Longrightarrow> dead c \<Longrightarrow> dead c'"
  by (auto simp: quiet_def dead_def)

lemma quiet_seal_ok: "seal_ok c \<Longrightarrow> quiet c c' \<Longrightarrow> seal_ok c'"
  using quiet_dead [of c c'] by (auto simp: seal_ok_def quiet_def)

text \<open>The outcome of a seal: nothing, or a dead owner.\<close>

definition seals :: "expiry_owner \<Rightarrow> expiry_owner \<Rightarrow> bool" where
  "seals c c' \<longleftrightarrow> c' = c \<or> dead c' \<and> length (ow_entries c') = length (ow_entries c) \<and> business c' = business c
     \<and> ow_closed c' = ow_closed c \<and> ow_closeDrain c' = ow_closeDrain c \<and> ow_drains c' = ow_drains c"

locale sealing =
  fixes seal :: "expiry_owner \<Rightarrow> expiry_owner" and good :: "expiry_owner \<Rightarrow> bool"
  assumes seal_base: "base D c \<Longrightarrow> good c \<Longrightarrow> base D (seal c)"
    and seal_good: "base D c \<Longrightarrow> good c \<Longrightarrow> good (seal c)"
    and seal_seals: "base D c \<Longrightarrow> good c \<Longrightarrow> seals c (seal c)"
    and good_quiet: "good c \<Longrightarrow> quiet c c' \<Longrightarrow> good c'"
begin

lemma cancel_deadlines:
  assumes "base (set ds \<union> D) c" and "good c"
  shows "base D (fold (cancel_deadline seal P) ds c) \<and> good (fold (cancel_deadline seal P) ds c)
     \<and> (seals c (fold (cancel_deadline seal P) ds c)
        \<or> (\<exists>x. fold (cancel_deadline seal P) ds c = c\<lparr>ow_deadlines := x\<rparr>))"
  using assms
proof (induction ds arbitrary: c)
  case Nil
  then show ?case by (simp add: seals_def)
next
  case (Cons d ds)
  let ?c1 = "upd_cell d cancelled_cell c"
  let ?c2 = "cancel_deadline seal P d c"
  have b1: "base (set ds \<union> D) ?c1" using Cons.prems(1) by (simp add: base_cancelled)
  have g1: "good ?c1" using good_quiet [OF Cons.prems(2) quiet_cell] .
  have eq: "?c2 = (if dc_cancel (cell c d) \<and> ep_cancelThrows P d then seal ?c1 else ?c1)"
    by (simp add: cancel_deadline_def call_receipt_def)
  have "base (set ds \<union> D) ?c2" "good ?c2" "seals ?c1 ?c2"
    using seal_base [OF b1 g1] seal_good [OF b1 g1] seal_seals [OF b1 g1] b1 g1 by (simp_all add: eq seals_def)
  note IH = Cons.IH [OF this(1, 2)] and s = this(3)
  let ?c3 = "fold (cancel_deadline seal P) ds ?c2"
  have c1: "?c1 = c\<lparr>ow_deadlines := (ow_deadlines c)[d := cancelled_cell (cell c d)]\<rparr>" by (simp add: upd_cell_def)
  have "seals c ?c3 \<or> (\<exists>x. ?c3 = c\<lparr>ow_deadlines := x\<rparr>)"
  proof -
    have d: "dead (z\<lparr>ow_deadlines := x\<rparr>) = dead z" "business (z\<lparr>ow_deadlines := x\<rparr>) = business z" for z x
      by (simp_all add: dead_def business_def)
    from s show ?thesis
      using IH unfolding seals_def c1 by (auto simp: d)
  qed
  with IH show ?case by simp
qed

end

interpretation unsealing: sealing already_sealed "\<lambda>c. True"
  by unfold_locales (simp_all add: seals_def already_sealed_def)
lemma without_deadlines_simps [simp]:
  "slot w (without_deadlines e) = None" "xe_kind (without_deadlines e) = xe_kind e"
  "xe_connectionId (without_deadlines e) = xe_connectionId e" "xe_state (without_deadlines e) = xe_state e"
  "xe_admittedCut (without_deadlines e) = xe_admittedCut e" "xe_pendingFire (without_deadlines e) = xe_pendingFire e"
  "xe_deadline (without_deadlines e) = None"
  by (cases w; simp add: without_deadlines_def)+

lemma retired_simps [simp]:
  "slot w (retired e) = slot w e" "xe_kind (retired e) = xe_kind e" "xe_connectionId (retired e) = xe_connectionId e"
  "xe_state (retired e) = RetiredEntry" "xe_admittedCut (retired e) = xe_admittedCut e"
  by (cases w; simp add: retired_def)+

lemma pending_slots: "set (pending_deadlines e) = {d. \<exists>w. slot w e = Some d}"
  by (auto simp: pending_deadlines_def ex_bool_eq split: option.splits)

lemma pending_retired [simp]: "pending_deadlines (retired e) = pending_deadlines e"
  by (simp add: pending_deadlines_def retired_def)

lemma base_without_deadlines:
  assumes "base D c" and "k < length (ow_entries c)"
  shows "base (set (pending_deadlines (xentry c k)) \<union> D) (upd_xentry k without_deadlines c)"
proof -
  have "lost k without_deadlines c = set (pending_deadlines (xentry c k))" by (simp add: lost_def pending_slots)
  with base_upd [OF assms, of without_deadlines] show ?thesis by (simp add: same_but_def Un_commute)
qed

lemma base_retired:
  assumes "base D c" and "k < length (ow_entries c)"
  shows "base (set (pending_deadlines (xentry c k)) \<union> D)
    (upd_xentry k without_deadlines (deregister k (upd_xentry k retired c)))" (is "base ?D ?c")
proof -
  let ?f = "\<lambda>e. without_deadlines (retired e)"
  have l: "D \<union> lost k ?f c = ?D" by (auto simp: lost_def pending_slots)
  have eq: "ow_entries ?c = ow_entries (upd_xentry k ?f c)" "ow_deadlines ?c = ow_deadlines (upd_xentry k ?f c)"
    "ow_cuts ?c = ow_cuts (upd_xentry k ?f c)"
    using assms(2) by simp_all
  have "slots_ok ?D (upd_xentry k ?f c)" "cells_ok ?D (upd_xentry k ?f c)"
    using base_slots [of D c k ?f] assms by (simp_all add: l base_def)
  then have "slots_ok ?D ?c" "cells_ok ?D ?c" unfolding slots_ok_def cells_ok_def eq by blast+
  moreover have "cuts_ok (upd_xentry k ?f c)" using assms(1) by (intro base_cuts) (simp_all add: base_def)
  then have "cuts_ok ?c" unfolding cuts_ok_def eq by blast
  moreover have "entries_ok ?c"
    unfolding entries_ok_def
  proof (intro conjI allI impI)
    fix j assume j: "j < length (ow_entries ?c)"
    with assms(1) have "placed c j (xentry c j)" by (simp add: base_def entries_ok_def)
    with j assms(2) show "placed ?c j (xentry ?c j)"
      by (cases "j = k") (auto simp: placed_def)
  qed (use assms in \<open>auto simp: base_def entries_ok_def\<close>)
  ultimately show ?thesis by (simp add: base_def)
qed

lemma effect_cell_only [simp]: "effect_on k c (c\<lparr>ow_deadlines := x\<rparr>)"
  by (simp add: effect_on_def framed_def business_def)

lemma effect_seals: "seals c c' \<Longrightarrow> effect_on k c c'"
  by (auto simp: seals_def effect_on_def framed_def)

context sealing begin

lemma cancel_with_ok:
  assumes "base D c" and "good c" and "k < length (ow_entries c)"
  shows "base D (cancel_with seal P k c)" and "good (cancel_with seal P k c)"
    and "effect_on k c (cancel_with seal P k c)"
    and "dead (cancel_with seal P k c) \<or> (\<exists>x. cancel_with seal P k c = (upd_xentry k without_deadlines c)\<lparr>ow_deadlines := x\<rparr>)"
proof -
  let ?c1 = "upd_xentry k without_deadlines c"
  have q: "quiet c ?c1" using assms(3) by (auto simp: quiet_def nth_list_update)
  note r = cancel_deadlines [OF base_without_deadlines [OF assms(1, 3)] good_quiet [OF assms(2) q], of P, folded cancel_with_def]
  have e1: "effect_on k c ?c1" by (rule effect_upd) simp
  from r have "effect_on k ?c1 (cancel_with seal P k c)" by (auto intro: effect_seals)
  with r e1 show "base D (cancel_with seal P k c)" "good (cancel_with seal P k c)" "effect_on k c (cancel_with seal P k c)"
    by (auto intro: effect_trans)
  have "?c1 = ?c1\<lparr>ow_deadlines := ow_deadlines ?c1\<rparr>" by simp
  with r show "dead (cancel_with seal P k c) \<or> (\<exists>x. cancel_with seal P k c = ?c1\<lparr>ow_deadlines := x\<rparr>)"
    unfolding seals_def by metis
qed

lemma retire_with_ok:
  assumes "base D c" and "good c" and "k < length (ow_entries c)"
  shows "base D (retire_with seal P k c)" and "good (retire_with seal P k c)"
    and "effect_on k c (retire_with seal P k c)" and "\<not> current (retire_with seal P k c) k"
proof -
  let ?c1 = "deregister k (upd_xentry k retired c)"
  let ?c2 = "upd_xentry k without_deadlines ?c1"
  let ?c' = "retire_with seal P k c"
  have "base D ?c' \<and> good ?c' \<and> effect_on k c ?c' \<and> \<not> current ?c' k"
  proof (cases "current c k")
    case False
    then have "xe_state (xentry c k) = RetiredEntry" by (cases "xe_state (xentry c k)") simp_all
    with assms show ?thesis by (simp add: retire_with_def)
  next
    case True
    have eq: "?c' = fold (cancel_deadline seal P) (pending_deadlines (xentry c k)) ?c2"
      using assms(3) True by (simp add: retire_with_def cancel_with_def)
    have q: "quiet c ?c2" using assms(3) by (auto simp: quiet_def nth_list_update)
    note r = cancel_deadlines [OF base_retired [OF assms(1, 3)] good_quiet [OF assms(2) q], of P, folded eq]
    have "effect_on k c ?c2" using assms(3) by (auto simp: effect_on_def framed_def business_def nth_list_update)
    moreover from r have "effect_on k ?c2 ?c'" by (auto intro: effect_seals)
    moreover have "\<not> current ?c' k"
    proof -
      from r consider "?c' = ?c2" | "dead ?c'" "length (ow_entries ?c') = length (ow_entries c)" | x where "?c' = ?c2\<lparr>ow_deadlines := x\<rparr>"
        by (auto simp: seals_def)
      then show ?thesis using assms(3) by cases (auto simp: dead_def)
    qed
    ultimately show ?thesis using r by (blast intro: effect_trans)
  qed
  then show "base D ?c'" "good ?c'" "effect_on k c ?c'" "\<not> current ?c' k" by blast+
qed

end

section \<open>Sealing\<close>

lemma retire_form:
  obtains "retire_with already_sealed P k c = c"
  | x where "retire_with already_sealed P k c =
      (upd_xentry k without_deadlines (deregister k (upd_xentry k retired c)))\<lparr>ow_deadlines := x\<rparr>"
proof -
  have f: "\<exists>x. fold (cancel_deadline already_sealed P) ds z = z\<lparr>ow_deadlines := x\<rparr>" for ds z
  proof (induction ds arbitrary: z)
    case (Cons d ds)
    have eq: "cancel_deadline already_sealed P d z = z\<lparr>ow_deadlines := (ow_deadlines z)[d := cancelled_cell (cell z d)]\<rparr>"
      by (simp add: cancel_deadline_def call_receipt_def upd_cell_def already_sealed_def)
    show ?case using Cons.IH [of "cancel_deadline already_sealed P d z"] by (auto simp: eq)
  next
    case Nil
    have "z = z\<lparr>ow_deadlines := ow_deadlines z\<rparr>" by simp
    then show ?case unfolding fold_simps by blast
  qed
  then obtain x where "cancel_with already_sealed P k (deregister k (upd_xentry k retired c)) =
      (upd_xentry k without_deadlines (deregister k (upd_xentry k retired c)))\<lparr>ow_deadlines := x\<rparr>"
    unfolding cancel_with_def by blast
  then show thesis using that by (cases "xe_state (xentry c k) = RetiredEntry") (simp_all add: retire_with_def)
qed

lemma retire_quiet: "quiet c (retire_with already_sealed P k c)"
proof -
  have "current c j" if "j < length (ow_entries c)"
    "current (upd_xentry k without_deadlines (deregister k (upd_xentry k retired c))) j" for j
    using that by (cases "j = k") simp_all
  then show ?thesis by (rule_tac retire_form [of P k c]) (auto simp: quiet_def)
qed

lemma retire_admitted: "xe_admittedCut (xentry (retire_with already_sealed P k c) j) = xe_admittedCut (xentry c j)"
proof -
  have "xe_admittedCut (xentry (upd_xentry k without_deadlines (deregister k (upd_xentry k retired c))) j) =
    xe_admittedCut (xentry c j)"
    by (cases "k < length (ow_entries c)"; cases "j = k") (simp_all add: list_update_beyond)
  then show ?thesis by (rule_tac retire_form [of P k c]) simp_all
qed

lemma requestSeal_admitted: "xe_admittedCut (xentry (requestSeal P c) j) = xe_admittedCut (xentry c j)"
proof -
  have "xe_admittedCut (xentry (fold (retire_with already_sealed P) ks z) j) = xe_admittedCut (xentry z j)" for ks z
    by (induction ks arbitrary: z) (simp_all add: retire_admitted)
  then show ?thesis by (simp add: requestSeal_def Let_def)
qed

lemma retire_all:
  assumes "base D c" and "set ks \<subseteq> {..<length (ow_entries c)}"
  shows "base D (fold (retire_with already_sealed P) ks c)" and "quiet c (fold (retire_with already_sealed P) ks c)"
    and "\<forall>k \<in> set ks. \<not> current (fold (retire_with already_sealed P) ks c) k"
proof -
  have "base D (fold (retire_with already_sealed P) ks c) \<and> quiet c (fold (retire_with already_sealed P) ks c)
    \<and> (\<forall>k \<in> set ks. \<not> current (fold (retire_with already_sealed P) ks c) k)"
    using assms
  proof (induction ks arbitrary: c)
    case (Cons k ks)
    let ?c1 = "retire_with already_sealed P k c" and ?c2 = "fold (retire_with already_sealed P) (k # ks) c"
    from Cons.prems have k: "k < length (ow_entries c)" by simp
    note r = unsealing.retire_with_ok(1, 4) [OF Cons.prems(1) TrueI k, of P]
    have q: "quiet c ?c1" by (rule retire_quiet)
    then have "set ks \<subseteq> {..<length (ow_entries ?c1)}" using Cons.prems(2) by (simp add: quiet_def)
    note IH = Cons.IH [OF r(1) this]
    have k1: "k < length (ow_entries ?c1)" using k q by (simp add: quiet_def)
    have "quiet ?c1 ?c2" using IH by simp
    with r(2) k1 have "\<not> current ?c2 k" unfolding quiet_def by blast
    with IH q show ?case by (auto intro: quiet_trans)
  qed simp
  then show "base D (fold (retire_with already_sealed P) ks c)" and "quiet c (fold (retire_with already_sealed P) ks c)"
    and "\<forall>k \<in> set ks. \<not> current (fold (retire_with already_sealed P) ks c) k" by blast+
qed

lemma requestSeal_ok:
  assumes "base D c" and "seal_ok c"
  shows "base D (requestSeal P c)" and "seal_ok (requestSeal P c)" and "dead (requestSeal P c)"
    and "seals c (requestSeal P c)"
proof -
  have "base D (requestSeal P c) \<and> seal_ok (requestSeal P c) \<and> dead (requestSeal P c) \<and> seals c (requestSeal P c)"
  proof (cases "ow_seal c = NotSealed")
    case False
    with assms show ?thesis by (simp add: requestSeal_def seal_ok_def seals_def)
  next
    case True
    let ?c1 = "c\<lparr>ow_seal := SealPending, ow_accepting := False\<rparr>"
    let ?c2 = "fold (retire_with already_sealed P) (ow_live c) ?c1"
    have b1: "base D ?c1" using assms(1) base_cong [of ?c1 c D] by simp
    have l: "set (ow_live c) \<subseteq> {..<length (ow_entries ?c1)}" using assms(1) by (auto simp: base_def entries_ok_def)
    note r = retire_all [OF b1 l, of P]
    have d: "dead ?c2"
      unfolding dead_def
    proof (intro conjI allI impI)
      show "\<not> ow_accepting ?c2" using r(2) by (simp add: quiet_def)
      fix k assume k: "k < length (ow_entries ?c2)"
      with r(2) have k': "k < length (ow_entries c)" by (simp add: quiet_def)
      show "\<not> current ?c2 k"
      proof
        assume "current ?c2 k"
        with r(2) k' have "current c k" by (simp add: quiet_def)
        with assms(1) k' have "k \<in> set (ow_live c)" by (simp add: base_def entries_ok_def placed_def split: if_splits)
        with r(3) \<open>current ?c2 k\<close> show False by blast
      qed
    qed
    let ?c3 = "record_call FailClosedCall ?c2"
    let ?c' = "if ep_failClosedThrows P then ?c3\<lparr>ow_seal := SealRejected\<rparr> else ?c3"
    have "requestSeal P c = ?c'" using True by (simp add: requestSeal_def Let_def)
    moreover have "base D ?c'" using r(1) base_cong [of ?c' ?c2 D] by simp
    moreover have "dead ?c'" using d dead_cong [of ?c' ?c2] by simp
    moreover have "seal_ok ?c'" using \<open>dead ?c'\<close> assms(2) True r(2) by (simp add: seal_ok_def quiet_def)
    moreover have "business ?c' = business c" using r(2) by (simp add: business_def quiet_def)
    ultimately show ?thesis using r(2) by (simp add: seals_def quiet_def)
  qed
  then show "base D (requestSeal P c)" "seal_ok (requestSeal P c)" "dead (requestSeal P c)" "seals c (requestSeal P c)"
    by blast+
qed

interpretation request: sealing "requestSeal P" seal_ok for P
  by unfold_locales (simp_all add: requestSeal_ok quiet_seal_ok)

lemma cancel_ok:
  assumes "base D c" and "seal_ok c" and "k < length (ow_entries c)"
  shows "base D (cancel P k c)" and "seal_ok (cancel P k c)" and "effect_on k c (cancel P k c)"
    and "dead (cancel P k c) \<or> (\<exists>x. cancel P k c = (upd_xentry k without_deadlines c)\<lparr>ow_deadlines := x\<rparr>)"
  unfolding cancel_def by (rule request.cancel_with_ok [OF assms])+

lemma retire_ok:
  assumes "base D c" and "seal_ok c" and "k < length (ow_entries c)"
  shows "base D (retire P k c)" and "seal_ok (retire P k c)" and "effect_on k c (retire P k c)"
    and "\<not> current (retire P k c) k"
  unfolding retire_def by (rule request.retire_with_ok [OF assms])+

end
