(* ===== verification/RV2_ExpiryOps.thy ===== *)
theory RV2_ExpiryOps
  imports RV2_ExpiryFacts
begin

text \<open>
  The operations of the authorization deadline owner on one entry: each keeps the invariant, leaves
  the other entries alone unless it seals the owner, and keeps the entry covered. Operations are composed
  by the transitive relation \<open>acts_on\<close>; what covers an entry is read off its \<open>watch_state\<close>.
\<close>

section \<open>Composing operations on one entry\<close>

definition acts_on :: "nat \<Rightarrow> expiry_owner \<Rightarrow> expiry_owner \<Rightarrow> bool" where
  "acts_on k c c' \<longleftrightarrow> (base {} c \<and> seal_ok c \<and> k < length (ow_entries c) \<longrightarrow> base {} c' \<and> seal_ok c' \<and> effect_on k c c')"

lemma acts_refl [simp]: "acts_on k c c"
  by (simp add: acts_on_def)

lemma acts_trans: "acts_on k a b \<Longrightarrow> acts_on k b c \<Longrightarrow> acts_on k a c"
  using effect_length [of k a b] effect_trans [of k a b c] by (auto simp: acts_on_def)

definition harmless :: "nat \<Rightarrow> (expiry_entry \<Rightarrow> expiry_entry) \<Rightarrow> expiry_owner \<Rightarrow> bool" where
  "harmless k f c \<longleftrightarrow>
     (let e = xentry c k in
      xe_kind (f e) = xe_kind e \<and> xe_connectionId (f e) = xe_connectionId e \<and> xe_admittedCut (f e) = xe_admittedCut e
      \<and> xe_state (f e) = xe_state e \<and> xe_deadline (f e) = xe_deadline e \<and> xe_warningDeadline (f e) = xe_warningDeadline e)"

lemma harmless_slot: "harmless k f c \<Longrightarrow> slot w (f (xentry c k)) = slot w (xentry c k)"
  by (cases w) (simp_all add: harmless_def Let_def)

lemma quiet_upd: "xe_state (f (xentry c k)) = xe_state (xentry c k) \<Longrightarrow> quiet c (upd_xentry k f c)"
  by (auto simp: quiet_def) (metis nth_list_update_eq nth_list_update_neq)

lemma acts_upd: "harmless k f c \<Longrightarrow> acts_on k c (upd_xentry k f c)"
proof -
  assume h: "harmless k f c"
  then have s: "same_but k f c" and l: "lost k f c = {}"
    using harmless_slot [OF h] by (auto simp: same_but_def harmless_def Let_def lost_def)
  from h have st: "xe_state (f (xentry c k)) = xe_state (xentry c k)" by (simp add: harmless_def Let_def)
  show ?thesis
    unfolding acts_on_def
  proof (intro impI, elim conjE, intro conjI)
    assume b: "base {} c" and "seal_ok c" and k: "k < length (ow_entries c)"
    show "base {} (upd_xentry k f c)" using base_upd [OF b k s] by (simp add: l)
    show "seal_ok (upd_xentry k f c)" by (rule quiet_seal_ok [OF \<open>seal_ok c\<close> quiet_upd [of f, OF st]])
    show "effect_on k c (upd_xentry k f c)" by (rule effect_upd [of f, OF st])
  qed
qed

lemma acts_seal: "acts_on k c (requestSeal P c)"
  using requestSeal_ok [of "{}" c P] by (simp add: acts_on_def effect_seals)

lemma acts_retire: "acts_on k c (retire P k c)"
  using retire_ok(1-3) [of "{}" c k P] by (simp add: acts_on_def)

lemma acts_cancel: "acts_on k c (cancel P k c)"
  using cancel_ok(1-3) [of "{}" c k P] by (simp add: acts_on_def)

lemma dead_seal: "base {} c \<Longrightarrow> seal_ok c \<Longrightarrow> dead (requestSeal P c)"
  by (rule requestSeal_ok)

lemma current_accepting: "isCurrent c k \<Longrightarrow> ow_accepting c"
  by (simp add: isCurrent_def)

lemma acts_call:
  assumes "ow_accepting c" and "x \<noteq> FailClosedCall"
  shows "acts_on k c (record_call x c)"
proof -
  have "base {} (record_call x c) = base {} c" by (rule base_cong) simp_all
  moreover have "dead (record_call x c) = dead c" by (rule dead_cong) simp_all
  moreover have "effect_on k c (record_call x c)" using assms by (simp add: effect_on_def framed_def)
  ultimately show ?thesis using assms by (simp add: acts_on_def seal_ok_def)
qed

lemma acts_fire:
  assumes "slot w (xentry c k) = Some d" and "slot w (f (xentry c k)) = None"
    and "slot (\<not> w) (f (xentry c k)) = slot (\<not> w) (xentry c k)"
    and "xe_kind (f (xentry c k)) = xe_kind (xentry c k)" and "xe_connectionId (f (xentry c k)) = xe_connectionId (xentry c k)"
    and "xe_admittedCut (f (xentry c k)) = xe_admittedCut (xentry c k)" and "xe_state (f (xentry c k)) = xe_state (xentry c k)"
  shows "acts_on k c (upd_cell d cancelled_cell (upd_xentry k f c))"
proof -
  let ?c1 = "upd_xentry k f c" and ?c2 = "upd_cell d cancelled_cell (upd_xentry k f c)"
  have w: "w' = w \<or> w' = (\<not> w)" for w' by blast
  have s: "same_but k f c" unfolding same_but_def Let_def
  proof (intro conjI allI)
    fix w' show "slot w' (f (xentry c k)) = slot w' (xentry c k) \<or> slot w' (f (xentry c k)) = None"
      using w [of w'] assms(2, 3) by auto
  qed (rule assms)+
  have l: "lost k f c = {d}" unfolding lost_def
  proof (intro set_eqI iffI; clarsimp)
    fix d' w' assume "slot w' (xentry c k) = Some d'" "slot w' (f (xentry c k)) = None"
    then show "d' = d" using w [of w'] assms(1, 3) by auto
  qed (use assms(1, 2) in blast)
  show ?thesis
    unfolding acts_on_def
  proof (intro impI, elim conjE, intro conjI)
    assume b: "base {} c" and "seal_ok c" and k: "k < length (ow_entries c)"
    have "base {d} ?c1" using base_upd [OF b k s] by (simp add: l)
    then show "base {} ?c2" by (rule base_cancelled)
    show "seal_ok ?c2" by (rule quiet_seal_ok [OF \<open>seal_ok c\<close> quiet_trans [OF quiet_upd [of f, OF assms(7)] quiet_cell]])
    have "effect_on k ?c1 ?c2" by (simp add: effect_on_def framed_def business_def)
    then show "effect_on k c ?c2" by (rule effect_trans [OF effect_upd [of f, OF assms(7)]])
  qed
qed

section \<open>Cuts\<close>

lemma acts_new_cut:
  assumes "xe_admittedCut (xentry c k) = None"
  shows "acts_on k c (upd_xentry k (\<lambda>e. e\<lparr>xe_admittedCut := Some (CutPromise (length (ow_cuts c)))\<rparr>)
     (c\<lparr>ow_cuts := ow_cuts c @ [\<lparr>ct_entry = k, ct_fromDeadline = b, ct_stage = CutWaiting\<rparr>]\<rparr>))" (is "acts_on k c ?c'")
  unfolding acts_on_def
proof (intro impI, elim conjE, intro conjI)
  assume b: "base {} c" and s: "seal_ok c" and k: "k < length (ow_entries c)"
  have e: "xentry ?c' j = (if j = k then (xentry c k)\<lparr>xe_admittedCut := Some (CutPromise (length (ow_cuts c)))\<rparr> else xentry c j)"
    if "j < length (ow_entries c)" for j
    using that by simp
  have sl: "slot w (xentry ?c' j) = slot w (xentry c j)" if "j < length (ow_entries c)" for j w
    using e [OF that] by (cases w) simp_all
  have st: "current ?c' j = current c j" "placed ?c' j (xentry ?c' j) = placed c j (xentry c j)" if "j < length (ow_entries c)" for j
    using e [OF that] sl [OF that] by (auto simp: placed_def)
  have "slots_ok {} ?c'" using b sl by (simp add: base_def slots_ok_def)
  moreover have "cells_ok {} ?c'" using b sl by (auto simp: base_def cells_ok_def)
  moreover have "entries_ok ?c'" using b st by (simp add: base_def entries_ok_def)
  moreover have "cuts_ok ?c'"
  proof -
    from b have c: "\<And>n. n < length (ow_cuts c) \<Longrightarrow> ct_entry (ow_cuts c ! n) < length (ow_entries c)
        \<and> (unsettled (ow_cuts c ! n) \<longrightarrow> xe_admittedCut (xentry c (ct_entry (ow_cuts c ! n))) = Some (CutPromise n))"
      "\<And>j n. j < length (ow_entries c) \<Longrightarrow> xe_admittedCut (xentry c j) = Some (CutPromise n) \<Longrightarrow>
          n < length (ow_cuts c) \<and> ct_entry (ow_cuts c ! n) = j \<and> unsettled (ow_cuts c ! n)"
      by (auto simp: base_def cuts_ok_def)
    show ?thesis
      unfolding cuts_ok_def
    proof (intro conjI allI impI)
      fix n assume n: "n < length (ow_cuts ?c')"
      then show "ct_entry (ow_cuts ?c' ! n) < length (ow_entries ?c')" using c(1) [of n] k by (auto simp: nth_append less_Suc_eq)
      assume "unsettled (ow_cuts ?c' ! n)"
      with n c(1) [of n] k assms show "xe_admittedCut (xentry ?c' (ct_entry (ow_cuts ?c' ! n))) = Some (CutPromise n)"
        by (auto simp: nth_append less_Suc_eq nth_list_update)
    next
      fix j n assume j: "j < length (ow_entries ?c')" and a: "xe_admittedCut (xentry ?c' j) = Some (CutPromise n)"
      show "n < length (ow_cuts ?c')" "ct_entry (ow_cuts ?c' ! n) = j" "unsettled (ow_cuts ?c' ! n)"
        using a j c(2) [of j n] k by (auto simp: nth_append nth_list_update split: if_splits)
    qed
  qed
  ultimately show "base {} ?c'" by (simp add: base_def)
  have "quiet c ?c'" using k st by (simp add: quiet_def)
  then show "seal_ok ?c'" by (rule quiet_seal_ok [OF s])
  show "effect_on k c ?c'" using k by (auto simp: effect_on_def framed_def business_def nth_append nth_list_update)
qed
lemma acts_seal_promise:
  assumes "xe_admittedCut (xentry c k) = None"
  shows "acts_on k c (upd_xentry k (\<lambda>e. e\<lparr>xe_admittedCut := Some SealPromise\<rparr>) c)" (is "acts_on k c (upd_xentry k ?f c)")
  unfolding acts_on_def
proof (intro impI, elim conjE, intro conjI)
  assume b: "base {} c" and s: "seal_ok c" and k: "k < length (ow_entries c)"
  have sl: "slot w (?f e) = slot w e" for w e by (cases w) simp_all
  have "lost k ?f c = {}" unfolding lost_def sl by simp
  then have "slots_ok {} (upd_xentry k ?f c)" "cells_ok {} (upd_xentry k ?f c)"
    using base_slots [of "{}" c k ?f] b k sl by (simp_all add: base_def)
  moreover have "entries_ok (upd_xentry k ?f c)"
  proof -
    have "placed c j (xentry (upd_xentry k ?f c) j)" if "j < length (ow_entries c)" for j
      using b that k sl by (cases "j = k") (simp_all add: base_def entries_ok_def placed_def)
    with b show ?thesis by (simp add: base_def entries_ok_def)
  qed
  moreover have "cuts_ok (upd_xentry k ?f c)"
  proof -
    have adm: "xe_admittedCut (xentry (upd_xentry k ?f c) j) = (if j = k then Some SealPromise else xe_admittedCut (xentry c j))"
      if "j < length (ow_entries c)" for j
      using that by simp
    from b have c: "cuts_ok c" by (simp add: base_def)
    have "xe_admittedCut (xentry (upd_xentry k ?f c) (ct_entry (ow_cuts c ! n))) = Some (CutPromise n)"
      if n: "n < length (ow_cuts c)" "unsettled (ow_cuts c ! n)" for n
    proof -
      have i: "ct_entry (ow_cuts c ! n) < length (ow_entries c)"
        and a: "xe_admittedCut (xentry c (ct_entry (ow_cuts c ! n))) = Some (CutPromise n)"
        using c n by (simp_all add: cuts_ok_def)
      with assms have "ct_entry (ow_cuts c ! n) \<noteq> k" by auto
      with a adm [OF i] show ?thesis by simp
    qed
    with c adm show ?thesis unfolding cuts_ok_def by (simp split: if_splits)
  qed
  ultimately show "base {} (upd_xentry k ?f c)" by (simp add: base_def)
  show "seal_ok (upd_xentry k ?f c)" by (rule quiet_seal_ok [OF s quiet_upd]) simp
  show "effect_on k c (upd_xentry k ?f c)" by (rule effect_upd) simp
qed

lemma acts_admitCut: "acts_on k c (admitCut P k b c)"
proof (cases "isCurrent c k \<and> xe_admittedCut (xentry c k) = None")
  case False
  then show ?thesis by (auto simp: admitCut_def intro!: acts_upd simp: harmless_def)
next
  case True
  let ?c1 = "record_call (RecheckCall k) c"
  have c1: "acts_on k c ?c1" using True by (intro acts_call) (auto simp: isCurrent_def)
  have "acts_on k ?c1 (upd_xentry k (\<lambda>e. e\<lparr>xe_admittedCut := Some SealPromise\<rparr>) (requestSeal P ?c1))"
    by (rule acts_trans [OF acts_seal acts_seal_promise]) (simp add: requestSeal_admitted True)
  moreover have "acts_on k ?c1 (upd_xentry k (\<lambda>e. e\<lparr>xe_admittedCut := Some (CutPromise (length (ow_cuts ?c1)))\<rparr>)
      (?c1\<lparr>ow_cuts := ow_cuts ?c1 @ [\<lparr>ct_entry = k, ct_fromDeadline = b, ct_stage = CutWaiting\<rparr>]\<rparr>))"
    by (rule acts_new_cut) (simp add: True)
  ultimately show ?thesis using True c1 unfolding admitCut_def Let_def by (auto intro: acts_trans)
qed

lemma dead_upd: "dead c \<Longrightarrow> xe_state (f (xentry c k)) = xe_state (xentry c k) \<Longrightarrow> dead (upd_xentry k f c)"
  by (rule quiet_dead [OF quiet_upd])

lemma acts_ok:
  assumes "acts_on k c c'" and "base {} c" and "seal_ok c" and "k < length (ow_entries c)"
  shows "base {} c'" and "seal_ok c'" and "effect_on k c c'" and "k < length (ow_entries c')"
  using assms effect_length [of k c c'] by (auto simp: acts_on_def)

lemma admitCut_covers:
  assumes "base {} c" and "seal_ok c" and k: "k < length (ow_entries c)" and "isCurrent c k"
    and "xe_admittedCut (xentry c k) = None" and "xe_deadline (xentry c k) = None" and "\<not> xe_pendingFire (xentry c k)"
  shows "dead (admitCut P k b c) \<or> covered (admitCut P k b c) k"
proof (cases "ep_recheckThrows P (length (ow_calls c))")
  case True
  let ?c1 = "record_call (RecheckCall k) c"
  have a: "acts_on k c ?c1" using assms(4) by (intro acts_call) (simp_all add: current_accepting)
  have "dead (requestSeal P ?c1)" by (rule dead_seal) (rule acts_ok [OF a assms(1-3)])+
  with True assms show ?thesis by (simp add: admitCut_def Let_def dead_upd)
next
  case False
  with assms show ?thesis by (simp add: admitCut_def Let_def covered_def)
qed

section \<open>Deadlines\<close>

text \<open>What covers an entry depends on this part of the state only.\<close>

definition stage_in :: "cut list \<Rightarrow> admitted option \<Rightarrow> cut_stage option" where
  "stage_in cuts a = (case a of Some (CutPromise n) \<Rightarrow> Some (ct_stage (cuts ! n)) | _ \<Rightarrow> None)"

definition watch_state :: "expiry_owner \<Rightarrow> nat \<Rightarrow> nat option \<times> admitted option \<times> bool \<times> cut_stage option" where
  "watch_state c k = (xe_deadline (xentry c k), xe_admittedCut (xentry c k), xe_pendingFire (xentry c k),
     stage_in (ow_cuts c) (xe_admittedCut (xentry c k)))"

lemma covered_iff:
  "covered c k \<longleftrightarrow>
     (case watch_state c k of (x, a, p, s) \<Rightarrow>
        case a of
          None \<Rightarrow> x \<noteq> None \<and> \<not> p
        | Some SealPromise \<Rightarrow> False
        | Some (CutPromise n) \<Rightarrow>
            (case s of Some CutWaiting \<Rightarrow> x = None \<and> \<not> p | Some CutApplied \<Rightarrow> (x = None) = p | _ \<Rightarrow> False))"
proof (cases "xe_admittedCut (xentry c k)")
  case (Some a)
  then show ?thesis
    by (cases a) (simp_all add: covered_def watch_state_def stage_in_def Let_def split: cut_stage.split)
qed (simp add: covered_def watch_state_def Let_def)

lemma covered_core: "watch_state c' k = watch_state c k \<Longrightarrow> covered c' k = covered c k"
  by (simp add: covered_iff)

lemma acts_fired:
  assumes "xe_deadline (xentry c k) = Some d"
  shows "acts_on k c (upd_cell d cancelled_cell (upd_xentry k (\<lambda>e. e\<lparr>xe_deadline := None\<rparr>) c))"
  by (rule acts_fire [where w = False]) (simp_all add: assms)

lemma acts_warned:
  assumes "xe_warningDeadline (xentry c k) = Some d"
  shows "acts_on k c (upd_cell d cancelled_cell (upd_xentry k (\<lambda>e. e\<lparr>xe_warningDeadline := None\<rparr>) c))"
  by (rule acts_fire [where w = True]) (simp_all add: assms)

lemma acts_deadlineFired: "acts_on k c (deadlineFired P k d c)"
proof (cases "isCurrent c k \<and> xe_deadline (xentry c k) = Some d")
  case True
  let ?c1 = "upd_cell d cancelled_cell (upd_xentry k (\<lambda>e. e\<lparr>xe_deadline := None\<rparr>) c)"
  have a: "acts_on k c ?c1" using True by (simp add: acts_fired)
  have "acts_on k ?c1 (requestSeal P ?c1)" "acts_on k ?c1 (admitCut P k True ?c1)"
    "acts_on k ?c1 (upd_xentry k (\<lambda>e. e\<lparr>xe_pendingFire := True\<rparr>) ?c1)"
    by (rule acts_seal acts_admitCut acts_upd; simp add: harmless_def)+
  then show ?thesis using True acts_trans [OF a] by (auto simp: deadlineFired_def call_receipt_def)
qed (auto simp: deadlineFired_def)

lemma deadlineFired_covers:
  assumes "base {} c" and "seal_ok c" and k: "k < length (ow_entries c)" and cur: "isCurrent c k"
    and d: "xe_deadline (xentry c k) = Some d" and "\<not> xe_pendingFire (xentry c k)"
  shows "dead (deadlineFired P k d c)
    \<or> (if xe_admittedCut (xentry c k) = None then covered (deadlineFired P k d c) k
       else (case watch_state c k of (x, a, p, s) \<Rightarrow> watch_state (deadlineFired P k d c) k = (None, a, True, s)))"
proof -
  let ?c1 = "upd_cell d cancelled_cell (upd_xentry k (\<lambda>e. e\<lparr>xe_deadline := None\<rparr>) c)"
  note ok = acts_ok [OF acts_fired [OF d] assms(1-3)]
  have cur1: "isCurrent ?c1 k" using cur k by (simp add: isCurrent_def)
  show ?thesis
  proof (cases "dc_cancel (cell c d) \<and> ep_cancelThrows P d")
    case True
    with cur d have "deadlineFired P k d c = requestSeal P ?c1" by (simp add: deadlineFired_def call_receipt_def)
    with dead_seal [OF ok(1, 2)] show ?thesis by simp
  next
    case False
    with cur d k have eq: "deadlineFired P k d c =
      (if xe_admittedCut (xentry c k) \<noteq> None then upd_xentry k (\<lambda>e. e\<lparr>xe_pendingFire := True\<rparr>) ?c1 else admitCut P k True ?c1)"
      by (auto simp: deadlineFired_def call_receipt_def)
    show ?thesis
    proof (cases "xe_admittedCut (xentry c k) = None")
      case True
      then have "dead (admitCut P k True ?c1) \<or> covered (admitCut P k True ?c1) k"
        by (intro admitCut_covers ok cur1) (use assms k in simp_all)
      with True show ?thesis by (simp add: eq)
    next
      case False
      then obtain a where "xe_admittedCut (xentry c k) = Some a" by blast
      with k show ?thesis by (cases a) (simp_all add: eq watch_state_def Let_def)
    qed
  qed
qed
section \<open>Scheduling\<close>

lemma acts_append_cell:
  assumes "\<not> dc_armed x" and "\<not> dc_cancel x"
  shows "acts_on k c (c\<lparr>ow_deadlines := ow_deadlines c @ [x]\<rparr>)" (is "acts_on k c ?c'")
  unfolding acts_on_def
proof (intro impI, elim conjE, intro conjI)
  assume b: "base {} c" and s: "seal_ok c"
  have "slots_ok {} ?c'" using b by (auto simp: base_def slots_ok_def nth_append intro: less_SucI)
  moreover have "cells_ok {} ?c'" using b assms by (auto simp: base_def cells_ok_def nth_append less_Suc_eq)
  moreover have "entries_ok ?c'" using b by (simp add: base_def entries_ok_def placed_def)
  moreover have "cuts_ok ?c'" using b by (simp add: base_def cuts_ok_def)
  ultimately show "base {} ?c'" by (simp add: base_def)
  show "seal_ok ?c'" by (rule quiet_seal_ok [OF s]) (simp add: quiet_def)
  show "effect_on k c ?c'" by simp
qed

definition with_slot :: "bool \<Rightarrow> nat \<Rightarrow> expiry_entry \<Rightarrow> expiry_entry" where
  "with_slot w d e = (if w then e\<lparr>xe_warningDeadline := Some d\<rparr> else e\<lparr>xe_deadline := Some d\<rparr>)"

lemma with_slot_simps [simp]:
  "slot w' (with_slot w d e) = (if w' = w then Some d else slot w' e)" "xe_kind (with_slot w d e) = xe_kind e"
  "xe_connectionId (with_slot w d e) = xe_connectionId e" "xe_state (with_slot w d e) = xe_state e"
  "xe_admittedCut (with_slot w d e) = xe_admittedCut e" "xe_pendingFire (with_slot w d e) = xe_pendingFire e"
  "xe_warningPort (with_slot w d e) = xe_warningPort e" "xe_deadline (with_slot True d e) = xe_deadline e"
  "xe_deadline (with_slot False d e) = Some d"
  by (cases w; cases w'; simp add: with_slot_def)+

definition armed_cell :: "nat \<Rightarrow> bool \<Rightarrow> int \<Rightarrow> bool \<Rightarrow> deadline_cell" where
  "armed_cell k w at early = (new_cell k w at)\<lparr>dc_firedBeforeArmed := early, dc_cancel := True, dc_armed := True\<rparr>"

definition scheduled :: "nat \<Rightarrow> bool \<Rightarrow> int \<Rightarrow> bool \<Rightarrow> expiry_owner \<Rightarrow> expiry_owner" where
  "scheduled k w at early c =
     upd_xentry k (with_slot w (length (ow_deadlines c))) (c\<lparr>ow_deadlines := ow_deadlines c @ [armed_cell k w at early]\<rparr>)"

lemma armed_cell_simps [simp]:
  "dc_entry (armed_cell k w at early) = k" "dc_warning (armed_cell k w at early) = w" "dc_armed (armed_cell k w at early)"
  "dc_cancel (armed_cell k w at early)" "dc_at (armed_cell k w at early) = at"
  by (simp_all add: armed_cell_def new_cell_def)

lemma schedule_cell_eq:
  "schedule_cell P k w at c =
     (case ep_schedule P (length (ow_deadlines c)) of
        ScheduleRefused \<Rightarrow> (None, upd_xentry k (with_slot w (length (ow_deadlines c)))
          (c\<lparr>ow_deadlines := ow_deadlines c @ [new_cell k w at]\<rparr>))
      | Scheduled early \<Rightarrow> (Some early, scheduled k w at early c))"
  by (simp add: schedule_cell_def scheduled_def with_slot_def [abs_def] armed_cell_def upd_cell_def upd_xentry_def Let_def
      list_update_append split: schedule_result.split)

lemma acts_scheduled:
  assumes "slot w (xentry c k) = None" and "current c k"
  shows "acts_on k c (scheduled k w at early c)" (is "acts_on k c ?c'")
  unfolding acts_on_def
proof (intro impI, elim conjE, intro conjI)
  assume b: "base {} c" and s: "seal_ok c" and k: "k < length (ow_entries c)"
  let ?d = "length (ow_deadlines c)"
  have e: "xentry ?c' j = (if j = k then with_slot w ?d (xentry c k) else xentry c j)" if "j < length (ow_entries c)" for j
    using that by (simp add: scheduled_def)
  have dl: "ow_deadlines ?c' = ow_deadlines c @ [armed_cell k w at early]" and len: "length (ow_entries ?c') = length (ow_entries c)"
    and cuts: "ow_cuts ?c' = ow_cuts c"
    by (simp_all add: scheduled_def)
  have sl: "slot w' (xentry ?c' j) = (if j = k \<and> w' = w then Some ?d else slot w' (xentry c j))" if "j < length (ow_entries c)" for j w'
    using e [OF that] by simp
  have "slots_ok {} ?c'"
    unfolding slots_ok_def len
  proof (intro allI impI)
    fix j w' d assume j: "j < length (ow_entries c)" and "slot w' (xentry ?c' j) = Some d"
    then show "d < length (ow_deadlines ?c') \<and> dc_entry (cell ?c' d) = j \<and> dc_warning (cell ?c' d) = w' \<and> dc_armed (cell ?c' d) \<and> d \<notin> {}"
      using slotsD(1-4) [of "{}" c j w' d] b unfolding sl [OF j] dl by (auto simp: base_def nth_append split: if_splits)
  qed
  moreover have "cells_ok {} ?c'"
    unfolding cells_ok_def len
  proof (intro allI impI)
    fix d assume "d < length (ow_deadlines ?c')"
    then consider "d = ?d" | "d < ?d" by (auto simp: dl less_Suc_eq)
    then show "dc_cancel (cell ?c' d) = dc_armed (cell ?c' d) \<and> (dc_armed (cell ?c' d) \<longrightarrow> d \<in> {} \<or>
        dc_entry (cell ?c' d) < length (ow_entries c) \<and> slot (dc_warning (cell ?c' d)) (xentry ?c' (dc_entry (cell ?c' d))) = Some d)"
    proof cases
      case 2
      with b have "dc_cancel (cell c d) = dc_armed (cell c d) \<and> (dc_armed (cell c d) \<longrightarrow>
        dc_entry (cell c d) < length (ow_entries c) \<and> slot (dc_warning (cell c d)) (xentry c (dc_entry (cell c d))) = Some d)"
        by (simp add: base_def cells_ok_def)
      with 2 assms(1) show ?thesis by (auto simp: dl nth_append sl)
    qed (use k in \<open>simp add: dl sl\<close>)
  qed
  moreover have "entries_ok ?c'"
  proof -
    have "placed ?c' = placed c" by (simp add: scheduled_def placed_def fun_eq_iff)
    moreover have "placed c j (xentry ?c' j)" if "j < length (ow_entries c)" for j
      using b that assms(2) e [OF that] by (simp add: base_def entries_ok_def placed_def)
    ultimately show ?thesis using b len by (simp add: base_def entries_ok_def scheduled_def)
  qed
  moreover have "cuts_ok ?c'"
  proof -
    have "xe_admittedCut (xentry ?c' j) = xe_admittedCut (xentry c j)" if "j < length (ow_entries c)" for j
      using e [OF that] by simp
    with b show ?thesis by (simp add: base_def cuts_ok_def len cuts)
  qed
  ultimately show "base {} ?c'" by (simp add: base_def)
  have "current c j" if "j < length (ow_entries c)" "current ?c' j" for j
    using e [OF that(1)] that(2) by (simp split: if_splits)
  then have "quiet c ?c'" by (simp add: quiet_def scheduled_def)
  then show "seal_ok ?c'" by (rule quiet_seal_ok [OF s])
  show "effect_on k c ?c'" using k by (simp add: effect_on_def framed_def business_def scheduled_def)
qed

lemma acts_refused:
  assumes "harmless k (\<lambda>e. g (with_slot w (length (ow_deadlines c)) e)) c"
  shows "acts_on k c (upd_xentry k g (upd_xentry k (with_slot w (length (ow_deadlines c)))
           (c\<lparr>ow_deadlines := ow_deadlines c @ [new_cell k w at]\<rparr>)))"
proof (cases "k < length (ow_entries c)")
  case True
  let ?c1 = "c\<lparr>ow_deadlines := ow_deadlines c @ [new_cell k w at]\<rparr>" and ?h = "\<lambda>e. g (with_slot w (length (ow_deadlines c)) e)"
  have "harmless k ?h ?c1" using assms by (simp add: harmless_def Let_def)
  then have "acts_on k ?c1 (upd_xentry k ?h ?c1)" by (rule acts_upd)
  moreover have "acts_on k c ?c1" by (rule acts_append_cell) (simp_all add: new_cell_def)
  ultimately have "acts_on k c (upd_xentry k ?h ?c1)" by (rule acts_trans [rotated])
  moreover have "upd_xentry k g (upd_xentry k (with_slot w (length (ow_deadlines c))) ?c1) = upd_xentry k ?h ?c1"
    using True by (simp add: upd_xentry_def)
  ultimately show ?thesis by simp
qed (simp add: acts_on_def)

section \<open>Warnings\<close>

lemma core_upd:
  assumes "xe_deadline (f (xentry c k)) = xe_deadline (xentry c k)" and "xe_pendingFire (f (xentry c k)) = xe_pendingFire (xentry c k)"
    and "xe_admittedCut (f (xentry c k)) = xe_admittedCut (xentry c k)" and "k < length (ow_entries c)"
  shows "watch_state (upd_xentry k f c) k = watch_state c k"
  using assms by (simp add: watch_state_def)

lemma core_frame [simp]:
  "watch_state (upd_cell d f c) k = watch_state c k" "watch_state (record_call x c) k = watch_state c k" "watch_state (c\<lparr>ow_attempts := as\<rparr>) k = watch_state c k"
  "watch_state (c\<lparr>ow_deadlines := ds\<rparr>) k = watch_state c k"
  by (simp_all add: watch_state_def)

lemma acts_attempts:
  assumes "\<And>a. a \<in> set as \<Longrightarrow> wa_entry a = k \<or> wa_entry a \<in> wa_entry ` set (ow_attempts c)"
  shows "acts_on k c (c\<lparr>ow_attempts := as\<rparr>)" (is "acts_on k c ?c'")
  unfolding acts_on_def
proof (intro impI, elim conjE, intro conjI)
  assume b: "base {} c" and s: "seal_ok c" and k: "k < length (ow_entries c)"
  have "entries_ok ?c'" using b k assms by (fastforce simp: base_def entries_ok_def placed_def)
  then show "base {} ?c'" using b by (simp add: base_def slots_ok_def cells_ok_def cuts_ok_def)
  show "seal_ok ?c'" by (rule quiet_seal_ok [OF s]) (simp add: quiet_def)
  show "effect_on k c ?c'" by (simp add: effect_on_def framed_def business_def)
qed
lemma acts_seal_after:
  assumes "acts_on k c z"
  shows "acts_on k c (requestSeal P z)"
    and "base {} c \<Longrightarrow> seal_ok c \<Longrightarrow> k < length (ow_entries c) \<Longrightarrow> dead (requestSeal P z)"
  using acts_trans [OF assms acts_seal] acts_ok(1, 2) [OF assms] dead_seal by blast+

lemma emit_warning_ok:
  assumes "ow_accepting c"
  shows "acts_on k c (emit_warning P k jti x c)"
    and "base {} c \<Longrightarrow> seal_ok c \<Longrightarrow> k < length (ow_entries c) \<Longrightarrow>
      dead (emit_warning P k jti x c) \<or> watch_state (emit_warning P k jti x c) k = watch_state c k"
proof -
  let ?g = "xe_warningAttemptGeneration (xentry c k) + 1"
  let ?c1 = "upd_xentry k (\<lambda>e. e\<lparr>xe_warningFired := True, xe_warningAttemptGeneration := ?g\<rparr>) c"
  let ?c2 = "record_call (EmitCall k jti x) ?c1"
  let ?c3 = "?c2\<lparr>ow_attempts := ow_attempts ?c2 @
    [\<lparr>wa_entry = k, wa_jti = jti, wa_expiresAtMs = x, wa_generation = ?g, wa_stage = EmitPending\<rparr>]\<rparr>"
  have a1: "acts_on k c ?c1" by (rule acts_upd) (simp add: harmless_def)
  have a2: "acts_on k c ?c2" by (rule acts_trans [OF a1 acts_call]) (simp_all add: assms)
  have a3: "acts_on k c ?c3" by (rule acts_trans [OF a2 acts_attempts]) auto
  have eq: "emit_warning P k jti x c = (if \<not> xe_warningPort (xentry ?c1 k) then ?c1
      else if ep_emitThrows P (length (ow_calls ?c1)) then requestSeal P ?c2 else ?c3)"
    by (simp only: emit_warning_def Let_def)
  show "acts_on k c (emit_warning P k jti x c)" unfolding eq using a1 acts_seal_after(1) [OF a2] a3 by simp
  assume ok: "base {} c" "seal_ok c" and k: "k < length (ow_entries c)"
  have "watch_state ?c1 k = watch_state c k" by (rule core_upd) (simp_all add: k)
  then show "dead (emit_warning P k jti x c) \<or> watch_state (emit_warning P k jti x c) k = watch_state c k"
    unfolding eq using acts_seal_after(2) [OF a2 ok k] by simp
qed

lemma unfired_cases:
  "(case (b, j, x) of (False, Some j', Some x') \<Rightarrow> f j' x' | _ \<Rightarrow> y) = y
   \<or> (\<exists>j' x'. (case (b, j, x) of (False, Some j', Some x') \<Rightarrow> f j' x' | _ \<Rightarrow> y) = f j' x')"
  by (cases b; cases j; cases x) auto

lemma warningDeadlineFired_cases:
  assumes "isCurrent c k" and "xe_warningDeadline (xentry c k) = Some d"
  obtains "warningDeadlineFired P k d c = requestSeal P (upd_cell d cancelled_cell (upd_xentry k (\<lambda>e. e\<lparr>xe_warningDeadline := None\<rparr>) c))"
  | "warningDeadlineFired P k d c = upd_cell d cancelled_cell (upd_xentry k (\<lambda>e. e\<lparr>xe_warningDeadline := None\<rparr>) c)"
  | jti x where "warningDeadlineFired P k d c =
      emit_warning P k jti x (upd_cell d cancelled_cell (upd_xentry k (\<lambda>e. e\<lparr>xe_warningDeadline := None\<rparr>) c))"
proof -
  let ?c1 = "upd_cell d cancelled_cell (upd_xentry k (\<lambda>e. e\<lparr>xe_warningDeadline := None\<rparr>) c)"
  let ?r = "case (xe_warningFired (xentry ?c1 k), xe_warningJti (xentry ?c1 k), xe_warningExpiresAtMs (xentry ?c1 k)) of
      (False, Some jti, Some x) \<Rightarrow> emit_warning P k jti x ?c1 | _ \<Rightarrow> ?c1"
  have eq: "warningDeadlineFired P k d c = (if dc_cancel (cell c d) \<and> ep_cancelThrows P d then requestSeal P ?c1 else ?r)"
    using assms by (simp only: warningDeadlineFired_def call_receipt_def upd_xentry_simps prod.case simp_thms if_False)
  have "?r = ?c1 \<or> (\<exists>jti x. ?r = emit_warning P k jti x ?c1)" by (rule unfired_cases)
  with eq that show thesis by metis
qed

lemma warningDeadlineFired_ok:
  shows "acts_on k c (warningDeadlineFired P k d c)"
    and "base {} c \<Longrightarrow> seal_ok c \<Longrightarrow> k < length (ow_entries c) \<Longrightarrow>
      dead (warningDeadlineFired P k d c) \<or> watch_state (warningDeadlineFired P k d c) k = watch_state c k"
proof -
  let ?c' = "warningDeadlineFired P k d c"
  let ?ok = "base {} c \<and> seal_ok c \<and> k < length (ow_entries c)"
  have "acts_on k c ?c' \<and> (?ok \<longrightarrow> dead ?c' \<or> watch_state ?c' k = watch_state c k)"
  proof (cases "isCurrent c k \<and> xe_warningDeadline (xentry c k) = Some d")
    case True
    let ?c1 = "upd_cell d cancelled_cell (upd_xentry k (\<lambda>e. e\<lparr>xe_warningDeadline := None\<rparr>) c)"
    have a1: "acts_on k c ?c1" using True by (simp add: acts_warned)
    have watch_state: "watch_state ?c1 k = watch_state c k" if ?ok using that by (simp add: core_upd)
    have acc: "ow_accepting ?c1" using True by (simp add: isCurrent_def)
    have emit: "acts_on k c (emit_warning P k jti x ?c1)"
      "?ok \<longrightarrow> dead (emit_warning P k jti x ?c1) \<or> watch_state (emit_warning P k jti x ?c1) k = watch_state ?c1 k" for jti x
      using acts_trans [OF a1 emit_warning_ok(1) [OF acc]] emit_warning_ok(2) [OF acc] acts_ok(1, 2, 4) [OF a1] by blast+
    show ?thesis
      by (rule warningDeadlineFired_cases [OF conjunct1 [OF True] conjunct2 [OF True], of P])
        (use a1 watch_state emit acts_seal_after [OF a1] in auto)
  qed (auto simp: warningDeadlineFired_def)
  then show "acts_on k c ?c'" and "base {} c \<Longrightarrow> seal_ok c \<Longrightarrow> k < length (ow_entries c) \<Longrightarrow> dead ?c' \<or> watch_state ?c' k = watch_state c k"
    by blast+
qed

lemma harmless_adopt [simp]: "harmless k (adopt_credential jti x) c"
  by (simp add: harmless_def adopt_credential_def Let_def)

lemma core_adopt: "k < length (ow_entries c) \<Longrightarrow> watch_state (upd_xentry k (adopt_credential jti x) c) k = watch_state c k"
  by (rule core_upd) (simp_all add: adopt_credential_def)

lemma core_scheduled_warning: "k < length (ow_entries c) \<Longrightarrow> watch_state (scheduled k True at early c) k = watch_state c k"
  unfolding scheduled_def by (subst core_upd) simp_all

lemma armWarning_ok:
  shows "acts_on k c (snd (armWarning P k jti x c))"
    and "base {} c \<Longrightarrow> seal_ok c \<Longrightarrow> k < length (ow_entries c) \<Longrightarrow> fst (armWarning P k jti x c) \<Longrightarrow>
      dead (snd (armWarning P k jti x c))"
    and "base {} c \<Longrightarrow> seal_ok c \<Longrightarrow> k < length (ow_entries c) \<Longrightarrow>
      dead (snd (armWarning P k jti x c)) \<or> watch_state (snd (armWarning P k jti x c)) k = watch_state c k"
proof -
  let ?r = "armWarning P k jti x c"
  let ?ok = "base {} c \<and> seal_ok c \<and> k < length (ow_entries c)"
  have "acts_on k c (snd ?r) \<and> (?ok \<longrightarrow> fst ?r \<longrightarrow> dead (snd ?r)) \<and> (?ok \<longrightarrow> dead (snd ?r) \<or> watch_state (snd ?r) k = watch_state c k)"
  proof (cases "isCurrent c k \<and> xe_warningPort (xentry c k)")
    case True
    let ?c1 = "upd_xentry k (adopt_credential jti x) c"
    let ?at = "x - AUTH_EXPIRING_WARNING_LEAD_MS"
    let ?d = "length (ow_deadlines ?c1)"
    have a1: "acts_on k c ?c1" by (rule acts_upd) simp
    have cur: "current ?c1 k" if ?ok using True that by (simp add: isCurrent_def adopt_credential_def)
    consider (fired) "xe_warningFired (xentry ?c1 k)" | (pending) "\<not> xe_warningFired (xentry ?c1 k)" "xe_warningDeadline (xentry ?c1 k) \<noteq> None"
      | (schedules) "\<not> xe_warningFired (xentry ?c1 k)" "xe_warningDeadline (xentry ?c1 k) = None" by blast
    then show ?thesis
    proof cases
      case fired
      then have "?r = (False, ?c1)" using True by (simp add: armWarning_def Let_def)
      with a1 core_adopt show ?thesis by simp
    next
      case pending
      then have "?r = (True, requestSeal P ?c1)" using True by (simp add: armWarning_def Let_def)
      with acts_seal_after [OF a1] show ?thesis by simp
    next
      case schedules
      show ?thesis
      proof (cases "ep_schedule P ?d")
        case ScheduleRefused
        let ?g = "\<lambda>e. e\<lparr>xe_warningDeadline := None, xe_warningJti := None, xe_warningExpiresAtMs := None\<rparr>"
        let ?z = "upd_xentry k ?g (upd_xentry k (with_slot True ?d) (?c1\<lparr>ow_deadlines := ow_deadlines ?c1 @ [new_cell k True ?at]\<rparr>))"
        have "?r = (True, requestSeal P ?z)"
          using True schedules ScheduleRefused by (simp add: armWarning_def schedule_cell_eq Let_def)
        moreover have "acts_on k c ?z"
          by (rule acts_trans [OF a1 acts_refused]) (use schedules in \<open>simp add: harmless_def with_slot_def\<close>)
        ultimately show ?thesis using acts_seal_after by simp
      next
        case (Scheduled early)
        let ?c2 = "scheduled k True ?at early ?c1"
        have "?r = (False, if early then warningDeadlineFired P k ?d ?c2 else ?c2)"
          using True schedules Scheduled by (simp add: armWarning_def schedule_cell_eq Let_def)
        moreover have a2: "acts_on k c ?c2" if ?ok
          by (rule acts_trans [OF a1 acts_scheduled]) (use schedules cur that in simp_all)
        have "acts_on k c ?c2" using a2 unfolding acts_on_def by blast
        moreover note w = warningDeadlineFired_ok(1) [of k ?c2 P ?d]
        moreover have "dead (warningDeadlineFired P k ?d ?c2) \<or> watch_state (warningDeadlineFired P k ?d ?c2) k = watch_state ?c2 k" if ?ok
          by (rule warningDeadlineFired_ok(2)) (use acts_ok [OF a2 [OF that]] that in blast)+
        moreover have "watch_state ?c2 k = watch_state c k" if ?ok using that by (simp add: core_scheduled_warning core_adopt)
        ultimately show ?thesis by (auto intro: acts_trans)
      qed
    qed
  qed (auto simp: armWarning_def)
  then show "acts_on k c (snd ?r)"
    and "base {} c \<Longrightarrow> seal_ok c \<Longrightarrow> k < length (ow_entries c) \<Longrightarrow> fst ?r \<Longrightarrow> dead (snd ?r)"
    and "base {} c \<Longrightarrow> seal_ok c \<Longrightarrow> k < length (ow_entries c) \<Longrightarrow> dead (snd ?r) \<or> watch_state (snd ?r) k = watch_state c k"
    by blast+
qed
section \<open>Arming and refreshing\<close>

abbreviation in_flight_core :: "nat \<Rightarrow> nat option \<times> admitted option \<times> bool \<times> cut_stage option \<Rightarrow> bool" where
  "in_flight_core n x \<equiv> \<exists>d p. x = (d, Some (CutPromise n), p, Some CutWaiting) \<and> (d = None) = p"

lemma acts_arm: "acts_on k c (snd (arm P k jti x c))"
proof (cases "isCurrent c k")
  case True
  let ?d = "length (ow_deadlines c)"
  show ?thesis
  proof (cases "xe_deadline (xentry c k)")
    case None
    show ?thesis
    proof (cases "ep_schedule P ?d")
      case ScheduleRefused
      let ?z = "upd_xentry k (\<lambda>e. e\<lparr>xe_deadline := None\<rparr>)
        (upd_xentry k (with_slot False ?d) (c\<lparr>ow_deadlines := ow_deadlines c @ [new_cell k False x]\<rparr>))"
      have "acts_on k c ?z" by (rule acts_refused) (simp add: harmless_def with_slot_def None)
      then show ?thesis using True None ScheduleRefused by (simp add: arm_def schedule_cell_eq acts_seal_after)
    next
      case (Scheduled early)
      let ?c1 = "scheduled k False x early c"
      have "acts_on k c ?c1" by (rule acts_scheduled) (use True None in \<open>simp_all add: isCurrent_def\<close>)
      then have "acts_on k c (if early then deadlineFired P k ?d ?c1 else ?c1)"
        using acts_trans acts_deadlineFired by auto
      from acts_trans [OF this armWarning_ok(1)] show ?thesis
        using True None Scheduled by (simp add: arm_def schedule_cell_eq)
    qed
  qed (use True acts_seal in \<open>simp add: arm_def\<close>)
qed (simp add: arm_def)

lemma arm_seals:
  assumes "base {} c" and "seal_ok c" and "k < length (ow_entries c)" and "fst (arm P k jti x c)"
  shows "dead (snd (arm P k jti x c))"
proof (cases "isCurrent c k \<and> xe_deadline (xentry c k) = None")
  case True
  let ?d = "length (ow_deadlines c)"
  show ?thesis
  proof (cases "ep_schedule P ?d")
    case ScheduleRefused
    let ?z = "upd_xentry k (\<lambda>e. e\<lparr>xe_deadline := None\<rparr>)
      (upd_xentry k (with_slot False ?d) (c\<lparr>ow_deadlines := ow_deadlines c @ [new_cell k False x]\<rparr>))"
    have "acts_on k c ?z" by (rule acts_refused) (simp add: harmless_def with_slot_def True)
    with assms show ?thesis using True ScheduleRefused by (simp add: arm_def schedule_cell_eq acts_seal_after)
  next
    case (Scheduled early)
    let ?c1 = "scheduled k False x early c"
    let ?c2 = "if early then deadlineFired P k ?d ?c1 else ?c1"
    have "acts_on k c ?c1" by (rule acts_scheduled) (use True in \<open>simp_all add: isCurrent_def\<close>)
    then have a: "acts_on k c ?c2" using acts_trans acts_deadlineFired by auto
    have "arm P k jti x c = armWarning P k jti x ?c2" using True Scheduled by (simp add: arm_def schedule_cell_eq)
    with armWarning_ok(2) [OF acts_ok(1, 2, 4) [OF a assms(1-3)]] assms(4) show ?thesis by simp
  qed
qed (use assms dead_seal in \<open>auto simp: arm_def split: if_splits\<close>)

lemma arm_core:
  assumes "base {} c" and "seal_ok c" and k: "k < length (ow_entries c)" and cur: "isCurrent c k"
    and watch_state: "watch_state c k = (None, Some (CutPromise n), False, Some CutWaiting)"
  shows "dead (snd (arm P k jti x c)) \<or> in_flight_core n (watch_state (snd (arm P k jti x c)) k)"
proof -
  let ?d = "length (ow_deadlines c)"
  have None: "xe_deadline (xentry c k) = None" using watch_state by (simp add: watch_state_def)
  show ?thesis
  proof (cases "ep_schedule P ?d")
    case ScheduleRefused
    then have "fst (arm P k jti x c)" using cur None by (simp add: arm_def schedule_cell_eq)
    with arm_seals [OF assms(1-3)] show ?thesis by blast
  next
    case (Scheduled early)
    let ?c1 = "scheduled k False x early c"
    let ?c2 = "if early then deadlineFired P k ?d ?c1 else ?c1"
    have a1: "acts_on k c ?c1" by (rule acts_scheduled) (use cur None in \<open>simp_all add: isCurrent_def\<close>)
    then have a2: "acts_on k c ?c2" using acts_trans acts_deadlineFired by auto
    note ok1 = acts_ok [OF a1 assms(1-3)] and ok2 = acts_ok [OF a2 assms(1-3)]
    have c1: "watch_state ?c1 k = (Some ?d, Some (CutPromise n), False, Some CutWaiting)"
      using watch_state k by (auto simp: watch_state_def scheduled_def)
    have "dead ?c2 \<or> in_flight_core n (watch_state ?c2 k)"
    proof (cases early)
      case True
      have "isCurrent ?c1 k" using cur k by (simp add: isCurrent_def scheduled_def)
      from deadlineFired_covers [OF ok1(1, 2, 4) this, of ?d P] c1 True show ?thesis
        by (auto simp: watch_state_def)
    qed (use c1 in simp)
    then have "dead (snd (armWarning P k jti x ?c2)) \<or> in_flight_core n (watch_state (snd (armWarning P k jti x ?c2)) k)"
      using armWarning_ok(3) [OF ok2(1, 2, 4), of P jti x] effect_dead [OF acts_ok(3) [OF armWarning_ok(1) ok2(1, 2, 4)]]
      by metis
    then show ?thesis using cur None Scheduled by (simp add: arm_def schedule_cell_eq)
  qed
qed

lemma applyCutResult_ok:
  shows "acts_on k c (snd (applyCutResult P k v b c))"
    and "base {} c \<Longrightarrow> seal_ok c \<Longrightarrow> k < length (ow_entries c) \<Longrightarrow> fst (applyCutResult P k v b c) \<Longrightarrow>
      dead (snd (applyCutResult P k v b c))"
    and "base {} c \<Longrightarrow> seal_ok c \<Longrightarrow> k < length (ow_entries c) \<Longrightarrow> current c k \<longrightarrow> isCurrent c k \<Longrightarrow>
      watch_state c k = (None, Some (CutPromise n), False, Some CutWaiting) \<Longrightarrow>
      dead (snd (applyCutResult P k v b c)) \<or> \<not> current (snd (applyCutResult P k v b c)) k
      \<or> in_flight_core n (watch_state (snd (applyCutResult P k v b c)) k)"
proof -
  let ?r = "applyCutResult P k v b c"
  let ?m = "if b then xe_consecutiveEarlyFires (xentry c k) + 1 else 0"
  let ?c1 = "upd_xentry k (\<lambda>e. e\<lparr>xe_consecutiveEarlyFires := ?m\<rparr>) c"
  have a1: "acts_on k c ?c1" by (rule acts_upd) (simp add: harmless_def)
  consider (stale) "\<not> isCurrent c k" "?r = (False, c)" | (seal) "?r = (True, requestSeal P c)" | (retire) "?r = (False, retire P k c)"
    | (early) "?r = (True, requestSeal P ?c1)" | (active) jti x where "isCurrent c k" "?r = arm P k jti x ?c1"
  proof (cases "isCurrent c k")
    case True
    show thesis
    proof (cases "parseCutResult v")
      case (Some r)
      show thesis
      proof (cases r)
        case (ActiveCut jti x)
        with True Some have "?r = (if b \<and> ?m \<ge> MAX_CONSECUTIVE_EARLY_FIRES then (True, requestSeal P ?c1) else arm P k jti x ?c1)"
          by (simp only: applyCutResult_def Let_def simp_thms if_False option.case cut_result.case)
        then show thesis using early active [OF True] by (cases "b \<and> ?m \<ge> MAX_CONSECUTIVE_EARLY_FIRES") metis+
      qed (use Some True seal retire in \<open>simp_all add: applyCutResult_def\<close>)
    qed (use True seal in \<open>simp add: applyCutResult_def\<close>)
  qed (use stale in \<open>simp add: applyCutResult_def\<close>)
  note cases = this
  show "acts_on k c (snd ?r)"
    using cases by cases (use acts_seal acts_retire acts_seal_after(1) [OF a1] acts_trans [OF a1 acts_arm] in auto)
  assume ok: "base {} c" "seal_ok c" "k < length (ow_entries c)"
  note ok1 = acts_ok(1, 2, 4) [OF a1 ok]
  show "dead (snd ?r)" if "fst ?r"
    using cases by cases (use that dead_seal ok acts_seal_after(2) [OF a1 ok] arm_seals [OF ok1] in auto)
  assume alive: "current c k \<longrightarrow> isCurrent c k" and watch_state: "watch_state c k = (None, Some (CutPromise n), False, Some CutWaiting)"
  have core1: "watch_state ?c1 k = (None, Some (CutPromise n), False, Some CutWaiting)" using watch_state ok(3) by (simp add: core_upd)
  have cur1: "isCurrent ?c1 k" if "isCurrent c k" using that ok(3) by (simp add: isCurrent_def)
  show "dead (snd ?r) \<or> \<not> current (snd ?r) k \<or> in_flight_core n (watch_state (snd ?r) k)"
    using cases
  proof cases
    case (active jti x)
    with arm_core [OF ok1 cur1 core1] show ?thesis by simp
  qed (use alive dead_seal ok acts_seal_after(2) [OF a1 ok] retire_ok(4) [OF ok] in auto)
qed
lemma refreshEntry_ok:
  shows "acts_on k c (refreshEntry P k c)"
    and "base {} c \<Longrightarrow> seal_ok c \<Longrightarrow> k < length (ow_entries c) \<Longrightarrow> covered c k \<Longrightarrow>
      dead (refreshEntry P k c) \<or> covered (refreshEntry P k c) k"
proof -
  let ?c1 = "upd_xentry k (\<lambda>e. e\<lparr>xe_warningAttemptGeneration := xe_warningAttemptGeneration e + 1\<rparr>) c"
  let ?e = "xentry ?c1 k"
  let ?p = "upd_xentry k (\<lambda>e. e\<lparr>xe_pendingRefresh := True\<rparr>) ?c1"
  let ?c2 = "upd_xentry k (\<lambda>e. e\<lparr>xe_warningJti := xe_warningJti ?e, xe_warningExpiresAtMs := xe_warningExpiresAtMs ?e,
      xe_warningFired := xe_warningFired ?e, xe_consecutiveEarlyFires := 0\<rparr>) (cancel P k ?c1)"
  have eq: "refreshEntry P k c = (if \<not> isCurrent c k then c else if xe_admittedCut ?e \<noteq> None then ?p else admitCut P k False ?c2)"
    unfolding refreshEntry_def Let_def ..
  have a1: "acts_on k c ?c1" by (rule acts_upd) (simp add: harmless_def)
  have ap: "acts_on k c ?p" by (rule acts_trans [OF a1 acts_upd]) (simp add: harmless_def)
  have ac: "acts_on k c (cancel P k ?c1)" by (rule acts_trans [OF a1 acts_cancel])
  have a2: "acts_on k c ?c2" by (rule acts_trans [OF ac acts_upd]) (simp add: harmless_def)
  show "acts_on k c (refreshEntry P k c)" unfolding eq using ap acts_trans [OF a2 acts_admitCut] by simp
  assume ok: "base {} c" "seal_ok c" and k: "k < length (ow_entries c)" and cov: "covered c k"
  note ok1 = acts_ok [OF a1 ok k] and okc = acts_ok [OF ac ok k] and ok2 = acts_ok [OF a2 ok k]
  have cov': "covered ?p k"
  proof -
    have "watch_state ?p k = watch_state c k" using k by (simp add: core_upd)
    with cov covered_core show ?thesis by blast
  qed
  have "dead (admitCut P k False ?c2) \<or> covered (admitCut P k False ?c2) k"
    if cur: "isCurrent c k" and adm: "xe_admittedCut ?e = None"
  proof -
    from cancel_ok(4) [OF ok1(1, 2, 4), of P] consider "dead (cancel P k ?c1)"
      | x where "cancel P k ?c1 = (upd_xentry k without_deadlines ?c1)\<lparr>ow_deadlines := x\<rparr>" by blast
    then show ?thesis
    proof cases
      case 1
      then have "dead ?c2" by (rule dead_upd) simp
      then show ?thesis by (rule disjI1 [OF effect_dead [OF acts_ok(3) [OF acts_admitCut ok2(1, 2, 4)]]])
    next
      case (2 x)
      have f: "isCurrent ?c2 k" using cur k unfolding 2 by (simp add: isCurrent_def)
      have "\<not> xe_pendingFire (xentry c k)" using cov adm k by (simp add: covered_def Let_def)
      with adm k have "xe_admittedCut (xentry ?c2 k) = None" "xe_deadline (xentry ?c2 k) = None" "\<not> xe_pendingFire (xentry ?c2 k)"
        unfolding 2 by simp_all
      then show ?thesis by (rule admitCut_covers [OF ok2(1, 2, 4) f])
    qed
  qed
  with cov cov' show "dead (refreshEntry P k c) \<or> covered (refreshEntry P k c) k" unfolding eq by simp
qed

section \<open>From one entry to the owner\<close>

lemma owner_current:
  assumes "owner_ok c" and "k < length (ow_entries c)"
  shows "isCurrent c k \<longleftrightarrow> current c k"
  using assms by (auto simp: owner_ok_def base_def entries_ok_def placed_def isCurrent_def split: if_splits)

lemma owner_parts:
  assumes "owner_ok c"
  shows "base {} c" and "seal_ok c"
  using assms by (simp_all add: owner_ok_def)

lemma dead_owner_ok: "base {} c \<Longrightarrow> seal_ok c \<Longrightarrow> dead c \<Longrightarrow> (ow_closeDrain c \<noteq> NotClosing \<longrightarrow> ow_closed c) \<Longrightarrow>
    (\<And>x. x \<in> set (ow_drains c) \<Longrightarrow> dr_entry x < length (ow_entries c)) \<Longrightarrow> owner_ok c"
  by (simp add: owner_ok_def drains_ok_def dead_def)

lemma covered_framed:
  assumes "base {} c" and "framed k c c'" and "j \<noteq> k" and "j < length (ow_entries c)"
  shows "covered c' j = covered c j"
proof (rule covered_core)
  have e: "xentry c' j = xentry c j" using assms(2, 3) by (simp add: framed_def)
  have "stage_in (ow_cuts c') (xe_admittedCut (xentry c j)) = stage_in (ow_cuts c) (xe_admittedCut (xentry c j))"
  proof (cases "xe_admittedCut (xentry c j)")
    case (Some a)
    show ?thesis
    proof (cases a)
      case (CutPromise n)
      with Some assms(1, 4) have "n < length (ow_cuts c) \<and> ct_entry (ow_cuts c ! n) = j" by (simp add: base_def cuts_ok_def)
      with assms(2, 3) have "ow_cuts c' ! n = ow_cuts c ! n" by (simp add: framed_def)
      with Some CutPromise show ?thesis by (simp add: stage_in_def)
    qed (simp add: Some stage_in_def)
  qed (simp add: stage_in_def)
  then show "watch_state c' j = watch_state c j" by (simp add: watch_state_def e)
qed

text \<open>The invariant without what covers entry \<open>k\<close>.\<close>

definition owner_but :: "nat \<Rightarrow> expiry_owner \<Rightarrow> bool" where
  "owner_but k c \<longleftrightarrow> base {} c \<and> seal_ok c \<and> drains_ok c
     \<and> (\<forall>j < length (ow_entries c). current c j \<longrightarrow> ow_accepting c \<and> \<not> ow_closed c \<and> (j \<noteq> k \<longrightarrow> covered c j))
     \<and> (ow_closed c \<longrightarrow> \<not> ow_accepting c) \<and> (ow_closeDrain c \<noteq> NotClosing \<longrightarrow> ow_closed c)"

lemma owner_ok_but: "owner_ok c \<Longrightarrow> owner_but k c"
  by (simp add: owner_ok_def owner_but_def)

lemma acts_owner_ok:
  assumes but: "owner_but k c" and k: "k < length (ow_entries c)" and "acts_on k c c'"
    and "current c' k \<Longrightarrow> dead c' \<or> covered c' k"
  shows "owner_ok c'"
proof -
  have b: "base {} c" and s: "seal_ok c" using but by (simp_all add: owner_but_def)
  note ok = acts_ok [OF assms(3) b s k]
  have len: "length (ow_entries c') = length (ow_entries c)" and cl: "ow_closed c' = ow_closed c" "ow_closeDrain c' = ow_closeDrain c"
    and dr: "ow_drains c' = ow_drains c"
    and f: "dead c' \<or> framed k c c'"
    using ok(3) by (simp_all add: effect_on_def)
  have "ow_accepting c' \<and> \<not> ow_closed c' \<and> covered c' j" if j: "j < length (ow_entries c)" and cur: "current c' j" for j
  proof -
    have d: "\<not> dead c'" using cur j len by (auto simp: dead_def)
    with f have f: "framed k c c'" by simp
    have "current c j" using f cur by (cases "j = k") (simp_all add: framed_def)
    with but j have "ow_accepting c" "\<not> ow_closed c" "j \<noteq> k \<Longrightarrow> covered c j" by (simp_all add: owner_but_def)
    moreover have "covered c' j"
      using assms(4) d cur covered_framed [OF b f _ j] calculation(3) by (cases "j = k") auto
    ultimately show ?thesis using f cl by (simp add: framed_def)
  qed
  moreover have "ow_closed c' \<longrightarrow> \<not> ow_accepting c'" using but f cl by (auto simp: owner_but_def framed_def dead_def)
  moreover have "drains_ok c'"
    unfolding drains_ok_def dr len
  proof
    fix x assume "x \<in> set (ow_drains c)"
    with but have x: "dr_entry x < length (ow_entries c)" "\<not> current c (dr_entry x)" by (simp_all add: owner_but_def drains_ok_def)
    with f len show "dr_entry x < length (ow_entries c) \<and> \<not> current c' (dr_entry x)"
      by (cases "dr_entry x = k") (auto simp: dead_def framed_def)
  qed
  ultimately show ?thesis using ok(1, 2) len but cl by (simp add: owner_ok_def owner_but_def)
qed

text \<open>What every step keeps: a dead owner stays dead and is silent.\<close>

definition moves_on :: "expiry_owner \<Rightarrow> expiry_owner \<Rightarrow> bool" where
  "moves_on c c' \<longleftrightarrow> (ow_accepting c' \<longrightarrow> ow_accepting c) \<and> (\<not> ow_accepting c \<longrightarrow> business c' = business c)"

lemma moves_on_refl [simp]: "moves_on c c"
  by (simp add: moves_on_def)

lemma moves_on_trans: "moves_on a b \<Longrightarrow> moves_on b c \<Longrightarrow> moves_on a c"
  by (auto simp: moves_on_def)

lemma effect_onward: "effect_on k c c' \<Longrightarrow> moves_on c c'"
  by (auto simp: effect_on_def moves_on_def dead_def framed_def)

text \<open>A step of the owner, on one entry: the invariant, and the way forward.\<close>

definition steps_ok :: "expiry_owner \<Rightarrow> expiry_owner \<Rightarrow> bool" where
  "steps_ok c c' \<longleftrightarrow> (owner_ok c \<longrightarrow> owner_ok c' \<and> moves_on c c')"

lemma steps_refl [simp]: "steps_ok c c"
  by (simp add: steps_ok_def)

lemma acts_steps:
  assumes "acts_on k c c'" and "owner_ok c \<Longrightarrow> k < length (ow_entries c)"
    and "owner_ok c \<Longrightarrow> current c' k \<Longrightarrow> dead c' \<or> covered c' k"
  shows "steps_ok c c'"
  unfolding steps_ok_def
proof (intro impI conjI)
  assume ok: "owner_ok c"
  show "owner_ok c'" by (rule acts_owner_ok [OF owner_ok_but [OF ok] assms(2) [OF ok] assms(1) assms(3) [OF ok]])
  show "moves_on c c'" by (rule effect_onward [OF acts_ok(3) [OF assms(1) owner_parts [OF ok] assms(2) [OF ok]]])
qed
section \<open>The admitted cut\<close>

text \<open>While a cut is admitted, only its own end withdraws it.\<close>

lemma admitted_upd: "xe_admittedCut (f (xentry c k)) = xe_admittedCut (xentry c k) \<Longrightarrow>
  xe_admittedCut (xentry (upd_xentry k f c) j) = xe_admittedCut (xentry c j)"
  by (cases "k < length (ow_entries c)"; cases "j = k") (simp_all add: list_update_beyond)

lemma admitted_cancel_deadlines:
  "xe_admittedCut (xentry (fold (cancel_deadline (requestSeal P) P) ds c) j) = xe_admittedCut (xentry c j)"
proof (induction ds arbitrary: c)
  case (Cons d ds)
  have "xe_admittedCut (xentry (cancel_deadline (requestSeal P) P d c) j) = xe_admittedCut (xentry c j)"
    by (simp add: cancel_deadline_def call_receipt_def requestSeal_admitted)
  with Cons show ?case by simp
qed simp

lemma admitted_retire: "xe_admittedCut (xentry (retire P k c) j) = xe_admittedCut (xentry c j)"
proof -
  have "xe_admittedCut (xentry (upd_xentry k without_deadlines (deregister k (upd_xentry k retired c))) j) = xe_admittedCut (xentry c j)"
    using admitted_upd [of without_deadlines "deregister k (upd_xentry k retired c)" k j] admitted_upd [of retired c k j] by simp
  then show ?thesis
    by (simp add: retire_def retire_with_def cancel_with_def admitted_cancel_deadlines)
qed

lemma admitted_emit: "xe_admittedCut (xentry (emit_warning P k jti x c) j) = xe_admittedCut (xentry c j)"
proof -
  have "xe_admittedCut (xentry (upd_xentry k (\<lambda>e. e\<lparr>xe_warningFired := True, xe_warningAttemptGeneration := g\<rparr>) c) j) =
      xe_admittedCut (xentry c j)" for g
    by (rule admitted_upd) simp
  then show ?thesis by (simp add: emit_warning_def Let_def requestSeal_admitted)
qed

lemma admitted_warningDeadlineFired:
  "xe_admittedCut (xentry (warningDeadlineFired P k d c) j) = xe_admittedCut (xentry c j)"
proof (cases "isCurrent c k \<and> xe_warningDeadline (xentry c k) = Some d")
  case True
  have a: "xe_admittedCut (xentry (upd_xentry k (\<lambda>e. e\<lparr>xe_warningDeadline := None\<rparr>) c) j) = xe_admittedCut (xentry c j)"
    by (rule admitted_upd) simp
  show ?thesis
    by (rule warningDeadlineFired_cases [OF conjunct1 [OF True] conjunct2 [OF True], of P])
      (use a in \<open>simp_all add: requestSeal_admitted admitted_emit\<close>)
qed (auto simp: warningDeadlineFired_def)

lemma admitted_schedule: "xe_admittedCut (xentry (snd (schedule_cell P k w at c)) j) = xe_admittedCut (xentry c j)"
  using admitted_upd [of "with_slot w (length (ow_deadlines c))" "c\<lparr>ow_deadlines := ds\<rparr>" k j for ds]
  by (simp add: schedule_cell_eq scheduled_def split: schedule_result.split)

lemma admitted_armWarning: "xe_admittedCut (xentry (snd (armWarning P k jti x c)) j) = xe_admittedCut (xentry c j)"
proof -
  let ?c1 = "upd_xentry k (adopt_credential jti x) c"
  let ?s = "schedule_cell P k True (x - AUTH_EXPIRING_WARNING_LEAD_MS) ?c1"
  have a: "xe_admittedCut (xentry ?c1 j) = xe_admittedCut (xentry c j)" by (rule admitted_upd) (simp add: adopt_credential_def)
  then have s: "xe_admittedCut (xentry (snd ?s) j) = xe_admittedCut (xentry c j)" by (simp only: admitted_schedule)
  obtain v z where vz: "?s = (v, z)" by fastforce
  have "xe_admittedCut (xentry (upd_xentry k (\<lambda>e. e\<lparr>xe_warningDeadline := None, xe_warningJti := None, xe_warningExpiresAtMs := None\<rparr>) z) j) =
      xe_admittedCut (xentry z j)"
    by (rule admitted_upd) simp
  with a s vz show ?thesis
    by (cases v) (simp_all add: armWarning_def Let_def requestSeal_admitted admitted_warningDeadlineFired)
qed

lemma admitted_deadlineFired:
  assumes "xe_admittedCut (xentry c k) = Some a"
  shows "xe_admittedCut (xentry (deadlineFired P k d c) k) = Some a"
  using assms by (cases "k < length (ow_entries c)")
    (simp_all add: deadlineFired_def call_receipt_def requestSeal_admitted list_update_beyond)

lemma admitted_arm:
  assumes "xe_admittedCut (xentry c k) = Some a"
  shows "xe_admittedCut (xentry (snd (arm P k jti x c)) k) = Some a"
proof -
  obtain v z where vz: "schedule_cell P k False x c = (v, z)" by fastforce
  then have z: "xe_admittedCut (xentry z k) = Some a" using admitted_schedule [of P k False x c k] assms by simp
  have "xe_admittedCut (xentry (upd_xentry k (\<lambda>e. e\<lparr>xe_deadline := None\<rparr>) z) k) = xe_admittedCut (xentry z k)"
    by (rule admitted_upd) simp
  with z vz assms show ?thesis
    by (cases v) (simp_all add: arm_def requestSeal_admitted admitted_armWarning admitted_deadlineFired)
qed

lemma admitted_apply:
  assumes "xe_admittedCut (xentry c k) = Some a"
  shows "xe_admittedCut (xentry (snd (applyCutResult P k v b c)) k) = Some a"
proof -
  have "xe_admittedCut (xentry (upd_xentry k (\<lambda>e. e\<lparr>xe_consecutiveEarlyFires := m\<rparr>) c) k) = Some a" for m
    using admitted_upd [of "\<lambda>e. e\<lparr>xe_consecutiveEarlyFires := m\<rparr>" c k k] assms by simp
  then show ?thesis
    using assms by (simp add: applyCutResult_def Let_def requestSeal_admitted admitted_retire admitted_arm
        split: option.split cut_result.split)
qed

lemma core_steps:
  assumes "acts_on k c c'" and "owner_ok c \<Longrightarrow> k < length (ow_entries c)"
    and "owner_ok c \<Longrightarrow> dead c' \<or> watch_state c' k = watch_state c k"
  shows "steps_ok c c'"
proof (rule acts_steps [OF assms(1, 2)])
  assume ok: "owner_ok c" and cur: "current c' k"
  show "dead c' \<or> covered c' k"
  proof (cases "dead c'")
    case False
    with acts_ok(3) [OF assms(1) owner_parts [OF ok] assms(2) [OF ok]] cur have "current c k"
      by (simp add: effect_on_def framed_def)
    with ok assms(2) have "covered c k" by (simp add: owner_ok_def)
    then show ?thesis using assms(3) [OF ok] False covered_core by blast
  qed simp
qed

end
