(* ===== verification/RV2_ExpiryRuns.thy ===== *)
theory RV2_ExpiryRuns
  imports RV2_ExpiryOps
begin

text \<open>
  The authorization deadline owner at work: every operation and every event keeps the invariant
  of \<open>RV2_ExpiryFacts\<close>, and an owner that stopped accepting stays silent.
\<close>

section \<open>Timers\<close>

lemma owner_ok_cong:
  assumes "ow_entries c' = ow_entries c" and "ow_deadlines c' = ow_deadlines c" and "ow_cuts c' = ow_cuts c"
    and "ow_live c' = ow_live c" and "ow_attempts c' = ow_attempts c" and "\<And>kind. expiryRegistry kind c' = expiryRegistry kind c"
    and "ow_accepting c' = ow_accepting c" and "ow_closed c' = ow_closed c" and "ow_calls c' = ow_calls c"
    and "(ow_seal c' = NotSealed) = (ow_seal c = NotSealed)" and "ow_closeDrain c' = ow_closeDrain c"
    and "drains_ok c' = drains_ok c"
  shows "owner_ok c' = owner_ok c" and "moves_on c c'"
proof -
  have "base {} c' = base {} c" by (rule base_cong) (simp_all add: assms)
  moreover have "dead c' = dead c" by (rule dead_cong) (simp_all add: assms)
  moreover have "covered c' k = covered c k" for k by (rule covered_core) (simp add: watch_state_def assms)
  ultimately show "owner_ok c' = owner_ok c" by (simp add: owner_ok_def seal_ok_def assms)
  show "moves_on c c'" by (simp add: moves_on_def business_def assms)
qed

lemma early_callback_steps: "steps_ok c (upd_cell d (\<lambda>x. x\<lparr>dc_firedBeforeArmed := True\<rparr>) c)" (is "steps_ok c ?c'")
proof -
  have cell: "dc_entry (cell ?c' i) = dc_entry (cell c i)" "dc_warning (cell ?c' i) = dc_warning (cell c i)"
    "dc_armed (cell ?c' i) = dc_armed (cell c i)" "dc_cancel (cell ?c' i) = dc_cancel (cell c i)" for i
    by (cases "i = d"; cases "d < length (ow_deadlines c)"; simp add: list_update_beyond)+
  have len: "length (ow_deadlines ?c') = length (ow_deadlines c)" and rest: "ow_entries ?c' = ow_entries c" by simp_all
  have "slots_ok {} ?c' = slots_ok {} c" "cells_ok {} ?c' = cells_ok {} c"
    unfolding slots_ok_def cells_ok_def len rest cell by (rule refl)+
  then have "base {} ?c' = base {} c" by (simp add: base_def cuts_ok_def entries_ok_def)
  moreover have "dead ?c' = dead c" by (rule dead_cong) simp_all
  moreover have "covered ?c' k = covered c k" for k by (rule covered_core) simp
  moreover have "drains_ok ?c' = drains_ok c" by (simp add: drains_ok_def)
  ultimately show ?thesis by (simp add: steps_ok_def owner_ok_def seal_ok_def moves_on_def business_def)
qed

lemma timer_callback_steps:
  assumes "d < length (ow_deadlines c)"
  shows "steps_ok c (timer_callback P d c)"
proof (cases "dc_armed (cell c d)")
  case True
  let ?k = "dc_entry (cell c d)"
  have k: "?k < length (ow_entries c)" and s: "slot (dc_warning (cell c d)) (xentry c ?k) = Some d" if "owner_ok c"
    using owner_parts(1) [OF that] True assms by (auto simp: base_def cells_ok_def)
  have cov: "covered c ?k" if "owner_ok c" "current c ?k" using that k by (simp add: owner_ok_def)
  have retired: "timer_callback P d c = c" if "\<not> isCurrent c ?k"
    using that True by (simp add: timer_callback_def warningDeadlineFired_def deadlineFired_def)
  show ?thesis
  proof (cases "dc_warning (cell c d)")
    case True
    have eq: "timer_callback P d c = warningDeadlineFired P ?k d c"
      using True \<open>dc_armed (cell c d)\<close> by (simp add: timer_callback_def)
    show ?thesis
    proof (rule acts_steps [OF _ k])
      show "acts_on ?k c (timer_callback P d c)" by (simp add: eq warningDeadlineFired_ok)
      assume ok: "owner_ok c" and cur: "current (timer_callback P d c) ?k"
      have "current c ?k" using cur retired owner_current [OF ok k [OF ok]] by auto
      with cov [OF ok] warningDeadlineFired_ok(2) [OF owner_parts [OF ok] k [OF ok], of P d]
      show "dead (timer_callback P d c) \<or> covered (timer_callback P d c) ?k" unfolding eq using covered_core by blast
    qed
  next
    case False
    have eq: "timer_callback P d c = deadlineFired P ?k d c"
      using False \<open>dc_armed (cell c d)\<close> by (simp add: timer_callback_def)
    show ?thesis
    proof (rule acts_steps [OF _ k])
      show "acts_on ?k c (timer_callback P d c)" by (simp add: eq acts_deadlineFired)
      assume ok: "owner_ok c" and cur: "current (timer_callback P d c) ?k"
      have d: "xe_deadline (xentry c ?k) = Some d" using s [OF ok] False by simp
      have isc: "isCurrent c ?k" using cur retired owner_current [OF ok k [OF ok]] by auto
      then have cov: "covered c ?k" using cov ok owner_current [OF ok k [OF ok]] by simp
      show "dead (timer_callback P d c) \<or> covered (timer_callback P d c) ?k"
      proof (cases "xe_admittedCut (xentry c ?k)")
        case None
        then have "\<not> xe_pendingFire (xentry c ?k)" using cov by (simp add: covered_def Let_def)
        from deadlineFired_covers [OF owner_parts [OF ok] k [OF ok] isc d this, of P] None show ?thesis by (simp add: eq)
      next
        case (Some a)
        with cov d obtain n where n: "a = CutPromise n" "ct_stage (ow_cuts c ! n) = CutApplied" and p: "\<not> xe_pendingFire (xentry c ?k)"
          by (cases a) (auto simp: covered_def Let_def split: cut_stage.splits)
        have "watch_state c ?k = (Some d, Some (CutPromise n), False, Some CutApplied)"
          using Some n p d by (simp add: watch_state_def stage_in_def)
        with deadlineFired_covers [OF owner_parts [OF ok] k [OF ok] isc d p, of P] Some
        have "dead (deadlineFired P ?k d c) \<or> watch_state (deadlineFired P ?k d c) ?k = (None, Some (CutPromise n), True, Some CutApplied)"
          by simp
        then show ?thesis by (auto simp: eq covered_iff)
      qed
    qed
  qed
qed (simp add: timer_callback_def early_callback_steps)

section \<open>Refreshing and retiring\<close>

lemma refresh_steps:
  assumes "k < length (ow_entries c)"
  shows "steps_ok c (refreshEntry P k c)"
proof (rule acts_steps [OF refreshEntry_ok(1) assms])
  assume ok: "owner_ok c" and cur: "current (refreshEntry P k c) k"
  have "current c k" using cur owner_current [OF ok assms] by (cases "isCurrent c k") (simp_all add: refreshEntry_def)
  with ok assms have "covered c k" by (simp add: owner_ok_def)
  then show "dead (refreshEntry P k c) \<or> covered (refreshEntry P k c) k"
    by (rule refreshEntry_ok(2) [OF owner_parts [OF ok] assms])
qed

lemma retire_steps:
  assumes "k < length (ow_entries c)"
  shows "steps_ok c (retire P k c)"
  by (rule acts_steps [OF acts_retire assms]) (use retire_ok(4) [OF owner_parts assms] in blast)

lemma seal_steps: "steps_ok c (requestSeal P c)"
  unfolding steps_ok_def
proof (intro impI conjI)
  assume "owner_ok c"
  note ok = requestSeal_ok [OF owner_parts [OF this], of P]
  have "ow_closeDrain (requestSeal P c) = ow_closeDrain c" "ow_closed (requestSeal P c) = ow_closed c"
    "ow_drains (requestSeal P c) = ow_drains c" "length (ow_entries (requestSeal P c)) = length (ow_entries c)"
    using ok(4) by (auto simp: seals_def)
  then show "owner_ok (requestSeal P c)" using \<open>owner_ok c\<close>
    by (intro dead_owner_ok [OF ok(1-3)]) (simp_all add: owner_ok_def drains_ok_def)
  show "moves_on c (requestSeal P c)" by (rule effect_onward [OF effect_seals [OF ok(4)]])
qed

lemma steps_trans: "steps_ok a b \<Longrightarrow> steps_ok b c \<Longrightarrow> steps_ok a c"
  by (auto simp: steps_ok_def intro: moves_on_trans)

lemma begin_drain_steps:
  assumes "k < length (ow_entries c)" and "\<not> current c k"
  shows "steps_ok c (begin_drain b k c)"
proof -
  have "drains_ok (begin_drain b k c) = drains_ok c" using assms by (auto simp: drains_ok_def begin_drain_def)
  then show ?thesis using owner_ok_cong [of "begin_drain b k c" c] by (simp add: steps_ok_def begin_drain_def)
qed

lemma drains_ok_image:
  "drains_ok c \<longleftrightarrow> (\<forall>k \<in> dr_entry ` set (ow_drains c). k < length (ow_entries c) \<and> \<not> current c k)"
  by (simp add: drains_ok_def)

lemma upd_drain_steps:
  assumes "i < length (ow_drains c)"
  shows "steps_ok c (upd_drain i s c)"
proof -
  have "dr_entry ` set (ow_drains (upd_drain i s c)) = dr_entry ` set (ow_drains c)"
  proof -
    have "map dr_entry (ow_drains (upd_drain i s c)) = map dr_entry (ow_drains c)"
      using assms by (simp add: upd_drain_def map_update list_update_same_conv)
    then show ?thesis by (metis list.set_map)
  qed
  moreover have "ow_entries (upd_drain i s c) = ow_entries c" by (simp add: upd_drain_def)
  ultimately have "drains_ok (upd_drain i s c) = drains_ok c" unfolding drains_ok_image by simp
  then show ?thesis using owner_ok_cong [of "upd_drain i s c" c] by (simp add: steps_ok_def upd_drain_def)
qed

lemma forget_steps:
  assumes "\<not> current c k"
  shows "steps_ok c (forget_entry k c)" (is "steps_ok c ?c'")
proof -
  have "placed ?c' j (xentry c j)" if "placed c j (xentry c j)" for j
    using that assms by (auto simp: placed_def forget_entry_def)
  then have "entries_ok c \<Longrightarrow> entries_ok ?c'" by (simp add: entries_ok_def forget_entry_def)
  then have "base {} c \<Longrightarrow> base {} ?c'" by (simp add: base_def slots_ok_def cells_ok_def cuts_ok_def forget_entry_def)
  moreover have "dead ?c' = dead c" by (rule dead_cong) (simp_all add: forget_entry_def)
  moreover have "covered ?c' j = covered c j" for j by (rule covered_core) (simp add: watch_state_def forget_entry_def)
  moreover have "drains_ok ?c' = drains_ok c" by (simp add: drains_ok_def forget_entry_def)
  ultimately show ?thesis
    by (simp add: steps_ok_def owner_ok_def seal_ok_def moves_on_def business_def) (simp add: forget_entry_def)
qed

lemma unregister_steps:
  assumes "k < length (ow_entries c)"
  shows "steps_ok c (unregister_expiry P k c)"
  unfolding steps_ok_def unregister_expiry_def
proof
  assume ok: "owner_ok c"
  note r = retire_ok [OF owner_parts [OF ok] assms, of P]
  have "steps_ok (retire P k c) (begin_drain True k (retire P k c))"
    by (rule begin_drain_steps) (use r effect_length [OF r(3)] assms in simp_all)
  from steps_trans [OF retire_steps [OF assms] this] ok
  show "owner_ok (begin_drain True k (retire P k c)) \<and> moves_on c (begin_drain True k (retire P k c))" by (simp add: steps_ok_def)
qed
section \<open>Cuts that settle\<close>

lemma upd_cut_simps [simp]:
  "ow_entries (upd_cut n s c) = ow_entries c" "ow_live (upd_cut n s c) = ow_live c" "ow_accepting (upd_cut n s c) = ow_accepting c"
  "ow_closed (upd_cut n s c) = ow_closed c" "ow_seal (upd_cut n s c) = ow_seal c" "ow_deadlines (upd_cut n s c) = ow_deadlines c"
  "ow_cuts (upd_cut n s c) = (ow_cuts c)[n := (ow_cuts c ! n)\<lparr>ct_stage := s\<rparr>]" "ow_attempts (upd_cut n s c) = ow_attempts c"
  "ow_calls (upd_cut n s c) = ow_calls c" "ow_closeDrain (upd_cut n s c) = ow_closeDrain c" "ow_drains (upd_cut n s c) = ow_drains c"
  "expiryRegistry kind (upd_cut n s c) = expiryRegistry kind c"
  by (simp_all add: upd_cut_def expiryRegistry_def split: socket_kind.split)

lemma cut_facts:
  assumes "base {} c" and "n < length (ow_cuts c)" and "unsettled (ow_cuts c ! n)"
  shows "ct_entry (ow_cuts c ! n) < length (ow_entries c)"
    and "xe_admittedCut (xentry c (ct_entry (ow_cuts c ! n))) = Some (CutPromise n)"
  using assms by (simp_all add: base_def cuts_ok_def)

lemma admitted_facts:
  assumes "base {} c" and "k < length (ow_entries c)" and "xe_admittedCut (xentry c k) = Some (CutPromise n)"
  shows "n < length (ow_cuts c)" and "ct_entry (ow_cuts c ! n) = k" and "unsettled (ow_cuts c ! n)"
  using assms by (auto simp: base_def cuts_ok_def)

lemma base_cut_change:
  assumes "base {} c" and "ow_entries c' = ow_entries c" and "ow_deadlines c' = ow_deadlines c" and "ow_live c' = ow_live c"
    and "ow_attempts c' = ow_attempts c" and "\<And>kind. expiryRegistry kind c' = expiryRegistry kind c" and "cuts_ok c'"
  shows "base {} c'"
  using assms by (simp add: base_def slots_ok_def cells_ok_def entries_ok_def placed_def)

lemma acts_upd_cut:
  assumes "xe_admittedCut (xentry c k) = Some (CutPromise n)" and "\<not> (\<exists>b. s = CutSettled b)"
  shows "acts_on k c (upd_cut n s c)"
  unfolding acts_on_def
proof (intro impI, elim conjE, intro conjI)
  assume b: "base {} c" and so: "seal_ok c" and k: "k < length (ow_entries c)"
  note n = admitted_facts [OF b k assms(1)]
  have cut: "ct_entry ((ow_cuts (upd_cut n s c)) ! m) = ct_entry (ow_cuts c ! m)"
    "unsettled (ow_cuts (upd_cut n s c) ! m) = unsettled (ow_cuts c ! m)" for m
    using n assms(2) by (cases "m = n"; simp)+
  have "cuts_ok (upd_cut n s c) = cuts_ok c"
    unfolding cuts_ok_def cut by simp
  then show "base {} (upd_cut n s c)" using b by (intro base_cut_change [OF b]) (simp_all add: base_def)
  show "seal_ok (upd_cut n s c)" by (rule quiet_seal_ok [OF so]) (simp add: quiet_def)
  show "effect_on k c (upd_cut n s c)" using n by (auto simp: effect_on_def framed_def business_def nth_list_update)
qed

lemma core_upd_cut:
  assumes "xe_admittedCut (xentry c k) = Some (CutPromise n)" and "n < length (ow_cuts c)"
  shows "watch_state (upd_cut n s c) k = (xe_deadline (xentry c k), Some (CutPromise n), xe_pendingFire (xentry c k), Some s)"
  using assms by (simp add: watch_state_def stage_in_def)

lemma waiting_core:
  assumes ok: "owner_ok c" and k: "k < length (ow_entries c)" and cur: "current c k"
    and n: "xe_admittedCut (xentry c k) = Some (CutPromise n)" and w: "ct_stage (ow_cuts c ! n) = CutWaiting"
  shows "watch_state c k = (None, Some (CutPromise n), False, Some CutWaiting)"
proof -
  have "covered c k" using ok k cur by (simp add: owner_ok_def)
  with n w show ?thesis by (simp add: covered_def watch_state_def stage_in_def Let_def)
qed

text \<open>What the answer of a waiting cut leads to.\<close>

definition applied_answer :: "expiry_ports \<Rightarrow> nat \<Rightarrow> port_answer \<Rightarrow> expiry_owner \<Rightarrow> bool \<times> expiry_owner" where
  "applied_answer P n r c =
     (case r of
        Rejected \<Rightarrow> (True, requestSeal P c)
      | Fulfilled v \<Rightarrow> applyCutResult P (ct_entry (ow_cuts c ! n)) v (ct_fromDeadline (ow_cuts c ! n)) c)"

lemma applied_answer_steps:
  assumes True: "n < length (ow_cuts c) \<and> ct_stage (ow_cuts c ! n) = CutWaiting"
  shows "steps_ok c (upd_cut n (if fst (applied_answer P n r c) then CutAwaitsSeal else CutApplied) (snd (applied_answer P n r c)))"
proof -
  let ?k = "ct_entry (ow_cuts c ! n)"
  let ?r = "case r of Rejected \<Rightarrow> (True, requestSeal P c) | Fulfilled v \<Rightarrow> applyCutResult P ?k v (ct_fromDeadline (ow_cuts c ! n)) c"
  let ?s = "if fst ?r then CutAwaitsSeal else CutApplied"
  have un: "unsettled (ow_cuts c ! n)" using True by simp
  have k: "?k < length (ow_entries c)" and adm: "xe_admittedCut (xentry c ?k) = Some (CutPromise n)" if "base {} c"
    using cut_facts [OF that _ un] True by simp_all
  have a1: "acts_on ?k c (snd ?r)" by (cases r) (simp_all add: acts_seal applyCutResult_ok)
  have adm1: "xe_admittedCut (xentry (snd ?r) ?k) = Some (CutPromise n)" if "base {} c"
    using adm [OF that] by (cases r) (simp_all add: requestSeal_admitted admitted_apply)
  have a2: "acts_on ?k c (upd_cut n ?s (snd ?r))"
  proof -
    have "acts_on ?k c (upd_cut n ?s (snd ?r))" if b: "base {} c"
      by (rule acts_trans [OF a1 acts_upd_cut [OF adm1 [OF b]]]) simp
    then show ?thesis unfolding acts_on_def by blast
  qed
  show ?thesis
    unfolding applied_answer_def
  proof (rule acts_steps [OF a2])
    assume ok: "owner_ok c"
    note b = owner_parts [OF ok]
    show k': "?k < length (ow_entries c)" by (rule k [OF b(1)])
    assume cur: "current (upd_cut n ?s (snd ?r)) ?k"
    note ok1 = acts_ok [OF a1 b k']
    have d: "dead (upd_cut n ?s (snd ?r)) = dead (snd ?r)" by (rule dead_cong) simp_all
    show "dead (upd_cut n ?s (snd ?r)) \<or> covered (upd_cut n ?s (snd ?r)) ?k"
    proof (cases "dead (snd ?r)")
      case False
      have cur1: "current (snd ?r) ?k" using cur by simp
      with False ok1(3) have curc: "current c ?k" by (simp add: effect_on_def framed_def)
      have watch_state: "watch_state c ?k = (None, Some (CutPromise n), False, Some CutWaiting)"
        by (rule waiting_core [OF ok k' curc adm [OF b(1)]]) (use True in simp)
      obtain v where v: "r = Fulfilled v" using False requestSeal_ok(3) [OF b, of P] by (cases r) auto
      have nf: "\<not> fst ?r" using False applyCutResult_ok(2) [OF b k'] v by auto
      have "in_flight_core n (watch_state (snd ?r) ?k)"
        using applyCutResult_ok(3) [OF b k' _ watch_state] owner_current [OF ok k'] False cur1 v by auto
      then have "(xe_deadline (xentry (snd ?r) ?k) = None) = xe_pendingFire (xentry (snd ?r) ?k)"
        by (auto simp: watch_state_def)
      moreover have "n < length (ow_cuts (snd ?r))"
        by (rule admitted_facts(1) [OF ok1(1) ok1(4) adm1 [OF b(1)]])
      ultimately show ?thesis
        unfolding covered_iff using core_upd_cut [OF adm1 [OF b(1)], of ?s] nf by simp
    qed (simp add: d)
  qed
qed

lemma record_answer_steps: "steps_ok c (record_answer n r c)"
proof -
  have "expiryRegistry kind (record_answer n r c) = expiryRegistry kind c" for kind
    by (cases kind) (simp_all add: record_answer_def expiryRegistry_def)
  then show ?thesis
    using owner_ok_cong [of "record_answer n r c" c] by (simp add: steps_ok_def record_answer_def drains_ok_def)
qed

lemma cut_answered_eq:
  assumes "n < length (ow_cuts c)" and "ct_stage (ow_cuts c ! n) = CutWaiting"
  shows "cut_answered P n r c =
    upd_cut n (if fst (applied_answer P n r (record_answer n r c)) then CutAwaitsSeal else CutApplied)
      (snd (applied_answer P n r (record_answer n r c)))"
  using assms by (cases r) (simp_all add: cut_answered_def applied_answer_def record_answer_def Let_def case_prod_unfold)

lemma cut_answered_steps: "steps_ok c (cut_answered P n r c)"
proof (cases "n < length (ow_cuts c) \<and> ct_stage (ow_cuts c ! n) = CutWaiting")
  case True
  then have "steps_ok (record_answer n r c) (cut_answered P n r c)"
    using applied_answer_steps [of n "record_answer n r c" P r] by (simp add: cut_answered_eq record_answer_def)
  then show ?thesis by (rule steps_trans [OF record_answer_steps])
qed (auto simp: cut_answered_def)

lemma acts_settle:
  assumes "xe_admittedCut (xentry c k) = Some (CutPromise n)"
  shows "acts_on k c (upd_xentry k (\<lambda>e. e\<lparr>xe_admittedCut := None\<rparr>) (upd_cut n (CutSettled b) c))" (is "acts_on k c ?c'")
  unfolding acts_on_def
proof (intro impI, elim conjE, intro conjI)
  assume b: "base {} c" and so: "seal_ok c" and k: "k < length (ow_entries c)"
  note n = admitted_facts [OF b k assms]
  have e: "xentry ?c' j = (if j = k then (xentry c k)\<lparr>xe_admittedCut := None\<rparr> else xentry c j)" if "j < length (ow_entries c)" for j
    using that by simp
  have sl: "slot w (xentry ?c' j) = slot w (xentry c j)" if "j < length (ow_entries c)" for j w
    using e [OF that] by (cases w) simp_all
  have st: "current ?c' j = current c j" "placed ?c' j (xentry ?c' j) = placed c j (xentry c j)" if "j < length (ow_entries c)" for j
    using e [OF that] sl [OF that] by (auto simp: placed_def)
  have "slots_ok {} ?c'" using b sl by (simp add: base_def slots_ok_def)
  moreover have "cells_ok {} ?c'" using b sl by (auto simp: base_def cells_ok_def)
  moreover have "entries_ok ?c'" using b st by (simp add: base_def entries_ok_def)
  moreover have "cuts_ok ?c'"
    unfolding cuts_ok_def
  proof (intro conjI allI impI)
    fix m assume m: "m < length (ow_cuts ?c')"
    then have "ct_entry (ow_cuts ?c' ! m) = ct_entry (ow_cuts c ! m)" by (cases "m = n") simp_all
    with m b show i: "ct_entry (ow_cuts ?c' ! m) < length (ow_entries ?c')" by (simp add: base_def cuts_ok_def)
    assume "unsettled (ow_cuts ?c' ! m)"
    with m have "m \<noteq> n" by (cases "m = n") auto
    with \<open>unsettled (ow_cuts ?c' ! m)\<close> have mn: "m \<noteq> n" "unsettled (ow_cuts c ! m)" by simp_all
    have a: "xe_admittedCut (xentry c (ct_entry (ow_cuts c ! m))) = Some (CutPromise m)"
      by (rule cut_facts(2) [OF b _ mn(2)]) (use m in simp)
    with mn assms have "ct_entry (ow_cuts c ! m) \<noteq> k" by auto
    with a mn show "xe_admittedCut (xentry ?c' (ct_entry (ow_cuts ?c' ! m))) = Some (CutPromise m)" by simp
  next
    fix j m assume j: "j < length (ow_entries ?c')" and a: "xe_admittedCut (xentry ?c' j) = Some (CutPromise m)"
    then have jk: "j \<noteq> k" and "xe_admittedCut (xentry c j) = Some (CutPromise m)" using e [of j] by (auto split: if_splits)
    with admitted_facts [OF b _ this(2)] j n
    show "m < length (ow_cuts ?c')" "ct_entry (ow_cuts ?c' ! m) = j" "unsettled (ow_cuts ?c' ! m)"
      by (auto simp: nth_list_update)
  qed
  ultimately show "base {} ?c'" by (simp add: base_def)
  have "quiet c ?c'" using k st by (simp add: quiet_def)
  then show "seal_ok ?c'" by (rule quiet_seal_ok [OF so])
  show "effect_on k c ?c'" using k n by (auto simp: effect_on_def framed_def business_def nth_list_update)
qed

lemma acts_after: "acts_on k c (after_fire P k c)" "acts_on k c (after_refresh P k c)"
proof -
  have "acts_on k c (upd_xentry k (\<lambda>e. e\<lparr>xe_pendingFire := False\<rparr>) c)" "acts_on k c (upd_xentry k (\<lambda>e. e\<lparr>xe_pendingRefresh := False\<rparr>) c)"
    by (rule acts_upd; simp add: harmless_def)+
  from acts_trans [OF this(1) acts_admitCut] acts_trans [OF this(2) refreshEntry_ok(1)]
  show "acts_on k c (after_fire P k c)" "acts_on k c (after_refresh P k c)"
    by (simp_all add: after_fire_def after_refresh_def)
qed

lemma after_fire_covers:
  assumes "base {} c" and "seal_ok c" and k: "k < length (ow_entries c)" and "current c k \<longrightarrow> isCurrent c k"
    and "xe_admittedCut (xentry c k) = None" and "(xe_deadline (xentry c k) = None) = xe_pendingFire (xentry c k)"
    and "current c k"
  shows "dead (after_fire P k c) \<or> covered (after_fire P k c) k"
proof (cases "xe_pendingFire (xentry c k)")
  case True
  let ?c1 = "upd_xentry k (\<lambda>e. e\<lparr>xe_pendingFire := False\<rparr>) c"
  have a: "acts_on k c ?c1" by (rule acts_upd) (simp add: harmless_def)
  have "isCurrent ?c1 k" using assms(4, 7) k by (simp add: isCurrent_def)
  then have "dead (admitCut P k True ?c1) \<or> covered (admitCut P k True ?c1) k"
    by (rule admitCut_covers [OF acts_ok(1, 2, 4) [OF a assms(1-3)]]) (use assms True in simp_all)
  then show ?thesis using assms(4, 7) True by (simp add: after_fire_def)
next
  case False
  with assms show ?thesis by (simp add: after_fire_def covered_def Let_def)
qed

lemma after_refresh_covers:
  assumes "base {} c" and "seal_ok c" and k: "k < length (ow_entries c)" and "covered c k"
  shows "dead (after_refresh P k c) \<or> covered (after_refresh P k c) k"
proof -
  let ?c1 = "upd_xentry k (\<lambda>e. e\<lparr>xe_pendingRefresh := False\<rparr>) c"
  have a: "acts_on k c ?c1" by (rule acts_upd) (simp add: harmless_def)
  have "watch_state ?c1 k = watch_state c k" using k by (simp add: core_upd)
  with assms(4) covered_core have "covered ?c1 k" by blast
  from refreshEntry_ok(2) [OF acts_ok(1, 2, 4) [OF a assms(1-3)] this] assms(4) show ?thesis
    by (simp add: after_refresh_def)
qed

lemma finally_cut_steps:
  assumes "n < length (ow_cuts c)" and "ct_stage (ow_cuts c ! n) \<in> {CutApplied, CutAwaitsSeal}"
  shows "steps_ok c (finally_cut P n (ct_entry (ow_cuts c ! n)) (upd_cut n (CutSettled b) c))"
proof -
  let ?k = "ct_entry (ow_cuts c ! n)"
  let ?c1 = "upd_xentry ?k (\<lambda>e. e\<lparr>xe_admittedCut := None\<rparr>) (upd_cut n (CutSettled b) c)"
  let ?c2 = "after_fire P ?k ?c1" and ?c3 = "after_refresh P ?k (after_fire P ?k ?c1)"
  have un: "unsettled (ow_cuts c ! n)" using assms(2) by auto
  have k: "?k < length (ow_entries c)" and adm: "xe_admittedCut (xentry c ?k) = Some (CutPromise n)" if "base {} c"
    using cut_facts [OF that assms(1) un] by simp_all
  have a1: "acts_on ?k c ?c1" using acts_settle adm unfolding acts_on_def by blast
  have a2: "acts_on ?k c ?c2" by (rule acts_trans [OF a1 acts_after(1)])
  have a3: "acts_on ?k c ?c3" by (rule acts_trans [OF a2 acts_after(2)])
  have s3: "steps_ok c ?c3"
  proof (rule acts_steps [OF a3])
    assume ok: "owner_ok c"
    note b = owner_parts [OF ok]
    show k': "?k < length (ow_entries c)" by (rule k [OF b(1)])
    note ok1 = acts_ok [OF a1 b k'] and ok2 = acts_ok [OF a2 b k'] and ok3 = acts_ok [OF a3 b k']
    assume cur: "current ?c3 ?k"
    show "dead ?c3 \<or> covered ?c3 ?k"
    proof (cases "dead ?c3")
      case False
      with ok3(3) cur have curc: "current c ?k" by (simp add: effect_on_def framed_def)
      with ok k' have "covered c ?k" by (simp add: owner_ok_def)
      with adm [OF b(1)] assms(2) have p: "(xe_deadline (xentry c ?k) = None) = xe_pendingFire (xentry c ?k)"
        by (auto simp: covered_def Let_def)
      have isc: "isCurrent c ?k" using curc owner_current [OF ok k'] by simp
      have "dead ?c2 \<or> covered ?c2 ?k"
        by (rule after_fire_covers [OF ok1(1, 2, 4)]) (use p curc isc k' in \<open>simp_all add: isCurrent_def\<close>)
      then show ?thesis
        using after_refresh_covers [OF ok2(1, 2, 4)] effect_dead [OF acts_ok(3) [OF acts_after(2) ok2(1, 2, 4)]] by blast
    qed simp
  qed
  show ?thesis
    unfolding steps_ok_def
  proof
    assume ok: "owner_ok c"
    have eq: "finally_cut P n ?k (upd_cut n (CutSettled b) c) =
      (if xe_state (xentry ?c3 ?k) = RetiredEntry \<and> xe_deadline (xentry ?c3 ?k) = None \<and> xe_admittedCut (xentry ?c3 ?k) = None
       then forget_entry ?k ?c3 else ?c3)"
    proof -
      have "xe_admittedCut (xentry (upd_cut n (CutSettled b) c) ?k) = Some (CutPromise n)" using adm [OF owner_parts(1) [OF ok]] by simp
      then show ?thesis unfolding finally_cut_def Let_def by (simp only: if_True simp_thms)
    qed
    have "steps_ok c (forget_entry ?k ?c3)" if "xe_state (xentry ?c3 ?k) = RetiredEntry"
      by (rule steps_trans [OF s3 forget_steps]) (simp add: that)
    with s3 ok show "owner_ok (finally_cut P n ?k (upd_cut n (CutSettled b) c))
        \<and> moves_on c (finally_cut P n ?k (upd_cut n (CutSettled b) c))"
      unfolding eq steps_ok_def by simp
  qed
qed

lemma cut_finishes_steps: "steps_ok c (cut_finishes P n c)"
proof (cases "n < length (ow_cuts c)")
  case True
  then show ?thesis
    by (cases "ct_stage (ow_cuts c ! n)"; cases "ow_seal c")
      (simp_all add: cut_finishes_def finally_cut_steps)
qed (simp add: cut_finishes_def)
section \<open>Warning attempts\<close>

lemma attempt_entry:
  assumes "owner_ok c" and "i < length (ow_attempts c)"
  shows "wa_entry (ow_attempts c ! i) < length (ow_entries c)"
  using owner_parts(1) [OF assms(1)] assms(2) by (simp add: base_def entries_ok_def)

lemma upd_attempt_steps:
  assumes "i < length (ow_attempts c)"
  shows "steps_ok c (upd_attempt i s c)"
proof (rule core_steps)
  show "acts_on (wa_entry (ow_attempts c ! i)) c (upd_attempt i s c)"
    unfolding upd_attempt_def
  proof (rule acts_attempts)
    fix a assume "a \<in> set ((ow_attempts c)[i := (ow_attempts c ! i)\<lparr>wa_stage := s\<rparr>])"
    then have "a = (ow_attempts c ! i)\<lparr>wa_stage := s\<rparr> \<or> a \<in> set (ow_attempts c)"
      using set_update_subset_insert by fastforce
    then show "wa_entry a = wa_entry (ow_attempts c ! i) \<or> wa_entry a \<in> wa_entry ` set (ow_attempts c)" by auto
  qed
qed (use assms attempt_entry in \<open>auto simp: upd_attempt_def\<close>)

lemma call_steps: "ow_accepting c \<Longrightarrow> x \<noteq> FailClosedCall \<Longrightarrow> k < length (ow_entries c) \<Longrightarrow> steps_ok c (record_call x c)"
  by (rule core_steps [OF acts_call]) simp_all

lemma emission_not_due_steps:
  assumes "wa_entry a < length (ow_entries c)"
  shows "steps_ok c (emission_not_due P a c)"
proof -
  let ?k = "wa_entry a"
  let ?c1 = "upd_xentry ?k (\<lambda>e. e\<lparr>xe_warningFired := False,
    xe_warningConsecutiveEarlyFires := xe_warningConsecutiveEarlyFires e + 1\<rparr>) c"
  have s1: "steps_ok c ?c1"
    by (rule core_steps [of ?k, OF acts_upd]) (use assms in \<open>simp_all add: harmless_def core_upd\<close>)
  have "steps_ok ?c1 (snd (armWarning P ?k (wa_jti a) (wa_expiresAtMs a) ?c1))"
  proof (rule core_steps [OF armWarning_ok(1)])
    show k: "?k < length (ow_entries ?c1)" using assms by simp
    show "dead (snd (armWarning P ?k (wa_jti a) (wa_expiresAtMs a) ?c1))
        \<or> watch_state (snd (armWarning P ?k (wa_jti a) (wa_expiresAtMs a) ?c1)) ?k = watch_state ?c1 ?k" if "owner_ok ?c1"
      by (rule armWarning_ok(3) [OF owner_parts [OF that] k])
  qed
  then show ?thesis
    unfolding emission_not_due_def Let_def using steps_trans [OF s1] seal_steps by auto
qed

lemma attempt_answered_steps: "steps_ok c (attempt_answered P i r c)"
proof (cases "i < length (ow_attempts c)")
  case i: True
  let ?a = "ow_attempts c ! i" and ?c1 = "upd_attempt i AttemptOver c"
  let ?k = "wa_entry (ow_attempts c ! i)"
  have s1: "steps_ok c ?c1" by (rule upd_attempt_steps [OF i])
  have e1: "ow_entries ?c1 = ow_entries c" "ow_accepting ?c1 = ow_accepting c" "wa_entry (ow_attempts ?c1 ! i) = ?k"
    "i < length (ow_attempts ?c1)"
    using i by (simp_all add: upd_attempt_def)
  have fenced: "isCurrent c ?k" if "\<not> attempt_superseded c ?a" using that by (auto simp: attempt_superseded_def Let_def)
  have sub: "steps_ok ?c1 (resolveStaleWarning P i ?c1)" if "isCurrent c ?k" and k: "?k < length (ow_entries c)"
  proof -
    let ?c2 = "record_call (RecheckCall ?k) ?c1"
    have s2: "steps_ok ?c1 ?c2" by (rule call_steps) (use that in \<open>simp_all add: e1 isCurrent_def\<close>)
    have "steps_ok ?c2 (upd_attempt i RecheckPending ?c2)" by (rule upd_attempt_steps) (simp add: e1)
    with s2 show ?thesis unfolding resolveStaleWarning_def Let_def e1 using steps_trans seal_steps by auto
  qed
  have seal: "steps_ok ?c1 (requestSeal P ?c1)" by (rule seal_steps)
  have ret: "steps_ok ?c1 (retire P ?k ?c1)" "steps_ok ?c1 (refreshEntry P ?k ?c1)" "steps_ok ?c1 (emission_not_due P ?a ?c1)"
    if k: "?k < length (ow_entries c)"
    by (rule retire_steps refresh_steps emission_not_due_steps; simp add: e1 k)+
  have "steps_ok ?c1 (emission_answered P i r c)" "steps_ok ?c1 (stale_recheck_answered P i r c)" if k: "?k < length (ow_entries c)"
    using seal ret [OF k] sub [OF fenced k]
    by (auto simp: emission_answered_def stale_recheck_answered_def Let_def split: port_answer.split option.split
        warning_outcome.split cut_result.split)
  with s1 have "steps_ok c (emission_answered P i r c)" "steps_ok c (stale_recheck_answered P i r c)"
    using attempt_entry [OF _ i] steps_trans unfolding steps_ok_def by blast+
  then show ?thesis using i by (simp add: attempt_answered_def split: attempt_stage.split)
qed (simp add: attempt_answered_def)

section \<open>Seals and drains\<close>

lemma seal_settles_steps: "steps_ok c (seal_settles b c)"
proof (cases "ow_seal c = SealPending")
  case True
  have "seal_settles b c = c\<lparr>ow_seal := if b then SealFulfilled else SealRejected\<rparr>" using True by (simp add: seal_settles_def)
  then show ?thesis using owner_ok_cong [of "seal_settles b c" c] True by (simp add: steps_ok_def drains_ok_def)
qed (simp add: seal_settles_def)
lemma drain_ends_steps:
  assumes "i < length (ow_drains c)"
  shows "steps_ok c (drain_ends i c)"
  unfolding steps_ok_def
proof
  assume ok: "owner_ok c"
  let ?c1 = "upd_drain i Drained c" and ?k = "dr_entry (ow_drains c ! i)"
  have s1: "steps_ok c ?c1" by (rule upd_drain_steps [OF assms])
  have "\<not> current c ?k" using ok assms by (simp add: owner_ok_def drains_ok_def)
  then have "\<not> current ?c1 ?k" by (simp add: upd_drain_def)
  from steps_trans [OF s1 forget_steps [OF this]] s1 ok
  show "owner_ok (drain_ends i c) \<and> moves_on c (drain_ends i c)" by (simp add: steps_ok_def drain_ends_def Let_def)
qed

lemma drain_continues_steps: "steps_ok c (drain_continues i c)"
proof (cases "i < length (ow_drains c)")
  case True
  note s = upd_drain_steps [OF True] drain_ends_steps [OF True]
  then have "steps_ok c (after_cut i c)" by (simp add: after_cut_def)
  with s True show ?thesis
    by (simp add: drain_continues_def split: drain_stage.split option.split admitted.split cut_stage.split seal_state.split)
qed (simp add: drain_continues_def)

lemma close_finishes_steps: "steps_ok c (close_finishes c)"
proof (cases "close_finishes c = c")
  case False
  then have eq: "close_finishes c = c\<lparr>ow_closeDrain := CloseDrained, ow_live := []\<rparr>" (is "_ = ?c'") and cl: "ow_closeDrain c \<noteq> NotClosing"
    by (auto simp: close_finishes_def split: close_state.splits if_splits)
  show ?thesis
    unfolding steps_ok_def eq
  proof (intro impI conjI)
    assume ok: "owner_ok c"
    with cl have c: "ow_closed c" "\<not> ow_accepting c" by (simp_all add: owner_ok_def)
    with ok have d: "dead c" by (auto simp: owner_ok_def dead_def)
    then have "dead ?c'" by (simp add: dead_def)
    have "entries_ok ?c'" using owner_parts(1) [OF ok] d by (simp add: base_def entries_ok_def placed_def dead_def)
    then have "base {} ?c'" using owner_parts(1) [OF ok] by (simp add: base_def slots_ok_def cells_ok_def cuts_ok_def)
    moreover have "seal_ok ?c'" using owner_parts(2) [OF ok] \<open>dead ?c'\<close> by (simp add: seal_ok_def)
    ultimately show "owner_ok ?c'"
      by (rule dead_owner_ok [OF _ _ \<open>dead ?c'\<close>]) (use ok c in \<open>simp_all add: owner_ok_def drains_ok_def\<close>)
    show "moves_on c ?c'" by (simp add: moves_on_def business_def)
  qed
qed simp

section \<open>Registering\<close>

definition enrolled :: "socket_kind \<Rightarrow> string \<Rightarrow> string \<Rightarrow> bool \<Rightarrow> expiry_owner \<Rightarrow> expiry_owner" where
  "enrolled kind i incarnation port c =
     (upd_expiryRegistry kind i (Some (length (ow_entries c))) (c\<lparr>ow_entries := ow_entries c @ [fresh_xentry kind i incarnation port]\<rparr>))
       \<lparr>ow_live := ow_live c @ [length (ow_entries c)]\<rparr>"

lemma enrolled_simps [simp]:
  "ow_entries (enrolled kind i inc port c) = ow_entries c @ [fresh_xentry kind i inc port]"
  "ow_live (enrolled kind i inc port c) = ow_live c @ [length (ow_entries c)]"
  "ow_accepting (enrolled kind i inc port c) = ow_accepting c" "ow_closed (enrolled kind i inc port c) = ow_closed c"
  "ow_seal (enrolled kind i inc port c) = ow_seal c" "ow_deadlines (enrolled kind i inc port c) = ow_deadlines c"
  "ow_cuts (enrolled kind i inc port c) = ow_cuts c" "ow_attempts (enrolled kind i inc port c) = ow_attempts c"
  "ow_calls (enrolled kind i inc port c) = ow_calls c" "ow_closeDrain (enrolled kind i inc port c) = ow_closeDrain c"
  "ow_drains (enrolled kind i inc port c) = ow_drains c"
  by (simp_all add: enrolled_def upd_expiryRegistry_def split: socket_kind.split)

lemma enrolled_registry [simp]:
  "expiryRegistry kind' (enrolled kind i inc port c) =
     (if kind' = kind then (expiryRegistry kind c)(i := Some (length (ow_entries c))) else expiryRegistry kind' c)"
  by (cases kind; cases kind') (simp_all add: enrolled_def upd_expiryRegistry_def expiryRegistry_def)

lemma fresh_slot [simp]: "slot w (fresh_xentry kind i inc port) = None"
  by (cases w) (simp_all add: fresh_xentry_def)

lemma enrolled_but:
  assumes ok: "owner_ok c" and acc: "ow_accepting c"
    and free: "\<And>j. j < length (ow_entries c) \<Longrightarrow> current c j \<Longrightarrow> xe_kind (xentry c j) = kind \<Longrightarrow> xe_connectionId (xentry c j) \<noteq> i"
  shows "owner_but (length (ow_entries c)) (enrolled kind i inc port c)" (is "owner_but ?k ?c'")
proof -
  note b = owner_parts [OF ok]
  have old: "xentry ?c' j = xentry c j" if "j < ?k" for j using that by (simp add: nth_append)
  have new: "xentry ?c' ?k = fresh_xentry kind i inc port" by simp
  have lt: "j < length (ow_entries ?c') \<longleftrightarrow> j < ?k \<or> j = ?k" for j by auto
  have "slots_ok {} ?c'"
    using b(1) unfolding slots_ok_def lt by (auto simp: base_def slots_ok_def nth_append split: if_splits)
  moreover have "cells_ok {} ?c'"
    unfolding cells_ok_def
  proof (intro allI impI)
    fix d assume "d < length (ow_deadlines ?c')"
    then have d: "d < length (ow_deadlines c)" by simp
    with b(1) have *: "dc_cancel (cell c d) = dc_armed (cell c d)" "dc_armed (cell c d) \<Longrightarrow> dc_entry (cell c d) < ?k
      \<and> slot (dc_warning (cell c d)) (xentry c (dc_entry (cell c d))) = Some d" by (simp_all add: base_def cells_ok_def)
    then show "dc_cancel (cell ?c' d) = dc_armed (cell ?c' d) \<and> (dc_armed (cell ?c' d) \<longrightarrow> d \<in> {} \<or>
      dc_entry (cell ?c' d) < length (ow_entries ?c') \<and> slot (dc_warning (cell ?c' d)) (xentry ?c' (dc_entry (cell ?c' d))) = Some d)"
      by (auto simp: old nth_append)
  qed
  moreover have "cuts_ok ?c'"
  proof -
    from b(1) have c: "cuts_ok c" by (simp add: base_def)
    have "xe_admittedCut (xentry ?c' ?k) = None" unfolding new by (simp add: fresh_xentry_def)
    show ?thesis
      unfolding cuts_ok_def
    proof (intro conjI allI impI)
      fix n assume "n < length (ow_cuts ?c')"
      then have n: "n < length (ow_cuts c)" by simp
      with c have lt': "ct_entry (ow_cuts c ! n) < ?k" by (simp add: cuts_ok_def)
      then show "ct_entry (ow_cuts ?c' ! n) < length (ow_entries ?c')" by simp
      assume "unsettled (ow_cuts ?c' ! n)"
      with c n have "xe_admittedCut (xentry c (ct_entry (ow_cuts c ! n))) = Some (CutPromise n)" by (simp add: cuts_ok_def)
      then show "xe_admittedCut (xentry ?c' (ct_entry (ow_cuts ?c' ! n))) = Some (CutPromise n)" using old [OF lt'] by simp
    next
      fix j n assume j: "j < length (ow_entries ?c')" and a: "xe_admittedCut (xentry ?c' j) = Some (CutPromise n)"
      have "j \<noteq> ?k" using a \<open>xe_admittedCut (xentry ?c' ?k) = None\<close> by auto
      with j have j: "j < ?k" by simp
      with a have "xe_admittedCut (xentry c j) = Some (CutPromise n)" using old [OF j] by simp
      from admitted_facts [OF b(1) j this]
      show "n < length (ow_cuts ?c')" "ct_entry (ow_cuts ?c' ! n) = j" "unsettled (ow_cuts ?c' ! n)" by simp_all
    qed
  qed
  moreover have "entries_ok ?c'"
    unfolding entries_ok_def
  proof (intro conjI allI impI)
    fix j assume "j < length (ow_entries ?c')"
    then consider "j < ?k" | "j = ?k" unfolding lt by blast
    then show "placed ?c' j (xentry ?c' j)"
    proof cases
      case 1
      with b(1) have "placed c j (xentry c j)" by (simp add: base_def entries_ok_def)
      with 1 free [OF 1] show ?thesis unfolding old [OF 1] by (auto simp: placed_def split: if_splits)
    next
      case 2
      show ?thesis unfolding 2 new by (simp add: placed_def fresh_xentry_def)
    qed
  next
    fix kind' i' j assume "expiryRegistry kind' ?c' i' = Some j"
    with b(1) show "j < length (ow_entries ?c')"
      by (auto simp: base_def entries_ok_def less_Suc_eq split: if_splits)
  qed (use b(1) in \<open>auto simp: base_def entries_ok_def less_Suc_eq\<close>)
  ultimately have "base {} ?c'" by (simp add: base_def)
  moreover have "seal_ok ?c'" using b(2) acc by (auto simp: seal_ok_def dead_def)
  moreover have "covered ?c' j = covered c j" if "j < ?k" for j
    by (rule covered_core) (simp add: watch_state_def nth_append that)
  moreover have "drains_ok ?c'" using ok by (auto simp: owner_ok_def drains_ok_def nth_append)
  ultimately show ?thesis using ok acc unfolding owner_but_def lt by (auto simp: owner_ok_def nth_append)
qed
lemma register_steps: "steps_ok c (snd (register P kind i inc port c))"
proof -
  let ?c1 = "case expiryRegistry kind c i of None \<Rightarrow> c | Some previous \<Rightarrow> retire P previous c"
  let ?k = "length (ow_entries ?c1)" and ?c2 = "enrolled kind i inc port ?c1"
  consider "snd (register P kind i inc port c) = c" | "snd (register P kind i inc port c) = ?c1"
    | "ow_accepting ?c1" "snd (register P kind i inc port c) = admitCut P ?k False ?c2"
  proof -
    have "snd (register P kind i inc port c) =
      (if \<not> ow_accepting c \<or> ow_closed c \<or> \<not> isRelayV2AuthIdentifier (Some (JStr i)) \<or> \<not> isRelayV2AuthIdentifier (Some (JStr inc)) then c
       else if \<not> ow_accepting ?c1 then ?c1 else admitCut P ?k False ?c2)"
      unfolding register_def enrolled_def Let_def by (simp only: if_distrib [of snd] prod.sel)
    then show thesis using that by presburger
  qed
  note cases = this
  have "owner_ok ?c1 \<and> moves_on c ?c1 \<and> (ow_accepting ?c1 \<longrightarrow>
      (\<forall>j < length (ow_entries ?c1). current ?c1 j \<longrightarrow> xe_kind (xentry ?c1 j) = kind \<longrightarrow> xe_connectionId (xentry ?c1 j) \<noteq> i))"
    if ok: "owner_ok c"
  proof (cases "expiryRegistry kind c i")
    case None
    have "xe_connectionId (xentry c j) \<noteq> i"
      if "j < length (ow_entries c)" "current c j" "xe_kind (xentry c j) = kind" for j
      using that None owner_parts(1) [OF ok] by (auto simp: base_def entries_ok_def placed_def split: if_splits)
    with None ok show ?thesis by simp
  next
    case (Some p)
    have p: "p < length (ow_entries c)" using owner_parts(1) [OF ok] Some by (simp add: base_def entries_ok_def)
    note r = retire_ok [OF owner_parts [OF ok] p, of P]
    have "xe_connectionId (xentry (retire P p c) j) \<noteq> i"
      if acc: "ow_accepting (retire P p c)" and j: "j < length (ow_entries (retire P p c))" and cur: "current (retire P p c) j"
        and kind: "xe_kind (xentry (retire P p c) j) = kind" for j
    proof
      assume i: "xe_connectionId (xentry (retire P p c) j) = i"
      have jp: "j \<noteq> p" using cur r(4) by auto
      have "framed p c (retire P p c)" and len: "length (ow_entries (retire P p c)) = length (ow_entries c)"
        using r(3) acc by (auto simp: effect_on_def dead_def)
      with jp have "xentry (retire P p c) j = xentry c j" by (simp add: framed_def)
      with i kind cur j len owner_parts(1) [OF ok] have "expiryRegistry kind c i = Some j"
        by (auto simp: base_def entries_ok_def placed_def split: if_splits)
      with Some jp show False by simp
    qed
    with retire_steps [OF p, of P] ok Some show ?thesis by (simp add: steps_ok_def)
  qed
  note c1 = this
  show ?thesis
    unfolding steps_ok_def
  proof
    assume ok: "owner_ok c"
    note c1 = c1 [OF ok]
    show "owner_ok (snd (register P kind i inc port c)) \<and> moves_on c (snd (register P kind i inc port c))"
      using cases
    proof cases
      case 3
      have but: "owner_but ?k ?c2" by (rule enrolled_but) (use c1 3 in auto)
      have k: "?k < length (ow_entries ?c2)" by simp
      have bs: "base {} ?c2" "seal_ok ?c2" using but by (simp_all add: owner_but_def)
      have cl: "\<not> ow_closed ?c1" using c1 3 by (auto simp: owner_ok_def)
      have "isCurrent ?c2 ?k" using 3 cl by (simp add: isCurrent_def fresh_xentry_def)
      then have "dead (admitCut P ?k False ?c2) \<or> covered (admitCut P ?k False ?c2) ?k"
        by (rule admitCut_covers [OF bs k]) (simp_all add: fresh_xentry_def)
      then have "owner_ok (admitCut P ?k False ?c2)" by (intro acts_owner_ok [OF but k acts_admitCut])
      moreover have "moves_on ?c2 (admitCut P ?k False ?c2)" by (rule effect_onward [OF acts_ok(3) [OF acts_admitCut bs k]])
      then have "moves_on c (admitCut P ?k False ?c2)"
        using c1 3 by (intro moves_on_trans [OF _ \<open>moves_on ?c2 _\<close>]) (auto simp: moves_on_def)
      ultimately show ?thesis using 3 by simp
    qed (use c1 ok in simp_all)
  qed
qed

section \<open>Closing\<close>

lemma retire_each:
  assumes "base {} c" and "seal_ok c" and "\<not> ow_accepting c" and "set ks \<subseteq> {..<length (ow_entries c)}"
  shows "base {} (fold (retire P) ks c) \<and> seal_ok (fold (retire P) ks c) \<and> \<not> ow_accepting (fold (retire P) ks c)
    \<and> length (ow_entries (fold (retire P) ks c)) = length (ow_entries c) \<and> ow_closed (fold (retire P) ks c) = ow_closed c
    \<and> ow_drains (fold (retire P) ks c) = ow_drains c \<and> business (fold (retire P) ks c) = business c
    \<and> (\<forall>k < length (ow_entries c). current (fold (retire P) ks c) k \<longrightarrow> current c k \<and> k \<notin> set ks)"
  using assms
proof (induction ks arbitrary: c)
  case (Cons k ks)
  let ?c1 = "retire P k c"
  from Cons.prems have k: "k < length (ow_entries c)" by simp
  note r = retire_ok [OF Cons.prems(1, 2) k, of P]
  have e: "length (ow_entries ?c1) = length (ow_entries c)" "ow_closed ?c1 = ow_closed c" "ow_drains ?c1 = ow_drains c"
    "business ?c1 = business c" "\<not> ow_accepting ?c1"
    using r(3) Cons.prems(3) by (auto simp: effect_on_def dead_def framed_def)
  have sub: "current c j" if "j < length (ow_entries c)" "current ?c1 j" for j
    using r(3) e(1) that by (cases "j = k") (auto simp: effect_on_def dead_def framed_def)
  have "set ks \<subseteq> {..<length (ow_entries ?c1)}" using Cons.prems(4) e(1) by simp
  from Cons.IH [OF r(1, 2) e(5) this] e sub r(4) show ?case by auto
qed simp

lemma dead_cleared:
  assumes "base {} z" and "dead z"
  shows "base {} (z\<lparr>ow_clients := Map.empty, ow_hosts := Map.empty, ow_drains := ds, ow_closeDrain := s\<rparr>)" (is "base {} ?z")
proof -
  have reg: "expiryRegistry kind ?z = Map.empty" for kind by (simp add: expiryRegistry_def split: socket_kind.split)
  have "placed ?z k (xentry ?z k)" if k: "k < length (ow_entries z)" for k
  proof -
    have "\<not> current z k" using assms(2) k by (simp add: dead_def)
    moreover have "placed z k (xentry z k)" using assms(1) k by (simp add: base_def entries_ok_def)
    ultimately show ?thesis by (simp add: placed_def)
  qed
  then have "entries_ok ?z" using assms(1) reg by (simp add: base_def entries_ok_def)
  then show ?thesis using assms(1) by (simp add: base_def slots_ok_def cells_ok_def cuts_ok_def)
qed

lemma close_steps: "steps_ok c (close P c)"
proof (cases "ow_closeDrain c = NotClosing")
  case True
  let ?c0 = "c\<lparr>ow_accepting := False, ow_closed := True\<rparr>"
  let ?c1 = "fold (retire P) (ow_live c) ?c0"
  let ?c2 = "?c1\<lparr>ow_clients := Map.empty, ow_hosts := Map.empty\<rparr>"
  let ?c3 = "fold (begin_drain False) (ow_live c) ?c2"
  let ?c4 = "?c3\<lparr>ow_closeDrain := Closing [length (ow_drains ?c1)..<length (ow_drains ?c3)]\<rparr>"
  have eq: "close P c = ?c4" using True by (simp add: close_def Let_def)
  show ?thesis
    unfolding steps_ok_def eq
  proof (intro impI)
    assume ok: "owner_ok c"
    note b = owner_parts [OF ok]
    have b0: "base {} ?c0" using b(1) base_cong [of ?c0 c] by simp
    have s0: "seal_ok ?c0" using b(2) by (auto simp: seal_ok_def dead_def)
    have live: "set (ow_live c) \<subseteq> {..<length (ow_entries ?c0)}" using b(1) by (auto simp: base_def entries_ok_def)
    note r = retire_each [OF b0 s0 _ live, of P, simplified]
    have d1: "dead ?c1"
    proof -
      have "\<not> current ?c1 k" if k: "k < length (ow_entries c)" for k
      proof
        assume "current ?c1 k"
        then have "current c k" "k \<notin> set (ow_live c)" using r k by auto
        with b(1) k show False by (simp add: base_def entries_ok_def placed_def split: if_splits)
      qed
      with r show ?thesis by (simp add: dead_def)
    qed
    have d3: "\<exists>x. fold (begin_drain False) ks z = z\<lparr>ow_drains := ow_drains z @ x\<rparr> \<and> dr_entry ` set x = set ks" for ks z
    proof (induction ks arbitrary: z)
      case (Cons k ks)
      let ?y = "\<lparr>dr_entry = k, dr_deletes = False, dr_stage = AwaitsCut (xe_admittedCut (xentry z k))\<rparr>"
      have z: "begin_drain False k z = z\<lparr>ow_drains := ow_drains z @ [?y]\<rparr>" by (simp add: begin_drain_def)
      obtain x where "fold (begin_drain False) ks (begin_drain False k z) =
          (begin_drain False k z)\<lparr>ow_drains := ow_drains (begin_drain False k z) @ x\<rparr>" "dr_entry ` set x = set ks"
        using Cons.IH by blast
      then show ?case by (intro exI [of _ "?y # x"]) (simp add: z)
    qed (auto intro!: exI [of _ "[]"])
    then obtain x where x: "?c3 = ?c2\<lparr>ow_drains := ow_drains ?c2 @ x\<rparr>" "dr_entry ` set x = set (ow_live c)" by blast
    have "base {} ?c4" unfolding x(1) using dead_cleared [OF _ d1] r by simp
    moreover have d4: "dead ?c4" using d1 unfolding x(1) by (simp add: dead_def)
    moreover have "seal_ok ?c4" using r d4 unfolding x(1) by (simp add: seal_ok_def)
    moreover have "ow_closed ?c4" using r unfolding x(1) by simp
    moreover have "dr_entry y < length (ow_entries ?c4)" if "y \<in> set (ow_drains ?c4)" for y
    proof -
      have "dr_entry y \<in> dr_entry ` set (ow_drains c) \<union> set (ow_live c)" using that r x(2) unfolding x(1) by auto
      then show ?thesis using r live ok unfolding x(1) by (auto simp: owner_ok_def drains_ok_def)
    qed
    ultimately have "owner_ok ?c4" by (intro dead_owner_ok) simp_all
    moreover have "business ?c4 = business ?c1" unfolding x(1) by (simp add: business_def)
    then have "moves_on c ?c4" using d4 r by (simp add: moves_on_def dead_def business_def)
    ultimately show "owner_ok ?c4 \<and> moves_on c ?c4" by simp
  qed
qed (simp add: close_def)

section \<open>Runs\<close>

lemma step_steps: "expiry_step P c c' \<Longrightarrow> steps_ok c c'"
proof (induction rule: expiry_step.induct)
  case (registers kind i incarnation port c k c')
  with register_steps [of c P kind i incarnation port] show ?case by simp
qed (simp_all add: unregister_steps refresh_steps close_steps timer_callback_steps cut_answered_steps cut_finishes_steps
    attempt_answered_steps seal_settles_steps drain_continues_steps close_finishes_steps)

lemma run_steps: "expiry_run P c c' \<Longrightarrow> steps_ok c c'"
  by (induction rule: rtranclp_induct) (auto intro: steps_trans dest: step_steps)

lemma new_owner_ok: "owner_ok new_expiry_owner"
  by (simp add: owner_ok_def base_def slots_ok_def cells_ok_def cuts_ok_def entries_ok_def seal_ok_def drains_ok_def
      new_expiry_owner_def expiryRegistry_def split: socket_kind.split)

lemma reachable_ok: "expiry_run P new_expiry_owner c \<Longrightarrow> owner_ok c"
  using run_steps new_owner_ok by (auto simp: steps_ok_def)
section \<open>Properties\<close>

lemma seal_called:
  assumes "seal_ok c"
  shows "FailClosedCall \<in> set (ow_calls (requestSeal P c))"
proof (cases "ow_seal c = NotSealed")
  case False
  with assms have "count_list (ow_calls c) FailClosedCall \<noteq> 0" by (simp add: seal_ok_def)
  with False show ?thesis by (auto simp: requestSeal_def count_list_0_iff)
qed (simp add: requestSeal_def Let_def)

lemma admitCut_calls:
  assumes "isCurrent c k" and "xe_admittedCut (xentry c k) = None" and "base {} c" and "seal_ok c" and "k < length (ow_entries c)"
  shows "FailClosedCall \<in> set (ow_calls (admitCut P k b c)) \<or> ow_calls (admitCut P k b c) = ow_calls c @ [RecheckCall k]"
proof -
  have a: "acts_on k c (record_call (RecheckCall k) c)" using assms(1) by (intro acts_call) (simp_all add: isCurrent_def)
  have "FailClosedCall \<in> set (ow_calls (requestSeal P (record_call (RecheckCall k) c)))"
    by (rule seal_called) (rule acts_ok(2) [OF a assms(3-5)])
  with assms(1, 2) show ?thesis by (simp add: admitCut_def Let_def)
qed

lemma deadline_callback:
  assumes ok: "owner_ok c" and k: "k < length (ow_entries c)" and cur: "isCurrent c k" and d: "xe_deadline (xentry c k) = Some d"
  shows "FailClosedCall \<in> set (ow_calls (timer_callback P d c))
    \<or> (if xe_admittedCut (xentry c k) = None then ow_calls (timer_callback P d c) = ow_calls c @ [RecheckCall k]
       else xe_pendingFire (xentry (timer_callback P d c) k))"
proof -
  note b = owner_parts [OF ok]
  have s: "dc_entry (cell c d) = k" "\<not> dc_warning (cell c d)" "dc_armed (cell c d)"
    using slotsD(2-4) [of "{}" c k False d] b(1) k d by (simp_all add: base_def)
  let ?c1 = "upd_cell d cancelled_cell (upd_xentry k (\<lambda>e. e\<lparr>xe_deadline := None\<rparr>) c)"
  have eq: "timer_callback P d c = (if dc_cancel (cell c d) \<and> ep_cancelThrows P d then requestSeal P ?c1
      else if xe_admittedCut (xentry c k) \<noteq> None then upd_xentry k (\<lambda>e. e\<lparr>xe_pendingFire := True\<rparr>) ?c1 else admitCut P k True ?c1)"
    using s cur d k by (simp add: timer_callback_def deadlineFired_def call_receipt_def)
  note ok1 = acts_ok [OF acts_fired [OF d] b k]
  have cur1: "isCurrent ?c1 k" using cur k by (simp add: isCurrent_def)
  have "FailClosedCall \<in> set (ow_calls (requestSeal P ?c1))" by (rule seal_called [OF ok1(2)])
  moreover have "FailClosedCall \<in> set (ow_calls (admitCut P k True ?c1)) \<or> ow_calls (admitCut P k True ?c1) = ow_calls c @ [RecheckCall k]"
    if "xe_admittedCut (xentry c k) = None"
    using admitCut_calls [OF cur1 _ ok1(1, 2, 4), of P True] that k by simp
  moreover have "xe_pendingFire (xentry (upd_xentry k (\<lambda>e. e\<lparr>xe_pendingFire := True\<rparr>) ?c1) k)" using k by simp
  ultimately show ?thesis unfolding eq by (cases "xe_admittedCut (xentry c k) = None") (simp_all only: if_True if_False simp_thms split: if_split)
qed

lemma after_refresh_calls:
  assumes "xe_admittedCut (xentry c k) \<noteq> None"
  shows "ow_calls (after_refresh P k c) = ow_calls c"
proof -
  let ?c1 = "upd_xentry k (\<lambda>e. e\<lparr>xe_pendingRefresh := False\<rparr>) c"
  let ?c2 = "upd_xentry k (\<lambda>e. e\<lparr>xe_warningAttemptGeneration := xe_warningAttemptGeneration e + 1\<rparr>) ?c1"
  have "xe_admittedCut (xentry ?c2 k) = xe_admittedCut (xentry ?c1 k)" by (rule admitted_upd) simp
  also have "\<dots> = xe_admittedCut (xentry c k)" by (rule admitted_upd) simp
  finally have "xe_admittedCut (xentry ?c2 k) \<noteq> None" using assms by simp
  then have "ow_calls (refreshEntry P k ?c1) = ow_calls ?c1" unfolding refreshEntry_def Let_def by (simp only: if_True split: if_split) simp
  then show ?thesis by (simp add: after_refresh_def)
qed

lemma finishing_cut:
  assumes ok: "owner_ok c" and k: "k < length (ow_entries c)" and cur: "isCurrent c k"
    and n: "xe_admittedCut (xentry c k) = Some (CutPromise n)" and st: "ct_stage (ow_cuts c ! n) = CutApplied"
    and p: "xe_pendingFire (xentry c k)"
  shows "FailClosedCall \<in> set (ow_calls (cut_finishes P n c)) \<or> ow_calls (cut_finishes P n c) = ow_calls c @ [RecheckCall k]"
proof -
  note b = owner_parts [OF ok] and f = admitted_facts [OF owner_parts(1) [OF ok] k n]
  let ?c1 = "upd_xentry k (\<lambda>e. e\<lparr>xe_admittedCut := None\<rparr>) (upd_cut n (CutSettled True) c)"
  let ?c2 = "upd_xentry k (\<lambda>e. e\<lparr>xe_pendingFire := False\<rparr>) ?c1"
  let ?c3 = "admitCut P k True ?c2"
  let ?c4 = "after_refresh P k ?c3"
  have a1: "acts_on k c ?c1" by (rule acts_settle [OF n])
  have a2: "acts_on k c ?c2" by (rule acts_trans [OF a1 acts_upd]) (simp add: harmless_def)
  note ok2 = acts_ok [OF a2 b k]
  have cur2: "isCurrent ?c2 k" using cur k by (simp add: isCurrent_def)
  have c3: "FailClosedCall \<in> set (ow_calls ?c3) \<or> ow_calls ?c3 = ow_calls c @ [RecheckCall k]"
    using admitCut_calls [OF cur2 _ ok2(1, 2, 4), of P True] k by simp
  have "acts_on k ?c2 (record_call (RecheckCall k) ?c2)" using cur2 by (intro acts_call) (simp_all add: isCurrent_def)
  from acts_ok(4) [OF acts_trans [OF this acts_seal] ok2(1, 2, 4)]
  have "k < length (ow_entries (requestSeal P (record_call (RecheckCall k) ?c2)))" .
  then have adm: "xe_admittedCut (xentry ?c3 k) \<noteq> None" using cur2 k by (simp add: admitCut_def Let_def requestSeal_admitted)
  have calls: "ow_calls ?c4 = ow_calls ?c3" by (rule after_refresh_calls [OF adm])
  have af: "after_fire P k ?c1 = ?c3" using cur k p by (simp add: after_fire_def isCurrent_def)
  have "cut_finishes P n c = finally_cut P n k (upd_cut n (CutSettled True) c)"
    using f st by (simp add: cut_finishes_def)
  also have "\<dots> = (if xe_state (xentry ?c4 k) = RetiredEntry \<and> xe_deadline (xentry ?c4 k) = None \<and> xe_admittedCut (xentry ?c4 k) = None
      then forget_entry k ?c4 else ?c4)"
  proof -
    have "xe_admittedCut (xentry (upd_cut n (CutSettled True) c) k) = Some (CutPromise n)" using n by simp
    then show ?thesis unfolding finally_cut_def Let_def by (simp only: if_True simp_thms af)
  qed
  finally have "ow_calls (cut_finishes P n c) = ow_calls ?c4" by (simp add: forget_entry_def)
  with calls c3 show ?thesis by simp
qed

text \<open>
  C11. The owner fails closed once and for all. In every state it can reach, the broker has been told to fail
  closed at most once, and only an owner that accepts nothing has told it; an owner that accepts nothing,
  sealed or closed, has retired every entry, no timer of it is armed, and whatever happens later, it
  asks the broker core nothing and warns nobody any more.
\<close>

theorem sealed_owner_is_silent:
  assumes "expiry_run P new_expiry_owner c"
  shows "count_list (ow_calls c) FailClosedCall \<le> 1
     \<and> (FailClosedCall \<in> set (ow_calls c) \<longrightarrow> \<not> ow_accepting c)
     \<and> (\<not> ow_accepting c \<longrightarrow>
          (\<forall>k < length (ow_entries c). xe_state (xentry c k) = RetiredEntry)
          \<and> (\<forall>d < length (ow_deadlines c). \<not> dc_armed (cell c d))
          \<and> (\<forall>c'. expiry_run P c c' \<longrightarrow> \<not> ow_accepting c'
               \<and> filter (\<lambda>x. x \<noteq> FailClosedCall) (ow_calls c') = filter (\<lambda>x. x \<noteq> FailClosedCall) (ow_calls c)))"
proof (intro conjI impI allI)
  have ok: "owner_ok c" by (rule reachable_ok [OF assms])
  note b = owner_parts [OF ok]
  show "count_list (ow_calls c) FailClosedCall \<le> 1" using b(2) by (simp add: seal_ok_def)
  show "\<not> ow_accepting c" if "FailClosedCall \<in> set (ow_calls c)"
  proof -
    have "count_list (ow_calls c) FailClosedCall \<noteq> 0" using that by (simp add: count_list_0_iff)
    with b(2) show ?thesis by (auto simp: seal_ok_def dead_def)
  qed
  assume acc: "\<not> ow_accepting c"
  have ret: "\<not> current c k" if "k < length (ow_entries c)" for k using ok acc that by (auto simp: owner_ok_def)
  show "xe_state (xentry c k) = RetiredEntry" if "k < length (ow_entries c)" for k
    using ret [OF that] by (cases "xe_state (xentry c k)") simp_all
  show "\<not> dc_armed (cell c d)" if d: "d < length (ow_deadlines c)" for d
  proof
    assume "dc_armed (cell c d)"
    with b(1) d have k: "dc_entry (cell c d) < length (ow_entries c)"
      and s: "slot (dc_warning (cell c d)) (xentry c (dc_entry (cell c d))) = Some d" by (simp_all add: base_def cells_ok_def)
    from ret [OF k] b(1) k have "slot w (xentry c (dc_entry (cell c d))) = None" for w
      by (simp add: base_def entries_ok_def placed_def)
    with s show False by simp
  qed
  fix c' assume "expiry_run P c c'"
  with run_steps ok have "moves_on c c'" by (simp add: steps_ok_def)
  with acc show "\<not> ow_accepting c'"
    "filter (\<lambda>x. x \<noteq> FailClosedCall) (ow_calls c') = filter (\<lambda>x. x \<noteq> FailClosedCall) (ow_calls c)"
    by (auto simp: moves_on_def business_def)
qed

text \<open>
  An expiry deadline that fires early is tolerated once, but not by an entry that also waits for its
  warning: re-arming finds the pending warning deadline and seals the whole owner.
\<close>

lemma early_fire_with_pending_warning_seals:
  assumes "isCurrent c k" and "k < length (ow_entries c)" and "parseCutResult v = Some (ActiveCut jti x)"
    and "xe_deadline (xentry c k) = None" and "xe_consecutiveEarlyFires (xentry c k) = 0"
    and "xe_warningPort (xentry c k)" and "\<not> xe_warningFired (xentry c k)" and "xe_warningDeadline (xentry c k) \<noteq> None"
    and "xe_warningJti (xentry c k) = Some jti" and "xe_warningExpiresAtMs (xentry c k) = Some x"
    and "ep_schedule P (length (ow_deadlines c)) = Scheduled False"
  shows "\<exists>c'. applyCutResult P k v True c = (True, requestSeal P c')"
  using assms
  by (simp add: applyCutResult_def arm_def armWarning_def schedule_cell_eq adopt_credential_def scheduled_def with_slot_def
      isCurrent_def MAX_CONSECUTIVE_EARLY_FIRES_def Let_def) blast

end
