(* ===== verification/RV2_ExpiryTimes.thy ===== *)
theory RV2_ExpiryTimes
  imports RV2_ExpiryRuns
begin

text \<open>
  The times of the expiry deadlines. A deadline that watches a connection was scheduled for the expiry
  that the latest recheck of this connection reported: only \<open>arm\<close> puts a deadline into the slot of an
  entry, and every other operation leaves the slots and the times alone or empties a slot. Operations are
  composed by the relation \<open>timed\<close>.
\<close>

section \<open>Where deadlines come from\<close>

text \<open>
  The deadlines of the entries in \<open>c'\<close> are those of \<open>c\<close>, or they are at a time that \<open>A\<close> allows; the times of
  the old deadlines and the answers stay.
\<close>

definition timed :: "(nat \<Rightarrow> int \<Rightarrow> bool) \<Rightarrow> expiry_owner \<Rightarrow> expiry_owner \<Rightarrow> bool" where
  "timed A c c' \<longleftrightarrow>
     ow_answers c' = ow_answers c \<and> length (ow_deadlines c) \<le> length (ow_deadlines c')
     \<and> (\<forall>d < length (ow_deadlines c). dc_at (cell c' d) = dc_at (cell c d))
     \<and> (\<forall>k < length (ow_entries c'). \<forall>d. xe_deadline (xentry c' k) = Some d \<longrightarrow>
          k < length (ow_entries c) \<and> xe_deadline (xentry c k) = Some d
          \<or> d < length (ow_deadlines c') \<and> A k (dc_at (cell c' d)))"

abbreviation calm :: "expiry_owner \<Rightarrow> expiry_owner \<Rightarrow> bool" where
  "calm \<equiv> timed (\<lambda>k t. False)"

lemma timed_refl [simp]: "timed A c c"
  by (simp add: timed_def)

lemma timed_trans:
  assumes ab: "timed A a b" and bc: "timed A b c"
  shows "timed A a c"
proof -
  have at: "dc_at (cell c d) = dc_at (cell b d)" if "d < length (ow_deadlines b)" for d
    using bc that by (simp add: timed_def)
  have len: "length (ow_deadlines b) \<le> length (ow_deadlines c)" using bc by (simp add: timed_def)
  have "k < length (ow_entries a) \<and> xe_deadline (xentry a k) = Some d \<or> d < length (ow_deadlines c) \<and> A k (dc_at (cell c d))"
    if k: "k < length (ow_entries c)" and d: "xe_deadline (xentry c k) = Some d" for k d
  proof (cases "d < length (ow_deadlines c) \<and> A k (dc_at (cell c d))")
    case False
    with bc k d have "k < length (ow_entries b)" "xe_deadline (xentry b k) = Some d" by (auto simp: timed_def)
    with ab have "k < length (ow_entries a) \<and> xe_deadline (xentry a k) = Some d
        \<or> d < length (ow_deadlines b) \<and> A k (dc_at (cell b d))" by (simp add: timed_def)
    with at len show ?thesis by auto
  qed simp
  with ab bc at show ?thesis by (simp add: timed_def)
qed

lemma calm_timed: "calm c c' \<Longrightarrow> timed A c c'"
  by (simp add: timed_def)

lemma timed_calm: "timed A a b \<Longrightarrow> calm b c \<Longrightarrow> timed A a c"
  by (rule timed_trans [OF _ calm_timed])

lemma calm_same:
  "ow_answers c' = ow_answers c \<Longrightarrow> ow_deadlines c' = ow_deadlines c \<Longrightarrow> ow_entries c' = ow_entries c \<Longrightarrow> calm c c'"
  by (simp add: timed_def)

lemma answers_simps [simp]:
  "ow_answers (upd_xentry k f c) = ow_answers c" "ow_answers (upd_cell d g c) = ow_answers c"
  "ow_answers (record_call x c) = ow_answers c" "ow_answers (deregister k c) = ow_answers c"
  "ow_answers (upd_cut n s c) = ow_answers c" "ow_answers (enrolled kind i inc port c) = ow_answers c"
  by (simp_all add: upd_xentry_def upd_cell_def record_call_def deregister_def upd_expiryRegistry_def upd_cut_def
      enrolled_def Let_def split: socket_kind.split)

lemma calm_upd:
  assumes "xe_deadline (f (xentry c k)) \<in> {xe_deadline (xentry c k), None}"
  shows "calm c (upd_xentry k f c)"
  using assms by (cases "k < length (ow_entries c)") (auto simp: timed_def nth_list_update list_update_beyond split: if_splits)

lemma calm_cell: "(\<And>x. dc_at (f x) = dc_at x) \<Longrightarrow> calm c (upd_cell d f c)"
  by (cases "d < length (ow_deadlines c)") (auto simp: timed_def nth_list_update list_update_beyond)

lemma calm_call [simp]: "calm c (record_call x c)" and calm_deregister [simp]: "calm c (deregister k c)"
  and calm_cut [simp]: "calm c (upd_cut n s c)" and calm_attempt [simp]: "calm c (upd_attempt i st c)"
  and calm_drain [simp]: "calm c (upd_drain i dst c)" and calm_begin [simp]: "calm c (begin_drain b k c)"
  and calm_forget [simp]: "calm c (forget_entry k c)"
  by (rule calm_same; simp add: upd_attempt_def upd_drain_def begin_drain_def forget_entry_def)+

lemma calm_fold: "(\<And>x c. calm c (f x c)) \<Longrightarrow> calm c (fold f xs c)"
  by (induction xs arbitrary: c) (auto intro: timed_trans)

section \<open>Operations that arm nothing\<close>

lemma calm_cancel_with:
  assumes "\<And>c. calm c (seal c)"
  shows "calm c (cancel_with seal P k c)"
proof -
  have cell: "calm c (upd_cell d cancelled_cell c)" for d c by (rule calm_cell) (simp add: cancelled_cell_def)
  then have "calm c (cancel_deadline seal P d c)" for d c
    using timed_trans [OF cell assms] by (simp add: cancel_deadline_def call_receipt_def)
  then have "calm c (fold (cancel_deadline seal P) ds c)" for ds c by (rule calm_fold)
  moreover have "calm c (upd_xentry k without_deadlines c)" by (rule calm_upd) simp
  ultimately show ?thesis unfolding cancel_with_def by (blast intro: timed_trans)
qed

lemma calm_retire_with:
  assumes "\<And>c. calm c (seal c)"
  shows "calm c (retire_with seal P k c)"
proof -
  have "calm c (upd_xentry k retired c)" by (rule calm_upd) (simp add: retired_def)
  from timed_trans [OF timed_trans [OF this calm_deregister] calm_cancel_with [OF assms]]
  show ?thesis by (simp add: retire_with_def)
qed

lemma calm_seal [simp]: "calm c (requestSeal P c)"
proof -
  let ?c1 = "c\<lparr>ow_seal := SealPending, ow_accepting := False\<rparr>"
  let ?c2 = "record_call FailClosedCall (fold (retire_with already_sealed P) (ow_live c) ?c1)"
  have "calm z (retire_with already_sealed P k z)" for k z
    by (rule calm_retire_with) (simp add: already_sealed_def)
  then have "calm ?c1 (fold (retire_with already_sealed P) (ow_live c) ?c1)" by (rule calm_fold)
  moreover have "calm c ?c1" by (rule calm_same) simp_all
  ultimately have "calm c ?c2" by (blast intro: timed_trans calm_call)
  moreover have "calm ?c2 (?c2\<lparr>ow_seal := SealRejected\<rparr>)" by (rule calm_same) simp_all
  ultimately show ?thesis by (auto simp: requestSeal_def Let_def intro: timed_trans)
qed

lemma calm_retire [simp]: "calm c (retire P k c)" and calm_cancel [simp]: "calm c (cancel P k c)"
  by (simp_all add: retire_def cancel_def calm_retire_with calm_cancel_with)

lemma calm_then_seal: "calm a b \<Longrightarrow> calm a (requestSeal P b)"
  by (rule timed_trans [OF _ calm_seal])

lemma calm_admitCut [simp]: "calm c (admitCut P k b c)"
proof -
  let ?c1 = "record_call (RecheckCall k) c"
  have "calm c (upd_xentry k (\<lambda>e. e\<lparr>xe_pendingFire := True\<rparr>) c)" by (rule calm_upd) simp
  moreover have "calm c (upd_xentry k (\<lambda>e. e\<lparr>xe_admittedCut := Some SealPromise\<rparr>) (requestSeal P ?c1))"
    by (rule timed_trans [OF calm_then_seal [OF calm_call] calm_upd]) simp
  moreover have "calm ?c1 (?c1\<lparr>ow_cuts := x\<rparr>)" for x by (rule calm_same) simp_all
  then have "calm c (upd_xentry k (\<lambda>e. e\<lparr>xe_admittedCut := a\<rparr>) (?c1\<lparr>ow_cuts := x\<rparr>))" for a x
    by (intro timed_trans [OF timed_trans [OF calm_call] calm_upd]) simp_all
  ultimately show ?thesis by (simp add: admitCut_def Let_def)
qed

lemma calm_fired: "calm c (upd_cell d cancelled_cell (upd_xentry k (\<lambda>e. e\<lparr>xe_deadline := None\<rparr>) c))"
  "calm c (upd_cell d cancelled_cell (upd_xentry k (\<lambda>e. e\<lparr>xe_warningDeadline := None\<rparr>) c))"
  by (rule timed_trans [OF calm_upd calm_cell]; simp add: cancelled_cell_def)+

lemma calm_deadlineFired [simp]: "calm c (deadlineFired P k d c)"
proof -
  let ?c1 = "upd_cell d cancelled_cell (upd_xentry k (\<lambda>e. e\<lparr>xe_deadline := None\<rparr>) c)"
  have "calm ?c1 (upd_xentry k (\<lambda>e. e\<lparr>xe_pendingFire := True\<rparr>) ?c1)" by (rule calm_upd) simp
  with calm_fired(1) [of c d k] show ?thesis
    unfolding deadlineFired_def call_receipt_def prod.case
    by (auto intro: timed_trans calm_then_seal calm_admitCut simp del: upd_cell_simps upd_xentry_simps)
qed

lemma calm_refresh [simp]: "calm c (refreshEntry P k c)"
proof -
  let ?c1 = "upd_xentry k (\<lambda>e. e\<lparr>xe_warningAttemptGeneration := xe_warningAttemptGeneration e + 1\<rparr>) c"
  have c1: "calm c ?c1" by (rule calm_upd) simp
  have "calm ?c1 (upd_xentry k (\<lambda>e. e\<lparr>xe_pendingRefresh := True\<rparr>) ?c1)" by (rule calm_upd) simp
  moreover have "calm (cancel P k ?c1) (upd_xentry k (\<lambda>e. e\<lparr>xe_warningJti := x, xe_warningExpiresAtMs := y,
      xe_warningFired := z, xe_consecutiveEarlyFires := 0\<rparr>) (cancel P k ?c1))" for x y z by (rule calm_upd) simp
  note this [THEN timed_trans [OF timed_trans [OF c1 calm_cancel]], THEN timed_trans [OF _ calm_admitCut]]
  ultimately show ?thesis
    unfolding refreshEntry_def Let_def using timed_trans [OF c1] by (simp del: upd_xentry_simps)
qed

section \<open>Warnings\<close>

lemma calm_emit [simp]: "calm c (emit_warning P k jti x c)"
proof -
  let ?c1 = "\<lambda>g. upd_xentry k (\<lambda>e. e\<lparr>xe_warningFired := True, xe_warningAttemptGeneration := g\<rparr>) c"
  have c1: "calm c (?c1 g)" for g by (rule calm_upd) simp
  have c2: "calm c (record_call y (?c1 g))" for y g by (rule timed_trans [OF c1 calm_call])
  have "calm c ((record_call y (?c1 g))\<lparr>ow_attempts := z\<rparr>)" for y g z
    by (rule timed_trans [OF c2 calm_same]) simp_all
  then show ?thesis unfolding emit_warning_def Let_def using c1 calm_then_seal [OF c2] by (simp del: upd_xentry_simps)
qed

lemma calm_warningDeadlineFired [simp]: "calm c (warningDeadlineFired P k d c)"
proof (cases "isCurrent c k \<and> xe_warningDeadline (xentry c k) = Some d")
  case True
  show ?thesis
    by (rule warningDeadlineFired_cases [OF conjunct1 [OF True] conjunct2 [OF True], of P])
      (simp_all only: calm_fired calm_then_seal timed_trans [OF calm_fired(2) calm_emit])
qed (auto simp: warningDeadlineFired_def)

text \<open>A new deadline: its slot, its time, and nothing else.\<close>

lemma timed_new_cell:
  assumes "dc_at x = at"
  shows "timed (\<lambda>j t. \<not> w \<and> j = k \<and> t = at) c
    (upd_xentry k (with_slot w (length (ow_deadlines c))) (c\<lparr>ow_deadlines := ow_deadlines c @ [x]\<rparr>))"
  using assms
  by (cases w; cases "k < length (ow_entries c)")
    (auto simp: timed_def nth_append nth_list_update list_update_beyond split: if_splits)

lemma timed_schedule: "timed (\<lambda>j t. \<not> w \<and> j = k \<and> t = at) c (snd (schedule_cell P k w at c))"
  by (simp add: schedule_cell_eq scheduled_def timed_new_cell new_cell_def split: schedule_result.split)

lemma calm_schedule_warning: "calm c (snd (schedule_cell P k True at c))"
  using timed_schedule [of True k at c P] by simp

lemma calm_armWarning [simp]: "calm c (snd (armWarning P k jti x c))"
proof -
  let ?c1 = "upd_xentry k (adopt_credential jti x) c"
  let ?s = "schedule_cell P k True (x - AUTH_EXPIRING_WARNING_LEAD_MS) ?c1"
  obtain v z where vz: "?s = (v, z)" by fastforce
  have c1: "calm c ?c1" by (rule calm_upd) (simp add: adopt_credential_def)
  have z: "calm c z"
    using timed_trans [OF c1 calm_schedule_warning [of ?c1 P k "x - AUTH_EXPIRING_WARNING_LEAD_MS"]] vz by simp
  have "calm z (upd_xentry k (\<lambda>e. e\<lparr>xe_warningDeadline := None, xe_warningJti := None, xe_warningExpiresAtMs := None\<rparr>) z)"
    by (rule calm_upd) simp
  from calm_then_seal [OF timed_trans [OF z this]] timed_trans [OF z calm_warningDeadlineFired] z c1 calm_then_seal [OF c1] vz
  show ?thesis by (cases v) (simp_all add: armWarning_def Let_def del: upd_xentry_simps)
qed

section \<open>Arming\<close>

lemma timed_arm: "timed (\<lambda>j t. j = k \<and> t = x) c (snd (arm P k jti x c))"
proof -
  obtain v z where vz: "schedule_cell P k False x c = (v, z)" by fastforce
  have z: "timed (\<lambda>j t. j = k \<and> t = x) c z" using timed_schedule [of False k x c P] vz by simp
  have "calm z (upd_xentry k (\<lambda>e. e\<lparr>xe_deadline := None\<rparr>) z)" by (rule calm_upd) simp
  from timed_calm [OF z calm_then_seal [OF this]] timed_calm [OF timed_calm [OF z calm_deadlineFired] calm_armWarning]
    timed_calm [OF z calm_armWarning] calm_timed [OF calm_seal] vz
  show ?thesis by (cases v) (simp_all add: arm_def)
qed

definition reported :: "json option \<Rightarrow> int \<Rightarrow> bool" where
  "reported v t \<longleftrightarrow> (\<exists>jti. parseCutResult v = Some (ActiveCut jti t))"

lemma timed_apply: "timed (\<lambda>j t. j = k \<and> reported v t) c (snd (applyCutResult P k v b c))"
proof -
  have arm: "timed (\<lambda>j t. j = k \<and> reported v t) c
      (snd (arm P k jti x (upd_xentry k (\<lambda>e. e\<lparr>xe_consecutiveEarlyFires := m\<rparr>) c)))"
    if "parseCutResult v = Some (ActiveCut jti x)" for jti x m
  proof (rule timed_trans [OF calm_timed [OF calm_upd]])
    let ?c1 = "upd_xentry k (\<lambda>e. e\<lparr>xe_consecutiveEarlyFires := m\<rparr>) c"
    show "timed (\<lambda>j t. j = k \<and> reported v t) ?c1 (snd (arm P k jti x ?c1))"
      using timed_arm [of k x ?c1 P jti] that unfolding timed_def reported_def by (auto 0 4)
  qed simp
  have seal: "calm c (requestSeal P (upd_xentry k (\<lambda>e. e\<lparr>xe_consecutiveEarlyFires := m\<rparr>) c))" for m
    by (rule calm_then_seal [OF calm_upd]) simp
  show ?thesis
    unfolding applyCutResult_def Let_def
    using arm calm_timed [OF seal] calm_timed [OF calm_seal] calm_timed [OF calm_retire]
    by (simp del: upd_xentry_simps split: option.split cut_result.split)
qed

section \<open>Steps\<close>

lemma calm_timer [simp]: "calm c (timer_callback P d c)"
proof -
  have "calm c (upd_cell d (\<lambda>x. x\<lparr>dc_firedBeforeArmed := True\<rparr>) c)" by (rule calm_cell) simp
  then show ?thesis by (simp add: timer_callback_def)
qed

lemma calm_after: "calm c (after_fire P k c)" "calm c (after_refresh P k c)"
proof -
  have "calm c (upd_xentry k (\<lambda>e. e\<lparr>xe_pendingFire := False\<rparr>) c)" "calm c (upd_xentry k (\<lambda>e. e\<lparr>xe_pendingRefresh := False\<rparr>) c)"
    by (rule calm_upd; simp)+
  from this(1) [THEN timed_trans, OF calm_admitCut] this(2) [THEN timed_trans, OF calm_refresh]
  show "calm c (after_fire P k c)" "calm c (after_refresh P k c)" by (simp_all add: after_fire_def after_refresh_def)
qed

lemma calm_finally: "calm c (finally_cut P n k c)"
proof -
  let ?c1 = "if xe_admittedCut (xentry c k) = Some (CutPromise n) then upd_xentry k (\<lambda>e. e\<lparr>xe_admittedCut := None\<rparr>) c else c"
  have "calm c ?c1" by (simp add: calm_upd)
  note timed_trans [OF this timed_trans [OF calm_after(1) calm_after(2)]]
  from this [of P k P] timed_trans [OF this [of P k P] calm_forget [of _ k]] show ?thesis
    unfolding finally_cut_def Let_def by (simp split: if_split)
qed

lemma calm_finishes: "calm c (cut_finishes P n c)"
  using timed_trans [OF calm_cut calm_finally]
  by (simp add: cut_finishes_def split: cut_stage.split seal_state.split)

lemma calm_attempts: "calm c (attempt_answered P i r c)"
proof -
  let ?c1 = "upd_attempt i AttemptOver c"
  have stale: "calm z (resolveStaleWarning P i z)" for z
    unfolding resolveStaleWarning_def Let_def using calm_then_seal [OF calm_call] timed_trans [OF calm_call calm_attempt] by simp
  have due: "calm z (emission_not_due P a z)" for a z
  proof -
    let ?z = "upd_xentry (wa_entry a) (\<lambda>e. e\<lparr>xe_warningFired := False,
        xe_warningConsecutiveEarlyFires := xe_warningConsecutiveEarlyFires e + 1\<rparr>) z"
    have z: "calm z ?z" by (rule calm_upd) simp
    from timed_trans [OF z calm_armWarning] calm_then_seal [OF z] show ?thesis
      unfolding emission_not_due_def Let_def by (simp del: upd_xentry_simps)
  qed
  note go = timed_trans [OF calm_attempt]
  show ?thesis
    unfolding attempt_answered_def emission_answered_def stale_recheck_answered_def Let_def
    by (auto intro!: go [OF stale] go [OF due] go [OF calm_seal] go [OF calm_retire] go [OF calm_refresh] calm_attempt timed_refl
        split: attempt_stage.split port_answer.split option.split warning_outcome.split cut_result.split)
qed

lemma calm_register: "calm c (snd (register P kind i inc port c))"
proof -
  have new: "calm z (enrolled kind i inc port z)" for z
    by (auto simp: timed_def nth_append fresh_xentry_def less_Suc_eq split: if_splits)
  have prev: "calm c (case expiryRegistry kind c i of None \<Rightarrow> c | Some previous \<Rightarrow> retire P previous c)"
    by (simp split: option.split)
  show ?thesis
    unfolding register_def Let_def enrolled_def [symmetric]
    using prev timed_trans [OF timed_trans [OF prev new] calm_admitCut] by simp
qed

lemma calm_drains: "calm c (drain_continues i c)"
proof -
  have "calm c (drain_ends i c)" "calm c (after_cut i c)"
    using timed_trans [OF calm_drain calm_forget] by (simp_all add: drain_ends_def after_cut_def Let_def)
  then show ?thesis
    by (simp add: drain_continues_def split: drain_stage.split option.split admitted.split cut_stage.split seal_state.split)
qed

lemma calm_close: "calm c (close P c)"
proof -
  let ?c0 = "c\<lparr>ow_accepting := False, ow_closed := True\<rparr>"
  let ?c1 = "fold (retire P) (ow_live c) ?c0"
  let ?c2 = "fold (begin_drain False) (ow_live c) (?c1\<lparr>ow_clients := Map.empty, ow_hosts := Map.empty\<rparr>)"
  have "calm c ?c0" "calm ?c1 (?c1\<lparr>ow_clients := Map.empty, ow_hosts := Map.empty\<rparr>)" "calm ?c2 (?c2\<lparr>ow_closeDrain := x\<rparr>)" for x
    by (rule calm_same; simp)+
  moreover have "calm ?c0 ?c1" by (rule calm_fold) simp
  moreover have "calm (?c1\<lparr>ow_clients := Map.empty, ow_hosts := Map.empty\<rparr>) ?c2" by (rule calm_fold) simp
  ultimately have "calm c (?c2\<lparr>ow_closeDrain := x\<rparr>)" for x by (blast intro: timed_trans)
  then show ?thesis by (simp add: close_def Let_def)
qed

section \<open>The latest answer\<close>

definition latest_answer :: "expiry_owner \<Rightarrow> nat \<Rightarrow> port_answer option" where
  "latest_answer c k = map_of (rev (ow_answers c)) k"

definition times_ok :: "expiry_owner \<Rightarrow> bool" where
  "times_ok c \<longleftrightarrow> (\<forall>k < length (ow_entries c). \<forall>d. xe_deadline (xentry c k) = Some d \<longrightarrow>
     d < length (ow_deadlines c) \<and> (\<exists>v. latest_answer c k = Some (Fulfilled v) \<and> reported v (dc_at (cell c d))))"

lemma times_timed:
  assumes ok: "times_ok c" and t: "timed A c c'"
    and A: "\<And>k t. A k t \<Longrightarrow> \<exists>v. latest_answer c k = Some (Fulfilled v) \<and> reported v t"
  shows "times_ok c'"
  unfolding times_ok_def
proof (intro allI impI)
  fix k d assume "k < length (ow_entries c')" "xe_deadline (xentry c' k) = Some d"
  with t consider "k < length (ow_entries c)" "xe_deadline (xentry c k) = Some d"
    | "d < length (ow_deadlines c')" "A k (dc_at (cell c' d))" by (auto simp: timed_def)
  moreover have ans: "latest_answer c' k = latest_answer c k" for k
    using t by (simp add: latest_answer_def timed_def)
  ultimately show "d < length (ow_deadlines c') \<and> (\<exists>v. latest_answer c' k = Some (Fulfilled v) \<and> reported v (dc_at (cell c' d)))"
    using ok t A by cases (auto simp: times_ok_def timed_def)
qed

lemma times_calm: "times_ok c \<Longrightarrow> calm c c' \<Longrightarrow> times_ok c'"
  by (rule times_timed [where A = "\<lambda>k t. False"]) simp_all

text \<open>While the recheck of an entry is awaited, no deadline is in its slot.\<close>

lemma waiting_slot:
  assumes ok: "owner_ok c" and n: "n < length (ow_cuts c)" and w: "ct_stage (ow_cuts c ! n) = CutWaiting"
  shows "xe_deadline (xentry c (ct_entry (ow_cuts c ! n))) = None"
proof -
  let ?k = "ct_entry (ow_cuts c ! n)"
  have k: "?k < length (ow_entries c)" and adm: "xe_admittedCut (xentry c ?k) = Some (CutPromise n)"
    using cut_facts [OF owner_parts(1) [OF ok] n] w by simp_all
  show ?thesis
  proof (cases "current c ?k")
    case True
    from waiting_core [OF ok k True adm w] show ?thesis by (simp add: watch_state_def)
  next
    case False
    have "placed c ?k (xentry c ?k)" using owner_parts(1) [OF ok] k by (simp add: base_def entries_ok_def)
    with False have "slot False (xentry c ?k) = None" by (simp only: placed_def if_False)
    then show ?thesis by simp
  qed
qed

lemma times_answered:
  assumes ok: "owner_ok c" and t: "times_ok c"
  shows "times_ok (cut_answered P n r c)"
proof (cases "n < length (ow_cuts c) \<and> ct_stage (ow_cuts c ! n) = CutWaiting")
  case True
  let ?k = "ct_entry (ow_cuts c ! n)" and ?c0 = "record_answer n r c"
  have c0: "ow_entries ?c0 = ow_entries c" "ow_deadlines ?c0 = ow_deadlines c" "ow_cuts ?c0 = ow_cuts c"
    and ans: "latest_answer ?c0 j = (if j = ?k then Some r else latest_answer c j)" for j
    by (simp_all add: record_answer_def latest_answer_def)
  have "times_ok ?c0"
    using t waiting_slot [OF ok] True unfolding times_ok_def c0 ans by auto
  moreover have "timed (\<lambda>j t. j = ?k \<and> (\<exists>v. r = Fulfilled v \<and> reported v t)) ?c0 (snd (applied_answer P n r ?c0))"
    using timed_apply [of ?k _ ?c0 P "ct_fromDeadline (ow_cuts c ! n)"] calm_timed [OF calm_seal]
    unfolding applied_answer_def c0 by (cases r) simp_all
  ultimately have "times_ok (snd (applied_answer P n r ?c0))"
    by (rule times_timed) (auto simp: ans)
  then show ?thesis using True by (simp add: cut_answered_eq times_calm [OF _ calm_cut])
qed (use t in \<open>auto simp: cut_answered_def\<close>)

lemma calm_step:
  assumes "expiry_step P c c'" and "\<And>n r. c' \<noteq> cut_answered P n r c"
  shows "calm c c'"
  using assms
proof (induction rule: expiry_step.induct)
  case (registers kind i incarnation port c k c')
  then show ?case using calm_register [of c P kind i incarnation port] by simp
next
  case (unregisters k c)
  then show ?case by (simp add: unregister_expiry_def timed_trans [OF calm_retire calm_begin])
next
  case (sealed c b)
  then show ?case by (intro calm_same) (simp_all add: seal_settles_def)
next
  case (close_drained c)
  then show ?case by (intro calm_same) (simp_all add: close_finishes_def split: close_state.split)
next
  case (answered c n r)
  then show ?case by blast
qed (simp_all add: calm_close calm_finishes calm_attempts calm_drains)

lemma times_step: "expiry_step P c c' \<Longrightarrow> owner_ok c \<Longrightarrow> times_ok c \<Longrightarrow> times_ok c'"
  using calm_step times_calm times_answered by metis

lemma reachable_times: "expiry_run P new_expiry_owner c \<Longrightarrow> times_ok c"
proof (induction rule: rtranclp_induct)
  case base
  show ?case by (simp add: times_ok_def new_expiry_owner_def)
next
  case (step b c)
  then show ?case using times_step reachable_ok by blast
qed

section \<open>Connections stay watched\<close>

text \<open>
  C10. No connection outlives its credential unobserved. In every state the owner can reach, a connection it
  holds is under an armed expiry deadline, or a recheck of it is in flight, or a cut is about to
  finish that has seen the deadline fire. The armed deadline is scheduled for exactly the expiry that the
  latest answer to a recheck of this connection reported. When it fires, the broker core is asked again
  at once, or as soon as the finishing cut ends; the only way out is that the owner fails closed. That a
  scheduled deadline does fire at its time is up to the scheduler, a port of the owner.
\<close>

theorem connection_stays_watched:
  assumes "expiry_run P new_expiry_owner c" and "k < length (ow_entries c)" and "isCurrent c k"
  shows "(\<exists>d. xe_deadline (xentry c k) = Some d \<and> dc_armed (cell c d) \<and> dc_entry (cell c d) = k \<and> \<not> dc_warning (cell c d)
        \<and> (\<exists>v jti. latest_answer c k = Some (Fulfilled v) \<and> parseCutResult v = Some (ActiveCut jti (dc_at (cell c d))))
        \<and> (FailClosedCall \<in> set (ow_calls (timer_callback P d c))
           \<or> ow_calls (timer_callback P d c) = ow_calls c @ [RecheckCall k]
           \<or> xe_admittedCut (xentry c k) \<noteq> None \<and> xe_pendingFire (xentry (timer_callback P d c) k)))
     \<or> (\<exists>n < length (ow_cuts c). ct_entry (ow_cuts c ! n) = k \<and> ct_stage (ow_cuts c ! n) = CutWaiting)
     \<or> (\<exists>n < length (ow_cuts c). ct_entry (ow_cuts c ! n) = k \<and> ct_stage (ow_cuts c ! n) = CutApplied
        \<and> (FailClosedCall \<in> set (ow_calls (cut_finishes P n c)) \<or> ow_calls (cut_finishes P n c) = ow_calls c @ [RecheckCall k]))"
proof -
  have ok: "owner_ok c" by (rule reachable_ok [OF assms(1)])
  note b = owner_parts [OF ok]
  have cov: "covered c k" using ok assms(2, 3) by (simp add: owner_ok_def isCurrent_def)
  show ?thesis
  proof (cases "xe_deadline (xentry c k)")
    case (Some d)
    have "dc_armed (cell c d)" "dc_entry (cell c d) = k" "\<not> dc_warning (cell c d)"
      using slotsD(2-4) [of "{}" c k False d] b(1) assms(2) Some by (simp_all add: base_def)
    moreover have "\<exists>v jti. latest_answer c k = Some (Fulfilled v) \<and> parseCutResult v = Some (ActiveCut jti (dc_at (cell c d)))"
      using reachable_times [OF assms(1)] assms(2) Some by (auto simp: times_ok_def reported_def)
    ultimately show ?thesis using deadline_callback [OF ok assms(2, 3) Some, of P] Some by (auto split: if_splits)
  next
    case None
    with cov obtain n where n: "xe_admittedCut (xentry c k) = Some (CutPromise n)"
      and s: "ct_stage (ow_cuts c ! n) = CutWaiting \<or> ct_stage (ow_cuts c ! n) = CutApplied \<and> xe_pendingFire (xentry c k)"
      by (auto simp: covered_def Let_def split: option.splits admitted.splits cut_stage.splits)
    note f = admitted_facts [OF b(1) assms(2) n]
    from s show ?thesis using f finishing_cut [OF ok assms(2, 3) n, of P] by blast
  qed
qed

end
