(* ===== verification/RV2_ExpiryWitnesses.thy ===== *)
theory RV2_ExpiryWitnesses
  imports RV2_ExpiryTimes
begin

text \<open>
  Concrete runs of the authorization deadline owner: a client is registered, its credential is found active
  and its deadline armed; and a client whose recheck fails, so that the owner seals itself.
\<close>

definition demo_ports :: expiry_ports where
  "demo_ports = \<lparr>ep_schedule = (\<lambda>d. Scheduled False), ep_cancelThrows = (\<lambda>d. False), ep_recheckThrows = (\<lambda>n. False),
     ep_emitThrows = (\<lambda>n. False), ep_failClosedThrows = False\<rparr>"

definition active_answer :: port_answer where
  "active_answer = Fulfilled (Some (JObj [(''outcome'', JStr ''active''), (''jti'', JStr ''jti-7''), (''expiresAtMs'', JInt 90000)]))"

definition demo_xentry :: "entry_state \<Rightarrow> nat option \<Rightarrow> admitted option \<Rightarrow> expiry_entry" where
  "demo_xentry s d a = (fresh_xentry ClientSocket ''phone'' ''inc-1'' False)\<lparr>xe_state := s, xe_deadline := d, xe_admittedCut := a,
     xe_warningAttemptGeneration := if s = CurrentEntry then 0 else 1\<rparr>"

definition demo_owner_state :: "expiry_entry \<Rightarrow> cut_stage \<Rightarrow> deadline_cell list \<Rightarrow> expiry_call list
    \<Rightarrow> (nat \<times> port_answer) list \<Rightarrow> expiry_owner" where
  "demo_owner_state e s ds calls answers =
     new_expiry_owner\<lparr>ow_entries := [e], ow_live := [0], ow_clients := [''phone'' \<mapsto> 0], ow_deadlines := ds,
       ow_cuts := [\<lparr>ct_entry = 0, ct_fromDeadline = False, ct_stage = s\<rparr>], ow_calls := calls, ow_answers := answers\<rparr>"

abbreviation "asked_owner \<equiv> demo_owner_state (demo_xentry CurrentEntry None (Some (CutPromise 0))) CutWaiting [] [RecheckCall 0] []"
abbreviation "answered_owner \<equiv> demo_owner_state (demo_xentry CurrentEntry (Some 0) (Some (CutPromise 0))) CutApplied
  [armed_cell 0 False 90000 False] [RecheckCall 0] [(0, active_answer)]"
abbreviation "armed_owner \<equiv> demo_owner_state (demo_xentry CurrentEntry (Some 0) None) (CutSettled True)
  [armed_cell 0 False 90000 False] [RecheckCall 0] [(0, active_answer)]"
abbreviation "sealed_owner \<equiv> (demo_owner_state (demo_xentry RetiredEntry None (Some (CutPromise 0))) CutAwaitsSeal [] [RecheckCall 0, FailClosedCall] [(0, Rejected)])
  \<lparr>ow_clients := Map.empty, ow_accepting := False, ow_seal := SealPending\<rparr>"

lemmas demo_expiry_defs = demo_ports_def demo_xentry_def demo_owner_state_def new_expiry_owner_def fresh_xentry_def
  upd_xentry_def record_call_def record_answer_def upd_cut_def expiryRegistry_def isCurrent_def Let_def

lemma parsed_answer: "parseCutResult (Some (JObj [(''outcome'', JStr ''active''), (''jti'', JStr ''jti-7''), (''expiresAtMs'', JInt 90000)]))
    = Some (ActiveCut ''jti-7'' 90000)"
  by (simp add: parseCutResult_def is_safe_integer_def trim_def utf8_length_def js_space_def)

lemma active_parsed: "active_answer = Fulfilled v \<Longrightarrow> parseCutResult v = Some (ActiveCut jti t) \<Longrightarrow> t = 90000"
  using parsed_answer by (auto simp: active_answer_def)

lemma demo_register: "register demo_ports ClientSocket ''phone'' ''inc-1'' False new_expiry_owner = (Some 0, asked_owner)"
  by (simp add: register_def admitCut_def upd_expiryRegistry_def demo_expiry_defs trim_def utf8_length_def js_space_def)

lemma demo_answered: "cut_answered demo_ports 0 active_answer asked_owner = answered_owner"
  by (simp add: cut_answered_def applyCutResult_def active_answer_def parsed_answer arm_def armWarning_def schedule_cell_def
      upd_cell_def new_cell_def armed_cell_def demo_expiry_defs)

lemma demo_finished: "cut_finishes demo_ports 0 answered_owner = armed_owner"
  by (simp add: cut_finishes_def finally_cut_def after_fire_def after_refresh_def demo_expiry_defs)

lemma demo_sealed: "cut_answered demo_ports 0 Rejected asked_owner = sealed_owner"
  by (simp add: cut_answered_def requestSeal_def retire_with_def cancel_with_def pending_deadlines_def without_deadlines_def
      retired_def deregister_def upd_expiryRegistry_def demo_expiry_defs fun_eq_iff)

lemma demo_asked_run: "expiry_run demo_ports new_expiry_owner asked_owner"
  by (rule r_into_rtranclp) (rule expiry_step.registers [OF demo_register])

lemma demo_armed_run: "expiry_run demo_ports new_expiry_owner armed_owner"
  using demo_asked_run expiry_step.answered [of demo_ports asked_owner 0 active_answer]
    expiry_step.finishes [of demo_ports answered_owner 0]
  by (simp add: demo_answered demo_finished)

lemma demo_sealed_run: "expiry_run demo_ports new_expiry_owner sealed_owner"
  using demo_asked_run expiry_step.answered [of demo_ports asked_owner 0 Rejected] by (simp add: demo_sealed)

theorem connection_stays_watched_witness:
  "expiry_run demo_ports new_expiry_owner armed_owner \<and> isCurrent armed_owner 0
   \<and> (\<exists>d. xe_deadline (xentry armed_owner 0) = Some d \<and> dc_armed (cell armed_owner d) \<and> dc_at (cell armed_owner d) = 90000
        \<and> (FailClosedCall \<in> set (ow_calls (timer_callback demo_ports d armed_owner))
           \<or> ow_calls (timer_callback demo_ports d armed_owner) = [RecheckCall 0, RecheckCall 0]))"
proof (intro conjI)
  show run: "expiry_run demo_ports new_expiry_owner armed_owner" by (rule demo_armed_run)
  show cur: "isCurrent armed_owner 0" by (simp add: demo_expiry_defs)
  have e: "0 < length (ow_entries armed_owner)" "xe_admittedCut (xentry armed_owner 0) = None" "ow_calls armed_owner = [RecheckCall 0]"
    "n < length (ow_cuts armed_owner) \<Longrightarrow> ct_stage (ow_cuts armed_owner ! n) = CutSettled True" for n
    by (simp_all add: demo_owner_state_def demo_xentry_def)
  have ans: "latest_answer armed_owner 0 = Some active_answer" by (simp add: latest_answer_def demo_owner_state_def)
  from connection_stays_watched [OF run e(1) cur] e(2-4)
  show "\<exists>d. xe_deadline (xentry armed_owner 0) = Some d \<and> dc_armed (cell armed_owner d) \<and> dc_at (cell armed_owner d) = 90000
        \<and> (FailClosedCall \<in> set (ow_calls (timer_callback demo_ports d armed_owner))
           \<or> ow_calls (timer_callback demo_ports d armed_owner) = [RecheckCall 0, RecheckCall 0])"
    unfolding ans by (auto dest: active_parsed)
qed

theorem sealed_owner_is_silent_witness:
  "expiry_run demo_ports new_expiry_owner sealed_owner \<and> FailClosedCall \<in> set (ow_calls sealed_owner)
   \<and> \<not> ow_accepting sealed_owner \<and> xe_state (xentry sealed_owner 0) = RetiredEntry"
proof (intro conjI)
  show run: "expiry_run demo_ports new_expiry_owner sealed_owner" by (rule demo_sealed_run)
  show called: "FailClosedCall \<in> set (ow_calls sealed_owner)" by (simp add: demo_owner_state_def)
  note silent = sealed_owner_is_silent [OF run]
  show off: "\<not> ow_accepting sealed_owner" using silent called by blast
  have "0 < length (ow_entries sealed_owner)" by (simp add: demo_owner_state_def)
  with silent off show "xe_state (xentry sealed_owner 0) = RetiredEntry" by blast
qed

end
