(* ===== verification/JS_Utf16.thy ===== *)
theory JS_Utf16
  imports JS_Base64 JS_Json
begin

text \<open>
  What the credential code uses of the standard library on full JavaScript strings, lists of UTF-16
  code units: UTF-8 (\<open>Buffer.from(text, "utf8")\<close> and a strict \<open>TextDecoder\<close>), white space, splitting,
  and base64url. A byte sequence is a \<open>string\<close>, as in \<open>JS_Base64\<close>.
\<close>

section \<open>UTF-8\<close>

text \<open>A lone surrogate is written as U+FFFD.\<close>

definition utf8_unit :: "nat \<Rightarrow> nat list" where
  "utf8_unit c =
     (if c < 128 then [c] else if c < 2048 then [192 + c div 64, 128 + c mod 64]
      else if high_surrogate c \<or> low_surrogate c then [239, 191, 189]
      else [224 + c div 4096, 128 + c div 64 mod 64, 128 + c mod 64])"

definition utf8_pair :: "nat \<Rightarrow> nat \<Rightarrow> nat list" where
  "utf8_pair c d =
     (let n = 65536 + 1024 * (c - 55296) + (d - 56320) in
      [240 + n div 262144, 128 + n div 4096 mod 64, 128 + n div 64 mod 64, 128 + n mod 64])"

fun utf8_bytes :: "jtext \<Rightarrow> nat list" where
  "utf8_bytes [] = []"
| "utf8_bytes [c] = utf8_unit c"
| "utf8_bytes (c # d # ds) =
     (if high_surrogate c \<and> low_surrogate d then utf8_pair c d @ utf8_bytes ds else utf8_unit c @ utf8_bytes (d # ds))"

definition utf8_encode :: "jtext \<Rightarrow> string" where
  "utf8_encode s = map char_of (utf8_bytes s)"

text \<open>The well-formed sequences of the Unicode standard; a fatal decoder refuses everything else.\<close>

definition utf8_tail :: "nat \<Rightarrow> bool" where
  "utf8_tail x \<longleftrightarrow> 128 \<le> x \<and> x < 192"

fun utf8_units :: "nat list \<Rightarrow> jtext option" where
  "utf8_units [] = Some []"
| "utf8_units (b # bs) =
     (if b < 128 then map_option (Cons b) (utf8_units bs)
      else if 194 \<le> b \<and> b < 224 then
        (case bs of
           x # r \<Rightarrow> if utf8_tail x then map_option (Cons (64 * (b - 192) + (x - 128))) (utf8_units r) else None
         | _ \<Rightarrow> None)
      else if 224 \<le> b \<and> b < 240 then
        (case bs of
           x # y # r \<Rightarrow>
             if utf8_tail x \<and> utf8_tail y \<and> (b = 224 \<longrightarrow> 160 \<le> x) \<and> (b = 237 \<longrightarrow> x < 160)
             then map_option (Cons (4096 * (b - 224) + 64 * (x - 128) + (y - 128))) (utf8_units r) else None
         | _ \<Rightarrow> None)
      else if 240 \<le> b \<and> b < 245 then
        (case bs of
           x # y # z # r \<Rightarrow>
             if utf8_tail x \<and> utf8_tail y \<and> utf8_tail z \<and> (b = 240 \<longrightarrow> 144 \<le> x) \<and> (b = 244 \<longrightarrow> x < 144)
             then (let n = 262144 * (b - 240) + 4096 * (x - 128) + 64 * (y - 128) + (z - 128) - 65536 in
                   map_option (\<lambda>t. (55296 + n div 1024) # (56320 + n mod 1024) # t) (utf8_units r)) else None
         | _ \<Rightarrow> None)
      else None)"

text \<open>A \<open>TextDecoder\<close> drops a byte order mark at the beginning.\<close>

definition utf8_decode :: "string \<Rightarrow> jtext option" where
  "utf8_decode bs =
     (let ns = map of_char bs in utf8_units (if take 3 ns = [239, 187, 191] then drop 3 ns else ns))"

section \<open>White space, splitting\<close>

definition js_white :: "nat \<Rightarrow> bool" where
  "js_white c \<longleftrightarrow> c \<in> {9, 10, 11, 12, 13, 32, 160, 5760, 8232, 8233, 8239, 8287, 12288, 65279} \<or> 8192 \<le> c \<and> c \<le> 8202"

definition trim_units :: "jtext \<Rightarrow> jtext" where
  "trim_units s = rev (dropWhile js_white (rev (dropWhile js_white s)))"

fun split_units :: "nat \<Rightarrow> jtext \<Rightarrow> jtext list" where
  "split_units p [] = [[]]"
| "split_units p (c # cs) =
     (if c = p then [] # split_units p cs
      else (case split_units p cs of s # ss \<Rightarrow> (c # s) # ss | [] \<Rightarrow> [[c]]))"

section \<open>Base64url\<close>

text \<open>The alphabet with \<open>-\<close> and \<open>_\<close>, and no padding.\<close>

definition url_unit :: "char \<Rightarrow> nat" where
  "url_unit c = (if c = CHR ''+'' then 45 else if c = CHR ''/'' then 95 else of_char c)"

definition url_char :: "nat \<Rightarrow> char" where
  "url_char u = (if u = 45 then CHR ''+'' else if u = 95 then CHR ''/'' else char_of u)"

definition url_alphabet :: "nat \<Rightarrow> bool" where
  "url_alphabet u \<longleftrightarrow> 65 \<le> u \<and> u \<le> 90 \<or> 97 \<le> u \<and> u \<le> 122 \<or> 48 \<le> u \<and> u \<le> 57 \<or> u = 45 \<or> u = 95"

definition base64url :: "string \<Rightarrow> jtext" where
  "base64url bs = map url_unit (filter (\<lambda>c. c \<noteq> CHR ''='') (base64_encode bs))"

definition base64url_bytes :: "jtext \<Rightarrow> string" where
  "base64url_bytes s = base64_decode (map url_char s @ replicate ((4 - length s mod 4) mod 4) (CHR ''=''))"

section \<open>Round trips\<close>

fun hasUnpairedSurrogate :: "jtext \<Rightarrow> bool" where
  "hasUnpairedSurrogate [] = False"
| "hasUnpairedSurrogate [c] = (high_surrogate c \<or> low_surrogate c)"
| "hasUnpairedSurrogate (c # d # ds) =
     (if high_surrogate c then \<not> low_surrogate d \<or> hasUnpairedSurrogate ds
      else low_surrogate c \<or> hasUnpairedSurrogate (d # ds))"

lemma surrogate_exclusive: "high_surrogate c \<Longrightarrow> \<not> low_surrogate c"
  by (simp add: high_surrogate_def low_surrogate_def)

lemma utf8_bound: "c < 65536 \<Longrightarrow> \<forall>b \<in> set (utf8_unit c). b < 256"
  by (auto simp: utf8_unit_def high_surrogate_def low_surrogate_def) 

lemma utf8_pair_bound: "high_surrogate c \<Longrightarrow> low_surrogate d \<Longrightarrow> \<forall>b \<in> set (utf8_pair c d). b < 256"
  by (auto simp: utf8_pair_def high_surrogate_def low_surrogate_def Let_def)

lemma group3: "4096 * (n div 4096) + 64 * (n div 64 mod 64) + n mod 64 = (n :: nat)"
proof -
  have "n = 64 * (n div 64) + n mod 64" "n div 64 = 64 * (n div 4096) + n div 64 mod 64"
    using div_mult2_eq [of n 64 64] by simp_all
  then show ?thesis by linarith
qed

lemma decode_utf8_unit:
  assumes "c < 65536" and "\<not> high_surrogate c" and "\<not> low_surrogate c"
  shows "utf8_units (utf8_unit c @ bs) = map_option (Cons c) (utf8_units bs)"
proof -
  consider "c < 128" | "128 \<le> c" "c < 2048" | "2048 \<le> c" by linarith
  then show ?thesis
  proof cases
    case 2
    have d: "c div 64 \<ge> 2" using 2 by (simp add: less_eq_div_iff_mult_less_eq)
    moreover have "c div 64 < 32" using 2 by (simp add: div_less_iff_less_mult)
    ultimately show ?thesis using 2 by (simp add: utf8_unit_def utf8_tail_def)
  next
    case 3
    have b: "c div 4096 < 16" using assms(1) by (simp add: div_less_iff_less_mult)
    have e0: "c div 4096 = 0 \<longrightarrow> 32 \<le> c div 64 mod 64"
    proof
      assume "c div 4096 = 0"
      then have "c < 4096" by simp
      then have "c div 64 < 64" by (simp add: div_less_iff_less_mult)
      moreover have "32 \<le> c div 64" using 3 by (simp add: less_eq_div_iff_mult_less_eq)
      ultimately show "32 \<le> c div 64 mod 64" by simp
    qed
    have ed: "c div 4096 = 13 \<longrightarrow> c div 64 mod 64 < 32"
    proof (intro impI)
      assume d: "c div 4096 = 13"
      have "c < 57344" using d group3 [of c] by (auto intro: ccontr) 
      then have "c < 55296" using assms by (simp add: high_surrogate_def low_surrogate_def)
      with d group3 [of c] show "c div 64 mod 64 < 32" by linarith
    qed
    have "224 + c div 4096 = 224 \<longrightarrow> 160 \<le> 128 + c div 64 mod 64" "224 + c div 4096 = 237 \<longrightarrow> 128 + c div 64 mod 64 < 160"
      using e0 ed by auto
    then show ?thesis using 3 assms b group3 [of c]
      by (auto simp: utf8_unit_def utf8_tail_def)
  qed (simp add: utf8_unit_def)
qed

lemma decode_utf8_pair:
  assumes "high_surrogate c" and "low_surrogate d"
  shows "utf8_units (utf8_pair c d @ bs) = map_option (\<lambda>t. c # d # t) (utf8_units bs)"
proof -
  define m where "m = 1024 * (c - 55296) + (d - 56320)"
  let ?n = "65536 + m"
  have cd: "c - 55296 < 1024" "d - 56320 < 1024" "55296 \<le> c" "56320 \<le> d"
    using assms by (auto simp: high_surrogate_def low_surrogate_def)
  then have m: "m div 1024 = c - 55296" "m mod 1024 = d - 56320" "m < 1048576" by (simp_all add: m_def del: add_diff_assoc add_diff_assoc2)
  have g: "262144 * (?n div 262144) + 4096 * (?n div 4096 mod 64) + 64 * (?n div 64 mod 64) + ?n mod 64 = ?n" by (rule group6)
  have b: "?n div 262144 < 5" using m by (simp add: div_less_iff_less_mult)
  have x: "?n div 4096 mod 64 = ?n div 4096 - 64 * (?n div 262144)"
    using div_mult2_eq [of ?n 4096 64] by (simp add: minus_mult_div_eq_mod)
  have "?n div 262144 = 0 \<longrightarrow> 16 \<le> ?n div 4096 mod 64" "?n div 262144 = 4 \<longrightarrow> ?n div 4096 mod 64 < 16"
    unfolding x using m by (auto simp: less_eq_div_iff_mult_less_eq div_less_iff_less_mult)
  then have "utf8_units (utf8_pair c d @ bs) = map_option (\<lambda>t. (55296 + m div 1024) # (56320 + m mod 1024) # t) (utf8_units bs)"
    using b g by (auto simp: utf8_pair_def m_def [symmetric] utf8_tail_def Let_def add.assoc)
  with m cd show ?thesis by simp
qed

lemma utf8_units_bytes:
  "\<forall>c \<in> set s. c < 65536 \<Longrightarrow> \<not> hasUnpairedSurrogate s \<Longrightarrow> utf8_units (utf8_bytes s) = Some s"
proof (induction s rule: utf8_bytes.induct)
  case (2 c)
  then show ?case using decode_utf8_unit [of c "[]"] by simp
next
  case (3 c d ds)
  then show ?case using decode_utf8_unit [of c] decode_utf8_pair [of c d] by (auto simp: surrogate_exclusive split: if_splits)
qed simp

lemma utf8_bytes_bound: "\<forall>c \<in> set s. c < 65536 \<Longrightarrow> \<forall>b \<in> set (utf8_bytes s). b < 256"
  by (induction s rule: utf8_bytes.induct) (use utf8_bound utf8_pair_bound in auto)

lemma utf8_round_trip:
  assumes "\<forall>c \<in> set s. c < 65536" and "\<not> hasUnpairedSurrogate s" and "s \<noteq> []" and "hd s < 128"
  shows "utf8_decode (utf8_encode s) = Some s"
proof -
  have "map (of_char :: char \<Rightarrow> nat) (utf8_encode s) = utf8_bytes s"
    using utf8_bytes_bound [OF assms(1)] by (simp add: utf8_encode_def map_idI)
  moreover have "take 3 (utf8_bytes s) \<noteq> [239, 187, 191]"
  proof -
    obtain c t where s: "s = c # t" "c < 128" using assms(3, 4) by (cases s) auto
    then have "\<exists>u. utf8_bytes s = c # u" by (cases t) (auto simp: utf8_unit_def high_surrogate_def)
    then show ?thesis using s by auto
  qed
  ultimately show ?thesis using utf8_units_bytes [OF assms(1, 2)] by (simp add: utf8_decode_def)
qed

text \<open>Base64url of \<open>n\<close> bytes has four units for three bytes, and two or three for what is left over.\<close>

lemma url_units:
  assumes "n < 64"
  shows "url_char (url_unit (base64_char n)) = base64_char n" and "url_alphabet (url_unit (base64_char n))"
proof -
  have "of_char (base64_char n) \<noteq> (45 :: nat)" "of_char (base64_char n) \<noteq> (95 :: nat)"
    using base64_alphabet [OF assms] by (auto simp: base64_alphabet_def Let_def)
  then show "url_char (url_unit (base64_char n)) = base64_char n" by (auto simp: url_char_def url_unit_def)
  show "url_alphabet (url_unit (base64_char n))"
    using base64_alphabet [OF assms] of_char_eq_iff [of "base64_char n" "CHR ''+''", where 'a = nat] of_char_eq_iff [of "base64_char n" "CHR ''/''", where 'a = nat]
    by (auto simp: url_alphabet_def url_unit_def base64_alphabet_def Let_def)
qed

lemmas group_units = group_small [of "of_char x" 0 0] group_small [of "of_char x" "of_char y" 0] group_small [of "of_char x" "of_char y" "of_char z"]
  for x y z :: char

lemma base64url_Cons:
  "base64url [] = []"
  "base64url [x] = (let n = 65536 * of_char x in map (url_unit \<circ> base64_char) [n div 262144, n div 4096 mod 64])"
  "base64url [x, y] = (let n = 65536 * of_char x + 256 * of_char y in
     map (url_unit \<circ> base64_char) [n div 262144, n div 4096 mod 64, n div 64 mod 64])"
  "base64url (x # y # z # bs) = (let n = 65536 * of_char x + 256 * of_char y + of_char z in
     map (url_unit \<circ> base64_char) [n div 262144, n div 4096 mod 64, n div 64 mod 64, n mod 64] @ base64url bs)"
  using group_units by (simp_all add: base64url_def Let_def)

lemma replicate_two: "replicate 2 x = [x, x]"
  by (simp add: numeral_2_eq_2)

lemma base64url_length: "length (base64url bs) = (4 * length bs + 2) div 3"
proof (induction bs rule: base64_encode.induct)
  case (4 x y z bs)
  have "(4 * length (x # y # z # bs) + 2) div 3 = (4 * length bs + 2 + 3 * 4) div 3" by simp
  with 4 show ?case by (simp add: base64url_Cons Let_def del: div_mult_self1 div_mult_self2 div_mult_self3 div_mult_self4)
qed (simp_all add: base64url_Cons Let_def)

lemma base64url_padded:
  "map url_char (base64url bs) @ replicate ((4 - length (base64url bs) mod 4) mod 4) (CHR ''='') = base64_encode bs
   \<and> list_all url_alphabet (base64url bs)"
proof (induction bs rule: base64_encode.induct)
  case (2 x)
  show ?case using group_units by (simp add: base64url_Cons Let_def url_units replicate_two)
next
  case (3 x y)
  show ?case using group_units by (simp add: base64url_Cons Let_def url_units)
next
  case (4 x y z bs)
  then show ?case using group_units by (simp add: base64url_Cons Let_def url_units)
qed (simp add: base64url_Cons)

lemma base64url_facts:
  "base64url_bytes (base64url bs) = bs" "list_all url_alphabet (base64url bs)"
  using base64url_padded [of bs] decode_encode [of bs] unfolding base64url_bytes_def by metis+

lemma url_alphabet_plain: "url_alphabet u \<Longrightarrow> u < 128 \<and> u \<noteq> 46 \<and> \<not> js_white u"
  by (auto simp: url_alphabet_def js_white_def)

section \<open>Splitting\<close>

lemma split_none: "p \<notin> set s \<Longrightarrow> split_units p s = [s]"
  by (induction s) auto

lemma split_append: "p \<notin> set s \<Longrightarrow> split_units p (s @ p # t) = s # split_units p t"
  by (induction s) auto

lemma split_not_empty: "split_units p s \<noteq> []"
  by (induction s) (auto split: list.split)

lemma split_one: "split_units p s = [t] \<Longrightarrow> s = t"
  by (induction s arbitrary: t) (auto simp: split_not_empty split: if_splits list.splits)

lemma split_first: "split_units p s = t # u # us \<Longrightarrow> \<exists>r. s = t @ p # r \<and> split_units p r = u # us"
proof (induction s arbitrary: t)
  case (Cons c s)
  show ?case
  proof (cases "c = p")
    case False
    then obtain t' where "split_units p s = t' # u # us" "t = c # t'" using Cons.prems by (auto split: list.splits)
    with Cons.IH show ?thesis by auto
  qed (use Cons.prems in auto)
qed simp

end
