(* ===== verification/RV2_Token.thy ===== *)
theory RV2_Token
  imports Complex_Main JS_Utf16 RV2_JsonRoundTrip "HOL-Library.Monad_Syntax"
begin

text \<open>
  The access tokens of Relay v2 (\<open>src/relay/v2/token.ts\<close>) and the JSON they carry
  (\<open>src/relay/v2/authJson.ts\<close>). A token is the prefix, the claims as base64url of JSON, and the
  base64url of an HMAC over both. Strings are lists of UTF-16 code units, bytes are characters. Every
  refusal of this part of the code is the one error \<open>AUTH_INVALID\<close>, represented by \<open>None\<close>. HMAC-SHA-256 is
  the parameter \<open>hmac\<close> (the key, then the text).
\<close>

section \<open>Data\<close>

abbreviation units :: "string \<Rightarrow> jtext" where
  "units s \<equiv> map of_char s"

datatype access_role = ClientRole | HostRole

fun access_role_name :: "access_role \<Rightarrow> jtext" where
  "access_role_name ClientRole = units ''client''"
| "access_role_name HostRole = units ''host''"

record access_claims =
  ac_iss :: jtext
  ac_aud :: jtext
  ac_kid :: jtext
  ac_role :: access_role
  ac_hostId :: jtext
  ac_principalId :: jtext
  ac_grantId :: jtext
  ac_clientInstanceId :: "jtext option"
  ac_iat :: int
  ac_nbf :: int
  ac_exp :: int
  ac_jti :: jtext

text \<open>\<open>v\<close> and \<open>tokenUse\<close> have one value each; the record leaves them out.\<close>

record token_verification =
  tv_expectedIssuer :: jtext
  tv_expectedAudience :: "jtext option"
  tv_nowSeconds :: int
  tv_clockSkewSeconds :: "int option"
  tv_resolveSecret :: "jtext \<Rightarrow> string option"

definition RELAY_V2_ACCESS_TOKEN_PREFIX :: jtext where
  "RELAY_V2_ACCESS_TOKEN_PREFIX = units ''twcap2''"

definition RELAY_V2_ACCESS_TOKEN_AUDIENCE :: jtext where
  "RELAY_V2_ACCESS_TOKEN_AUDIENCE = units ''tw-relay-ws''"

definition RELAY_V2_MAX_ACCESS_TTL_SECONDS :: int where
  "RELAY_V2_MAX_ACCESS_TTL_SECONDS = 3600"

definition RELAY_V2_MAX_CLOCK_SKEW_SECONDS :: int where
  "RELAY_V2_MAX_CLOCK_SKEW_SECONDS = 60"

definition MAX_TOKEN_BYTES :: nat where
  "MAX_TOKEN_BYTES = 8192"

definition MAX_PAYLOAD_BYTES :: nat where
  "MAX_PAYLOAD_BYTES = 4096"

definition MAC_BYTES :: nat where
  "MAC_BYTES = 32"

definition MAX_TIMESTAMP_SECONDS :: int where
  "MAX_TIMESTAMP_SECONDS = MAX_SAFE_INTEGER div 1000"

definition REQUIRED_CLAIM_KEYS :: "jtext list" where
  "REQUIRED_CLAIM_KEYS =
     map units [''v'', ''iss'', ''aud'', ''kid'', ''tokenUse'', ''role'', ''hostId'', ''principalId'', ''grantId'',
       ''iat'', ''nbf'', ''exp'', ''jti'']"

definition OPTIONAL_CLAIM_KEYS :: "jtext list" where
  "OPTIONAL_CLAIM_KEYS = [units ''clientInstanceId'']"

section \<open>Numbers\<close>

text \<open>
  \<open>Number.isSafeInteger\<close>, with the integer. A decimal stands for the double nearest to it, ties going to
  the even significand; \<open>nearest_is q n\<close> says that this double is the integer \<open>n\<close>. Between \<open>2 ^ (b - 1)\<close>
  and \<open>2 ^ b\<close> the doubles are \<open>2 ^ (b - 53)\<close> apart, and half as much just below a power of two.
\<close>

fun bit_length :: "nat \<Rightarrow> nat" where
  "bit_length n = (if n = 0 then 0 else Suc (bit_length (n div 2)))"

declare bit_length.simps [simp del]

definition nearest_is :: "rat \<Rightarrow> int \<Rightarrow> bool" where
  "nearest_is q n =
     (if n = 0 then \<bar>q\<bar> * 2 ^ 1075 \<le> 1
      else
        (let b = bit_length (nat \<bar>n\<bar>); d = (if n < 0 then of_int n - q else q - of_int n); tie = (b < 53 \<or> even n);
             x = (if 0 \<le> d then d * 2 ^ (54 - b) else - d * 2 ^ (if \<bar>n\<bar> = 2 ^ (b - 1) then 55 - b else 54 - b))
         in x < 1 \<or> tie \<and> x = 1))"

definition decimal_rat :: "int \<Rightarrow> int \<Rightarrow> rat" where
  "decimal_rat m e = (if 0 \<le> e then of_int m * 10 ^ nat e else of_int m / 10 ^ nat (- e))"

definition safe_integer :: "jtext jvalue option \<Rightarrow> int option" where
  "safe_integer v =
     (case v of
        Some (JInt n) \<Rightarrow> if \<bar>n\<bar> \<le> MAX_SAFE_INTEGER then Some n else None
      | Some (JDec m e) \<Rightarrow>
          (let q = decimal_rat m e in
           find (\<lambda>n. \<bar>n\<bar> \<le> MAX_SAFE_INTEGER \<and> nearest_is q n) [\<lfloor>q\<rfloor>, \<lfloor>q\<rfloor> + 1])
      | _ \<Rightarrow> None)"

definition isTimestamp :: "int \<Rightarrow> bool" where
  "isTimestamp n \<longleftrightarrow> 0 \<le> n \<and> n \<le> MAX_TIMESTAMP_SECONDS"

section \<open>Claims\<close>

definition auth_identifier :: "jtext \<Rightarrow> bool" where
  "auth_identifier s \<longleftrightarrow>
     s \<noteq> [] \<and> length (utf8_bytes s) \<le> 128 \<and> trim_units s = s \<and> list_all (\<lambda>c. c \<notin> {0, 13, 10}) s
     \<and> \<not> hasUnpairedSurrogate s"

definition hasExactClaimKeys :: "(jtext \<times> jtext jvalue) list \<Rightarrow> bool" where
  "hasExactClaimKeys kvs \<longleftrightarrow>
     list_all (\<lambda>k. k \<in> set (map fst kvs)) REQUIRED_CLAIM_KEYS
     \<and> list_all (\<lambda>k. k \<in> set (REQUIRED_CLAIM_KEYS @ OPTIONAL_CLAIM_KEYS)) (map fst kvs)"

definition string_member :: "(jtext \<times> jtext jvalue) list \<Rightarrow> string \<Rightarrow> jtext option" where
  "string_member kvs k = (case map_of kvs (units k) of Some (JStr s) \<Rightarrow> Some s | _ \<Rightarrow> None)"

definition integer_member :: "(jtext \<times> jtext jvalue) list \<Rightarrow> string \<Rightarrow> int option" where
  "integer_member kvs k = safe_integer (map_of kvs (units k))"

definition access_role_of :: "jtext \<Rightarrow> access_role option" where
  "access_role_of s = find (\<lambda>r. access_role_name r = s) [ClientRole, HostRole]"

text \<open>
  The claims an object states, if its members have the types that \<open>validateClaimSemantics\<close> asks for, then
  the rest of that function.
\<close>

definition claims_of :: "(jtext \<times> jtext jvalue) list \<Rightarrow> access_claims option" where
  "claims_of kvs =
     (if integer_member kvs ''v'' \<noteq> Some 2 \<or> string_member kvs ''tokenUse'' \<noteq> Some (units ''access'') then None
      else do {
        role \<leftarrow> string_member kvs ''role'' \<bind> access_role_of;
        iss \<leftarrow> string_member kvs ''iss'';
        aud \<leftarrow> string_member kvs ''aud'';
        kid \<leftarrow> string_member kvs ''kid'';
        hostId \<leftarrow> string_member kvs ''hostId'';
        principalId \<leftarrow> string_member kvs ''principalId'';
        grantId \<leftarrow> string_member kvs ''grantId'';
        jti \<leftarrow> string_member kvs ''jti'';
        clientInstanceId \<leftarrow> (if map_of kvs (units ''clientInstanceId'') = None then Some None
                            else map_option Some (string_member kvs ''clientInstanceId''));
        iat \<leftarrow> integer_member kvs ''iat'';
        nbf \<leftarrow> integer_member kvs ''nbf'';
        exp \<leftarrow> integer_member kvs ''exp'';
        Some \<lparr>ac_iss = iss, ac_aud = aud, ac_kid = kid, ac_role = role, ac_hostId = hostId, ac_principalId = principalId,
          ac_grantId = grantId, ac_clientInstanceId = clientInstanceId, ac_iat = iat, ac_nbf = nbf, ac_exp = exp, ac_jti = jti\<rparr>
      })"

definition client_identifier :: "access_role \<Rightarrow> jtext option \<Rightarrow> bool" where
  "client_identifier role i =
     (case role of ClientRole \<Rightarrow> (case i of None \<Rightarrow> False | Some s \<Rightarrow> auth_identifier s) | HostRole \<Rightarrow> i = None)"

definition validateClaimSemantics :: "access_claims \<Rightarrow> bool" where
  "validateClaimSemantics c \<longleftrightarrow>
     list_all auth_identifier [ac_iss c, ac_aud c, ac_kid c, ac_hostId c, ac_principalId c, ac_grantId c, ac_jti c]
     \<and> client_identifier (ac_role c) (ac_clientInstanceId c)
     \<and> list_all isTimestamp [ac_iat c, ac_nbf c, ac_exp c]
     \<and> ac_iat c < ac_exp c \<and> ac_nbf c < ac_exp c
     \<and> ac_exp c - ac_iat c \<le> RELAY_V2_MAX_ACCESS_TTL_SECONDS"

definition parseRelayV2AuthJson :: "jtext \<Rightarrow> nat \<Rightarrow> nat \<Rightarrow> nat \<Rightarrow> (jtext \<times> jtext jvalue) list option" where
  "parseRelayV2AuthJson source depth keys nodes =
     (case parseRelayV2JsonObject source \<lparr>maxDepth = depth, maxDirectKeys = keys, maxTotalKeys = keys, maxNodes = nodes\<rparr> of
        Inl e \<Rightarrow> None
      | Inr kvs \<Rightarrow> Some kvs)"

definition parseClaims :: "string \<Rightarrow> access_claims option" where
  "parseClaims payload = do {
     source \<leftarrow> utf8_decode payload;
     kvs \<leftarrow> parseRelayV2AuthJson source 2 14 15;
     (if hasExactClaimKeys kvs then Some () else None);
     c \<leftarrow> claims_of kvs;
     (if validateClaimSemantics c then Some c else None)
   }"

definition canonicalClaimsObject :: "access_claims \<Rightarrow> (jtext \<times> jtext jvalue) list" where
  "canonicalClaimsObject c =
     map (map_prod units id)
       ([(''v'', JInt 2), (''iss'', JStr (ac_iss c)), (''aud'', JStr (ac_aud c)), (''kid'', JStr (ac_kid c)),
         (''tokenUse'', JStr (units ''access'')), (''role'', JStr (access_role_name (ac_role c))),
         (''hostId'', JStr (ac_hostId c)), (''principalId'', JStr (ac_principalId c)), (''grantId'', JStr (ac_grantId c))]
        @ (case (ac_role c, ac_clientInstanceId c) of (ClientRole, Some i) \<Rightarrow> [(''clientInstanceId'', JStr i)] | _ \<Rightarrow> [])
        @ [(''iat'', JInt (ac_iat c)), (''nbf'', JInt (ac_nbf c)), (''exp'', JInt (ac_exp c)), (''jti'', JStr (ac_jti c))])"

section \<open>Tokens\<close>

definition decodeCanonicalRelayV2Base64Url :: "jtext \<Rightarrow> nat \<Rightarrow> string option" where
  "decodeCanonicalRelayV2Base64Url s maxDecodedBytes =
     (if s = [] \<or> length s mod 4 = 1 \<or> \<not> list_all url_alphabet s \<or> length s * 3 div 4 > maxDecodedBytes then None
      else
        (let decoded = base64url_bytes s in
         if length decoded > maxDecodedBytes \<or> base64url decoded \<noteq> s then None else Some decoded))"

definition validateSecret :: "string \<Rightarrow> bool" where
  "validateSecret secret \<longleftrightarrow> 32 \<le> length secret \<and> length secret \<le> 64"

definition claims_payload :: "access_claims \<Rightarrow> string" where
  "claims_payload c = utf8_encode (object_text (\<lambda>m e. []) (canonicalClaimsObject c))"

definition signed_text :: "jtext \<Rightarrow> jtext" where
  "signed_text payload = RELAY_V2_ACCESS_TOKEN_PREFIX @ 46 # payload"

definition encodeRelayV2AccessToken :: "(string \<Rightarrow> jtext \<Rightarrow> string) \<Rightarrow> access_claims \<Rightarrow> string \<Rightarrow> jtext option" where
  "encodeRelayV2AccessToken hmac c secret =
     (if \<not> validateClaimSemantics c \<or> \<not> validateSecret secret then None
      else
        (let signed = signed_text (base64url (claims_payload c)) in
         Some (signed @ 46 # base64url (hmac secret signed))))"

definition in_window :: "access_claims \<Rightarrow> int \<Rightarrow> int \<Rightarrow> bool" where
  "in_window c skew now \<longleftrightarrow> ac_iat c - skew \<le> now \<and> ac_nbf c - skew \<le> now \<and> now < ac_exp c + skew"

definition verify_claims :: "(string \<Rightarrow> jtext \<Rightarrow> string) \<Rightarrow> token_verification \<Rightarrow> jtext \<Rightarrow> string \<Rightarrow> access_claims \<Rightarrow> access_claims option" where
  "verify_claims hmac options payloadSegment mac c =
     (case tv_resolveSecret options (ac_kid c) of
        None \<Rightarrow> None
      | Some secret \<Rightarrow>
          (let audience = (case tv_expectedAudience options of None \<Rightarrow> RELAY_V2_ACCESS_TOKEN_AUDIENCE | Some a \<Rightarrow> a);
               skew = (case tv_clockSkewSeconds options of None \<Rightarrow> RELAY_V2_MAX_CLOCK_SKEW_SECONDS | Some s \<Rightarrow> s) in
           if \<not> validateSecret secret \<or> hmac secret (signed_text payloadSegment) \<noteq> mac then None
           else if ac_iss c \<noteq> tv_expectedIssuer options \<or> ac_aud c \<noteq> audience then None
           else if \<not> isTimestamp (tv_nowSeconds options) \<or> skew < 0 \<or> skew > RELAY_V2_MAX_CLOCK_SKEW_SECONDS then None
           else if \<not> in_window c skew (tv_nowSeconds options) then None
           else Some c))"

definition verifyRelayV2AccessToken :: "(string \<Rightarrow> jtext \<Rightarrow> string) \<Rightarrow> jtext \<Rightarrow> token_verification \<Rightarrow> access_claims option" where
  "verifyRelayV2AccessToken hmac token options =
     (if token = [] \<or> length (utf8_bytes token) > MAX_TOKEN_BYTES \<or> list_ex js_white token then None
      else
        (case split_units 46 token of
           [prefix, payloadSegment, macSegment] \<Rightarrow>
             if prefix \<noteq> RELAY_V2_ACCESS_TOKEN_PREFIX then None
             else do {
               payload \<leftarrow> decodeCanonicalRelayV2Base64Url payloadSegment MAX_PAYLOAD_BYTES;
               mac \<leftarrow> decodeCanonicalRelayV2Base64Url macSegment MAC_BYTES;
               (if length mac = MAC_BYTES then Some () else None);
               c \<leftarrow> parseClaims payload;
               verify_claims hmac options payloadSegment mac c
             }
         | _ \<Rightarrow> None))"

end
