(* ===== verification/RV2_Issuer.thy ===== *)
theory RV2_Issuer
  imports RV2_Token
begin

text \<open>
  The issuer of Relay v2 access tokens (\<open>src/relay/v2/issuer.ts\<close>): a keyring with one active key, older
  keys that only verify, and the ids of the removed ones; issuing a token, rotating the active key,
  removing an old one; and the authorization of a token against a grant
  (\<open>src/relay/v2/auth.ts\<close>). The arguments have the types the code declares; the tests for the shape of a
  record or an array are what the types say. Random bytes and the clock are arguments.
\<close>

section \<open>Data\<close>

record active_key =
  ak_kid :: jtext
  ak_secretBase64url :: jtext
  ak_createdAtSeconds :: int
  ak_maxIssuedExpSeconds :: "int option"

record verify_only_key =
  vk_kid :: jtext
  vk_secretBase64url :: jtext
  vk_createdAtSeconds :: int
  vk_verifyUntilSeconds :: int

record keyring =
  kr_version :: int
  kr_issuerId :: jtext
  kr_activeKey :: active_key
  kr_verifyOnlyKeys :: "verify_only_key list"
  kr_retiredKids :: "jtext list"

record token_preparation =
  tp_role :: access_role
  tp_hostId :: jtext
  tp_principalId :: jtext
  tp_grantId :: jtext
  tp_clientInstanceId :: "jtext option"
  tp_nowSeconds :: int
  tp_notBeforeSeconds :: "int option"
  tp_ttlSeconds :: "int option"
  tp_jti :: "jtext option"

datatype issuer_error = StateInvalid | KidCannotBeReused | VerifyOnlyKeyMissing | VerifyOnlyKeyRequired | AccessTokenInvalid

definition RELAY_V2_ISSUER_KEYRING_VERSION :: int where
  "RELAY_V2_ISSUER_KEYRING_VERSION = 1"

definition MIN_SECRET_BYTES :: nat where
  "MIN_SECRET_BYTES = 32"

definition MAX_SECRET_BYTES :: nat where
  "MAX_SECRET_BYTES = 64"

definition if_undefined :: "'a \<Rightarrow> 'a option \<Rightarrow> 'a" where
  "if_undefined d x = (case x of None \<Rightarrow> d | Some v \<Rightarrow> v)"

section \<open>Keyrings\<close>

definition isSafeTimestamp :: "int \<Rightarrow> bool" where
  "isSafeTimestamp n \<longleftrightarrow> 0 \<le> n \<and> n \<le> MAX_SAFE_INTEGER"

definition decodeStoredSecret :: "jtext \<Rightarrow> string option" where
  "decodeStoredSecret s =
     (case decodeCanonicalRelayV2Base64Url s MAX_SECRET_BYTES of
        None \<Rightarrow> None
      | Some decoded \<Rightarrow>
          if length decoded < MIN_SECRET_BYTES \<or> length decoded > MAX_SECRET_BYTES then None else Some decoded)"

definition isActiveKey :: "active_key \<Rightarrow> bool" where
  "isActiveKey k \<longleftrightarrow>
     auth_identifier (ak_kid k) \<and> isSafeTimestamp (ak_createdAtSeconds k)
     \<and> (case ak_maxIssuedExpSeconds k of None \<Rightarrow> True | Some m \<Rightarrow> isSafeTimestamp m \<and> ak_createdAtSeconds k \<le> m)
     \<and> decodeStoredSecret (ak_secretBase64url k) \<noteq> None"

definition isVerifyOnlyKey :: "verify_only_key \<Rightarrow> bool" where
  "isVerifyOnlyKey k \<longleftrightarrow>
     auth_identifier (vk_kid k) \<and> isSafeTimestamp (vk_createdAtSeconds k) \<and> isSafeTimestamp (vk_verifyUntilSeconds k)
     \<and> vk_createdAtSeconds k \<le> vk_verifyUntilSeconds k
     \<and> decodeStoredSecret (vk_secretBase64url k) \<noteq> None"

definition currentKids :: "keyring \<Rightarrow> jtext list" where
  "currentKids r = ak_kid (kr_activeKey r) # map vk_kid (kr_verifyOnlyKeys r)"

definition parseRelayV2IssuerKeyring :: "keyring \<Rightarrow> issuer_error + keyring" where
  "parseRelayV2IssuerKeyring r =
     (if kr_version r \<noteq> RELAY_V2_ISSUER_KEYRING_VERSION \<or> \<not> auth_identifier (kr_issuerId r) \<or> \<not> isActiveKey (kr_activeKey r)
        \<or> \<not> list_all isVerifyOnlyKey (kr_verifyOnlyKeys r) \<or> \<not> list_all auth_identifier (kr_retiredKids r)
        \<or> \<not> distinct (currentKids r) \<or> \<not> distinct (kr_retiredKids r) \<or> \<not> distinct (currentKids r @ kr_retiredKids r)
      then Inl StateInvalid else Inr r)"

text \<open>\<open>fresh\<close> stands for \<open>randomBytes(32)\<close>.\<close>

definition validateNewSecret :: "string \<Rightarrow> jtext option \<Rightarrow> issuer_error + jtext" where
  "validateNewSecret fresh secretBase64url =
     (let secret = if_undefined (base64url fresh) secretBase64url in
      if decodeStoredSecret secret = None then Inl StateInvalid else Inr secret)"

definition createRelayV2IssuerKeyring ::
  "string \<Rightarrow> int \<Rightarrow> jtext \<Rightarrow> jtext \<Rightarrow> jtext option \<Rightarrow> int option \<Rightarrow> issuer_error + keyring" where
  "createRelayV2IssuerKeyring fresh clock issuerId kid secretBase64url nowSeconds =
     (let createdAtSeconds = if_undefined clock nowSeconds in
      if \<not> auth_identifier issuerId \<or> \<not> auth_identifier kid \<or> \<not> isSafeTimestamp createdAtSeconds then Inl StateInvalid
      else
        (case validateNewSecret fresh secretBase64url of
           Inl e \<Rightarrow> Inl e
         | Inr secret \<Rightarrow>
             parseRelayV2IssuerKeyring
               \<lparr>kr_version = RELAY_V2_ISSUER_KEYRING_VERSION, kr_issuerId = issuerId,
                kr_activeKey = \<lparr>ak_kid = kid, ak_secretBase64url = secret, ak_createdAtSeconds = createdAtSeconds,
                  ak_maxIssuedExpSeconds = None\<rparr>,
                kr_verifyOnlyKeys = [], kr_retiredKids = []\<rparr>))"

section \<open>Issuing and verifying\<close>

definition validatePreparation :: "token_preparation \<Rightarrow> bool" where
  "validatePreparation p \<longleftrightarrow>
     list_all auth_identifier [tp_hostId p, tp_principalId p, tp_grantId p]
     \<and> client_identifier (tp_role p) (tp_clientInstanceId p)
     \<and> isSafeTimestamp (tp_nowSeconds p)
     \<and> (case tp_notBeforeSeconds p of None \<Rightarrow> True | Some n \<Rightarrow> isSafeTimestamp n)
     \<and> (case tp_ttlSeconds p of None \<Rightarrow> True | Some t \<Rightarrow> 0 < t \<and> t \<le> RELAY_V2_MAX_ACCESS_TTL_SECONDS)
     \<and> (case tp_jti p of None \<Rightarrow> True | Some j \<Rightarrow> auth_identifier j)"

definition prepared_claims :: "jtext \<Rightarrow> keyring \<Rightarrow> token_preparation \<Rightarrow> access_claims" where
  "prepared_claims uuid r p =
     \<lparr>ac_iss = kr_issuerId r, ac_aud = RELAY_V2_ACCESS_TOKEN_AUDIENCE, ac_kid = ak_kid (kr_activeKey r), ac_role = tp_role p,
      ac_hostId = tp_hostId p, ac_principalId = tp_principalId p, ac_grantId = tp_grantId p,
      ac_clientInstanceId = (if tp_role p = ClientRole then tp_clientInstanceId p else None),
      ac_iat = tp_nowSeconds p, ac_nbf = if_undefined (tp_nowSeconds p) (tp_notBeforeSeconds p),
      ac_exp = tp_nowSeconds p + if_undefined RELAY_V2_MAX_ACCESS_TTL_SECONDS (tp_ttlSeconds p),
      ac_jti = if_undefined uuid (tp_jti p)\<rparr>"

definition note_issued :: "int \<Rightarrow> keyring \<Rightarrow> keyring" where
  "note_issued expSeconds r =
     r\<lparr>kr_activeKey := (kr_activeKey r)\<lparr>ak_maxIssuedExpSeconds := Some (max (if_undefined 0 (ak_maxIssuedExpSeconds (kr_activeKey r))) expSeconds)\<rparr>\<rparr>"

definition prepareRelayV2AccessTokenIssuance ::
  "(string \<Rightarrow> jtext \<Rightarrow> string) \<Rightarrow> jtext \<Rightarrow> keyring \<Rightarrow> token_preparation \<Rightarrow> issuer_error + jtext \<times> access_claims \<times> keyring" where
  "prepareRelayV2AccessTokenIssuance hmac uuid keyringValue p =
     (case parseRelayV2IssuerKeyring keyringValue of
        Inl e \<Rightarrow> Inl e
      | Inr r \<Rightarrow>
          (let c = prepared_claims uuid r p in
           if \<not> validatePreparation p \<or> tp_nowSeconds p < ak_createdAtSeconds (kr_activeKey r) then Inl StateInvalid
           else if ac_exp c > MAX_SAFE_INTEGER \<or> ac_nbf c < tp_nowSeconds p \<or> ac_nbf c \<ge> ac_exp c then Inl StateInvalid
           else
             (case decodeStoredSecret (ak_secretBase64url (kr_activeKey r)) of
                None \<Rightarrow> Inl StateInvalid
              | Some secret \<Rightarrow>
                  (case encodeRelayV2AccessToken hmac c secret of
                     None \<Rightarrow> Inl AccessTokenInvalid
                   | Some token \<Rightarrow>
                       (case parseRelayV2IssuerKeyring (note_issued (ac_exp c) r) of
                          Inl e \<Rightarrow> Inl e
                        | Inr nextKeyring \<Rightarrow> Inr (token, c, nextKeyring))))))"

definition resolveSecret :: "keyring \<Rightarrow> jtext \<Rightarrow> string option" where
  "resolveSecret r kid =
     (if ak_kid (kr_activeKey r) = kid then decodeStoredSecret (ak_secretBase64url (kr_activeKey r))
      else
        (case find (\<lambda>k. vk_kid k = kid) (kr_verifyOnlyKeys r) of
           None \<Rightarrow> None
         | Some k \<Rightarrow> decodeStoredSecret (vk_secretBase64url k)))"

definition issuer_verification :: "keyring \<Rightarrow> int \<Rightarrow> int option \<Rightarrow> token_verification" where
  "issuer_verification r nowSeconds clockSkewSeconds =
     \<lparr>tv_expectedIssuer = kr_issuerId r, tv_expectedAudience = None, tv_nowSeconds = nowSeconds,
      tv_clockSkewSeconds = clockSkewSeconds, tv_resolveSecret = resolveSecret r\<rparr>"

definition verifyRelayV2IssuerAccessToken ::
  "(string \<Rightarrow> jtext \<Rightarrow> string) \<Rightarrow> jtext \<Rightarrow> keyring \<Rightarrow> int \<Rightarrow> int option \<Rightarrow> issuer_error + access_claims" where
  "verifyRelayV2IssuerAccessToken hmac token keyringValue nowSeconds clockSkewSeconds =
     (case parseRelayV2IssuerKeyring keyringValue of
        Inl e \<Rightarrow> Inl e
      | Inr r \<Rightarrow>
          (case verifyRelayV2AccessToken hmac token (issuer_verification r nowSeconds clockSkewSeconds) of
             None \<Rightarrow> Inl AccessTokenInvalid
           | Some c \<Rightarrow> Inr c))"

section \<open>Rotating and removing keys\<close>

definition demoted :: "int \<Rightarrow> active_key \<Rightarrow> verify_only_key" where
  "demoted rotatedAtSeconds k =
     \<lparr>vk_kid = ak_kid k, vk_secretBase64url = ak_secretBase64url k, vk_createdAtSeconds = ak_createdAtSeconds k,
      vk_verifyUntilSeconds = max rotatedAtSeconds
        (if_undefined rotatedAtSeconds (ak_maxIssuedExpSeconds k) + RELAY_V2_MAX_CLOCK_SKEW_SECONDS)\<rparr>"

definition rotateRelayV2IssuerKeyring ::
  "string \<Rightarrow> int \<Rightarrow> keyring \<Rightarrow> jtext \<Rightarrow> jtext option \<Rightarrow> int option \<Rightarrow> issuer_error + keyring" where
  "rotateRelayV2IssuerKeyring fresh clock keyringValue kid secretBase64url nowSeconds =
     (case parseRelayV2IssuerKeyring keyringValue of
        Inl e \<Rightarrow> Inl e
      | Inr r \<Rightarrow>
          (let rotatedAtSeconds = if_undefined clock nowSeconds in
           if \<not> auth_identifier kid \<or> \<not> isSafeTimestamp rotatedAtSeconds
             \<or> rotatedAtSeconds < ak_createdAtSeconds (kr_activeKey r) then Inl StateInvalid
           else if kid \<in> set (currentKids r @ kr_retiredKids r) then Inl KidCannotBeReused
           else
             (case validateNewSecret fresh secretBase64url of
                Inl e \<Rightarrow> Inl e
              | Inr secret \<Rightarrow>
                  parseRelayV2IssuerKeyring
                    (r\<lparr>kr_activeKey := \<lparr>ak_kid = kid, ak_secretBase64url = secret, ak_createdAtSeconds = rotatedAtSeconds,
                         ak_maxIssuedExpSeconds = None\<rparr>,
                       kr_verifyOnlyKeys := kr_verifyOnlyKeys r @ [demoted rotatedAtSeconds (kr_activeKey r)]\<rparr>))))"

definition removeRelayV2VerifyOnlyKey :: "keyring \<Rightarrow> jtext \<Rightarrow> int \<Rightarrow> bool option \<Rightarrow> issuer_error + keyring" where
  "removeRelayV2VerifyOnlyKey keyringValue kid nowSeconds emergency =
     (case parseRelayV2IssuerKeyring keyringValue of
        Inl e \<Rightarrow> Inl e
      | Inr r \<Rightarrow>
          if \<not> auth_identifier kid \<or> \<not> isSafeTimestamp nowSeconds then Inl StateInvalid
          else
            (case find (\<lambda>k. vk_kid k = kid) (kr_verifyOnlyKeys r) of
               None \<Rightarrow> Inl VerifyOnlyKeyMissing
             | Some k \<Rightarrow>
                 if emergency \<noteq> Some True \<and> nowSeconds < vk_verifyUntilSeconds k then Inl VerifyOnlyKeyRequired
                 else
                   parseRelayV2IssuerKeyring
                     (r\<lparr>kr_verifyOnlyKeys := filter (\<lambda>k. vk_kid k \<noteq> kid) (kr_verifyOnlyKeys r),
                        kr_retiredKids := kr_retiredKids r @ [kid]\<rparr>)))"

text \<open>
  The life of a keyring: its owner issues tokens, rotates and removes keys. \<open>allowed\<close> says when, and
  whether as an emergency, keys are removed.
\<close>

inductive keyring_step :: "(string \<Rightarrow> jtext \<Rightarrow> string) \<Rightarrow> (int \<Rightarrow> bool option \<Rightarrow> bool) \<Rightarrow> keyring \<Rightarrow> keyring \<Rightarrow> bool"
  for hmac allowed where
  issues: "prepareRelayV2AccessTokenIssuance hmac uuid r p = Inr (token, c, r') \<Longrightarrow> keyring_step hmac allowed r r'"
| rotates: "rotateRelayV2IssuerKeyring fresh clock r kid secret now = Inr r' \<Longrightarrow> keyring_step hmac allowed r r'"
| removes: "removeRelayV2VerifyOnlyKey r kid now emergency = Inr r' \<Longrightarrow> allowed now emergency \<Longrightarrow> keyring_step hmac allowed r r'"

abbreviation keyring_run :: "(string \<Rightarrow> jtext \<Rightarrow> string) \<Rightarrow> (int \<Rightarrow> bool option \<Rightarrow> bool) \<Rightarrow> keyring \<Rightarrow> keyring \<Rightarrow> bool" where
  "keyring_run hmac allowed \<equiv> (keyring_step hmac allowed)\<^sup>*\<^sup>*"

section \<open>Authorizations\<close>

record grant_binding =
  gb_role :: access_role
  gb_hostId :: jtext
  gb_principalId :: jtext
  gb_grantId :: jtext
  gb_clientInstanceId :: "jtext option"
  gb_revokedAtSeconds :: "int option"
  gb_expiresAtSeconds :: "int option"

record auth_context =
  cx_role :: access_role
  cx_hostId :: jtext
  cx_principalId :: jtext
  cx_grantId :: jtext
  cx_clientInstanceId :: "jtext option"
  cx_jti :: jtext
  cx_kid :: jtext
  cx_expiresAtMs :: int

record access_authorization =
  aa_keyring :: keyring
  aa_grant :: "grant_binding option"
  aa_nowSeconds :: int
  aa_clockSkewSeconds :: "int option"
  aa_expectedRole :: "access_role option"
  aa_expectedHostId :: "jtext option"

datatype auth_error = AUTH_INVALID | GRANT_NOT_FOUND | ROLE_MISMATCH | PERMISSION_DENIED

definition isTimestampOrNull :: "int option \<Rightarrow> bool" where
  "isTimestampOrNull x = (case x of None \<Rightarrow> True | Some n \<Rightarrow> isSafeTimestamp n)"

definition validateGrant :: "grant_binding \<Rightarrow> bool" where
  "validateGrant g \<longleftrightarrow>
     list_all auth_identifier [gb_hostId g, gb_principalId g, gb_grantId g]
     \<and> client_identifier (gb_role g) (gb_clientInstanceId g)
     \<and> isTimestampOrNull (gb_revokedAtSeconds g) \<and> isTimestampOrNull (gb_expiresAtSeconds g)"

definition grant_context :: "access_claims \<Rightarrow> auth_context" where
  "grant_context c =
     \<lparr>cx_role = ac_role c, cx_hostId = ac_hostId c, cx_principalId = ac_principalId c, cx_grantId = ac_grantId c,
      cx_clientInstanceId = ac_clientInstanceId c, cx_jti = ac_jti c, cx_kid = ac_kid c, cx_expiresAtMs = ac_exp c * 1000\<rparr>"

definition bindClaims :: "access_claims \<Rightarrow> access_authorization \<Rightarrow> auth_error + auth_context" where
  "bindClaims c a =
     (if aa_expectedRole a \<noteq> None \<and> aa_expectedRole a \<noteq> Some (ac_role c) then Inl ROLE_MISMATCH
      else if (case aa_expectedHostId a of None \<Rightarrow> False | Some h \<Rightarrow> \<not> auth_identifier h \<or> ac_hostId c \<noteq> h) then Inl PERMISSION_DENIED
      else
        (case aa_grant a of
           None \<Rightarrow> Inl GRANT_NOT_FOUND
         | Some g \<Rightarrow>
             if \<not> validateGrant g \<or> gb_revokedAtSeconds g \<noteq> None then Inl PERMISSION_DENIED
             else if (case gb_expiresAtSeconds g of None \<Rightarrow> False | Some e \<Rightarrow> aa_nowSeconds a \<ge> e) then Inl PERMISSION_DENIED
             else if ac_role c \<noteq> gb_role g then Inl ROLE_MISMATCH
             else if ac_hostId c \<noteq> gb_hostId g \<or> ac_principalId c \<noteq> gb_principalId g \<or> ac_grantId c \<noteq> gb_grantId g
               \<or> ac_clientInstanceId c \<noteq> gb_clientInstanceId g then Inl PERMISSION_DENIED
             else Inr (grant_context c)))"

definition verifyRelayV2AccessAuthorization ::
  "(string \<Rightarrow> jtext \<Rightarrow> string) \<Rightarrow> jtext \<Rightarrow> access_authorization \<Rightarrow> auth_error + auth_context" where
  "verifyRelayV2AccessAuthorization hmac token a =
     (case parseRelayV2IssuerKeyring (aa_keyring a) of
        Inl e \<Rightarrow> Inl AUTH_INVALID
      | Inr r \<Rightarrow>
          (case verifyRelayV2IssuerAccessToken hmac token r (aa_nowSeconds a) (aa_clockSkewSeconds a) of
             Inl e \<Rightarrow> Inl AUTH_INVALID
           | Inr c \<Rightarrow> bindClaims c a))"

end
