(* ===== verification/RV2_TokenFacts.thy ===== *)
theory RV2_TokenFacts
  imports RV2_Token
begin

text \<open>
  Access tokens are read back: what \<open>encodeRelayV2AccessToken\<close> writes, \<open>verifyRelayV2AccessToken\<close> accepts
  within the time window of the claims, and it accepts nothing but a text with the HMAC of its payload.
\<close>

section \<open>The text of the claims\<close>

lemma unpaired_append: "\<not> hasUnpairedSurrogate a \<Longrightarrow> \<not> hasUnpairedSurrogate b \<Longrightarrow> \<not> hasUnpairedSurrogate (a @ b)"
proof (induction a rule: hasUnpairedSurrogate.induct)
  case (2 c)
  then show ?case by (cases b) auto
next
  case (3 c d ds)
  then show ?case by (auto split: if_splits)
qed simp

text \<open>A text of UTF-16 units without lone surrogates.\<close>

definition proper_text :: "jtext \<Rightarrow> bool" where
  "proper_text s \<longleftrightarrow> (\<forall>c \<in> set s. c < 65536) \<and> \<not> hasUnpairedSurrogate s"

lemma proper_append: "proper_text a \<Longrightarrow> proper_text b \<Longrightarrow> proper_text (a @ b)"
  by (auto simp: proper_text_def unpaired_append)

lemma proper_Nil [simp]: "proper_text []"
  by (simp add: proper_text_def)

lemma proper_unit: "c < 65536 \<Longrightarrow> \<not> high_surrogate c \<Longrightarrow> \<not> low_surrogate c \<Longrightarrow> proper_text (c # s) = proper_text s"
  by (cases s) (auto simp: proper_text_def)

lemma proper_Cons [simp]: "c < 128 \<Longrightarrow> proper_text (c # s) = proper_text s"
  by (rule proper_unit) (simp_all add: high_surrogate_def low_surrogate_def)

lemma proper_pair: "high_surrogate c \<Longrightarrow> low_surrogate d \<Longrightarrow> proper_text (c # d # s) = proper_text s"
  by (auto simp: proper_text_def high_surrogate_def low_surrogate_def)

lemma proper_ascii: "list_all (\<lambda>c. c < 128) s \<Longrightarrow> proper_text s"
  by (induction s) simp_all

lemma hex_digit_small: "d < 16 \<Longrightarrow> hex_digit_unit d < 128"
  by (simp add: hex_digit_unit_def)

lemma proper_escape: "c < 65536 \<Longrightarrow> proper_text (unicode_escape c)"
  using hex_digit_small [of "c div 4096"] escape_digits [of c] by (simp add: unicode_escape_def hex_digit_small)

lemma proper_quote_unit: "c < 65536 \<Longrightarrow> proper_text (quote_unit c)"
  unfolding quote_unit_def by (simp add: proper_escape proper_unit)

lemma proper_quote: "\<forall>c \<in> set s. c < 65536 \<Longrightarrow> proper_text (quote_units s)"
  by (induction s rule: quote_units.induct) (simp_all add: proper_quote_unit proper_append proper_pair)

lemma proper_string: "\<forall>c \<in> set s. c < 65536 \<Longrightarrow> proper_text (stringify_string s)"
  by (simp add: stringify_string_def proper_quote proper_append)

lemma proper_int: "proper_text (stringify_int n)"
proof (rule proper_ascii)
  have "list_all (\<lambda>c. c < 128) (decimal_units m)" for m
    using decimal_digits [of m] by (auto simp: list_all_iff digit_unit_def)
  then show "list_all (\<lambda>c. c < 128) (stringify_int n)" by (simp add: stringify_int_def)
qed

lemma proper_join: "\<forall>s \<in> set ss. proper_text s \<Longrightarrow> proper_text (join_units ss)"
  by (induction ss rule: join_units.induct) (simp_all add: proper_append)

definition flat_member :: "jtext \<times> jtext jvalue \<Rightarrow> bool" where
  "flat_member = (\<lambda>(k, v). (\<forall>c \<in> set k. c < 65536) \<and> (case v of JInt n \<Rightarrow> True | JStr s \<Rightarrow> \<forall>c \<in> set s. c < 65536 | _ \<Rightarrow> False))"

lemma proper_member: "flat_member (k, v) \<Longrightarrow> proper_text (stringify_string k @ 58 # canonicalJson dec v)"
  by (cases v) (simp_all add: flat_member_def proper_append proper_string proper_int)

lemma proper_object:
  assumes "list_all flat_member kvs"
  shows "proper_text (object_text dec kvs)"
proof -
  have "proper_text (member_text dec x)" if "x \<in> set kvs" for x
  proof -
    obtain k v where x: "x = (k, v)" by force
    have "flat_member (k, v)" using that assms x by (simp add: list_all_iff)
    then show ?thesis by (simp add: x proper_member)
  qed
  then show ?thesis by (simp add: object_text_def proper_append proper_join)
qed

lemma flat_object:
  assumes "list_all flat_member kvs" and "\<forall>k n. (k, JInt n) \<in> set kvs \<longrightarrow> \<bar>n\<bar> \<le> MAX_SAFE_INTEGER" and "distinct (map fst kvs)"
    and "length kvs \<le> maxDirectKeys l" and "0 < maxDepth l"
  shows "plain_json (JObj kvs)" and "fits l (JObj kvs) 0" and "json_nodes (JObj kvs) = 1 + length kvs"
    and "json_keys (JObj kvs) = length kvs" and "map (map_prod id sort_json) kvs = kvs"
proof -
  have v: "plain_json v \<and> fits l v d \<and> json_nodes v = 1 \<and> json_keys v = 0 \<and> sort_json v = v \<and> (\<forall>c \<in> set k. c < 65536)"
    if "(k, v) \<in> set kvs" for k v d
  proof -
    have "flat_member (k, v)" and "\<And>n. v = JInt n \<Longrightarrow> \<bar>n\<bar> \<le> MAX_SAFE_INTEGER"
      using assms(1, 2) that by (auto simp: list_all_iff)
    then show ?thesis by (cases v) (simp_all add: flat_member_def)
  qed
  have n: "map (json_nodes \<circ> snd) kvs = map (\<lambda>_. 1) kvs" "map (json_keys \<circ> snd) kvs = map (\<lambda>_. 0) kvs"
    using v by auto
  have "sum_list (map (json_nodes \<circ> snd) kvs) = length kvs" "sum_list (map (json_keys \<circ> snd) kvs) = 0"
    unfolding n by (simp_all add: sum_list_triv)
  then show "json_nodes (JObj kvs) = 1 + length kvs" "json_keys (JObj kvs) = length kvs" by simp_all
  show "plain_json (JObj kvs)" "fits l (JObj kvs) 0" using v assms(3-5) by (auto simp: list_all_iff)
  show "map (map_prod id sort_json) kvs = kvs" by (rule map_idI) (use v in auto)
qed

section \<open>Claims are read back\<close>

text \<open>The claims are made of JavaScript strings.\<close>

definition utf16_claims :: "access_claims \<Rightarrow> bool" where
  "utf16_claims c \<longleftrightarrow>
     list_all (\<lambda>s. \<forall>u \<in> set s. u < 65536)
       ([ac_iss c, ac_aud c, ac_kid c, ac_hostId c, ac_principalId c, ac_grantId c, ac_jti c]
        @ (case ac_clientInstanceId c of None \<Rightarrow> [] | Some s \<Rightarrow> [s]))"

lemma claims_cases:
  assumes "validateClaimSemantics c"
  obtains "ac_role c = HostRole" "ac_clientInstanceId c = None" | i where "ac_role c = ClientRole" "ac_clientInstanceId c = Some i"
  using assms by (cases "ac_role c"; cases "ac_clientInstanceId c") (auto simp: validateClaimSemantics_def client_identifier_def)

lemma timestamp_safe: "isTimestamp n \<Longrightarrow> \<bar>n\<bar> \<le> MAX_SAFE_INTEGER"
  by (simp add: isTimestamp_def MAX_TIMESTAMP_SECONDS_def MAX_SAFE_INTEGER_def)

lemma canonical_flat:
  assumes "validateClaimSemantics c" and "utf16_claims c"
  shows "list_all flat_member (canonicalClaimsObject c)" and "distinct (map fst (canonicalClaimsObject c))"
    and "length (canonicalClaimsObject c) \<le> 14" and "hasExactClaimKeys (canonicalClaimsObject c)"
    and "claims_of (canonicalClaimsObject c) = Some c"
    and "\<forall>k n. (k, JInt n) \<in> set (canonicalClaimsObject c) \<longrightarrow> \<bar>n\<bar> \<le> MAX_SAFE_INTEGER"
proof -
  note [simp] = timestamp_safe
  have t: "isTimestamp (ac_iat c)" "isTimestamp (ac_nbf c)" "isTimestamp (ac_exp c)"
    using assms(1) by (simp_all add: validateClaimSemantics_def)
  have two: "\<bar>2\<bar> \<le> MAX_SAFE_INTEGER" by (simp add: MAX_SAFE_INTEGER_def)
  from assms(1) show "list_all flat_member (canonicalClaimsObject c)"
    by (cases rule: claims_cases) (use assms(2) in \<open>simp_all add: canonicalClaimsObject_def flat_member_def utf16_claims_def\<close>)
  from assms(1) show "distinct (map fst (canonicalClaimsObject c))" "length (canonicalClaimsObject c) \<le> 14"
    "hasExactClaimKeys (canonicalClaimsObject c)"
    by (cases rule: claims_cases; simp add: canonicalClaimsObject_def hasExactClaimKeys_def REQUIRED_CLAIM_KEYS_def OPTIONAL_CLAIM_KEYS_def)+
  from assms(1) show "claims_of (canonicalClaimsObject c) = Some c"
    by (cases rule: claims_cases)
      (use t two in \<open>simp_all add: canonicalClaimsObject_def claims_of_def string_member_def integer_member_def safe_integer_def access_role_of_def\<close>)
  from assms(1) show "\<forall>k n. (k, JInt n) \<in> set (canonicalClaimsObject c) \<longrightarrow> \<bar>n\<bar> \<le> MAX_SAFE_INTEGER"
    by (cases rule: claims_cases) (use t two in \<open>auto simp: canonicalClaimsObject_def\<close>)
qed

lemma claims_text:
  assumes "validateClaimSemantics c" and "utf16_claims c"
  shows "parseClaims (claims_payload c) = Some c"
proof -
  let ?o = "canonicalClaimsObject c" and ?t = "object_text (\<lambda>m e. []) (canonicalClaimsObject c)"
  let ?l = "\<lparr>maxDepth = 2, maxDirectKeys = 14, maxTotalKeys = 14, maxNodes = 15\<rparr>"
  note f = canonical_flat [OF assms]
  note o = flat_object [OF f(1, 6, 2), where l = ?l]
  have "proper_text ?t" by (rule proper_object [OF f(1)])
  then have "utf8_decode (utf8_encode ?t) = Some ?t"
    by (intro utf8_round_trip) (auto simp: proper_text_def object_text_def)
  moreover have "parseRelayV2AuthJson ?t 2 14 15 = Some ?o"
    using object_reads [of ?o ?l "\<lambda>m e. []"] o f(3) by (simp add: parseRelayV2AuthJson_def del: json_nodes.simps json_keys.simps fits.simps plain_json.simps)
  ultimately show ?thesis using f(4, 5) assms(1) by (simp add: parseClaims_def claims_payload_def)
qed

section \<open>Tokens are read back\<close>

lemma decode_canonical:
  assumes "bs \<noteq> []" and "length bs \<le> n"
  shows "decodeCanonicalRelayV2Base64Url (base64url bs) n = Some bs"
proof -
  have l: "length (base64url bs) = (4 * length bs + 2) div 3" by (rule base64url_length)
  have "base64url bs \<noteq> []" using l assms(1) by (cases bs) auto
  moreover have "(4 * length bs + 2) div 3 mod 4 \<noteq> 1" and "(4 * length bs + 2) div 3 * 3 div 4 \<le> length bs" by presburger+
  ultimately show ?thesis
    using assms(2) base64url_facts [of bs] l by (simp add: decodeCanonicalRelayV2Base64Url_def Let_def)
qed

lemma decode_canonical_inverse: "decodeCanonicalRelayV2Base64Url s n = Some bs \<Longrightarrow> s = base64url bs \<and> length bs \<le> n \<and> bs \<noteq> []"
  by (auto simp: decodeCanonicalRelayV2Base64Url_def Let_def base64url_Cons split: if_splits)

lemma ascii_bytes: "list_all (\<lambda>c. c < 128) s \<Longrightarrow> utf8_bytes s = s"
  by (induction s rule: utf8_bytes.induct) (auto simp: utf8_unit_def high_surrogate_def)

lemma url_ascii: "list_all (\<lambda>c. c < 128) (base64url bs)" "46 \<notin> set (base64url bs)" "\<not> list_ex js_white (base64url bs)"
  using base64url_facts(2) [of bs] by (auto simp: list_all_iff list_ex_iff dest!: bspec url_alphabet_plain)

lemma prefix_plain:
  "46 \<notin> set RELAY_V2_ACCESS_TOKEN_PREFIX" "list_all (\<lambda>c. c < 128) RELAY_V2_ACCESS_TOKEN_PREFIX"
  "\<not> list_ex js_white RELAY_V2_ACCESS_TOKEN_PREFIX" "length RELAY_V2_ACCESS_TOKEN_PREFIX = 6"
  by (simp_all add: RELAY_V2_ACCESS_TOKEN_PREFIX_def js_white_def)

lemma payload_not_empty: "claims_payload c \<noteq> []"
proof -
  obtain t where "object_text (\<lambda>m e. []) (canonicalClaimsObject c) = 123 # t" by (simp add: object_text_def)
  then show ?thesis by (cases t) (simp_all add: claims_payload_def utf8_encode_def utf8_unit_def high_surrogate_def)
qed

text \<open>The parts of a token, and the bounds it keeps.\<close>

lemma token_split:
  "split_units 46 (signed_text (base64url x) @ 46 # base64url y) = [RELAY_V2_ACCESS_TOKEN_PREFIX, base64url x, base64url y]"
  using url_ascii(2) prefix_plain(1) by (simp add: signed_text_def split_append split_none)

lemma token_parts:
  fixes payload mac :: string
  assumes "length payload \<le> MAX_PAYLOAD_BYTES" and "length mac = MAC_BYTES"
  defines "token \<equiv> signed_text (base64url payload) @ 46 # base64url mac"
  shows "split_units 46 token = [RELAY_V2_ACCESS_TOKEN_PREFIX, base64url payload, base64url mac]"
    and "token \<noteq> []" and "length (utf8_bytes token) \<le> MAX_TOKEN_BYTES" and "\<not> list_ex js_white token"
proof -
  show "split_units 46 token = [RELAY_V2_ACCESS_TOKEN_PREFIX, base64url payload, base64url mac]"
    unfolding token_def by (rule token_split)
  show "token \<noteq> []" by (simp add: token_def signed_text_def)
  have "list_all (\<lambda>c. c < 128) token" using url_ascii(1) prefix_plain(2) by (simp add: token_def signed_text_def)
  then have "utf8_bytes token = token" by (rule ascii_bytes)
  then show "length (utf8_bytes token) \<le> MAX_TOKEN_BYTES"
    using assms(1, 2) by (simp add: token_def signed_text_def base64url_length prefix_plain MAX_TOKEN_BYTES_def MAX_PAYLOAD_BYTES_def MAC_BYTES_def)
  show "\<not> list_ex js_white token"
    using url_ascii(3) prefix_plain(3) by (simp add: token_def signed_text_def js_white_def)
qed

text \<open>\<open>verifies\<close>: the conditions under which the claims of a genuine token are accepted.\<close>

definition verifies :: "token_verification \<Rightarrow> string \<Rightarrow> access_claims \<Rightarrow> bool" where
  "verifies options secret c \<longleftrightarrow>
     (let skew = (case tv_clockSkewSeconds options of None \<Rightarrow> RELAY_V2_MAX_CLOCK_SKEW_SECONDS | Some s \<Rightarrow> s) in
      tv_resolveSecret options (ac_kid c) = Some secret \<and> validateSecret secret
      \<and> ac_iss c = tv_expectedIssuer options
      \<and> ac_aud c = (case tv_expectedAudience options of None \<Rightarrow> RELAY_V2_ACCESS_TOKEN_AUDIENCE | Some a \<Rightarrow> a)
      \<and> isTimestamp (tv_nowSeconds options) \<and> 0 \<le> skew \<and> skew \<le> RELAY_V2_MAX_CLOCK_SKEW_SECONDS
      \<and> in_window c skew (tv_nowSeconds options))"

lemma verify_claims_iff:
  "verify_claims hmac options seg mac c = Some c' \<longleftrightarrow>
     c' = c \<and> (\<exists>secret. verifies options secret c \<and> mac = hmac secret (signed_text seg))"
  by (auto simp: verify_claims_def verifies_def Let_def split: option.splits)

lemma encoded_token_verifies:
  assumes "encodeRelayV2AccessToken hmac c secret = Some token" and "utf16_claims c"
    and "length (claims_payload c) \<le> MAX_PAYLOAD_BYTES" and "\<And>k m. length (hmac k m) = MAC_BYTES"
    and "verifies options secret c"
  shows "verifyRelayV2AccessToken hmac token options = Some c"
proof -
  let ?seg = "base64url (claims_payload c)" and ?mac = "hmac secret (signed_text (base64url (claims_payload c)))"
  have c: "validateClaimSemantics c" and token: "token = signed_text ?seg @ 46 # base64url ?mac"
    using assms(1) by (auto simp: encodeRelayV2AccessToken_def Let_def split: if_splits)
  note parts = token_parts [OF assms(3) assms(4) [of secret "signed_text ?seg"], folded token]
  have "?mac \<noteq> []" using assms(4) [of secret "signed_text ?seg"] by (auto simp: MAC_BYTES_def)
  moreover have "verify_claims hmac options ?seg ?mac c = Some c" using assms(5) by (auto simp: verify_claims_iff)
  ultimately show ?thesis
    using parts assms(3, 4) c
    by (simp add: verifyRelayV2AccessToken_def decode_canonical payload_not_empty claims_text assms(2))
qed

text \<open>Nothing else is accepted: an accepted text carries the HMAC of its payload under the key of its claims.\<close>

lemma accepted_token_is_signed:
  assumes "verifyRelayV2AccessToken hmac token options = Some c"
  obtains payload secret where "token = signed_text (base64url payload) @ 46 # base64url (hmac secret (signed_text (base64url payload)))"
    and "parseClaims payload = Some c" and "validateClaimSemantics c" and "verifies options secret c"
    and "length (hmac secret (signed_text (base64url payload))) = MAC_BYTES" and "length payload \<le> MAX_PAYLOAD_BYTES"
proof -
  obtain prefix payloadSegment macSegment where split: "split_units 46 token = [prefix, payloadSegment, macSegment]"
    using assms unfolding verifyRelayV2AccessToken_def by (simp split: if_splits list.splits)
  obtain payload mac where prefix: "prefix = RELAY_V2_ACCESS_TOKEN_PREFIX"
    and p: "decodeCanonicalRelayV2Base64Url payloadSegment MAX_PAYLOAD_BYTES = Some payload"
    and m: "decodeCanonicalRelayV2Base64Url macSegment MAC_BYTES = Some mac" and len: "length mac = MAC_BYTES"
    and c: "parseClaims payload = Some c" and v: "verify_claims hmac options payloadSegment mac c = Some c"
    using assms unfolding verifyRelayV2AccessToken_def split by (auto simp: verify_claims_iff bind_eq_Some_conv split: if_splits)
  obtain r where r: "token = prefix @ 46 # r" "split_units 46 r = [payloadSegment, macSegment]" using split_first [OF split] by blast
  obtain r' where "r = payloadSegment @ 46 # r'" "split_units 46 r' = [macSegment]" using split_first [OF r(2)] by blast
  with r prefix have "token = RELAY_V2_ACCESS_TOKEN_PREFIX @ 46 # payloadSegment @ 46 # macSegment" by (simp add: split_one)
  moreover have "payloadSegment = base64url payload" "macSegment = base64url mac" "length payload \<le> MAX_PAYLOAD_BYTES"
    using p m decode_canonical_inverse by blast+
  moreover obtain secret where "verifies options secret c" "mac = hmac secret (signed_text payloadSegment)"
    using v by (auto simp: verify_claims_iff)
  moreover have "validateClaimSemantics c" using c by (auto simp: parseClaims_def bind_eq_Some_conv split: if_splits)
  ultimately show thesis using that c len by (simp add: signed_text_def)
qed

text \<open>
  The encoder does not bound the payload, as the verifier does: identifiers of 128 bytes can take six times as
  much in JSON, when they are control characters, and such a token is refused.
\<close>

lemma long_payload_is_refused:
  assumes "encodeRelayV2AccessToken hmac c secret = Some token" and "MAX_PAYLOAD_BYTES < length (claims_payload c)"
  shows "verifyRelayV2AccessToken hmac token options = None"
proof (cases "verifyRelayV2AccessToken hmac token options")
  case (Some c')
  let ?mac = "hmac secret (signed_text (base64url (claims_payload c)))"
  have token: "token = signed_text (base64url (claims_payload c)) @ 46 # base64url ?mac"
    using assms(1) by (auto simp: encodeRelayV2AccessToken_def Let_def split: if_splits)
  obtain payload secret' where t: "token = signed_text (base64url payload) @ 46 # base64url (hmac secret' (signed_text (base64url payload)))"
    and len: "length payload \<le> MAX_PAYLOAD_BYTES"
    using accepted_token_is_signed [OF Some] by metis
  from arg_cong [OF token [unfolded t], of "split_units 46", unfolded token_split] have "base64url payload = base64url (claims_payload c)" by simp
  then have "payload = claims_payload c" by (metis base64url_facts(1))
  with len assms(2) show ?thesis by simp
qed

end
