(* ===== verification/RV2_IssuerFacts.thy ===== *)
theory RV2_IssuerFacts
  imports RV2_Issuer RV2_TokenFacts
begin

text \<open>
  The keyring over its life: a token that was issued stays acceptable until it expires, whatever keys are
  rotated and removed meanwhile, a removed key never comes back, and what is authorized is a
  signed token that matches its grant.
\<close>

section \<open>Keyrings\<close>

definition valid_keyring :: "keyring \<Rightarrow> bool" where
  "valid_keyring r \<longleftrightarrow> parseRelayV2IssuerKeyring r = Inr r"

lemma parse_keyring: "parseRelayV2IssuerKeyring r = (if valid_keyring r then Inr r else Inl StateInvalid)"
  by (auto simp: valid_keyring_def parseRelayV2IssuerKeyring_def)

lemma valid_distinct: "valid_keyring r \<Longrightarrow> distinct (currentKids r @ kr_retiredKids r)"
  by (auto simp: valid_keyring_def parseRelayV2IssuerKeyring_def split: if_splits)

lemma find_unique:
  assumes "distinct (map f xs)" and "x \<in> set xs"
  shows "find (\<lambda>y. f y = f x) xs = Some x"
  using assms by (induction xs) (auto simp: image_iff)

lemma prepare_Inr:
  assumes "prepareRelayV2AccessTokenIssuance hmac uuid r p = Inr (token, c, r')"
  obtains secret where "valid_keyring r" "valid_keyring r'" "c = prepared_claims uuid r p" "r' = note_issued (ac_exp c) r"
    "decodeStoredSecret (ak_secretBase64url (kr_activeKey r)) = Some secret" "encodeRelayV2AccessToken hmac c secret = Some token"
proof -
  have "valid_keyring r" using assms by (auto simp: prepareRelayV2AccessTokenIssuance_def parse_keyring split: if_splits)
  moreover from this obtain secret where "decodeStoredSecret (ak_secretBase64url (kr_activeKey r)) = Some secret"
    using assms by (cases "decodeStoredSecret (ak_secretBase64url (kr_activeKey r))")
      (auto simp: prepareRelayV2AccessTokenIssuance_def parse_keyring Let_def split: if_splits)
  moreover from calculation have "c = prepared_claims uuid r p \<and> r' = note_issued (ac_exp c) r \<and> valid_keyring (note_issued (ac_exp c) r)
      \<and> encodeRelayV2AccessToken hmac c secret = Some token"
    using assms by (auto simp: prepareRelayV2AccessTokenIssuance_def parse_keyring Let_def split: if_splits option.splits)
  ultimately show thesis using that [of secret] by auto
qed

lemma rotate_Inr:
  assumes "rotateRelayV2IssuerKeyring fresh clock r kid s now = Inr r'"
  obtains secret where "valid_keyring r" "valid_keyring r'" "kid \<notin> set (currentKids r @ kr_retiredKids r)"
    "r' = r\<lparr>kr_activeKey := \<lparr>ak_kid = kid, ak_secretBase64url = secret, ak_createdAtSeconds = if_undefined clock now,
           ak_maxIssuedExpSeconds = None\<rparr>,
         kr_verifyOnlyKeys := kr_verifyOnlyKeys r @ [demoted (if_undefined clock now) (kr_activeKey r)]\<rparr>"
  using assms unfolding rotateRelayV2IssuerKeyring_def Let_def
  by (auto simp: parse_keyring split: if_splits sum.splits)

lemma remove_Inr:
  assumes "removeRelayV2VerifyOnlyKey r kid now emergency = Inr r'"
  obtains k where "valid_keyring r" "valid_keyring r'" "find (\<lambda>k. vk_kid k = kid) (kr_verifyOnlyKeys r) = Some k"
    "emergency = Some True \<or> vk_verifyUntilSeconds k \<le> now"
    "r' = r\<lparr>kr_verifyOnlyKeys := filter (\<lambda>k. vk_kid k \<noteq> kid) (kr_verifyOnlyKeys r), kr_retiredKids := kr_retiredKids r @ [kid]\<rparr>"
  using assms unfolding removeRelayV2VerifyOnlyKey_def
  by (auto simp: parse_keyring split: if_splits sum.splits option.splits)

section \<open>Keys that are still needed\<close>

text \<open>The keyring vouches for tokens of a key up to an expiry.\<close>

definition vouches :: "keyring \<Rightarrow> jtext \<Rightarrow> jtext \<Rightarrow> int \<Rightarrow> bool" where
  "vouches r kid secret expiry \<longleftrightarrow>
     (ak_kid (kr_activeKey r) = kid \<and> ak_secretBase64url (kr_activeKey r) = secret
      \<and> (\<exists>m. ak_maxIssuedExpSeconds (kr_activeKey r) = Some m \<and> expiry \<le> m))
     \<or> (\<exists>k \<in> set (kr_verifyOnlyKeys r). vk_kid k = kid \<and> vk_secretBase64url k = secret
          \<and> expiry + RELAY_V2_MAX_CLOCK_SKEW_SECONDS \<le> vk_verifyUntilSeconds k)"

lemma vouches_resolves:
  assumes "vouches r kid secret expiry" and "valid_keyring r"
  shows "resolveSecret r kid = decodeStoredSecret secret"
proof (cases "ak_kid (kr_activeKey r) = kid")
  case True
  then have "kid \<notin> vk_kid ` set (kr_verifyOnlyKeys r)" using valid_distinct [OF assms(2)] by (auto simp: currentKids_def)
  then have "ak_secretBase64url (kr_activeKey r) = secret" using assms(1) by (auto simp: vouches_def)
  with True show ?thesis by (simp add: resolveSecret_def)
next
  case False
  with assms(1) obtain k where k: "k \<in> set (kr_verifyOnlyKeys r)" "vk_kid k = kid" "vk_secretBase64url k = secret"
    by (auto simp: vouches_def)
  have "distinct (map vk_kid (kr_verifyOnlyKeys r))" using valid_distinct [OF assms(2)] by (simp add: currentKids_def)
  from find_unique [OF this k(1)] k False show ?thesis by (simp add: resolveSecret_def)
qed

lemma step_vouches:
  assumes "keyring_step hmac (\<lambda>now emergency. emergency \<noteq> Some True \<and> now \<le> T) r r'"
    and "vouches r kid secret expiry" and "T < expiry + RELAY_V2_MAX_CLOCK_SKEW_SECONDS"
  shows "vouches r' kid secret expiry" and "valid_keyring r'" and "kr_issuerId r' = kr_issuerId r"
proof -
  have "vouches r' kid secret expiry \<and> valid_keyring r' \<and> kr_issuerId r' = kr_issuerId r"
    using assms(1)
  proof cases
    case (issues uuid p token c)
    show ?thesis
      by (rule prepare_Inr [OF issues]) (use assms(2) in \<open>auto simp: vouches_def note_issued_def if_undefined_def\<close>)
  next
    case (rotates fresh clock kid' s now)
    show ?thesis
      by (rule rotate_Inr [OF rotates]) (use assms(2) in \<open>auto simp: vouches_def demoted_def if_undefined_def\<close>)
  next
    case (removes kid' now emergency)
    from removes(1) obtain k where k: "valid_keyring r" "valid_keyring r'" "find (\<lambda>k. vk_kid k = kid') (kr_verifyOnlyKeys r) = Some k"
      "emergency = Some True \<or> vk_verifyUntilSeconds k \<le> now"
      "r' = r\<lparr>kr_verifyOnlyKeys := filter (\<lambda>k. vk_kid k \<noteq> kid') (kr_verifyOnlyKeys r), kr_retiredKids := kr_retiredKids r @ [kid']\<rparr>"
      by (rule remove_Inr)
    have small: "vk_verifyUntilSeconds k < expiry + RELAY_V2_MAX_CLOCK_SKEW_SECONDS" using k(4) removes(2) assms(3) by auto
    have "x = k" if "x \<in> set (kr_verifyOnlyKeys r)" "vk_kid x = kid'" for x
    proof -
      have "distinct (map vk_kid (kr_verifyOnlyKeys r))" using valid_distinct [OF k(1)] by (simp add: currentKids_def)
      from find_unique [OF this that(1)] that(2) k(3) show ?thesis by simp
    qed
    then show ?thesis using assms(2) k small by (auto simp: vouches_def)
  qed
  then show "vouches r' kid secret expiry" "valid_keyring r'" "kr_issuerId r' = kr_issuerId r" by simp_all
qed

lemma run_vouches:
  assumes "keyring_run hmac (\<lambda>now emergency. emergency \<noteq> Some True \<and> now \<le> T) r r'"
    and "vouches r kid secret expiry" "valid_keyring r" and "T < expiry + RELAY_V2_MAX_CLOCK_SKEW_SECONDS"
  shows "vouches r' kid secret expiry \<and> valid_keyring r' \<and> kr_issuerId r' = kr_issuerId r"
  using assms(1) by (induction rule: rtranclp_induct) (use assms(2-4) step_vouches in auto)

section \<open>Keys that are gone\<close>

lemma step_retired:
  assumes "keyring_step hmac allowed r r'"
  shows "set (kr_retiredKids r) \<subseteq> set (kr_retiredKids r') \<and> valid_keyring r'"
  using assms
proof cases
  case (issues uuid p token c)
  show ?thesis by (rule prepare_Inr [OF issues]) (auto simp: note_issued_def)
next
  case (rotates fresh clock kid s now)
  show ?thesis by (rule rotate_Inr [OF rotates]) auto
next
  case (removes kid now emergency)
  show ?thesis by (rule remove_Inr [OF removes(1)]) auto
qed

lemma run_retired:
  "keyring_run hmac allowed r r' \<Longrightarrow> valid_keyring r \<Longrightarrow> set (kr_retiredKids r) \<subseteq> set (kr_retiredKids r') \<and> valid_keyring r'"
  by (induction rule: rtranclp_induct) (simp, meson step_retired subset_trans)

lemma resolve_current: "resolveSecret r kid = Some secret \<Longrightarrow> kid \<in> set (currentKids r)"
  by (auto simp: resolveSecret_def currentKids_def find_Some_iff split: if_splits option.splits)

lemma current_not_retired: "valid_keyring r \<Longrightarrow> kid \<in> set (currentKids r) \<Longrightarrow> kid \<notin> set (kr_retiredKids r)"
  using valid_distinct by auto

lemma issuer_verifies:
  "verifyRelayV2IssuerAccessToken hmac token r now skew = Inr c \<longleftrightarrow>
     valid_keyring r \<and> verifyRelayV2AccessToken hmac token (issuer_verification r now skew) = Some c"
  by (simp add: verifyRelayV2IssuerAccessToken_def parse_keyring split: option.split)

section \<open>Properties\<close>

lemma stored_secret: "decodeStoredSecret s = Some secret \<Longrightarrow> validateSecret secret"
  by (auto simp: decodeStoredSecret_def validateSecret_def MIN_SECRET_BYTES_def MAX_SECRET_BYTES_def split: option.splits if_splits)

lemma issued_vouches:
  assumes "prepareRelayV2AccessTokenIssuance hmac uuid r p = Inr (token, c, r1)"
  shows "vouches r1 (ac_kid c) (ak_secretBase64url (kr_activeKey r)) (ac_exp c)" and "ac_iss c = kr_issuerId r1"
    and "ac_aud c = RELAY_V2_ACCESS_TOKEN_AUDIENCE"
  by (rule prepare_Inr [OF assms]; simp add: vouches_def note_issued_def prepared_claims_def)+

text \<open>
  C12. Rotation does not cut a token short. When the issuer has issued a token, whose claims fit in a token, and
  then its keyring was used in any way (tokens issued, the active key rotated, old keys removed
  when the code lets them go, not as an emergency), the token is still accepted, with the claims it
  was issued for, at every time within its validity and the clock skew.
\<close>

theorem issued_token_stays_accepted:
  assumes "prepareRelayV2AccessTokenIssuance hmac uuid r p = Inr (token, c, r1)"
    and "utf16_claims c" and "length (claims_payload c) \<le> MAX_PAYLOAD_BYTES" and "\<And>key text. length (hmac key text) = MAC_BYTES"
    and "keyring_run hmac (\<lambda>removedAt emergency. emergency \<noteq> Some True \<and> removedAt \<le> now) r1 r2"
    and "isTimestamp now" and "0 \<le> if_undefined RELAY_V2_MAX_CLOCK_SKEW_SECONDS skew"
    and "if_undefined RELAY_V2_MAX_CLOCK_SKEW_SECONDS skew \<le> RELAY_V2_MAX_CLOCK_SKEW_SECONDS"
    and "in_window c (if_undefined RELAY_V2_MAX_CLOCK_SKEW_SECONDS skew) now"
  shows "verifyRelayV2IssuerAccessToken hmac token r2 now skew = Inr c"
proof -
  let ?secret = "ak_secretBase64url (kr_activeKey r)"
  obtain secret where r: "valid_keyring r1" "decodeStoredSecret ?secret = Some secret" "encodeRelayV2AccessToken hmac c secret = Some token"
    using prepare_Inr [OF assms(1)] by metis
  note issued = issued_vouches [OF assms(1)]
  have "now < ac_exp c + RELAY_V2_MAX_CLOCK_SKEW_SECONDS" using assms(8, 9) by (simp add: in_window_def)
  from run_vouches [OF assms(5) issued(1) r(1) this]
  have v: "vouches r2 (ac_kid c) ?secret (ac_exp c)" "valid_keyring r2" "kr_issuerId r2 = kr_issuerId r1" by simp_all
  have "resolveSecret r2 (ac_kid c) = Some secret" using vouches_resolves [OF v(1, 2)] r(2) by simp
  then have "verifies (issuer_verification r2 now skew) secret c"
    using assms(6-9) stored_secret [OF r(2)] issued(2, 3) v(3)
    by (simp add: verifies_def issuer_verification_def if_undefined_def Let_def)
  from encoded_token_verifies [OF r(3) assms(2-4) this] v(2) show ?thesis by (simp add: issuer_verifies)
qed

text \<open>
  C13. A removed key never comes back. Once a key was removed from a keyring, its id stays among the
  retired ones however the keyring is used later, no token that names it is accepted any more, at any
  time, and the active key is never rotated to that id.
\<close>

theorem removed_key_is_final:
  assumes "removeRelayV2VerifyOnlyKey r kid now emergency = Inr r1" and "keyring_run hmac allowed r1 r2"
  shows "kid \<in> set (kr_retiredKids r2)
     \<and> (\<forall>token t skew c. verifyRelayV2IssuerAccessToken hmac token r2 t skew = Inr c \<longrightarrow> ac_kid c \<noteq> kid)
     \<and> (\<forall>fresh clock secret t. \<exists>e. rotateRelayV2IssuerKeyring fresh clock r2 kid secret t = Inl e)"
proof (intro conjI allI impI)
  have "valid_keyring r1" "kid \<in> set (kr_retiredKids r1)" by (rule remove_Inr [OF assms(1)]; simp)+
  with run_retired [OF assms(2)] show gone: "kid \<in> set (kr_retiredKids r2)" by blast
  show "ac_kid c \<noteq> kid" if "verifyRelayV2IssuerAccessToken hmac token r2 t skew = Inr c" for token t skew c
  proof -
    have ok: "valid_keyring r2" "verifyRelayV2AccessToken hmac token (issuer_verification r2 t skew) = Some c"
      using that by (simp_all add: issuer_verifies)
    obtain secret where "verifies (issuer_verification r2 t skew) secret c" using accepted_token_is_signed [OF ok(2)] by metis
    then have "ac_kid c \<in> set (currentKids r2)"
      by (intro resolve_current [of _ _ secret]) (simp add: verifies_def issuer_verification_def Let_def)
    with current_not_retired [OF ok(1)] gone show ?thesis by blast
  qed
  show "\<exists>e. rotateRelayV2IssuerKeyring fresh clock r2 kid secret t = Inl e" for fresh clock secret t
  proof (cases "rotateRelayV2IssuerKeyring fresh clock r2 kid secret t")
    case (Inr r3)
    then have False by (rule rotate_Inr) (use gone in simp)
    then show ?thesis ..
  qed simp
qed

text \<open>The claims match the grant and the request.\<close>

definition matches :: "access_claims \<Rightarrow> access_authorization \<Rightarrow> grant_binding \<Rightarrow> bool" where
  "matches c a g \<longleftrightarrow>
     aa_grant a = Some g \<and> gb_revokedAtSeconds g = None
     \<and> (gb_expiresAtSeconds g = None \<or> aa_nowSeconds a < the (gb_expiresAtSeconds g))
     \<and> gb_role g = ac_role c \<and> gb_hostId g = ac_hostId c \<and> gb_principalId g = ac_principalId c
     \<and> gb_grantId g = ac_grantId c \<and> gb_clientInstanceId g = ac_clientInstanceId c
     \<and> aa_expectedRole a \<in> {None, Some (ac_role c)} \<and> aa_expectedHostId a \<in> {None, Some (ac_hostId c)}"

lemma bind_Inr:
  assumes "bindClaims c a = Inr context"
  shows "\<exists>g. matches c a g \<and> context = grant_context c"
proof -
  obtain g where g: "aa_grant a = Some g"
    using assms by (cases "aa_grant a") (simp_all add: bindClaims_def split: if_splits)
  have "aa_expectedRole a \<in> {None, Some (ac_role c)}" using assms by (simp add: bindClaims_def split: if_splits)
  moreover have "aa_expectedHostId a \<in> {None, Some (ac_hostId c)}"
    using assms by (cases "aa_expectedHostId a") (simp_all add: bindClaims_def split: if_splits)
  moreover have "gb_revokedAtSeconds g = None" "gb_role g = ac_role c" "gb_hostId g = ac_hostId c" "gb_principalId g = ac_principalId c"
    "gb_grantId g = ac_grantId c" "gb_clientInstanceId g = ac_clientInstanceId c" "context = grant_context c"
    using assms g by (simp_all add: bindClaims_def split: if_splits)
  moreover have "gb_expiresAtSeconds g = None \<or> aa_nowSeconds a < the (gb_expiresAtSeconds g)"
    using assms g by (cases "gb_expiresAtSeconds g") (simp_all add: bindClaims_def split: if_splits)
  ultimately show ?thesis using g by (simp add: matches_def)
qed

text \<open>
  C26. What is authorized is a signed token that matches its grant. When an authorization succeeds, the
  token is a text of claims followed by their HMAC under the key its claims name, a current key of
  the keyring and not a removed one; the claims live for an hour at most and the time is within them and the
  clock skew; the grant exists, is neither revoked nor expired, and role, host, principal, grant and
  client of the claims are those of the grant and, where the caller asked for them, of the request.
\<close>

theorem authorized_token_is_authentic:
  assumes "verifyRelayV2AccessAuthorization hmac token a = Inr context"
  shows "\<exists>payload secret c g.
     token = signed_text (base64url payload) @ 46 # base64url (hmac secret (signed_text (base64url payload)))
     \<and> parseClaims payload = Some c \<and> resolveSecret (aa_keyring a) (ac_kid c) = Some secret
     \<and> ac_kid c \<notin> set (kr_retiredKids (aa_keyring a)) \<and> ac_iss c = kr_issuerId (aa_keyring a)
     \<and> ac_exp c - ac_iat c \<le> 3600 \<and> ac_nbf c - 60 \<le> aa_nowSeconds a \<and> aa_nowSeconds a < ac_exp c + 60
     \<and> aa_grant a = Some g \<and> gb_revokedAtSeconds g = None
     \<and> (gb_expiresAtSeconds g = None \<or> aa_nowSeconds a < the (gb_expiresAtSeconds g))
     \<and> gb_role g = ac_role c \<and> gb_hostId g = ac_hostId c \<and> gb_principalId g = ac_principalId c
     \<and> gb_grantId g = ac_grantId c \<and> gb_clientInstanceId g = ac_clientInstanceId c
     \<and> aa_expectedRole a \<in> {None, Some (ac_role c)} \<and> aa_expectedHostId a \<in> {None, Some (ac_hostId c)}
     \<and> context = grant_context c"
proof -
  let ?r = "aa_keyring a"
  obtain c where ok: "valid_keyring ?r"
    and v: "verifyRelayV2AccessToken hmac token (issuer_verification ?r (aa_nowSeconds a) (aa_clockSkewSeconds a)) = Some c"
    and b: "bindClaims c a = Inr context"
    using assms by (auto simp: verifyRelayV2AccessAuthorization_def parse_keyring issuer_verifies split: sum.splits if_splits)
  obtain payload secret where
    token: "token = signed_text (base64url payload) @ 46 # base64url (hmac secret (signed_text (base64url payload)))"
    and c: "parseClaims payload = Some c" "validateClaimSemantics c"
    and s: "verifies (issuer_verification ?r (aa_nowSeconds a) (aa_clockSkewSeconds a)) secret c"
    using accepted_token_is_signed [OF v] by metis
  have key: "resolveSecret ?r (ac_kid c) = Some secret" "ac_iss c = kr_issuerId ?r"
    and window: "ac_nbf c - 60 \<le> aa_nowSeconds a" "aa_nowSeconds a < ac_exp c + 60"
    using s by (auto simp: verifies_def issuer_verification_def Let_def in_window_def RELAY_V2_MAX_CLOCK_SKEW_SECONDS_def split: option.splits)
  have "ac_kid c \<notin> set (kr_retiredKids ?r)" by (rule current_not_retired [OF ok resolve_current [OF key(1)]])
  moreover have "ac_exp c - ac_iat c \<le> 3600" using c(2) by (simp add: validateClaimSemantics_def RELAY_V2_MAX_ACCESS_TTL_SECONDS_def)
  moreover obtain g where "matches c a g" "context = grant_context c" using bind_Inr [OF b] by blast
  ultimately show ?thesis using token c(1) key window unfolding matches_def by blast
qed

end
