(* ===== verification/RV2_IssuerWitnesses.thy ===== *)
theory RV2_IssuerWitnesses
  imports RV2_IssuerFacts
begin

text \<open>
  A keyring that issues a token for a host and rotates its key; the token is accepted and authorized; later
  the old key is removed. The HMAC is a fixed text of 32 bytes.
\<close>

definition demo_hmac :: "string \<Rightarrow> jtext \<Rightarrow> string" where
  "demo_hmac key m = replicate 32 (CHR ''m'')"

definition demo_secret :: "char \<Rightarrow> string" where
  "demo_secret c = replicate 32 c"

definition first_key :: active_key where
  "first_key = \<lparr>ak_kid = units ''kid-1'', ak_secretBase64url = base64url (demo_secret CHR ''a''), ak_createdAtSeconds = 1000,
     ak_maxIssuedExpSeconds = None\<rparr>"

definition demo_keyring :: keyring where
  "demo_keyring = \<lparr>kr_version = 1, kr_issuerId = units ''issuer'', kr_activeKey = first_key, kr_verifyOnlyKeys = [], kr_retiredKids = []\<rparr>"

definition demo_preparation :: token_preparation where
  "demo_preparation = \<lparr>tp_role = HostRole, tp_hostId = units ''host'', tp_principalId = units ''user'', tp_grantId = units ''grant'',
     tp_clientInstanceId = None, tp_nowSeconds = 2000, tp_notBeforeSeconds = None, tp_ttlSeconds = Some 600, tp_jti = Some (units ''jti'')\<rparr>"

definition demo_claims :: access_claims where
  "demo_claims = prepared_claims [] demo_keyring demo_preparation"

definition demo_token :: jtext where
  "demo_token = signed_text (base64url (claims_payload demo_claims)) @ 46 # base64url (replicate 32 (CHR ''m''))"

definition issued_keyring :: keyring where
  "issued_keyring = note_issued 2600 demo_keyring"

definition rotated_keyring :: keyring where
  "rotated_keyring = demo_keyring\<lparr>kr_activeKey := \<lparr>ak_kid = units ''kid-2'', ak_secretBase64url = base64url (demo_secret CHR ''b''),
     ak_createdAtSeconds = 2100, ak_maxIssuedExpSeconds = None\<rparr>,
     kr_verifyOnlyKeys := [\<lparr>vk_kid = units ''kid-1'', vk_secretBase64url = base64url (demo_secret CHR ''a''), vk_createdAtSeconds = 1000,
       vk_verifyUntilSeconds = 2660\<rparr>]\<rparr>"

definition final_keyring :: keyring where
  "final_keyring = rotated_keyring\<lparr>kr_verifyOnlyKeys := [], kr_retiredKids := [units ''kid-1'']\<rparr>"

lemma demo_length [simp]: "length (demo_hmac key m) = MAC_BYTES"
  by (simp add: demo_hmac_def MAC_BYTES_def)

lemma demo_stored [simp]: "decodeStoredSecret (base64url (demo_secret c)) = Some (demo_secret c)"
proof -
  have "decodeCanonicalRelayV2Base64Url (base64url (demo_secret c)) MAX_SECRET_BYTES = Some (demo_secret c)"
    by (rule decode_canonical) (simp_all add: demo_secret_def MAX_SECRET_BYTES_def)
  then show ?thesis by (simp add: decodeStoredSecret_def demo_secret_def MIN_SECRET_BYTES_def MAX_SECRET_BYTES_def)
qed

lemmas identifier_defs = auth_identifier_def trim_units_def js_white_def utf8_unit_def high_surrogate_def low_surrogate_def

lemmas keyring_defs = valid_keyring_def parseRelayV2IssuerKeyring_def RELAY_V2_ISSUER_KEYRING_VERSION_def isActiveKey_def
  isVerifyOnlyKey_def currentKids_def isSafeTimestamp_def MAX_SAFE_INTEGER_def

lemma demo_valid:
  "valid_keyring demo_keyring" "valid_keyring issued_keyring" "valid_keyring rotated_keyring" "valid_keyring final_keyring"
  by (simp_all add: keyring_defs demo_keyring_def first_key_def issued_keyring_def note_issued_def rotated_keyring_def final_keyring_def
      if_undefined_def identifier_defs)

lemma demo_claims_eq:
  "demo_claims = \<lparr>ac_iss = units ''issuer'', ac_aud = units ''tw-relay-ws'', ac_kid = units ''kid-1'', ac_role = HostRole,
     ac_hostId = units ''host'', ac_principalId = units ''user'', ac_grantId = units ''grant'', ac_clientInstanceId = None,
     ac_iat = 2000, ac_nbf = 2000, ac_exp = 2600, ac_jti = units ''jti''\<rparr>"
  by (simp add: demo_claims_def prepared_claims_def demo_keyring_def first_key_def demo_preparation_def if_undefined_def
      RELAY_V2_ACCESS_TOKEN_AUDIENCE_def)

lemma demo_semantics: "validateClaimSemantics demo_claims" "utf16_claims demo_claims"
  by (simp_all add: demo_claims_eq validateClaimSemantics_def identifier_defs client_identifier_def isTimestamp_def
      MAX_TIMESTAMP_SECONDS_def MAX_SAFE_INTEGER_def RELAY_V2_MAX_ACCESS_TTL_SECONDS_def utf16_claims_def)

lemma demo_encoded: "encodeRelayV2AccessToken demo_hmac demo_claims (demo_secret CHR ''a'') = Some demo_token"
  using demo_semantics by (simp add: encodeRelayV2AccessToken_def validateSecret_def demo_secret_def demo_token_def demo_hmac_def Let_def)

text \<open>A bound on the size of a payload.\<close>

lemma utf8_size: "length (utf8_bytes s) \<le> 3 * length s"
  by (induction s rule: utf8_bytes.induct) (auto simp: utf8_unit_def utf8_pair_def Let_def)

lemma quoted_size: "length (quote_units s) \<le> 6 * length s"
proof -
  have "length (quote_unit c) \<le> 6" for c by (simp add: quote_unit_def unicode_escape_def)
  then show ?thesis
    by (induction s rule: quote_units.induct) (auto intro: add_mono order_trans [OF add_mono])
qed

definition size_bound :: "jtext \<times> jtext jvalue \<Rightarrow> nat" where
  "size_bound = (\<lambda>(k, v). 6 * length k + (case v of JStr s \<Rightarrow> 6 * length s + 6 | JInt n \<Rightarrow> length (stringify_int n) + 4 | _ \<Rightarrow> 0))"

lemma member_size: "flat_member (k, v) \<Longrightarrow> length (stringify_string k @ 58 # canonicalJson dec v) + 1 \<le> size_bound (k, v)"
  using quoted_size [of k] by (cases v) (simp_all add: size_bound_def flat_member_def stringify_string_def add_mono quoted_size)

lemma join_size: "length (join_units xs) \<le> sum_list (map (\<lambda>x. length x + 1) xs)"
  by (induction xs rule: join_units.induct) auto

lemma object_size:
  assumes "list_all flat_member kvs"
  shows "length (object_text dec kvs) \<le> 2 + sum_list (map size_bound kvs)"
proof -
  have "sum_list (map (\<lambda>x. length (member_text dec x) + 1) kvs) \<le> sum_list (map size_bound kvs)"
  proof (rule sum_list_mono)
    fix x assume x: "x \<in> set kvs"
    obtain k v where kv: "x = (k, v)" by force
    have "flat_member (k, v)" using assms x kv by (simp add: list_all_iff)
    from member_size [OF this] show "length (member_text dec x) + 1 \<le> size_bound x" by (simp add: kv)
  qed
  with join_size [of "map (member_text dec) kvs"] show ?thesis by (simp add: object_text_def o_def)
qed

lemma decimal_step: "10 \<le> n \<Longrightarrow> decimal_units n = decimal_units (n div 10) @ [48 + n mod 10]"
  by (subst decimal_units.simps) simp

lemma demo_numbers: "length (stringify_int 2) = 1" "length (stringify_int 2000) = 4" "length (stringify_int 2600) = 4"
  by (simp_all add: stringify_int_def decimal_step decimal_units_small)

lemma demo_payload: "length (claims_payload demo_claims) \<le> MAX_PAYLOAD_BYTES"
proof -
  let ?o = "canonicalClaimsObject demo_claims"
  have "sum_list (map size_bound ?o) \<le> 1300"
    by (simp add: demo_claims_eq canonicalClaimsObject_def size_bound_def demo_numbers)
  then have "length (object_text (\<lambda>m e. []) ?o) \<le> 1302"
    using object_size [OF canonical_flat(1) [OF demo_semantics], of "\<lambda>m e. []"] by linarith
  then show ?thesis
    using utf8_size [of "object_text (\<lambda>m e. []) ?o"] by (simp add: claims_payload_def utf8_encode_def MAX_PAYLOAD_BYTES_def)
qed

lemma demo_issued: "prepareRelayV2AccessTokenIssuance demo_hmac [] demo_keyring demo_preparation = Inr (demo_token, demo_claims, issued_keyring)"
proof -
  have "validatePreparation demo_preparation" and "ac_exp demo_claims = 2600" and "ac_nbf demo_claims = 2000"
    by (simp_all add: demo_claims_eq validatePreparation_def demo_preparation_def identifier_defs client_identifier_def isSafeTimestamp_def
      MAX_SAFE_INTEGER_def RELAY_V2_MAX_ACCESS_TTL_SECONDS_def)
  moreover have "tp_nowSeconds demo_preparation = 2000" "ak_createdAtSeconds (kr_activeKey demo_keyring) = 1000"
    "ak_secretBase64url (kr_activeKey demo_keyring) = base64url (demo_secret CHR ''a'')"
    by (simp_all add: demo_preparation_def demo_keyring_def first_key_def)
  ultimately show ?thesis
    using demo_valid demo_encoded
    by (simp add: prepareRelayV2AccessTokenIssuance_def parse_keyring demo_claims_def [symmetric] issued_keyring_def [symmetric]
        MAX_SAFE_INTEGER_def Let_def)
qed

lemma demo_rotated: "rotateRelayV2IssuerKeyring (demo_secret CHR ''b'') 2100 issued_keyring (units ''kid-2'') None None = Inr rotated_keyring"
proof -
  have "rotated_keyring = issued_keyring\<lparr>kr_activeKey := \<lparr>ak_kid = units ''kid-2'', ak_secretBase64url = base64url (demo_secret CHR ''b''),
      ak_createdAtSeconds = 2100, ak_maxIssuedExpSeconds = None\<rparr>,
      kr_verifyOnlyKeys := kr_verifyOnlyKeys issued_keyring @ [demoted 2100 (kr_activeKey issued_keyring)]\<rparr>"
    by (simp add: rotated_keyring_def issued_keyring_def note_issued_def demo_keyring_def first_key_def demoted_def if_undefined_def
        RELAY_V2_MAX_CLOCK_SKEW_SECONDS_def)
  moreover have "auth_identifier (units ''kid-2'')" "isSafeTimestamp 2100" "units ''kid-2'' \<notin> set (currentKids issued_keyring @ kr_retiredKids issued_keyring)"
    "ak_createdAtSeconds (kr_activeKey issued_keyring) = 1000"
    by (simp_all add: identifier_defs keyring_defs issued_keyring_def note_issued_def demo_keyring_def first_key_def)
  ultimately show ?thesis
    using demo_valid by (simp add: rotateRelayV2IssuerKeyring_def parse_keyring validateNewSecret_def if_undefined_def Let_def)
qed

lemma demo_removed: "removeRelayV2VerifyOnlyKey rotated_keyring (units ''kid-1'') 2660 None = Inr final_keyring"
proof -
  have "find (\<lambda>k. vk_kid k = units ''kid-1'') (kr_verifyOnlyKeys rotated_keyring)
      = Some \<lparr>vk_kid = units ''kid-1'', vk_secretBase64url = base64url (demo_secret CHR ''a''), vk_createdAtSeconds = 1000,
          vk_verifyUntilSeconds = 2660\<rparr>"
    and "auth_identifier (units ''kid-1'')" "isSafeTimestamp 2660"
    and "rotated_keyring\<lparr>kr_verifyOnlyKeys := filter (\<lambda>k. vk_kid k \<noteq> units ''kid-1'') (kr_verifyOnlyKeys rotated_keyring),
        kr_retiredKids := kr_retiredKids rotated_keyring @ [units ''kid-1'']\<rparr> = final_keyring"
    by (simp_all add: identifier_defs keyring_defs rotated_keyring_def final_keyring_def demo_keyring_def)
  then show ?thesis
    unfolding removeRelayV2VerifyOnlyKey_def using demo_valid by (simp only: parse_keyring if_True sum.case option.case) simp
qed

text \<open>The token is accepted after the rotation, up to the end of its time and the clock skew.\<close>

theorem issued_token_stays_accepted_witness:
  "verifyRelayV2IssuerAccessToken demo_hmac demo_token rotated_keyring 2659 None = Inr demo_claims"
proof (rule issued_token_stays_accepted [OF demo_issued demo_semantics(2) demo_payload demo_length])
  show "keyring_run demo_hmac (\<lambda>removedAt emergency. emergency \<noteq> Some True \<and> removedAt \<le> 2659) issued_keyring rotated_keyring"
    by (rule r_into_rtranclp) (rule keyring_step.rotates [OF demo_rotated])
qed (simp_all add: isTimestamp_def MAX_TIMESTAMP_SECONDS_def MAX_SAFE_INTEGER_def if_undefined_def RELAY_V2_MAX_CLOCK_SKEW_SECONDS_def
    in_window_def demo_claims_eq)

theorem removed_key_is_final_witness:
  "removeRelayV2VerifyOnlyKey rotated_keyring (units ''kid-1'') 2660 None = Inr final_keyring
   \<and> units ''kid-1'' \<in> set (kr_retiredKids final_keyring)
   \<and> (\<exists>e. rotateRelayV2IssuerKeyring (demo_secret CHR ''c'') 3000 final_keyring (units ''kid-1'') None None = Inl e)"
proof -
  have run: "keyring_run demo_hmac (\<lambda>_ _. True) final_keyring final_keyring" by simp
  show ?thesis using demo_removed removed_key_is_final [OF demo_removed run] by blast
qed

definition demo_authorization :: access_authorization where
  "demo_authorization = \<lparr>aa_keyring = rotated_keyring,
     aa_grant = Some \<lparr>gb_role = HostRole, gb_hostId = units ''host'', gb_principalId = units ''user'', gb_grantId = units ''grant'',
       gb_clientInstanceId = None, gb_revokedAtSeconds = None, gb_expiresAtSeconds = Some 5000\<rparr>,
     aa_nowSeconds = 2200, aa_clockSkewSeconds = None, aa_expectedRole = Some HostRole, aa_expectedHostId = None\<rparr>"

lemma demo_verified: "verifyRelayV2IssuerAccessToken demo_hmac demo_token rotated_keyring 2200 None = Inr demo_claims"
proof -
  have "verifies (issuer_verification rotated_keyring 2200 None) (demo_secret CHR ''a'') demo_claims"
    by (simp add: verifies_def issuer_verification_def resolveSecret_def rotated_keyring_def demo_keyring_def demo_claims_eq validateSecret_def
        RELAY_V2_ACCESS_TOKEN_AUDIENCE_def isTimestamp_def MAX_TIMESTAMP_SECONDS_def MAX_SAFE_INTEGER_def RELAY_V2_MAX_CLOCK_SKEW_SECONDS_def
        in_window_def Let_def) (simp add: demo_secret_def)
  from encoded_token_verifies [OF demo_encoded demo_semantics(2) demo_payload demo_length this] demo_valid(3)
  show ?thesis by (simp add: issuer_verifies)
qed

lemma demo_bound: "bindClaims demo_claims demo_authorization = Inr (grant_context demo_claims)"
  by (simp add: bindClaims_def demo_authorization_def demo_claims_eq validateGrant_def isTimestampOrNull_def client_identifier_def
      isSafeTimestamp_def MAX_SAFE_INTEGER_def identifier_defs)

theorem authorized_token_is_authentic_witness:
  "verifyRelayV2AccessAuthorization demo_hmac demo_token demo_authorization = Inr (grant_context demo_claims)
   \<and> (\<exists>payload c. parseClaims payload = Some c \<and> ac_kid c \<notin> set (kr_retiredKids rotated_keyring) \<and> 2200 < ac_exp c + 60)"
proof
  show ok: "verifyRelayV2AccessAuthorization demo_hmac demo_token demo_authorization = Inr (grant_context demo_claims)"
    using demo_verified demo_bound demo_valid(3) unfolding verifyRelayV2AccessAuthorization_def
    by (simp add: parse_keyring demo_authorization_def)
  have "aa_keyring demo_authorization = rotated_keyring" "aa_nowSeconds demo_authorization = 2200" by (simp_all add: demo_authorization_def)
  with authorized_token_is_authentic [OF ok]
  show "\<exists>payload c. parseClaims payload = Some c \<and> ac_kid c \<notin> set (kr_retiredKids rotated_keyring) \<and> 2200 < ac_exp c + 60" by metis
qed

end
