(* ===== verification/Spec2Isabelle.thy ===== *)
theory Spec2Isabelle
  imports TC_ExactWitnesses TC_Server RV2_JsonRoundTrip RV2_ContinuityWitnesses
    RV2_CloseWitnesses RV2_ExpiryWitnesses RV2_IssuerWitnesses
begin

text \<open>
  Verification of tmux-worktree: the terminal-control daemon (\<open>src/terminalControl/\<close>) and five
  parts of Relay v2 (\<open>src/relay/v2/\<close>): its strict JSON, its access tokens, its continuity anchor, the coordinator that
  closes the sockets of a withdrawn authorization, and the owner of the deadlines at which
  authorizations expire. All paths below are relative to the source
  tree of the repository.

  \<^bold>\<open>The program.\<close> Several front ends (the command line, the dashboard, the Feishu bridge, Relay v2
  hosts) drive tmux sessions. One daemon per machine, the terminal-control server, decides who may
  type into a session. A client connects to its socket and sends one request (\<open>server.ts\<close>); the
  request is parsed and checked (\<open>protocol.ts\<close>), the authority (\<open>authority.ts\<close>) executes it under
  the lock of a state file (\<open>store.ts\<close>), calling tmux through a backend, and one response goes back.
  The state file keeps, for every terminal, its lifecycle, its owner with a lease and a fence, the
  operation in flight, and a journal of completed operations; after a restart the daemon recovers
  from it. Relay v2 hosts use a second entrance of the authority, exact targets: a claim is
  prepared, fenced, and consumed once, for input or for an observation of the output. The messages of
  Relay v2 pass through a strict JSON parser, its peers present signed access tokens of an issuer whose keys
  rotate, and its broker keeps its credential state in step
  with an external monotonic anchor, so that an older state or one of another history is recognised. When a
  credential is withdrawn, the broker signals the sockets that used it, and a coordinator closes
  them and destroys those that stay. The deadline owner asks the broker about every connection when its
  credential is due to expire, and has the peer warned a minute before.

  \<^bold>\<open>Theories and what they model.\<close>

  \<^item> \<open>TW_Prelude\<close>: the exception-state monad in which the stateful methods are written (a throw keeps
    the mutations made before it, as in JavaScript), its Hoare calculus (\<open>triple\<close>, \<open>ok\<close>) and its
    relational calculus (\<open>moves\<close>, \<open>keeps\<close>), the locale \<open>machine\<close> of a step function with an invariant,
    and the list operations of JavaScript the code uses.
  \<^item> \<open>JS_Text\<close>, \<open>JS_Date\<close>, \<open>JS_Base64\<close>, \<open>JS_Json\<close>: what the code uses of the standard library: trimming
    and byte length, \<open>Date.parse\<close> and \<open>toISOString\<close>, base64, JSON values; and \<open>canonicalJson\<close>
    (\<open>src/canonicalJson.ts\<close>).
  \<^item> \<open>TC_Types\<close>: the data types of \<open>protocol.ts\<close> and \<open>store.ts\<close>. \<open>TC_Store\<close>: the validator of the state
    file, decimal counters, compaction and what a save writes. \<open>TC_Target\<close>: the pure functions of
    \<open>authority.ts\<close> on one target (\<open>validateLease\<close>, \<open>markRecovery\<close>, \<open>invalidateTarget\<close>,
    \<open>appendOperation\<close>, \<open>existingOperation\<close>). \<open>TC_Payload\<close>: the encodings of input payloads.
  \<^item> \<open>TC_World\<close>: the state of the daemon (\<open>world\<close>: state file, working copy, interactive owners, exact
    claims and observations, and a trace of the terminal effects), its environment (\<open>platform\<close>), load,
    save and the store lock. \<open>TC_Authority\<close>: targets, leases, handoffs and recovery. \<open>TC_Input\<close>: input,
    lifecycle kill, output and agent reads, \<open>handleV1\<close> and \<open>initializeContinuity\<close>. \<open>TC_Exact\<close>: the exact
    targets and the dispatch \<open>handle\<close>.
  \<^item> \<open>TC_Protocol\<close>: the request and response parsers. \<open>TC_Server\<close>: \<open>handleSocket\<close> of \<open>server.ts\<close>,
    a connection as a state machine over the events of its socket.
  \<^item> \<open>RV2_StrictJson\<close>: \<open>strictJson.ts\<close>. \<open>RV2_Continuity\<close>: \<open>continuityAnchor.ts\<close>. \<open>RV2_SqliteOwner\<close>: the
    continuity row of \<open>brokerSingleNodeSelfHostedActivation.ts\<close>. \<open>RV2_CloseCoordinator\<close>:
    \<open>brokerTransportCloseCoordinator.ts\<close>, a step relation whose steps are the operations, the timers,
    the microtasks and the failures of close calls, in any order. \<open>RV2_ExpiryOwner\<close>:
    \<open>brokerAuthorizationExpiryDeadlineOwner.ts\<close>, a step relation too, in which every promise has an
    explicit stage and settles in a step of its own.
  \<^item> \<open>JS_Utf16\<close>: UTF-8, base64url, white space and splitting on full UTF-16 strings. \<open>RV2_Token\<close>: \<open>token.ts\<close>
    and \<open>authJson.ts\<close>, the claims of an access token, its encoding and its verification. \<open>RV2_Issuer\<close>:
    \<open>issuer.ts\<close>, the keyring with its operations and their step relation, and \<open>auth.ts\<close>, the
    authorization of a token against a grant.

  \<^bold>\<open>What is shown.\<close>

  \<^item> Fencing (\<open>TC_Fencing\<close>, \<open>TC_Runs\<close>, \<open>TC_Withdraw\<close>; C1 to C3): fences only grow, in memory and in the state
    file, a lease that was passed over never validates again, a request touches no live target it does
    not name, except that it gives back reservations of this process that it withdraws.
  \<^item> Durability and effects (\<open>TC_Durability\<close>, \<open>TC_Effects\<close>, \<open>TC_Replay\<close>; C4 to C6): a lease that was
    handed out is in the state file, every terminal effect was journalled before it happened, an
    operation that the file still records is not executed again.
  \<^item> Lifecycle and restart (\<open>TC_Lifecycle\<close>, \<open>TC_Restart\<close>, \<open>TC_Withdraw\<close>; C7, C8), records (\<open>TC_Records\<close>; C9):
    a retired target stays retired, a restart fences every owner of a live target, what a save compacts. \<open>TC_Records\<close> also
    shows that a saved state is a fixed point of saving, that payload hashes are injective up to collisions
    of the hash, that the journal is bounded, and the round trips of the payloads.
  \<^item> Expiring authorizations (\<open>RV2_ExpiryFacts\<close>, \<open>RV2_ExpiryOps\<close>, \<open>RV2_ExpiryRuns\<close>, \<open>RV2_ExpiryTimes\<close>;
    C10, C11): a connection is under a deadline armed for the expiry last reported for it, or being
    rechecked, until it is retired; an owner that was
    sealed or closed does nothing any more, and the broker is told to fail closed at most once.
  \<^item> Access tokens (\<open>RV2_TokenFacts\<close>, \<open>RV2_IssuerFacts\<close>; C12, C13, C26): a token that was issued is accepted
    until it expires, whatever keys are rotated and retired meanwhile, a removed key never comes
    back, and what is authorized is signed, current and matches its grant.
  \<^item> Whole runs (\<open>TC_Runs\<close>; C14, C15): the state file is valid after any sequence of calls, and an invalid
    one is never overwritten.
  \<^item> Exact targets (\<open>TC_Claims\<close>, \<open>TC_Reserve\<close>, \<open>TC_Withdraw\<close>; C16 to C21): a claim is used at most once,
    ordinary requests roll back the reservations they withdraw before their handlers run and fence the
    claims, a prepared reservation is durable, a rollback gives it back and touches nothing else, an
    observation grants no input.
  \<^item> Strict JSON (\<open>RV2_JsonFacts\<close>, \<open>RV2_JsonRoundTrip\<close>; C22 to C25): the parser ends on every input, its
    two modes agree, an accepted document is within the limits, canonical text is read back; and
    it determines the value.
  \<^item> Protocol and daemon (\<open>TC_ProtocolFacts\<close>, \<open>TC_Server\<close>; C27 to C31): an accepted request is well
    formed, requests and error responses survive the round trip, the daemon does nothing to the state
    that a sequence of well-formed requests does not do, and a framed request is answered.
  \<^item> Continuity (\<open>RV2_ContinuityFacts\<close>, \<open>RV2_SqliteOwner\<close>; C32 to C38): an accepted checkpoint is
    the one the authority held, the checkpoints of accepted callers never fork or go back (over an
    authority that keeps its contract), admission is bounded, an
    uncertain commit blocks further ones, the SQLite owner keeps the contract of the authority, the
    crash window is reconciled, and, with a database that responds, a rollback is detected.
  \<^item> Closing sockets (\<open>RV2_CloseFacts\<close>, \<open>RV2_CloseRuns\<close>; C39, C40): each socket is closed and destroyed at
    most once, and one that was fenced ends, is destroyed, or is under an armed deadline.

  The interfaces are locales: \<open>machine\<close> (a step function with an invariant and a preorder), the
  invariants of the authority's handlers (\<open>TC_Invariants\<close>, \<open>TC_ExactInv\<close>: one proof about all
  handlers, interpreted for each property), \<open>monotonic_cas_authority\<close> (what the anchor relies on,
  interpreted on the SQLite owner), and \<open>sealing\<close> (what cancelling and retiring rely on when a
  cancellation fails, interpreted on \<open>requestSeal\<close> and on the seal in progress). \<open>TC_Witnesses\<close>,
  \<open>TC_ExactWitnesses\<close>, \<open>RV2_ContinuityWitnesses\<close>, \<open>RV2_CloseWitnesses\<close>, \<open>RV2_ExpiryWitnesses\<close> and
  \<open>RV2_IssuerWitnesses\<close> apply the properties that have hypotheses to concrete runs.

  \<^bold>\<open>Conventions.\<close> A record models an object, a datatype an enumeration or tagged union; a method that
  reads and writes fields is a computation of the monad, a thrown error its \<open>Inl\<close> value. Objects
  are kept by value, and writing to an object found in a list updates the list. Strings are
  lists of characters below 256, except in the strict JSON and access token theories, where they are
  lists of UTF-16 code units. Counters are decimal strings, as in the code, compared by their value; 64-bit bounds are
  written out. An \<open>await\<close> inside the store lock is atomic with respect to other operations of
  the authority, since the lock serialises them; where the code runs outside the lock (exact
  targets), the parameter \<open>p_interference\<close> supplies what may happen meanwhile, and calls of the
  continuity anchor interleave as the events of \<open>queue_event\<close>.

  \<^bold>\<open>Parameters.\<close> \<open>platform\<close> stands for tmux, the clock, random ids, SHA-256, \<open>localeCompare\<close>, the disk
  (a save may fail before or after it reached the disk) and the store lock; \<open>json_parse\<close> of \<open>TC_Server\<close>
  for \<open>JSON.parse\<close>; \<open>cas_authority\<close> and \<open>publisher\<close> for the collaborators of the continuity anchor;
  \<open>database\<close> for SQLite; \<open>expiry_ports\<close> for the scheduler and the ports of the deadline owner; \<open>hmac\<close> for
  HMAC-SHA-256, of which C12 uses that it returns 32 bytes. No property assumes anything of them that their documentation does not
  say, and most assume nothing.

  \<^bold>\<open>Bounds and fuel.\<close> The strict parser is a recursion with fuel; \<open>parse_bound\<close> starts it with twice the
  length of the text plus one. Every second call consumes a character, so that this is
  enough: C22 shows that the parser never runs out. All other recursions are structural or have a
  termination proof.

  \<^bold>\<open>Not modelled.\<close> The backend of the daemon (it executes tmux), its clients, the lock files of
  \<open>store.ts\<close> (a protocol between processes about file names and process ids, represented by the
  parameter \<open>p_acquireLock\<close>), the set-up of the server process, the opening of the SQLite database;
  of Relay v2 the broker core, its credential authority (the durable state of enrolments and grants) and the
  host; the command line, the bridges and the dashboard. Most of them are input and output; the
  broker core and the credential authority are state machines of several thousand lines, on top
  of the parts modelled here.
\<close>

end
